(* ===== verification/Mesh_Prelude.thy ===== *)
theory Mesh_Prelude
  imports Main "HOL-Library.List_Lexorder" "HOL-Library.Char_ord" "HOL-Library.Word"
begin

text \<open>
  The prelude of the development: the names of the model's types, the Go string functions the
  code calls (package strings), the SQL statements the storage layer issues, and the lemmas on
  them that the component theories share.

  A Go string and a Go byte slice are both a list of bytes, \<open>string\<close> here. The functions that
  classify characters (TrimSpace, Fields, ToLower, EqualFold) are those of Go on ASCII text; Go
  goes on to decode UTF-8 where it meets a byte of 128 or more, and there the model treats the
  byte as an ordinary character.
\<close>

type_synonym bytes = string

named_theorems store_simps \<open>how the store's statements act on its tables\<close>
named_theorems handler_defs \<open>the definitions of the request handlers\<close>
named_theorems frame_simps \<open>what an operation leaves as it was\<close>

section \<open>Package strings\<close>

definition has_prefix :: "string \<Rightarrow> string \<Rightarrow> bool" where
  "has_prefix p s = (take (length p) s = p)"

definition has_suffix :: "string \<Rightarrow> string \<Rightarrow> bool" where
  "has_suffix p s = (length p \<le> length s \<and> drop (length s - length p) s = p)"

definition trim_prefix :: "string \<Rightarrow> string \<Rightarrow> string" where
  "trim_prefix p s = (if has_prefix p s then drop (length p) s else s)"

definition trim_suffix :: "string \<Rightarrow> string \<Rightarrow> string" where
  "trim_suffix p s = (if has_suffix p s then take (length s - length p) s else s)"

definition is_space :: "char \<Rightarrow> bool" where
  "is_space c = (c \<in> {CHR 0x09, CHR 0x0A, CHR 0x0B, CHR 0x0C, CHR 0x0D, CHR 0x20})"

definition trim_space :: "string \<Rightarrow> string" where
  "trim_space s = rev (dropWhile is_space (rev (dropWhile is_space s)))"

fun split_on :: "(char \<Rightarrow> bool) \<Rightarrow> string \<Rightarrow> string list" where
  "split_on p [] = [[]]"
| "split_on p (x # xs) =
     (if p x then [] # split_on p xs
      else (case split_on p xs of [] \<Rightarrow> [[x]] | w # ws \<Rightarrow> (x # w) # ws))"

definition split_char :: "char \<Rightarrow> string \<Rightarrow> string list" where
  "split_char c s = split_on (\<lambda>x. x = c) s"

definition str_fields :: "string \<Rightarrow> string list" where
  "str_fields s = filter (\<lambda>w. w \<noteq> []) (split_on is_space s)"

fun split_once :: "string \<Rightarrow> string \<Rightarrow> (string \<times> string) option" where
  "split_once sep [] = (if sep = [] then Some ([], []) else None)"
| "split_once sep (x # xs) =
     (if has_prefix sep (x # xs) then Some ([], drop (length sep) (x # xs))
      else map_option (\<lambda>(a, b). (x # a, b)) (split_once sep xs))"

fun join_with :: "string \<Rightarrow> string list \<Rightarrow> string" where
  "join_with sep [] = []"
| "join_with sep [w] = w"
| "join_with sep (w # ws) = w @ sep @ join_with sep ws"

definition char_code :: "char \<Rightarrow> nat" where
  "char_code c = of_char c"

definition lower_char :: "char \<Rightarrow> char" where
  "lower_char c =
     (if 65 \<le> char_code c \<and> char_code c \<le> 90 then char_of (char_code c + 32) else c)"

definition upper_char :: "char \<Rightarrow> char" where
  "upper_char c =
     (if 97 \<le> char_code c \<and> char_code c \<le> 122 then char_of (char_code c - 32) else c)"

definition to_lower :: "string \<Rightarrow> string" where
  "to_lower s = map lower_char s"

definition to_upper :: "string \<Rightarrow> string" where
  "to_upper s = map upper_char s"

definition equal_fold :: "string \<Rightarrow> string \<Rightarrow> bool" where
  "equal_fold a b = (to_lower a = to_lower b)"

lemma has_prefix_append [simp]: "has_prefix p (p @ s)"
  by (simp add: has_prefix_def)

lemma has_prefix_iff: "has_prefix p s \<longleftrightarrow> (\<exists>t. s = p @ t)"
  by (metis append_take_drop_id has_prefix_append has_prefix_def)

lemma split_on_not_Nil [simp]: "split_on p s \<noteq> []"
  by (cases s) (auto split: list.splits)

lemma split_char_not_Nil [simp]: "split_char c s \<noteq> []"
  by (simp add: split_char_def)

lemma split_on_parts: "w \<in> set (split_on p s) \<Longrightarrow> x \<in> set w \<Longrightarrow> x \<in> set s \<and> \<not> p x"
proof (induction s arbitrary: w)
  case Nil
  then show ?case by simp
next
  case (Cons a s)
  obtain v vs where "split_on p s = v # vs" by (meson list.exhaust split_on_not_Nil)
  then show ?case using Cons.IH [of v] Cons.IH [of w] Cons.prems by (auto split: if_splits)
qed

lemma split_on_none: "\<forall>x\<in>set s. \<not> p x \<Longrightarrow> split_on p s = [s]"
  by (induction s) auto

lemma split_on_append:
  "\<forall>x\<in>set a. \<not> p x \<Longrightarrow> p c \<Longrightarrow> split_on p (a @ c # s) = a # split_on p s"
  by (induction a) auto

lemma join_split: "join_with [c] (split_char c s) = s"
proof (induction s)
  case Nil
  then show ?case by (simp add: split_char_def)
next
  case (Cons x xs)
  obtain w ws where ws: "split_char c xs = w # ws"
    by (meson list.exhaust split_char_not_Nil)
  then show ?case
    using Cons by (cases ws) (auto simp: split_char_def)
qed

lemma split_join:
  "ws \<noteq> [] \<Longrightarrow> \<forall>w\<in>set ws. c \<notin> set w \<Longrightarrow> split_char c (join_with [c] ws) = ws"
proof (induction ws)
  case Nil
  then show ?case by simp
next
  case (Cons w ws)
  have w: "\<forall>x\<in>set w. \<not> x = c" using Cons.prems by auto
  show ?case
  proof (cases ws)
    case Nil
    then show ?thesis by (simp add: split_char_def split_on_none [OF w])
  next
    case (Cons v vs)
    with Cons.IH Cons.prems have "split_char c (join_with [c] ws) = ws" by simp
    then show ?thesis
      using Cons split_on_append [of w "\<lambda>x. x = c" c] w by (simp add: split_char_def)
  qed
qed

lemma dropWhile_idem_hd: "dropWhile p s = [] \<or> \<not> p (hd (dropWhile p s))"
  using hd_dropWhile by blast

lemma trim_space_trimmed:
  assumes "s \<noteq> []" and "\<not> is_space (hd s)" and "\<not> is_space (last s)"
  shows "trim_space s = s"
proof -
  have "dropWhile is_space s = s" using assms by (simp add: dropWhile_eq_self_iff)
  moreover have "dropWhile is_space (rev s) = rev s"
    using assms by (simp add: dropWhile_eq_self_iff hd_rev)
  ultimately show ?thesis by (simp add: trim_space_def)
qed

lemma trim_space_cases:
  "trim_space s = [] \<or> \<not> is_space (hd (trim_space s)) \<and> \<not> is_space (last (trim_space s))"
proof (cases "trim_space s = []")
  case False
  let ?u = "dropWhile is_space s"
  let ?v = "dropWhile is_space (rev ?u)"
  have v: "?v \<noteq> []" using False by (simp add: trim_space_def)
  have last_ok: "\<not> is_space (last (trim_space s))"
    using v hd_dropWhile [of is_space "rev ?u"] by (simp add: trim_space_def last_rev)
  have u: "?u \<noteq> []" using v by (metis dropWhile.simps(1) rev.simps(1))
  obtain pre where pre: "rev ?u = pre @ ?v"
    by (metis takeWhile_dropWhile_id)
  then have "last (rev ?u) = last ?v" using v by (metis last_appendR)
  then have "hd (trim_space s) = hd ?u" using u by (simp add: trim_space_def hd_rev last_rev)
  then have "\<not> is_space (hd (trim_space s))" using u hd_dropWhile by metis
  then show ?thesis using last_ok by simp
qed simp

lemma trim_space_idem [simp]: "trim_space (trim_space s) = trim_space s"
proof (cases "trim_space s = []")
  case True
  have "trim_space [] = []" by (simp add: trim_space_def)
  then show ?thesis by (simp only: True)
next
  case False
  then show ?thesis using trim_space_cases [of s] trim_space_trimmed [of "trim_space s"] by blast
qed

lemma equal_fold_refl [simp]: "equal_fold s s"
  by (simp add: equal_fold_def)

section \<open>Decimal numbers\<close>

definition is_digit :: "char \<Rightarrow> bool" where
  "is_digit c = (48 \<le> char_code c \<and> char_code c \<le> 57)"

definition digit_val :: "char \<Rightarrow> nat" where
  "digit_val c = char_code c - 48"

definition digit_char :: "nat \<Rightarrow> char" where
  "digit_char n = char_of (48 + n)"

definition digits_val :: "string \<Rightarrow> nat" where
  "digits_val s = foldl (\<lambda>n c. 10 * n + digit_val c) 0 s"

fun pad_digits :: "nat \<Rightarrow> nat \<Rightarrow> string" where
  "pad_digits 0 n = []"
| "pad_digits (Suc k) n = pad_digits k (n div 10) @ [digit_char (n mod 10)]"

fun dec_digits :: "nat \<Rightarrow> string" where
  "dec_digits n = (if n < 10 then [digit_char n] else dec_digits (n div 10) @ [digit_char (n mod 10)])"

declare dec_digits.simps [simp del]

lemma char_code_digit_char [simp]: "n < 10 \<Longrightarrow> char_code (digit_char n) = 48 + n"
  by (simp add: char_code_def digit_char_def)

lemma digit_char_facts [simp]:
  "n < 10 \<Longrightarrow> is_digit (digit_char n)" "n < 10 \<Longrightarrow> digit_val (digit_char n) = n"
  by (simp_all add: is_digit_def digit_val_def)

lemma digits_val_snoc [simp]: "digits_val (s @ [c]) = 10 * digits_val s + digit_val c"
  by (simp add: digits_val_def)

lemma digits_val_Nil [simp]: "digits_val [] = 0"
  by (simp add: digits_val_def)

lemma length_pad_digits [simp]: "length (pad_digits k n) = k"
  by (induction k arbitrary: n) auto

lemma pad_digits_is_digit: "c \<in> set (pad_digits k n) \<Longrightarrow> is_digit c"
  by (induction k arbitrary: n) auto

lemma digits_val_pad: "digits_val (pad_digits k n) = n mod 10 ^ k"
proof (induction k arbitrary: n)
  case 0
  then show ?case by simp
next
  case (Suc k)
  have "n mod 10 ^ Suc k = 10 * (n div 10 mod 10 ^ k) + n mod 10"
    by (simp add: mod_mult2_eq)
  then show ?case using Suc by simp
qed

lemma digits_val_pad_small [simp]: "n < 10 ^ k \<Longrightarrow> digits_val (pad_digits k n) = n"
  by (simp add: digits_val_pad)

lemma digits_val_append_zeros:
  "digits_val (s @ replicate k (digit_char 0)) = digits_val s * 10 ^ k"
proof (induction k)
  case (Suc k)
  have "s @ replicate (Suc k) (digit_char 0) = (s @ replicate k (digit_char 0)) @ [digit_char 0]"
    by (metis append_assoc replicate_Suc replicate_append_same)
  then have "digits_val (s @ replicate (Suc k) (digit_char 0))
      = 10 * digits_val (s @ replicate k (digit_char 0)) + digit_val (digit_char 0)"
    by (metis digits_val_snoc)
  then show ?case using Suc by simp
qed simp

lemma dec_digits_val [simp]: "digits_val (dec_digits n) = n"
proof (induction n rule: dec_digits.induct)
  case (1 n)
  show ?case
  proof (cases "n < 10")
    case True
    then show ?thesis by (simp add: dec_digits.simps [of n] digits_val_def)
  next
    case False
    then have "digits_val (dec_digits n) = 10 * (n div 10) + n mod 10"
      using 1 by (simp add: dec_digits.simps [of n])
    then show ?thesis by simp
  qed
qed

lemma dec_digits_is_digit: "c \<in> set (dec_digits n) \<Longrightarrow> is_digit c"
proof (induction n rule: dec_digits.induct)
  case (1 n)
  then show ?case
    by (cases "n < 10") (auto simp: dec_digits.simps [of n])
qed

lemma dec_digits_not_Nil [simp]: "dec_digits n \<noteq> []"
  by (subst dec_digits.simps) simp

text \<open>
  strconv.ParseInt (s, 10, 64): an optional sign, then at least one digit and nothing else; a
  value outside the 64-bit range is an error.
\<close>

definition parse_int64 :: "string \<Rightarrow> int option" where
  "parse_int64 s =
     (let neg = (s \<noteq> [] \<and> hd s = CHR ''-'');
          ds = (if s \<noteq> [] \<and> (hd s = CHR ''-'' \<or> hd s = CHR ''+'') then tl s else s);
          n = int (digits_val ds); v = (if neg then - n else n)
      in if ds = [] \<or> \<not> list_all is_digit ds then None
         else if v < - (2 ^ 63) \<or> 2 ^ 63 \<le> v then None else Some v)"

lemma is_digit_not_sign: "is_digit c \<Longrightarrow> c \<noteq> CHR ''-'' \<and> c \<noteq> CHR ''+''"
  by (auto simp: is_digit_def char_code_def)

lemma parse_int64_dec [simp]:
  assumes "n < 2 ^ 63"
  shows "parse_int64 (dec_digits n) = Some (int n)"
proof -
  have "is_digit (hd (dec_digits n))"
    by (rule dec_digits_is_digit [of _ n]) simp
  then have "hd (dec_digits n) \<noteq> CHR ''-'' \<and> hd (dec_digits n) \<noteq> CHR ''+''"
    by (rule is_digit_not_sign)
  moreover have "list_all is_digit (dec_digits n)"
    by (simp add: list_all_iff dec_digits_is_digit)
  moreover have "int n < 2 ^ 63"
    using assms by (metis of_nat_less_iff of_nat_numeral of_nat_power)
  ultimately show ?thesis by (simp add: parse_int64_def Let_def)
qed

text \<open>The value an int64 computation leaves: the integer reduced to the signed 64-bit range.\<close>

definition wrap64 :: "int \<Rightarrow> int" where
  "wrap64 x = sint (word_of_int x :: 64 word)"

lemma wrap64_eq: "wrap64 x = (x + 2 ^ 63) mod 2 ^ 64 - 2 ^ 63"
  by (simp add: wrap64_def sint_sbintrunc' signed_take_bit_eq_take_bit_shift take_bit_eq_mod)

lemma wrap64_id [simp]:
  assumes "- (2 ^ 63) \<le> x" and "x < 2 ^ 63"
  shows "wrap64 x = x"
proof -
  have "(x + 2 ^ 63) mod 2 ^ 64 = x + 2 ^ 63" using assms by (intro mod_pos_pos_trivial) simp_all
  then show ?thesis by (simp add: wrap64_eq)
qed

lemma wrap64_range: "- (2 ^ 63) \<le> wrap64 x \<and> wrap64 x < 2 ^ 63"
proof -
  have "0 \<le> (x + 2 ^ 63) mod 2 ^ 64" "(x + 2 ^ 63) mod 2 ^ 64 < 2 ^ 64" by simp_all
  then show ?thesis unfolding wrap64_eq by simp
qed

section \<open>SQL statements on a table\<close>

text \<open>
  A table is the list of its rows in rowid order (the store never deletes from the tables whose
  rowid it exposes). A SELECT by key is \<open>lookup_by\<close>, an UPDATE with a WHERE clause is
  \<open>update_where\<close>, RowsAffected is \<open>rows_matching\<close>, an INSERT appends.
\<close>

definition lookup_by :: "('r \<Rightarrow> 'k) \<Rightarrow> 'k \<Rightarrow> 'r list \<Rightarrow> 'r option" where
  "lookup_by key k rs = find (\<lambda>r. key r = k) rs"

definition update_where :: "('r \<Rightarrow> bool) \<Rightarrow> ('r \<Rightarrow> 'r) \<Rightarrow> 'r list \<Rightarrow> 'r list" where
  "update_where p f rs = map (\<lambda>r. if p r then f r else r) rs"

definition rows_matching :: "('r \<Rightarrow> bool) \<Rightarrow> 'r list \<Rightarrow> nat" where
  "rows_matching p rs = length (filter p rs)"

definition coalesce :: "'a \<Rightarrow> 'a option \<Rightarrow> 'a" where
  "coalesce d v = (case v of None \<Rightarrow> d | Some x \<Rightarrow> x)"

lemma coalesce_simps [simp]: "coalesce d None = d" "coalesce d (Some x) = x"
  by (simp_all add: coalesce_def)

lemma lookup_by_Nil [simp]: "lookup_by key k [] = None"
  by (simp add: lookup_by_def)

lemma lookup_by_Cons [simp]:
  "lookup_by key k (r # rs) = (if key r = k then Some r else lookup_by key k rs)"
  by (simp add: lookup_by_def)

lemma lookup_by_SomeD: "lookup_by key k rs = Some r \<Longrightarrow> r \<in> set rs \<and> key r = k"
  by (induction rs) (auto split: if_splits)

lemma lookup_by_None_iff: "lookup_by key k rs = None \<longleftrightarrow> k \<notin> key ` set rs"
  by (induction rs) auto

lemma lookup_by_filter_other:
  "(\<And>r. r \<in> set rs \<Longrightarrow> key r = k \<Longrightarrow> p r) \<Longrightarrow> lookup_by key k (filter p rs) = lookup_by key k rs"
  by (induction rs) auto

lemma lookup_by_filter_none:
  "(\<And>r. r \<in> set rs \<Longrightarrow> key r = k \<Longrightarrow> \<not> p r) \<Longrightarrow> lookup_by key k (filter p rs) = None"
  by (induction rs) auto

lemma lookup_by_append:
  "lookup_by key k (rs @ ss) =
     (case lookup_by key k rs of None \<Rightarrow> lookup_by key k ss | Some r \<Rightarrow> Some r)"
  by (induction rs) auto

lemma lookup_by_unique:
  "distinct (map key rs) \<Longrightarrow> r \<in> set rs \<Longrightarrow> lookup_by key (key r) rs = Some r"
  by (induction rs) (auto simp: image_iff)

lemma update_where_simps [simp]:
  "update_where p f [] = []"
  "update_where p f (r # rs) = (if p r then f r else r) # update_where p f rs"
  "update_where p f (rs @ ss) = update_where p f rs @ update_where p f ss"
  "length (update_where p f rs) = length rs"
  by (simp_all add: update_where_def)

lemma update_where_keys [simp]:
  "(\<And>r. key (f r) = key r) \<Longrightarrow> map key (update_where p f rs) = map key rs"
  by (simp add: update_where_def)

lemma lookup_update_where:
  assumes "\<And>r. key (f r) = key r"
  shows "lookup_by key k (update_where p f rs) =
         map_option (\<lambda>r. if p r then f r else r) (lookup_by key k rs)"
  using assms by (induction rs) auto

lemma update_where_none: "(\<forall>r\<in>set rs. \<not> p r) \<Longrightarrow> update_where p f rs = rs"
  by (induction rs) auto

lemma rows_matching_zero: "rows_matching p rs = 0 \<longleftrightarrow> (\<forall>r\<in>set rs. \<not> p r)"
  by (auto simp: rows_matching_def filter_empty_conv)

lemma rows_matching_pos: "0 < rows_matching p rs \<longleftrightarrow> (\<exists>r\<in>set rs. p r)"
  using rows_matching_zero [of p rs] by auto

section \<open>Fallible results\<close>

definition sum_map :: "('a \<Rightarrow> 'b) \<Rightarrow> 'e + 'a \<Rightarrow> 'e + 'b" where
  "sum_map f r = (case r of Inl e \<Rightarrow> Inl e | Inr x \<Rightarrow> Inr (f x))"

lemma sum_map_simps [simp]: "sum_map f (Inl e) = Inl e" "sum_map f (Inr x) = Inr (f x)"
  by (simp_all add: sum_map_def)

lemma sum_map_Inr_iff: "sum_map f r = Inr y \<longleftrightarrow> (\<exists>x. r = Inr x \<and> y = f x)"
  by (cases r) auto

end
