(* ===== verification/Go_Time.thy ===== *)
theory Go_Time
  imports Mesh_Prelude
begin

text \<open>
  Instants and their text form. An instant is the number of nanoseconds since
  0001-01-01T00:00:00Z, so that Go's zero time.Time is 0. \<open>fmt_time\<close> is
  t.UTC().Format(time.RFC3339Nano), the form every timestamp column and every minted time caveat
  has; \<open>parse_timestamp\<close> is parseTimestamp of caveats.go, which is time.Parse with the layouts
  RFC3339Nano and RFC3339 (both accept the same text, a fraction being allowed after the
  seconds of either). The calendar is the proleptic Gregorian one of package time. The round
  trip is claimed for the years 0 to 9999, which the layout can hold; years before 0 (an instant of the year
  0 shifted by a zone offset) are outside the model. Text that deviates from RFC 3339 is rejected; Go accepts a few such
  spellings (a comma before the fraction, a one-digit hour), which no caller relies on.
\<close>

type_synonym time = int

definition second :: time where "second = 1000000000"
definition minute :: time where "minute = 60 * second"
definition hour :: time where "hour = 60 * minute"
definition day :: time where "day = 24 * hour"

lemmas durations = second_def minute_def hour_def day_def

definition leap :: "nat \<Rightarrow> bool" where
  "leap y = (y mod 4 = 0 \<and> (y mod 100 \<noteq> 0 \<or> y mod 400 = 0))"

definition days_in_year :: "nat \<Rightarrow> nat" where
  "days_in_year y = (if leap y then 366 else 365)"

definition month_lengths :: "nat \<Rightarrow> nat list" where
  "month_lengths y = [31, if leap y then 29 else 28, 31, 30, 31, 30, 31, 31, 30, 31, 30, 31]"

text \<open>The year a day falls in, counting on from the first day of year \<open>y\<close>.\<close>

function find_year :: "nat \<Rightarrow> nat \<Rightarrow> nat \<times> nat" where
  "find_year y d =
     (if d < days_in_year y then (y, d) else find_year (Suc y) (d - days_in_year y))"
  by pat_completeness auto
termination
  by (relation "measure snd") (auto simp: days_in_year_def)

declare find_year.simps [simp del]

fun find_month :: "nat \<Rightarrow> nat list \<Rightarrow> nat \<Rightarrow> nat \<times> nat" where
  "find_month m [] d = (m, d)"
| "find_month m (l # ls) d = (if d < l then (m, d) else find_month (Suc m) ls (d - l))"

text \<open>The days before the year \<open>k + 1\<close>, counted from the year 1.\<close>

definition year_start :: "nat \<Rightarrow> nat" where
  "year_start k = 365 * k + (k div 4 - k div 100) + k div 400"

lemma year_start_step:
  assumes "(c::nat) \<le> q" and "l100 \<Longrightarrow> l4" and "l400 \<Longrightarrow> l100"
  shows "365 * Suc k + ((if l4 then Suc q else q) - (if l100 then Suc c else c))
           + (if l400 then Suc f else f)
         = 365 * k + (q - c) + f + (if l4 \<and> (\<not> l100 \<or> l400) then 366 else 365)"
  using assms by (cases l4; cases l100; cases l400) simp_all

lemma year_start_Suc: "year_start (Suc k) = year_start k + days_in_year (Suc k)"
proof -
  have d: "400 dvd n \<Longrightarrow> 100 dvd n" "100 dvd n \<Longrightarrow> 4 dvd n" for n :: nat
    by (rule dvd_trans [rotated], assumption, simp)+
  have "k div 100 \<le> k div 4" by (simp add: div_le_mono2)
  from year_start_step [OF this, of "100 dvd Suc k" "4 dvd Suc k" "400 dvd Suc k" k "k div 400"] d
  show ?thesis
    by (simp only: year_start_def days_in_year_def leap_def div_Suc mod_eq_0_iff_dvd)
qed

lemma year_start_mono: "k \<le> l \<Longrightarrow> year_start k \<le> year_start l"
  by (rule lift_Suc_mono_le [of year_start]) (simp_all add: year_start_Suc)

lemma find_year_spec:
  "find_year (Suc k) d = (y', r) \<Longrightarrow>
     \<exists>k'. y' = Suc k' \<and> k \<le> k' \<and> r < days_in_year y' \<and> year_start k' + r = year_start k + d"
proof (induction "Suc k" d arbitrary: k y' r rule: find_year.induct)
  case (1 d)
  show ?case
  proof (cases "d < days_in_year (Suc k)")
    case True
    then show ?thesis using "1.prems" by (auto simp: find_year.simps [of "Suc k" d])
  next
    case False
    then have "find_year (Suc (Suc k)) (d - days_in_year (Suc k)) = (y', r)"
      using "1.prems" by (simp add: find_year.simps [of "Suc k" d])
    from "1.hyps" [OF False this] obtain k' where
      "y' = Suc k'" "Suc k \<le> k'" "r < days_in_year y'"
      "year_start k' + r = year_start (Suc k) + (d - days_in_year (Suc k))" by auto
    then show ?thesis using False by (auto simp: year_start_Suc)
  qed
qed

lemma find_month_spec:
  "d < sum_list ls \<Longrightarrow> find_month m ls d = (m', r) \<Longrightarrow>
     m \<le> m' \<and> m' - m < length ls \<and> r < ls ! (m' - m) \<and> sum_list (take (m' - m) ls) + r = d"
proof (induction ls arbitrary: m d m' r)
  case Nil
  then show ?case by simp
next
  case (Cons l ls)
  show ?case
  proof (cases "d < l")
    case True
    then show ?thesis using Cons.prems by auto
  next
    case False
    then have IH: "Suc m \<le> m'" "m' - Suc m < length ls" "r < ls ! (m' - Suc m)"
        "sum_list (take (m' - Suc m) ls) + r = d - l"
      using Cons.IH [of "d - l" "Suc m" m' r] Cons.prems by auto
    then have "m' - m = Suc (m' - Suc m)" by simp
    then show ?thesis using IH False by simp
  qed
qed

lemma sum_month_lengths: "sum_list (month_lengths y) = days_in_year y"
  by (simp add: month_lengths_def days_in_year_def)

lemma length_month_lengths: "length (month_lengths y) = 12"
  by (simp add: month_lengths_def)

lemma leap_era: "leap (400 * e + y) = leap y"
proof -
  have "400 * e + y = y + 4 * (100 * e)" "400 * e + y = y + 100 * (4 * e)" by simp_all
  then have "(400 * e + y) mod 4 = y mod 4" "(400 * e + y) mod 100 = y mod 100"
    "(400 * e + y) mod 400 = y mod 400"
    by (metis mod_mult_self2) (metis \<open>400 * e + y = y + 100 * (4 * e)\<close> mod_mult_self2, simp)
  then show ?thesis by (simp add: leap_def)
qed

section \<open>Calendar fields\<close>

record civil =
  c_year :: nat
  c_month :: nat
  c_day :: nat
  c_hour :: nat
  c_min :: nat
  c_sec :: nat
  c_nsec :: nat

text \<open>
  The day number is split into 400-year eras, counted from the year -399 on so that the year 0
  has one too; within an era the calendar repeats.
\<close>

definition era_days :: nat where "era_days = 146097"

definition civil_of :: "time \<Rightarrow> civil" where
  "civil_of t =
     (let n = nat (t + int era_days * day);
          ns = n mod 1000000000; secs = n div 1000000000;
          days = secs div 86400; sod = secs mod 86400;
          era = days div era_days; (y, doy) = find_year (Suc 0) (days mod era_days);
          (m, d) = find_month 1 (month_lengths y) doy
      in \<lparr>c_year = 400 * era + y - 400, c_month = m, c_day = d + 1,
          c_hour = sod div 3600, c_min = sod mod 3600 div 60, c_sec = sod mod 60,
          c_nsec = ns\<rparr>)"

definition days_of_date :: "nat \<Rightarrow> nat \<Rightarrow> nat \<Rightarrow> nat" where
  "days_of_date y m d =
     (let y' = y + 399; era = y' div 400; yoe = y' mod 400
      in era * era_days + year_start yoe
         + sum_list (take (m - 1) (month_lengths (yoe + 1))) + (d - 1))"

definition time_of :: "civil \<Rightarrow> time" where
  "time_of c =
     int ((days_of_date (c_year c) (c_month c) (c_day c) * 86400
           + c_hour c * 3600 + c_min c * 60 + c_sec c) * 1000000000 + c_nsec c)
     - int era_days * day"

text \<open>The instants of the years 0 to 9999.\<close>

definition in_range :: "time \<Rightarrow> bool" where
  "in_range t = (- 366 * day \<le> t \<and> t < 3652059 * day)"

lemma era_year:
  assumes "find_year (Suc 0) (x mod era_days) = (y, r)"
  obtains k where "y = Suc k" "k < 400" "r < days_in_year y" "year_start k + r = x mod era_days"
proof -
  obtain k where k: "y = Suc k" "r < days_in_year y" "year_start k + r = x mod era_days"
    using find_year_spec [OF assms] by (auto simp: year_start_def)
  have "x mod era_days < 146097" by (simp add: era_days_def)
  then have "year_start k < year_start 400"
    using k by (simp add: year_start_def [of 400])
  then have "k < 400" using year_start_mono [of 400 k] by linarith
  then show thesis using that k by blast
qed

lemma clock_split: "(s::nat) div 3600 * 3600 + s mod 3600 div 60 * 60 + s mod 60 = s"
proof -
  have "s mod 60 = s mod 3600 mod 60" by (simp add: mod_mod_cancel)
  then have "s mod 3600 div 60 * 60 + s mod 60 = s mod 3600" by simp
  then show ?thesis by (metis add.assoc div_mult_mod_eq)
qed

lemma days_of_date_inverse:
  assumes "find_year (Suc 0) (x mod era_days) = (y, r)"
    and "find_month 1 (month_lengths y) r = (m, d)"
    and "400 \<le> 400 * (x div era_days) + y"
  shows "days_of_date (400 * (x div era_days) + y - 400) m (d + 1) = x"
proof -
  obtain k where k: "y = Suc k" "k < 400" "r < days_in_year y" "year_start k + r = x mod era_days"
    using era_year [OF assms(1)] by blast
  have fm: "sum_list (take (m - 1) (month_lengths y)) + d = r"
    using find_month_spec [of r "month_lengths y" 1 m d] k assms(2)
    by (simp add: sum_month_lengths)
  have y': "400 * (x div era_days) + y - 400 + 399 = 400 * (x div era_days) + k"
    using assms(3) k by linarith
  have "(400 * (x div era_days) + k) div 400 = x div era_days"
    "(400 * (x div era_days) + k) mod 400 = k"
    using k by auto
  then have "days_of_date (400 * (x div era_days) + y - 400) m (d + 1)
      = x div era_days * era_days + (year_start k + r)"
    using fm k(1) unfolding days_of_date_def Let_def y' by simp
  then show ?thesis using k(4) by simp
qed

text \<open>How an instant of the range splits into its day, the second of the day and the rest.\<close>

lemma civil_of_split:
  assumes "in_range t"
  obtains x k r m d sod ns where
    "civil_of t = \<lparr>c_year = 400 * (x div era_days) + Suc k - 400, c_month = m, c_day = d + 1,
        c_hour = sod div 3600, c_min = sod mod 3600 div 60, c_sec = sod mod 60, c_nsec = ns\<rparr>"
    "int ((x * 86400 + sod) * 1000000000 + ns) = t + int era_days * day"
    "find_year (Suc 0) (x mod era_days) = (Suc k, r)"
    "find_month 1 (month_lengths (Suc k)) r = (m, d)"
    "r < days_in_year (Suc k)" "year_start k + r = x mod era_days" "k < 400"
    "400 \<le> 400 * (x div era_days) + Suc k" "400 * (x div era_days) + Suc k \<le> 10399"
    "sod < 86400" "ns < 1000000000"
proof -
  define n where "n = nat (t + int era_days * day)"
  have n: "int n = t + int era_days * day"
    using assms by (simp add: n_def in_range_def era_days_def durations)
  define secs where "secs = n div 1000000000"
  define x where "x = secs div 86400"
  define sod where "sod = secs mod 86400"
  obtain y r where yr: "find_year (Suc 0) (x mod era_days) = (y, r)" by fastforce
  obtain m d where md: "find_month 1 (month_lengths y) r = (m, d)" by fastforce
  have "int n \<ge> 145731 * 86400 * 1000000000" "int n < 3798156 * 86400 * 1000000000"
    using assms by (simp_all add: n in_range_def era_days_def durations)
  then have "145731 * 86400 * 1000000000 \<le> n" "n < 3798156 * 86400 * 1000000000"
    by linarith+
  then have x_ge: "145731 \<le> x" and x_lt: "x < 3798156"
    by (simp_all add: x_def secs_def less_mult_imp_div_less)
  obtain k where k: "y = Suc k" "k < 400" "r < days_in_year y" "year_start k + r = x mod era_days"
    using era_year [OF yr] by blast
  have x_split: "x = x div era_days * era_days + (year_start k + r)"
    unfolding k(4) by simp
  have ge: "400 \<le> 400 * (x div era_days) + Suc k"
  proof (cases "x div era_days = 0")
    case True
    then have "x mod era_days = x" by (metis add_0 div_mult_mod_eq mult_0)
    then have "year_start 399 < year_start (Suc k)"
      using k x_ge by (simp add: year_start_Suc year_start_def [of 399])
    then have "399 < Suc k" using year_start_mono [of "Suc k" 399] by linarith
    then show ?thesis by simp
  next
    case False
    then show ?thesis by simp
  qed
  have era: "x div era_days \<le> 25"
    using x_lt by (simp add: era_days_def less_mult_imp_div_less Suc_le_eq less_Suc_eq_le [symmetric])
  have le: "400 * (x div era_days) + Suc k \<le> 10399"
  proof (cases "x div era_days = 25")
    case True
    then have "year_start k < 145731" using x_split x_lt by (simp add: era_days_def)
    then have "year_start k < year_start 399" by (simp add: year_start_def [of 399])
    then have "\<not> 399 \<le> k" using year_start_mono [of 399 k] by linarith
    then show ?thesis using True by simp
  next
    case False
    then show ?thesis using era k(2) by simp
  qed
  have c: "civil_of t = \<lparr>c_year = 400 * (x div era_days) + Suc k - 400, c_month = m, c_day = d + 1,
        c_hour = sod div 3600, c_min = sod mod 3600 div 60, c_sec = sod mod 60,
        c_nsec = n mod 1000000000\<rparr>"
    using yr md k(1) by (simp add: civil_of_def Let_def n_def [symmetric] secs_def [symmetric]
        x_def [symmetric] sod_def [symmetric])
  have "(x * 86400 + sod) * 1000000000 + n mod 1000000000 = n"
    by (simp add: x_def sod_def secs_def)
  then have i: "int ((x * 86400 + sod) * 1000000000 + n mod 1000000000) = t + int era_days * day"
    using n by simp
  show thesis
    by (rule that [OF c i yr [unfolded k(1)] md [unfolded k(1)] k(3) [unfolded k(1)] k(4) k(2) ge le])
      (simp_all add: sod_def)
qed

lemma time_of_civil_of:
  assumes "in_range t"
  shows "time_of (civil_of t) = t"
  using assms
proof (rule civil_of_split)
  fix x k r m d sod ns
  assume c: "civil_of t = \<lparr>c_year = 400 * (x div era_days) + Suc k - 400, c_month = m,
        c_day = d + 1, c_hour = sod div 3600, c_min = sod mod 3600 div 60, c_sec = sod mod 60,
        c_nsec = ns\<rparr>"
    and i: "int ((x * 86400 + sod) * 1000000000 + ns) = t + int era_days * day"
    and yr: "find_year (Suc 0) (x mod era_days) = (Suc k, r)"
    and md: "find_month 1 (month_lengths (Suc k)) r = (m, d)"
    and ge: "400 \<le> 400 * (x div era_days) + Suc k"
  have "time_of (civil_of t) = int ((x * 86400 + (sod div 3600 * 3600
      + sod mod 3600 div 60 * 60 + sod mod 60)) * 1000000000 + ns) - int era_days * day"
    using days_of_date_inverse [OF yr md ge] by (simp add: time_of_def c add.assoc)
  then show ?thesis using i by (simp only: clock_split)
qed

text \<open>The fields of an instant of the range are those a timestamp may have.\<close>

definition civil_ok :: "civil \<Rightarrow> bool" where
  "civil_ok c =
     (c_year c \<le> 9999 \<and> 1 \<le> c_month c \<and> c_month c \<le> 12 \<and> 1 \<le> c_day c
      \<and> c_day c \<le> month_lengths (c_year c) ! (c_month c - 1)
      \<and> c_hour c \<le> 23 \<and> c_min c \<le> 59 \<and> c_sec c \<le> 59 \<and> c_nsec c < 1000000000)"

lemma civil_of_ok:
  assumes "in_range t"
  shows "civil_ok (civil_of t)"
  using assms
proof (rule civil_of_split)
  fix x k r m d sod ns
  assume c: "civil_of t = \<lparr>c_year = 400 * (x div era_days) + Suc k - 400, c_month = m,
        c_day = d + 1, c_hour = sod div 3600, c_min = sod mod 3600 div 60, c_sec = sod mod 60,
        c_nsec = ns\<rparr>"
    and md: "find_month 1 (month_lengths (Suc k)) r = (m, d)" and r: "r < days_in_year (Suc k)"
    and ge: "400 \<le> 400 * (x div era_days) + Suc k" "400 * (x div era_days) + Suc k \<le> 10399"
    and sod: "sod < 86400" and ns: "ns < 1000000000"
  have fm: "1 \<le> m" "m - 1 < 12" "d < month_lengths (Suc k) ! (m - 1)"
    using find_month_spec [OF _ md] r by (auto simp: sum_month_lengths length_month_lengths)
  have "month_lengths (400 * (x div era_days) + Suc k - 400) = month_lengths (Suc k)"
  proof (cases "x div era_days")
    case 0
    then have "k \<ge> 399" using ge by simp
    then show ?thesis
      using 0 \<open>400 \<le> 400 * (x div era_days) + Suc k\<close> leap_era [of 1 "Suc k - 400"]
      by (simp add: month_lengths_def)
  next
    case (Suc e)
    then have "400 * (x div era_days) + Suc k - 400 = 400 * e + Suc k" by simp
    then show ?thesis by (simp only: month_lengths_def leap_era)
  qed
  moreover have "sod div 3600 \<le> 23" "sod mod 3600 div 60 \<le> 59"
    using less_mult_imp_div_less [of sod 24 3600] less_mult_imp_div_less [of "sod mod 3600" 60 60]
      sod by simp_all
  moreover have "sod mod 60 \<le> 59" using mod_less_divisor [of 60 sod] by linarith
  moreover have "400 * (x div era_days) + Suc k - 400 \<le> 9999" "m \<le> 12" "d + 1 \<le> Suc d"
    using ge fm by linarith+
  ultimately show ?thesis using fm ns by (simp add: civil_ok_def c)
qed

section \<open>Text\<close>

definition frac_digits :: "nat \<Rightarrow> string" where
  "frac_digits ns = rev (dropWhile (\<lambda>c. c = CHR ''0'') (rev (pad_digits 9 ns)))"

definition year_text :: "nat \<Rightarrow> string" where
  "year_text y = (if y \<le> 9999 then pad_digits 4 y else dec_digits y)"

definition fmt_civil :: "civil \<Rightarrow> string" where
  "fmt_civil c =
     year_text (c_year c) @ ''-'' @ pad_digits 2 (c_month c) @ ''-'' @ pad_digits 2 (c_day c)
     @ ''T'' @ pad_digits 2 (c_hour c) @ '':'' @ pad_digits 2 (c_min c) @ '':''
     @ pad_digits 2 (c_sec c)
     @ (if c_nsec c = 0 then [] else ''.'' @ frac_digits (c_nsec c)) @ ''Z''"

definition fmt_time :: "time \<Rightarrow> string" where
  "fmt_time t = fmt_civil (civil_of t)"

text \<open>The layout with nine fixed decimals that two handlers write.\<close>

definition fmt_time_fixed :: "time \<Rightarrow> string" where
  "fmt_time_fixed t =
     (let c = civil_of t
      in year_text (c_year c) @ ''-'' @ pad_digits 2 (c_month c) @ ''-'' @ pad_digits 2 (c_day c)
         @ ''T'' @ pad_digits 2 (c_hour c) @ '':'' @ pad_digits 2 (c_min c) @ '':''
         @ pad_digits 2 (c_sec c) @ ''.'' @ pad_digits 9 (c_nsec c) @ ''Z'')"

definition num_in :: "string \<Rightarrow> nat \<Rightarrow> nat \<Rightarrow> nat option" where
  "num_in s lo hi =
     (if list_all is_digit s \<and> lo \<le> digits_val s \<and> digits_val s \<le> hi
      then Some (digits_val s) else None)"

text \<open>The fraction (nanoseconds, further digits dropped) and the text after it.\<close>

definition parse_fraction :: "string \<Rightarrow> nat \<times> string" where
  "parse_fraction s =
     (if 2 \<le> length s \<and> hd s = CHR ''.'' \<and> is_digit (s ! 1)
      then let ds = take 9 (takeWhile is_digit (tl s))
           in (digits_val ds * 10 ^ (9 - length ds), dropWhile is_digit (tl s))
      else (0, s))"

text \<open>The offset of the zone in seconds.\<close>

definition parse_zone :: "string \<Rightarrow> int option" where
  "parse_zone s =
     (if s = ''Z'' then Some 0
      else if length s \<noteq> 6 then None
      else (case (num_in (take 2 (drop 1 s)) 0 23, num_in (take 2 (drop 4 s)) 0 59) of
          (Some hr, Some mm) \<Rightarrow>
            if (hd s = CHR ''-'' \<or> hd s = CHR ''+'') \<and> s ! 3 = CHR '':''
            then Some ((if hd s = CHR ''-'' then - 1 else 1) * int ((hr * 60 + mm) * 60))
            else None
        | _ \<Rightarrow> None))"

definition parse_date_time :: "string \<Rightarrow> civil option" where
  "parse_date_time s =
     (case (num_in (take 4 s) 0 9999, num_in (take 2 (drop 5 s)) 1 12) of
        (Some y, Some mo) \<Rightarrow>
          (case (num_in (take 2 (drop 8 s)) 1 (month_lengths y ! (mo - 1)),
                 num_in (take 2 (drop 11 s)) 0 23, num_in (take 2 (drop 14 s)) 0 59,
                 num_in (take 2 (drop 17 s)) 0 59) of
             (Some d, Some h, Some mi, Some se) \<Rightarrow>
               if s ! 4 = CHR ''-'' \<and> s ! 7 = CHR ''-'' \<and> s ! 10 = CHR ''T''
                  \<and> s ! 13 = CHR '':'' \<and> s ! 16 = CHR '':''
               then Some \<lparr>c_year = y, c_month = mo, c_day = d, c_hour = h, c_min = mi,
                          c_sec = se, c_nsec = 0\<rparr>
               else None
           | _ \<Rightarrow> None)
      | _ \<Rightarrow> None)"

definition parse_rfc3339 :: "string \<Rightarrow> time option" where
  "parse_rfc3339 s =
     (if length s < 19 then None
      else (case parse_date_time (take 19 s) of
          None \<Rightarrow> None
        | Some c \<Rightarrow>
            (let (ns, rest) = parse_fraction (drop 19 s)
             in (case parse_zone rest of
                  None \<Rightarrow> None
                | Some off \<Rightarrow> Some (time_of (c\<lparr>c_nsec := ns\<rparr>) - off * second)))))"

definition parse_timestamp :: "string \<Rightarrow> time option" where
  "parse_timestamp s = parse_rfc3339 (trim_space s)"

lemma digit_char_0: "digit_char 0 = CHR ''0''"
proof -
  have "char_of (of_char CHR ''0'' :: nat) = CHR ''0''" by (rule char_of_char)
  moreover have "of_char CHR ''0'' = (48 :: nat)" by simp
  ultimately show ?thesis by (simp only: digit_char_def add_0_right)
qed

lemma frac_digits_split:
  obtains k where "pad_digits 9 ns = frac_digits ns @ replicate k (digit_char 0)"
    "length (frac_digits ns) + k = 9"
proof -
  let ?z = "takeWhile (\<lambda>c. c = CHR ''0'') (rev (pad_digits 9 ns))"
  have "?z = replicate (length ?z) (digit_char 0)"
    unfolding digit_char_0 by (rule replicate_eqI) (auto dest: set_takeWhileD)
  then have z: "rev ?z = replicate (length ?z) (digit_char 0)"
    by (metis rev_replicate)
  have "rev (pad_digits 9 ns) = ?z @ rev (frac_digits ns)"
    by (simp add: frac_digits_def)
  then have p: "pad_digits 9 ns = frac_digits ns @ rev ?z"
    by (metis rev_append rev_rev_ident)
  then have l: "length (frac_digits ns) + length ?z = 9"
    by (metis length_append length_pad_digits length_rev)
  show thesis using that [of "length ?z"] p z l by simp
qed

lemma frac_digits_facts:
  assumes "ns < 1000000000"
  shows "digits_val (frac_digits ns) * 10 ^ (9 - length (frac_digits ns)) = ns"
    and "length (frac_digits ns) \<le> 9" and "\<forall>c\<in>set (frac_digits ns). is_digit c"
    and "0 < ns \<Longrightarrow> frac_digits ns \<noteq> []"
proof -
  obtain k where k: "pad_digits 9 ns = frac_digits ns @ replicate k (digit_char 0)"
    "length (frac_digits ns) + k = 9" by (rule frac_digits_split)
  have "digits_val (pad_digits 9 ns) = ns" using assms by (intro digits_val_pad_small) simp
  then have v: "digits_val (frac_digits ns) * 10 ^ k = ns"
    by (simp only: k(1) digits_val_append_zeros)
  have "9 - length (frac_digits ns) = k" using k(2) by simp
  then show "digits_val (frac_digits ns) * 10 ^ (9 - length (frac_digits ns)) = ns"
    using v by simp
  show "length (frac_digits ns) \<le> 9" using k(2) by simp
  show "\<forall>c\<in>set (frac_digits ns). is_digit c"
    using pad_digits_is_digit [of _ 9 ns] by (simp add: k(1))
  show "frac_digits ns \<noteq> []" if "0 < ns" using v that by auto
qed

lemma Z_not_digit: "\<not> is_digit CHR ''Z''"
  by (simp add: is_digit_def char_code_def)

lemma parse_fraction_fmt:
  assumes "ns < 1000000000"
  shows "parse_fraction ((if ns = 0 then [] else ''.'' @ frac_digits ns) @ ''Z'') = (ns, ''Z'')"
proof (cases "ns = 0")
  case False
  note f = frac_digits_facts [OF assms]
  obtain c cs where c: "frac_digits ns = c # cs" using f(4) False by (cases "frac_digits ns") auto
  have "takeWhile is_digit (frac_digits ns @ ''Z'') = frac_digits ns"
    "dropWhile is_digit (frac_digits ns @ ''Z'') = ''Z''"
    using f(3) by (simp_all add: takeWhile_append2 dropWhile_append2 Z_not_digit)
  then show ?thesis
    using False f(1-3) by (simp add: parse_fraction_def Let_def) (simp add: c)
qed (simp add: parse_fraction_def)

lemma num_in_pad [simp]:
  "n < 10 ^ k \<Longrightarrow> lo \<le> n \<Longrightarrow> n \<le> hi \<Longrightarrow> num_in (pad_digits k n) lo hi = Some n"
  by (simp add: num_in_def list_all_iff pad_digits_is_digit)

lemma date_time_columns:
  assumes "length ys = 4" "length mos = 2" "length ds = 2" "length hs = 2" "length mis = 2"
    "length ss = 2"
  defines "s \<equiv> ys @ ''-'' @ mos @ ''-'' @ ds @ ''T'' @ hs @ '':'' @ mis @ '':'' @ ss"
  shows "take 4 s = ys" "take 2 (drop 5 s) = mos" "take 2 (drop 8 s) = ds"
    "take 2 (drop 11 s) = hs" "take 2 (drop 14 s) = mis" "take 2 (drop 17 s) = ss"
    "s ! 4 = CHR ''-''" "s ! 7 = CHR ''-''" "s ! 10 = CHR ''T''" "s ! 13 = CHR '':''"
    "s ! 16 = CHR '':''"
proof -
  have two: "length xs = 2 \<Longrightarrow> \<exists>a b. xs = [a, b]" for xs :: string
    by (auto simp: length_Suc_conv numeral_2_eq_2)
  have four: "length xs = 4 \<Longrightarrow> \<exists>a b c d. xs = [a, b, c, d]" for xs :: string
    by (auto simp: length_Suc_conv eval_nat_numeral)
  obtain a b c d e f g h i j k l m n where
    e: "ys = [a, b, c, d]" "mos = [e, f]" "ds = [g, h]" "hs = [i, j]" "mis = [k, l]" "ss = [m, n]"
    using four [OF assms(1)] assms(2-6) [THEN two] by blast
  show "take 4 s = ys" "take 2 (drop 5 s) = mos" "take 2 (drop 8 s) = ds"
    "take 2 (drop 11 s) = hs" "take 2 (drop 14 s) = mis" "take 2 (drop 17 s) = ss"
    "s ! 4 = CHR ''-''" "s ! 7 = CHR ''-''" "s ! 10 = CHR ''T''" "s ! 13 = CHR '':''"
    "s ! 16 = CHR '':''"
    by (simp_all add: s_def e)
qed

lemma month_length_le: "month_lengths y ! (m - 1) \<le> 31" if "1 \<le> m" "m \<le> 12"
proof -
  have "\<forall>l\<in>set (month_lengths y). l \<le> 31" by (simp add: month_lengths_def)
  moreover have "month_lengths y ! (m - 1) \<in> set (month_lengths y)"
    using that by (intro nth_mem) (simp add: length_month_lengths)
  ultimately show ?thesis by blast
qed

lemma parse_date_time_fmt:
  assumes "civil_ok c"
  shows "parse_date_time (pad_digits 4 (c_year c) @ ''-'' @ pad_digits 2 (c_month c) @ ''-''
     @ pad_digits 2 (c_day c) @ ''T'' @ pad_digits 2 (c_hour c) @ '':'' @ pad_digits 2 (c_min c)
     @ '':'' @ pad_digits 2 (c_sec c)) = Some (c\<lparr>c_nsec := 0\<rparr>)"
proof -
  have ok: "c_year c \<le> 9999" "1 \<le> c_month c" "c_month c \<le> 12" "1 \<le> c_day c"
    "c_day c \<le> month_lengths (c_year c) ! (c_month c - 1)" "c_hour c \<le> 23" "c_min c \<le> 59"
    "c_sec c \<le> 59"
    using assms by (simp_all add: civil_ok_def)
  have "c_day c \<le> 31" using ok(5) month_length_le [OF ok(2,3), of "c_year c"] by linarith
  then have nums: "num_in (pad_digits 4 (c_year c)) 0 9999 = Some (c_year c)"
    "num_in (pad_digits 2 (c_month c)) 1 12 = Some (c_month c)"
    "num_in (pad_digits 2 (c_day c)) 1 (month_lengths (c_year c) ! (c_month c - 1))
       = Some (c_day c)"
    "num_in (pad_digits 2 (c_hour c)) 0 23 = Some (c_hour c)"
    "num_in (pad_digits 2 (c_min c)) 0 59 = Some (c_min c)"
    "num_in (pad_digits 2 (c_sec c)) 0 59 = Some (c_sec c)"
    using ok by (auto intro!: num_in_pad)
  show ?thesis
    unfolding parse_date_time_def
    by (simp only: date_time_columns length_pad_digits nums option.case prod.case simp_thms if_True)
      simp
qed

lemma parse_rfc3339_fmt:
  assumes "in_range t"
  shows "parse_rfc3339 (fmt_time t) = Some t"
proof -
  let ?c = "civil_of t"
  have ok: "civil_ok ?c" by (rule civil_of_ok [OF assms])
  let ?d = "pad_digits 4 (c_year ?c) @ ''-'' @ pad_digits 2 (c_month ?c) @ ''-''
     @ pad_digits 2 (c_day ?c) @ ''T'' @ pad_digits 2 (c_hour ?c) @ '':'' @ pad_digits 2 (c_min ?c)
     @ '':'' @ pad_digits 2 (c_sec ?c)"
  let ?r = "(if c_nsec ?c = 0 then [] else ''.'' @ frac_digits (c_nsec ?c)) @ ''Z''"
  have "c_year ?c \<le> 9999" using ok by (simp add: civil_ok_def)
  then have f: "fmt_time t = ?d @ ?r" by (simp add: fmt_time_def fmt_civil_def year_text_def)
  have l: "length ?d = 19" by simp
  have ns: "parse_fraction ?r = (c_nsec ?c, ''Z'')"
    using ok by (intro parse_fraction_fmt) (simp add: civil_ok_def)
  have "length (fmt_time t) \<ge> 19" "take 19 (fmt_time t) = ?d" "drop 19 (fmt_time t) = ?r"
    unfolding f using l by simp_all
  then show ?thesis
    using time_of_civil_of [OF assms]
    by (simp only: parse_rfc3339_def parse_date_time_fmt [OF ok] ns)
      (simp add: parse_zone_def)
qed

lemma year_text_digits: "year_text y \<noteq> []" "c \<in> set (year_text y) \<Longrightarrow> is_digit c"
proof -
  have "length (pad_digits 4 y) = 4" by (rule length_pad_digits)
  then have "pad_digits 4 y \<noteq> []" by (metis list.size(3) zero_neq_numeral)
  then show "year_text y \<noteq> []" by (simp only: year_text_def dec_digits_not_Nil split: if_splits) simp
  show "c \<in> set (year_text y) \<Longrightarrow> is_digit c"
    by (simp only: year_text_def pad_digits_is_digit dec_digits_is_digit split: if_splits)
qed

lemma fmt_time_ends:
  "hd (fmt_time t) = hd (year_text (c_year (civil_of t)))" "last (fmt_time t) = CHR ''Z''"
  by (simp_all add: fmt_time_def fmt_civil_def year_text_digits(1))

lemma fmt_time_not_Nil [simp]: "fmt_time t \<noteq> []"
  by (simp add: fmt_time_def fmt_civil_def)

lemma fmt_time_trimmed: "trim_space (fmt_time t) = fmt_time t"
proof (rule trim_space_trimmed)
  have "is_digit (hd (fmt_time t))"
    unfolding fmt_time_ends by (rule year_text_digits(2) [OF hd_in_set]) (simp add: year_text_digits(1))
  then show "\<not> is_space (hd (fmt_time t))"
    by (auto simp: is_space_def is_digit_def char_code_def)
qed (simp_all add: fmt_time_ends is_space_def)

lemma parse_timestamp_fmt [simp]: "in_range t \<Longrightarrow> parse_timestamp (fmt_time t) = Some t"
  by (simp add: parse_timestamp_def fmt_time_trimmed parse_rfc3339_fmt)

lemma fmt_time_inject: "in_range t \<Longrightarrow> in_range u \<Longrightarrow> fmt_time t = fmt_time u \<longleftrightarrow> t = u"
  by (metis option.inject parse_timestamp_fmt)

end
