(* ===== verification/Go_Path.thy ===== *)
theory Go_Path
  imports Mesh_Prelude
begin

text \<open>
  Slash-separated paths: Clean, Join, Base and IsAbs of package path/filepath on Unix, and
  encoding/hex. Clean drops empty and \<open>.\<close> elements and resolves \<open>..\<close> against the
  element before it; a leading \<open>..\<close> stays in a relative path and goes in a rooted one.
\<close>

definition clean_step :: "bool \<Rightarrow> string list \<Rightarrow> string \<Rightarrow> string list" where
  "clean_step rooted acc w =
     (if w = [] \<or> w = ''.'' then acc
      else if w = ''..''
      then (if acc \<noteq> [] \<and> last acc \<noteq> ''..'' then butlast acc
            else if rooted then acc else acc @ [w])
      else acc @ [w])"

definition clean_elems :: "bool \<Rightarrow> string list \<Rightarrow> string list" where
  "clean_elems rooted ws = foldl (clean_step rooted) [] ws"

definition is_abs :: "string \<Rightarrow> bool" where
  "is_abs p = has_prefix ''/'' p"

definition path_clean :: "string \<Rightarrow> string" where
  "path_clean p =
     (if p = [] then ''.''
      else let es = clean_elems (is_abs p) (split_char CHR ''/'' p)
           in if is_abs p then ''/'' @ join_with ''/'' es
              else if es = [] then ''.'' else join_with ''/'' es)"

definition path_join :: "string list \<Rightarrow> string" where
  "path_join ps =
     (let qs = filter (\<lambda>p. p \<noteq> []) ps
      in if qs = [] then [] else path_clean (join_with ''/'' qs))"

definition path_base :: "string \<Rightarrow> string" where
  "path_base p =
     (if p = [] then ''.''
      else let q = rev (dropWhile (\<lambda>c. c = CHR ''/'') (rev p))
           in if q = [] then ''/'' else last (split_char CHR ''/'' q))"

text \<open>The directory part: everything before the last element, cleaned.\<close>

definition path_dir :: "string \<Rightarrow> string" where
  "path_dir p = path_clean (rev (dropWhile (\<lambda>c. c \<noteq> CHR ''/'') (rev p)))"

definition hex_digit :: "nat \<Rightarrow> char" where
  "hex_digit n = ''0123456789abcdef'' ! n"

definition hex_encode :: "bytes \<Rightarrow> string" where
  "hex_encode s =
     concat (map (\<lambda>c. [hex_digit (char_code c div 16), hex_digit (char_code c mod 16)]) s)"

text \<open>An element that Clean keeps as it is.\<close>

definition plain_elem :: "string \<Rightarrow> bool" where
  "plain_elem w = (w \<noteq> [] \<and> w \<noteq> ''.'' \<and> w \<noteq> ''..'' \<and> CHR ''/'' \<notin> set w)"

lemma clean_step_plain: "plain_elem w \<Longrightarrow> clean_step r acc w = acc @ [w]"
  by (simp add: clean_step_def plain_elem_def)

lemma clean_elems_plain:
  "\<forall>w\<in>set ws. plain_elem w \<Longrightarrow> foldl (clean_step r) acc ws = acc @ ws"
  by (induction ws arbitrary: acc) (simp_all add: clean_step_plain)

lemma join_with_append_ne:
  "us \<noteq> [] \<Longrightarrow> vs \<noteq> [] \<Longrightarrow> join_with sep (us @ vs) = join_with sep us @ sep @ join_with sep vs"
proof (induction us)
  case (Cons u us)
  show ?case
  proof (cases us)
    case Nil
    then show ?thesis using Cons.prems by (cases vs) auto
  next
    case (Cons w ws)
    then show ?thesis using Cons.IH Cons.prems by simp
  qed
qed simp

lemma split_char_append: "split_char c (a @ c # b) = split_char c a @ split_char c b"
proof (induction a)
  case Nil
  then show ?case by (simp add: split_char_def)
next
  case (Cons x a)
  then show ?case by (auto simp: split_char_def split: list.splits)
qed

text \<open>A rooted path stays rooted, and joining plain elements to a clean root appends them.\<close>

definition clean_root :: "string \<Rightarrow> string list \<Rightarrow> bool" where
  "clean_root root es = (es \<noteq> [] \<and> (\<forall>w\<in>set es. plain_elem w) \<and> root = ''/'' @ join_with ''/'' es)"

lemma path_join_clean_root:
  assumes "clean_root root es" and "ws \<noteq> []" and "\<forall>w\<in>set ws. plain_elem w"
  shows "path_join (root # ws) = root @ ''/'' @ join_with ''/'' ws"
proof -
  let ?p = "''/'' @ join_with ''/'' (es @ ws)"
  have ne: "es \<noteq> []" "es @ ws \<noteq> []" and pl: "\<forall>w\<in>set (es @ ws). plain_elem w"
    using assms by (auto simp: clean_root_def)
  have root: "root = ''/'' @ join_with ''/'' es" using assms(1) by (simp add: clean_root_def)
  have fs: "filter (\<lambda>p. p \<noteq> []) (root # ws) = root # ws"
    using assms(3) by (auto simp: root plain_elem_def intro!: filter_True)
  have p: "join_with ''/'' (root # ws) = ?p"
    using join_with_append_ne [of es ws "''/''"] join_with_append_ne [of "[root]" ws "''/''"] ne assms(2)
    by (simp add: root)
  have "split_char CHR ''/'' ?p = [] # (es @ ws)"
    using split_char_append [of "CHR ''/''" "[]" "join_with ''/'' (es @ ws)"] split_join [of "es @ ws" "CHR ''/''"]
      ne pl by (simp add: plain_elem_def split_char_def)
  then have "clean_elems True (split_char CHR ''/'' ?p) = es @ ws"
    using clean_elems_plain [OF pl, of True "[]"] by (simp add: clean_elems_def clean_step_def)
  then have "path_clean ?p = ?p" by (simp add: path_clean_def is_abs_def has_prefix_def Let_def)
  then have "path_join (root # ws) = join_with ''/'' (root # ws)"
    unfolding path_join_def fs Let_def p by simp
  also have "\<dots> = root @ ''/'' @ join_with ''/'' ws"
    using join_with_append_ne [of "[root]" ws "''/''"] assms(2) by simp
  finally show ?thesis .
qed

lemma clean_root_Nil: "clean_root root es \<Longrightarrow> root \<noteq> []"
  by (simp add: clean_root_def)

lemma length_hex_encode [simp]: "length (hex_encode s) = 2 * length s"
  by (induction s) (simp_all add: hex_encode_def)

lemma hex_digit_plain: "n < 16 \<Longrightarrow> hex_digit n \<in> set ''0123456789abcdef''"
  unfolding hex_digit_def by (rule nth_mem) simp

lemma hex_encode_charset: "c \<in> set (hex_encode s) \<Longrightarrow> c \<in> set ''0123456789abcdef''"
proof -
  assume "c \<in> set (hex_encode s)"
  then obtain x where "x \<in> set s"
    "c = hex_digit (char_code x div 16) \<or> c = hex_digit (char_code x mod 16)"
    by (auto simp: hex_encode_def)
  moreover have "char_code x < 256"
    using of_char_mod_256 [of x] by (metis char_code_def mod_less_divisor zero_less_numeral)
  ultimately show ?thesis using hex_digit_plain by (auto simp del: set_simps)
qed

end
