(* ===== verification/Store_Schema.thy ===== *)
theory Store_Schema
  imports Go_Time Go_Path
begin

text \<open>
  The Hub's persistent state (nakli-hub/internal/storage: schema.go, storage.go): one record
  type per table, the store as the record of the tables and of the blob files, and what a
  request finds in its environment. Timestamps are TEXT columns in the RFC 3339 form of
  \<open>fmt_time\<close>; a nullable column is an option, and nullableString stores \<open>''\<close> as NULL. A
  method of Store takes the environment and the store and returns its result with the store
  after it; \<open>Inl\<close> is the error. A driver error (a busy database, a full disk) is the
  environment's choice, by the name of the method, and leaves the tables as they were, since
  the methods work in one transaction or in one statement; \<open>ErrUnique\<close> is the violated
  UNIQUE constraint that one handler recognises by its message. The tables hub_identity and peers
  are written by no method and are left out.
\<close>

section \<open>Rows\<close>

record principal_row =
  pr_id :: string
  pr_type :: string
  pr_public_key :: bytes
  pr_parent :: "string option"
  pr_display :: "string option"
  pr_created_at :: string
  pr_retired_at :: "string option"
  pr_retirement_event :: "string option"

record stream_row =
  st_stream_id :: string
  st_namespace :: string
  st_type :: string
  st_created_at :: string
  st_head_event_id :: "string option"
  st_head_event_hash :: "bytes option"
  st_event_count :: nat

record event_row =
  ev_id :: string
  ev_namespace :: string
  ev_stream_id :: string
  ev_stream_type :: string
  ev_seq :: nat
  ev_kind :: string
  ev_blob_path :: string
  ev_payload_size :: nat
  ev_metadata :: "string option"
  ev_causal_deps :: "string option"
  ev_vector_clock :: string
  ev_prev_hash :: "bytes option"
  ev_hash :: "bytes option"
  ev_appended_at :: string
  ev_principal :: string
  ev_grant_id :: string
  ev_device :: "string option"

record idempotency_row =
  id_key :: string
  id_grant :: string
  id_endpoint :: string
  id_payload_hash :: bytes
  id_status :: int
  id_body :: "bytes option"
  id_expires_at :: string

record grant_row =
  gr_id :: string
  gr_issued_by :: string
  gr_recipient :: string
  gr_parent :: "string option"
  gr_scope :: string
  gr_caveats :: string
  gr_issued_at :: string
  gr_expires_at :: string
  gr_revoked_at :: "string option"
  gr_revocation_event :: "string option"

record pending_row =
  pb_id :: string
  pb_grant :: string
  pb_adapter :: string
  pb_operation :: string
  pb_params :: string
  pb_requested_by :: string
  pb_requested_at :: string
  pb_approved_at :: "string option"
  pb_rejected_at :: "string option"
  pb_rejected_reason :: "string option"

record oplog_row =
  ol_op_id :: string
  ol_timestamp :: string
  ol_grant :: "string option"
  ol_principal :: "string option"
  ol_endpoint :: string
  ol_status :: int
  ol_duration_ms :: int
  ol_error_code :: "string option"

record pairing_row =
  pt_token :: string
  pt_numeric_code :: "string option"
  pt_initiated_by :: string
  pt_initiated_at :: string
  pt_expires_at :: string
  pt_completed_at :: "string option"
  pt_completed_by :: "string option"
  pt_fif_commitment :: "bytes option"

record crate_token_row =
  ct_secret :: string
  ct_payload_json :: string
  ct_bucket_id :: string
  ct_identity_pubkey :: string
  ct_transport_endpoint :: string
  ct_transport_type :: string
  ct_issued_at :: string
  ct_expires_at :: string
  ct_redeemed_at :: "string option"
  ct_redeemed_by :: "string option"
  ct_fingerprint :: "string option"
  ct_capability_id :: "string option"
  ct_cancelled_at :: "string option"
  ct_created_at :: string

record crate_bucket_row =
  cb_id :: string
  cb_provider :: string
  cb_account_id :: "string option"
  cb_region :: string
  cb_bucket_name :: string
  cb_endpoint_url :: string
  cb_access_key_id :: string
  cb_secret_sealed :: bytes
  cb_nonce :: bytes
  cb_registered_by :: string
  cb_created_at :: string
  cb_last_used_at :: "string option"

record store =
  principals :: "principal_row list"
  streams :: "stream_row list"
  events :: "event_row list"
  idempotency :: "idempotency_row list"
  grants_known :: "grant_row list"
  pending_bridge :: "pending_row list"
  operation_log :: "oplog_row list"
  pairing_tokens :: "pairing_row list"
  crate_pairing_tokens :: "crate_token_row list"
  crate_buckets :: "crate_bucket_row list"
  blobs :: "string \<rightharpoonup> bytes"

definition empty_store :: store where
  "empty_store = \<lparr>principals = [], streams = [], events = [], idempotency = [],
     grants_known = [], pending_bridge = [], operation_log = [], pairing_tokens = [],
     crate_pairing_tokens = [], crate_buckets = [], blobs = (\<lambda>_. None)\<rparr>"

section \<open>The environment of a request\<close>

text \<open>
  What the file system does with a write: it succeeds, it fails before the file is truncated,
  or it fails after the first \<open>n\<close> bytes are down.
\<close>

datatype write_outcome = WriteOk | WriteNotOpened | WriteShort nat

text \<open>
  The clock, the random values a request draws (the n-th ULID, the n-th read of crypto/rand),
  which method meets a driver error, what happens to a blob write, and which entries an LRU cache
  has dropped when an entry is added to it. All clock reads of one request give the same
  instant.
\<close>

record env =
  en_now :: time
  en_ulid :: "nat \<Rightarrow> string"
  en_random :: "nat \<Rightarrow> bytes"
  en_fault :: "string \<Rightarrow> bool"
  en_write :: write_outcome
  en_evicted :: "string \<Rightarrow> bool"

definition plain_env :: "time \<Rightarrow> (nat \<Rightarrow> string) \<Rightarrow> env" where
  "plain_env t ids = \<lparr>en_now = t, en_ulid = ids, en_random = (\<lambda>_. []),
     en_fault = (\<lambda>_. False), en_write = WriteOk, en_evicted = (\<lambda>_. False)\<rparr>"

lemma plain_env_simps [simp]:
  "en_now (plain_env t ids) = t" "en_ulid (plain_env t ids) = ids"
  "en_random (plain_env t ids) n = []" "\<not> en_fault (plain_env t ids) m"
  "en_write (plain_env t ids) = WriteOk" "\<not> en_evicted (plain_env t ids) k"
  by (simp_all add: plain_env_def)

definition now_rfc3339 :: "env \<Rightarrow> string" where
  "now_rfc3339 e = fmt_time (en_now e)"

datatype store_error =
    ErrNotFound
  | ErrHistoryConflict
  | ErrAlreadyPresent
  | ErrPairingTokenExpired
  | ErrPairingTokenUsed
  | ErrCratePairingTokenExpired
  | ErrCratePairingTokenAlreadyRedeemed
  | ErrCratePairingTokenCancelled
  | ErrInvalidInput
  | ErrInvalidCursor
  | ErrBlob
  | ErrUnique
  | ErrDriver

type_synonym 'a store_op = "store \<Rightarrow> (store_error + 'a) \<times> store"

definition nullable :: "string \<Rightarrow> string option" where
  "nullable s = (if s = [] then None else Some s)"

text \<open>time.Parse of a column; the scan loops keep the zero time when it fails.\<close>

definition time_or_zero :: "string \<Rightarrow> time" where
  "time_or_zero s = coalesce 0 (parse_rfc3339 s)"

definition time_opt :: "string option \<Rightarrow> time option" where
  "time_opt c = (if coalesce [] c = [] then None else parse_rfc3339 (coalesce [] c))"

lemma nullable_simps [simp]:
  "nullable [] = None" "s \<noteq> [] \<Longrightarrow> nullable s = Some s" "coalesce [] (nullable s) = s"
  by (simp_all add: nullable_def)

lemma nullable_None_iff [simp]: "nullable s = None \<longleftrightarrow> s = []"
  by (simp add: nullable_def)

lemma time_or_zero_fmt [simp]: "in_range t \<Longrightarrow> time_or_zero (fmt_time t) = t"
  by (simp add: time_or_zero_def parse_rfc3339_fmt)

lemma time_opt_simps [simp]:
  "time_opt None = None" "in_range t \<Longrightarrow> time_opt (Some (fmt_time t)) = Some t"
  by (simp_all add: time_opt_def parse_rfc3339_fmt)

section \<open>Blob files\<close>

definition blob_path :: "(bytes \<Rightarrow> bytes) \<Rightarrow> string \<Rightarrow> string \<Rightarrow> string \<Rightarrow> string" where
  "blob_path sha root ns eid =
     (let h = hex_encode (sha (eid @ ns))
      in path_join [root, take 2 h, take 2 (drop 2 h), eid @ ''.bin''])"

definition write_blob ::
  "(bytes \<Rightarrow> bytes) \<Rightarrow> string \<Rightarrow> env \<Rightarrow> string \<Rightarrow> string \<Rightarrow> bytes \<Rightarrow> string store_op" where
  "write_blob sha root e ns eid c s =
     (let p = blob_path sha root ns eid
      in case en_write e of
           WriteOk \<Rightarrow> (Inr p, s\<lparr>blobs := (blobs s)(p \<mapsto> c)\<rparr>)
         | WriteNotOpened \<Rightarrow> (Inl ErrBlob, s)
         | WriteShort n \<Rightarrow> (Inl ErrBlob, s\<lparr>blobs := (blobs s)(p \<mapsto> take n c)\<rparr>))"

definition read_blob ::
  "(bytes \<Rightarrow> bytes) \<Rightarrow> string \<Rightarrow> env \<Rightarrow> store \<Rightarrow> string \<Rightarrow> string \<Rightarrow> store_error + bytes" where
  "read_blob sha root e s ns eid =
     (if en_fault e ''ReadBlob'' then Inl ErrBlob
      else case blobs s (blob_path sha root ns eid) of None \<Rightarrow> Inl ErrBlob | Some c \<Rightarrow> Inr c)"

lemma read_write_blob:
  "en_write e = WriteOk \<Longrightarrow> \<not> en_fault e' ''ReadBlob'' \<Longrightarrow>
     read_blob sha root e' (snd (write_blob sha root e ns eid c s)) ns eid = Inr c"
  by (simp add: read_blob_def write_blob_def Let_def)

lemma write_blob_tables [store_simps]:
  "events (snd (write_blob sha root e ns eid c s)) = events s"
  "streams (snd (write_blob sha root e ns eid c s)) = streams s"
  by (simp_all add: write_blob_def Let_def split: write_outcome.splits)

lemma write_blob_dom:
  "blobs s p \<noteq> None \<Longrightarrow> blobs (snd (write_blob sha root e ns eid c s)) p \<noteq> None"
  by (simp add: write_blob_def Let_def split: write_outcome.splits)

text \<open>The path of an identifier that is a plain path element lies two directories below the root.\<close>

lemma blob_path_plain:
  assumes "clean_root root es" and "\<And>x. length (sha x) = 32" and "plain_elem (eid @ ''.bin'')"
  shows "blob_path sha root ns eid =
    root @ ''/'' @ take 2 (hex_encode (sha (eid @ ns))) @ ''/''
         @ take 2 (drop 2 (hex_encode (sha (eid @ ns)))) @ ''/'' @ eid @ ''.bin''"
proof -
  let ?h = "hex_encode (sha (eid @ ns))"
  have len: "length ?h = 64" using assms(2) by simp
  have sub: "set (take 2 ?h) \<subseteq> set ''0123456789abcdef''"
    "set (take 2 (drop 2 ?h)) \<subseteq> set ''0123456789abcdef''"
    using hex_encode_charset by (meson in_set_dropD in_set_takeD subsetI)+
  have plain: "plain_elem w" if "set w \<subseteq> set ''0123456789abcdef''" "length w = 2" for w
  proof -
    have "CHR ''.'' \<notin> set w" "CHR ''/'' \<notin> set w" using that(1) by auto
    then show ?thesis using that(2) by (auto simp: plain_elem_def)
  qed
  have "plain_elem (take 2 ?h)" "plain_elem (take 2 (drop 2 ?h))"
    using plain sub len by simp_all
  then show ?thesis
    using path_join_clean_root [OF assms(1), of "[take 2 ?h, take 2 (drop 2 ?h), eid @ ''.bin'']"] assms(3)
    by (simp add: blob_path_def Let_def)
qed

end
