(* ===== verification/Go_Base64.thy ===== *)
theory Go_Base64
  imports Mesh_Prelude
begin

text \<open>
  encoding/base64: the four encodings the Hub accepts (nakli-hub/internal/server/base64.go) and
  the ones it writes. The decoder is Go's: carriage returns and line feeds are skipped, bits
  left over in the last character are ignored, and with padding the text must end in a full
  quantum.
\<close>

definition std_alphabet :: string where
  "std_alphabet = ''ABCDEFGHIJKLMNOPQRSTUVWXYZabcdefghijklmnopqrstuvwxyz0123456789+/''"

definition url_alphabet :: string where
  "url_alphabet = ''ABCDEFGHIJKLMNOPQRSTUVWXYZabcdefghijklmnopqrstuvwxyz0123456789-_''"

record b64_encoding =
  b64_alphabet :: string
  b64_padded :: bool

definition std_encoding :: b64_encoding where
  "std_encoding = \<lparr>b64_alphabet = std_alphabet, b64_padded = True\<rparr>"

definition raw_std_encoding :: b64_encoding where
  "raw_std_encoding = \<lparr>b64_alphabet = std_alphabet, b64_padded = False\<rparr>"

definition url_encoding :: b64_encoding where
  "url_encoding = \<lparr>b64_alphabet = url_alphabet, b64_padded = True\<rparr>"

definition raw_url_encoding :: b64_encoding where
  "raw_url_encoding = \<lparr>b64_alphabet = url_alphabet, b64_padded = False\<rparr>"

definition sextet :: "string \<Rightarrow> char \<Rightarrow> nat option" where
  "sextet al c = map_option fst (lookup_by snd c (enumerate 0 al))"

definition byte_chr :: "nat \<Rightarrow> char" where
  "byte_chr n = char_of n"

text \<open>The characters of a number, most significant first.\<close>

definition quad :: "string \<Rightarrow> nat \<Rightarrow> string" where
  "quad al n =
     [al ! (n div 64 div 64 div 64 mod 64), al ! (n div 64 div 64 mod 64), al ! (n div 64 mod 64),
      al ! (n mod 64)]"

fun b64_encode :: "b64_encoding \<Rightarrow> bytes \<Rightarrow> string" where
  "b64_encode E [] = []"
| "b64_encode E [a] =
     take 2 (quad (b64_alphabet E) (char_code a * 65536)) @ (if b64_padded E then ''=='' else [])"
| "b64_encode E [a, b] =
     take 3 (quad (b64_alphabet E) (char_code a * 65536 + char_code b * 256))
     @ (if b64_padded E then ''='' else [])"
| "b64_encode E (a # b # c # rest) =
     quad (b64_alphabet E) (char_code a * 65536 + char_code b * 256 + char_code c)
     @ b64_encode E rest"

definition sextets :: "string \<Rightarrow> string \<Rightarrow> nat list option" where
  "sextets al s =
     (if list_all (\<lambda>c. sextet al c \<noteq> None) s
      then Some (map (\<lambda>c. coalesce 0 (sextet al c)) s) else None)"

text \<open>The first k bytes of a quantum of 24 bits.\<close>

definition quantum_bytes :: "nat \<Rightarrow> nat \<Rightarrow> bytes" where
  "quantum_bytes k n = take k [byte_chr (n div 65536), byte_chr (n div 256 mod 256), byte_chr (n mod 256)]"

definition decode_quantum :: "string \<Rightarrow> nat \<Rightarrow> string \<Rightarrow> bytes option" where
  "decode_quantum al k cs =
     map_option (\<lambda>vs. quantum_bytes k (foldl (\<lambda>n v. n * 64 + v) 0 (vs @ replicate (4 - length vs) 0)))
       (sextets al cs)"

fun decode_quanta :: "b64_encoding \<Rightarrow> string \<Rightarrow> bytes option" where
  "decode_quanta E [] = Some []"
| "decode_quanta E [a] = None"
| "decode_quanta E [a, b] =
     (if b64_padded E then None else decode_quantum (b64_alphabet E) 1 [a, b])"
| "decode_quanta E [a, b, c] =
     (if b64_padded E then None else decode_quantum (b64_alphabet E) 2 [a, b, c])"
| "decode_quanta E (a # b # c # d # rest) =
     (if b64_padded E \<and> c = CHR ''='' \<and> d = CHR ''='' \<and> rest = []
      then decode_quantum (b64_alphabet E) 1 [a, b]
      else if b64_padded E \<and> c \<noteq> CHR ''='' \<and> d = CHR ''='' \<and> rest = []
      then decode_quantum (b64_alphabet E) 2 [a, b, c]
      else case decode_quantum (b64_alphabet E) 3 [a, b, c, d] of
             None \<Rightarrow> None
           | Some q \<Rightarrow> map_option (\<lambda>r. q @ r) (decode_quanta E rest))"

definition b64_decode :: "b64_encoding \<Rightarrow> string \<Rightarrow> bytes option" where
  "b64_decode E s = decode_quanta E (filter (\<lambda>c. c \<noteq> CHR 0x0A \<and> c \<noteq> CHR 0x0D) s)"

definition try_base64 :: "string \<Rightarrow> bytes option" where
  "try_base64 s =
     (case b64_decode std_encoding s of Some b \<Rightarrow> Some b
      | None \<Rightarrow> (case b64_decode raw_std_encoding s of Some b \<Rightarrow> Some b
        | None \<Rightarrow> (case b64_decode url_encoding s of Some b \<Rightarrow> Some b
          | None \<Rightarrow> b64_decode raw_url_encoding s)))"

section \<open>Round trip\<close>

definition good_alphabet :: "string \<Rightarrow> bool" where
  "good_alphabet al = (length al = 64 \<and> distinct al \<and> CHR ''='' \<notin> set al
     \<and> CHR 0x0A \<notin> set al \<and> CHR 0x0D \<notin> set al)"

lemma good_alphabets [simp]: "good_alphabet std_alphabet" "good_alphabet url_alphabet"
  by (simp_all add: good_alphabet_def std_alphabet_def url_alphabet_def)

lemma sextet_nth [simp]:
  assumes "good_alphabet al" and "n < 64"
  shows "sextet al (al ! n) = Some n"
proof -
  have "distinct (map snd (enumerate 0 al))" using assms by (simp add: good_alphabet_def)
  moreover have n: "enumerate 0 al ! n = (n, al ! n)" "n < length (enumerate 0 al)"
    using assms by (simp_all add: nth_enumerate_eq good_alphabet_def)
  ultimately have "lookup_by snd (snd (enumerate 0 al ! n)) (enumerate 0 al) = Some (enumerate 0 al ! n)"
    by (intro lookup_by_unique nth_mem)
  then show ?thesis by (simp add: sextet_def n(1))
qed

lemma sextets_nths:
  "good_alphabet al \<Longrightarrow> \<forall>n\<in>set ns. n < 64 \<Longrightarrow> sextets al (map (\<lambda>n. al ! n) ns) = Some ns"
  by (auto simp: sextets_def list_all_iff intro!: map_idI)

lemma four_digits:
  "((n div 64 div 64 div 64 * 64 + n div 64 div 64 mod 64) * 64 + n div 64 mod 64) * 64 + n mod 64
     = (n :: nat)"
  by simp

lemma decode_quad:
  assumes "good_alphabet al" and "n < 16777216"
  shows "decode_quantum al 3 (quad al n) = Some (quantum_bytes 3 n)"
    and "n mod 64 = 0 \<Longrightarrow> decode_quantum al 2 (take 3 (quad al n)) = Some (quantum_bytes 2 n)"
    and "n mod 4096 = 0 \<Longrightarrow> decode_quantum al 1 (take 2 (quad al n)) = Some (quantum_bytes 1 n)"
proof -
  let ?a = "n div 64 div 64 div 64 mod 64" and ?b = "n div 64 div 64 mod 64"
    and ?c = "n div 64 mod 64" and ?d = "n mod 64"
  have "n div 64 div 64 div 64 = n div 262144" by (simp only: div_mult2_eq [symmetric]) simp
  also have "\<dots> < 64" using assms(2) by (intro less_mult_imp_div_less) simp
  finally have small: "?a = n div 64 div 64 div 64" by (rule mod_less)
  have lt: "?a < 64" "?b < 64" "?c < 64" "?d < 64" by (rule mod_less_divisor, simp)+
  have p: "quad al n = map (\<lambda>i. al ! i) [?a, ?b, ?c, ?d]"
    "take 3 (quad al n) = map (\<lambda>i. al ! i) [?a, ?b, ?c]"
    "take 2 (quad al n) = map (\<lambda>i. al ! i) [?a, ?b]"
    by (simp_all only: quad_def list.map numeral_3_eq_3 numeral_2_eq_2 take_Suc_Cons take_0)
  have lts: "\<forall>v\<in>set [?a, ?b, ?c, ?d]. v < 64" "\<forall>v\<in>set [?a, ?b, ?c]. v < 64"
    "\<forall>v\<in>set [?a, ?b]. v < 64"
    using lt by (simp_all only: list.set ball_simps simp_thms)
  have t: "sextets al (quad al n) = Some [?a, ?b, ?c, ?d]"
    "sextets al (take 3 (quad al n)) = Some [?a, ?b, ?c]"
    "sextets al (take 2 (quad al n)) = Some [?a, ?b]"
    unfolding p(2,3) by (subst p(1))? (rule sextets_nths [OF assms(1) lts(1)],
      rule sextets_nths [OF assms(1) lts(2)], rule sextets_nths [OF assms(1) lts(3)])
  have f: "foldl (\<lambda>n v. n * 64 + v) 0 ([a, b, c, d] @ replicate (4 - length [a, b, c, d]) 0)
      = ((a * 64 + b) * 64 + c) * 64 + d"
    "foldl (\<lambda>n v. n * 64 + v) 0 ([a, b, c] @ replicate (4 - length [a, b, c]) 0)
      = ((a * 64 + b) * 64 + c) * 64 + 0"
    "foldl (\<lambda>n v. n * 64 + v) 0 ([a, b] @ replicate (4 - length [a, b]) 0)
      = ((a * 64 + b) * 64 + 0) * 64 + 0" for a b c d :: nat
    by (simp_all add: numeral_2_eq_2)
  have n: "((?a * 64 + ?b) * 64 + ?c) * 64 + ?d = n"
    using four_digits [of n] unfolding small .
  show "decode_quantum al 3 (quad al n) = Some (quantum_bytes 3 n)"
    unfolding decode_quantum_def t option.map f n ..
  show "decode_quantum al 2 (take 3 (quad al n)) = Some (quantum_bytes 2 n)" if "n mod 64 = 0"
    unfolding decode_quantum_def t option.map f using n unfolding that by (rule arg_cong)
  show "decode_quantum al 1 (take 2 (quad al n)) = Some (quantum_bytes 1 n)" if z: "n mod 4096 = 0"
  proof -
    have "n mod (64 * 64) = 64 * (n div 64 mod 64) + n mod 64" by (rule mod_mult2_eq)
    then have "n mod 64 = 0" "n div 64 mod 64 = 0" using z by simp_all
    then show ?thesis
      unfolding decode_quantum_def t option.map f using n by (simp only:)
  qed
qed

lemma char_code_less: "char_code c < 256"
  using of_char_mod_256 [of c] by (metis char_code_def mod_less_divisor zero_less_numeral)

lemma byte_chr_code [simp]: "byte_chr (char_code c) = c"
  by (simp add: byte_chr_def char_code_def)

lemma quantum_bytes_eq:
  assumes "a < 256" "b < 256" "c < (256::nat)"
  shows "(a * 65536 + b * 256 + c) div 65536 = a" "(a * 65536 + b * 256 + c) div 256 mod 256 = b"
    "(a * 65536 + b * 256 + c) mod 256 = c" "a * 65536 + b * 256 + c < 16777216"
proof -
  have d: "(a * 65536 + b * 256 + c) div 256 = a * 256 + b"
  proof -
    have e: "a * 65536 + b * 256 + c = c + (a * 256 + b) * 256" by simp
    show ?thesis unfolding e using assms(3) by (subst div_mult_self1) simp_all
  qed
  then have "(a * 65536 + b * 256 + c) div 256 div 256 = a" using assms(2) by simp
  then show "(a * 65536 + b * 256 + c) div 65536 = a" by (simp add: div_mult2_eq [symmetric])
  show "(a * 65536 + b * 256 + c) div 256 mod 256 = b" using assms(2) unfolding d by simp
  have e: "a * 65536 + b * 256 + c = c + 256 * (a * 256 + b)" by simp
  show "(a * 65536 + b * 256 + c) mod 256 = c" unfolding e using assms(3) by (simp only: mod_mult_self2 mod_less)
  show "a * 65536 + b * 256 + c < 16777216" using assms by linarith
qed

lemma encoded_chars:
  assumes "good_alphabet (b64_alphabet E)" and "c \<in> set (quad (b64_alphabet E) n)"
  shows "c \<noteq> CHR ''=''" "c \<noteq> CHR 0x0A" "c \<noteq> CHR 0x0D"
proof -
  have "c \<in> set (b64_alphabet E)" using assms by (auto simp: quad_def good_alphabet_def)
  then show "c \<noteq> CHR ''=''" "c \<noteq> CHR 0x0A" "c \<noteq> CHR 0x0D"
    using assms(1) by (auto simp: good_alphabet_def)
qed

lemma set_b64_encode:
  "c \<in> set (b64_encode E s) \<Longrightarrow> c = CHR ''='' \<or> (\<exists>n. c \<in> set (quad (b64_alphabet E) n))"
proof (induction E s rule: b64_encode.induct)
  case (2 E a)
  then show ?case
    using in_set_takeD [of c 2 "quad (b64_alphabet E) (char_code a * 65536)"]
    by (auto split: if_splits)
next
  case (3 E a b)
  then show ?case
    using in_set_takeD [of c 3 "quad (b64_alphabet E) (char_code a * 65536 + char_code b * 256)"]
    by (auto split: if_splits)
qed auto

lemma encode_no_newlines:
  assumes "good_alphabet (b64_alphabet E)" and "c \<in> set (b64_encode E s)"
  shows "c \<noteq> CHR 0x0A \<and> c \<noteq> CHR 0x0D"
  using set_b64_encode [OF assms(2)] encoded_chars(2,3) [OF assms(1), of c] by auto

lemma quad_list: "\<exists>p q r s. quad al n = [p, q, r, s]"
  by (simp add: quad_def)

lemma decode_encode_quanta:
  "good_alphabet (b64_alphabet E) \<Longrightarrow> decode_quanta E (b64_encode E s) = Some s"
proof (induction E s rule: b64_encode.induct)
  case (1 E)
  then show ?case by simp
next
  case (2 E a)
  let ?n = "char_code a * 65536"
  obtain p q r s where n: "quad (b64_alphabet E) ?n = [p, q, r, s]" using quad_list by blast
  have "?n = 16 * char_code a * 4096" by simp
  then have "?n mod 4096 = 0" by (metis mod_mult_self2_is_0)
  then have "decode_quantum (b64_alphabet E) 1 [p, q] = Some (quantum_bytes 1 ?n)"
    using decode_quad(3) [OF 2, of ?n] char_code_less [of a] n by simp
  then show ?case by (simp add: n quantum_bytes_def)
next
  case (3 E a b)
  let ?n = "char_code a * 65536 + char_code b * 256"
  obtain p q r s where n: "quad (b64_alphabet E) ?n = [p, q, r, s]" using quad_list by blast
  note facts = quantum_bytes_eq [OF char_code_less [of a] char_code_less [of b], of 0, simplified]
  have "?n = (1024 * char_code a + 4 * char_code b) * 64" by simp
  then have "?n mod 64 = 0" by (metis mod_mult_self2_is_0)
  then have "decode_quantum (b64_alphabet E) 2 [p, q, r] = Some (quantum_bytes 2 ?n)"
    using decode_quad(2) [OF 3, of ?n] facts n by simp
  moreover have "r \<noteq> CHR ''=''" using encoded_chars(1) [OF 3, of r ?n] n by simp
  ultimately show ?case using facts by (simp add: n quantum_bytes_def)
next
  case (4 E a b c rest)
  let ?n = "char_code a * 65536 + char_code b * 256 + char_code c"
  obtain p q r s where n: "quad (b64_alphabet E) ?n = [p, q, r, s]" using quad_list by blast
  note facts = quantum_bytes_eq [OF char_code_less [of a] char_code_less [of b] char_code_less [of c]]
  have "decode_quantum (b64_alphabet E) 3 [p, q, r, s] = Some (quantum_bytes 3 ?n)"
    using decode_quad(1) [OF 4(2), of ?n] facts n by simp
  moreover have "s \<noteq> CHR ''=''" using encoded_chars(1) [OF 4(2), of s ?n] n by simp
  ultimately show ?case using 4 facts by (simp add: n quantum_bytes_def)
qed

lemma b64_decode_encode:
  assumes "good_alphabet (b64_alphabet E)"
  shows "b64_decode E (b64_encode E s) = Some s"
proof -
  have "filter (\<lambda>c. c \<noteq> CHR 0x0A \<and> c \<noteq> CHR 0x0D) (b64_encode E s) = b64_encode E s"
    using encode_no_newlines [OF assms] by (intro filter_True) blast
  then show ?thesis by (simp add: b64_decode_def decode_encode_quanta [OF assms])
qed

lemma try_base64_std [simp]: "try_base64 (b64_encode std_encoding s) = Some s"
  by (simp add: try_base64_def b64_decode_encode std_encoding_def)

end
