(* ===== verification/Store_Buckets.thy ===== *)
theory Store_Buckets
  imports Store_Schema
begin

text \<open>
  Registered buckets (nakli-hub/internal/storage/crate_buckets.go) and the sealing of their
  secret keys (nakli-hub/internal/crate/keys.go, fabric-sdk-go/crypto/crypto.go). The AEAD
  XChaCha20-Poly1305 and HKDF come from golang.org/x/crypto and are parameters; what is relied
  on is that opening what was sealed with the same key, nonce and additional data gives the
  plaintext, and that nothing opens under other additional data.
\<close>

section \<open>Sealing\<close>

record aead =
  aead_seal :: "bytes \<Rightarrow> bytes \<Rightarrow> bytes \<Rightarrow> bytes \<Rightarrow> bytes"
  aead_open :: "bytes \<Rightarrow> bytes \<Rightarrow> bytes \<Rightarrow> bytes \<Rightarrow> bytes option"
  hkdf :: "bytes \<Rightarrow> bytes \<Rightarrow> bytes \<Rightarrow> bytes"

datatype crypto_error = ErrInvalidKeySize | ErrInvalidNonceSize | ErrOpenFailed | ErrSealEmpty
  | ErrNoBucketId | ErrRandom

definition crypto_seal ::
  "aead \<Rightarrow> bytes \<Rightarrow> bytes \<Rightarrow> bytes \<Rightarrow> bytes \<Rightarrow> crypto_error + bytes" where
  "crypto_seal A key nonce pt aad =
     (if length key \<noteq> 32 then Inl ErrInvalidKeySize
      else if length nonce \<noteq> 24 then Inl ErrInvalidNonceSize
      else Inr (aead_seal A key nonce pt aad))"

definition crypto_open ::
  "aead \<Rightarrow> bytes \<Rightarrow> bytes \<Rightarrow> bytes \<Rightarrow> bytes \<Rightarrow> crypto_error + bytes" where
  "crypto_open A key nonce ct aad =
     (if length key \<noteq> 32 then Inl ErrInvalidKeySize
      else if length nonce \<noteq> 24 then Inl ErrInvalidNonceSize
      else case aead_open A key nonce ct aad of
             None \<Rightarrow> Inl ErrOpenFailed | Some pt \<Rightarrow> Inr pt)"

definition derive_bucket_creds_key :: "aead \<Rightarrow> bytes \<Rightarrow> crypto_error + bytes" where
  "derive_bucket_creds_key A root =
     (if length root \<noteq> 32 then Inl ErrInvalidKeySize
      else Inr (hkdf A root ''crate-buckets'' ''v1''))"

text \<open>The nonce is the n-th read of the request's randomness; its length is what RandomNonce asks for.\<close>

definition seal_secret ::
  "aead \<Rightarrow> env \<Rightarrow> nat \<Rightarrow> bytes \<Rightarrow> bytes \<Rightarrow> string \<Rightarrow> crypto_error + (bytes \<times> bytes)" where
  "seal_secret A e n key pt bid =
     (if pt = [] then Inl ErrSealEmpty
      else if bid = [] then Inl ErrNoBucketId
      else if en_fault e ''crypto/rand'' then Inl ErrRandom
      else let nonce = en_random e n
           in sum_map (\<lambda>ct. (ct, nonce)) (crypto_seal A key nonce pt bid))"

definition open_secret ::
  "aead \<Rightarrow> bytes \<Rightarrow> bytes \<Rightarrow> bytes \<Rightarrow> string \<Rightarrow> crypto_error + bytes" where
  "open_secret A key ct nonce bid =
     (if bid = [] then Inl ErrNoBucketId else crypto_open A key nonce ct bid)"

definition aead_laws :: "aead \<Rightarrow> bool" where
  "aead_laws A =
     ((\<forall>k n p a. aead_open A k n (aead_seal A k n p a) a = Some p)
      \<and> (\<forall>k n p a b. a \<noteq> b \<longrightarrow> aead_open A k n (aead_seal A k n p a) b = None)
      \<and> (\<forall>k n p a. p \<noteq> [] \<longrightarrow> aead_seal A k n p a \<noteq> [])
      \<and> (\<forall>r s i. length (hkdf A r s i) = 32))"

lemma seal_open_secret:
  assumes "aead_laws A" and "seal_secret A e n key pt bid = Inr (ct, nonce)"
  shows "open_secret A key ct nonce bid = Inr pt"
    and "bid' \<noteq> bid \<Longrightarrow> bid' \<noteq> [] \<Longrightarrow> open_secret A key ct nonce bid' = Inl ErrOpenFailed"
    and "ct \<noteq> []" "length nonce = 24"
  using assms
  by (auto simp: seal_secret_def open_secret_def crypto_seal_def crypto_open_def aead_laws_def
      Let_def sum_map_Inr_iff split: if_splits)

section \<open>The table\<close>

record crate_bucket =
  bk_id :: string
  bk_provider :: string
  bk_account_id :: string
  bk_region :: string
  bk_bucket_name :: string
  bk_endpoint_url :: string
  bk_access_key_id :: string
  bk_secret_sealed :: bytes
  bk_nonce :: bytes
  bk_registered_by :: string
  bk_created_at :: time
  bk_last_used_at :: "time option"

definition create_crate_bucket :: "env \<Rightarrow> crate_bucket \<Rightarrow> unit store_op" where
  "create_crate_bucket e b s =
     (if bk_id b = [] \<or> bk_provider b = [] \<or> bk_bucket_name b = [] \<or> bk_endpoint_url b = []
         \<or> bk_access_key_id b = [] \<or> bk_secret_sealed b = [] \<or> bk_nonce b = []
         \<or> bk_registered_by b = []
      then (Inl ErrInvalidInput, s)
      else
        let created = (if bk_created_at b = 0 then en_now e else bk_created_at b)
        in if en_fault e ''CreateCrateBucket''
              \<or> lookup_by cb_id (bk_id b) (crate_buckets s) \<noteq> None
           then (Inl ErrDriver, s)
           else (Inr (), s\<lparr>crate_buckets := crate_buckets s @
             [\<lparr>cb_id = bk_id b, cb_provider = bk_provider b,
               cb_account_id = nullable (bk_account_id b), cb_region = bk_region b,
               cb_bucket_name = bk_bucket_name b, cb_endpoint_url = bk_endpoint_url b,
               cb_access_key_id = bk_access_key_id b, cb_secret_sealed = bk_secret_sealed b,
               cb_nonce = bk_nonce b, cb_registered_by = bk_registered_by b,
               cb_created_at = fmt_time created, cb_last_used_at = None\<rparr>]\<rparr>))"

definition bucket_of_row :: "crate_bucket_row \<Rightarrow> crate_bucket" where
  "bucket_of_row r =
     \<lparr>bk_id = cb_id r, bk_provider = cb_provider r, bk_account_id = coalesce [] (cb_account_id r),
      bk_region = cb_region r, bk_bucket_name = cb_bucket_name r,
      bk_endpoint_url = cb_endpoint_url r, bk_access_key_id = cb_access_key_id r,
      bk_secret_sealed = cb_secret_sealed r, bk_nonce = cb_nonce r,
      bk_registered_by = cb_registered_by r, bk_created_at = time_or_zero (cb_created_at r),
      bk_last_used_at = time_opt (cb_last_used_at r)\<rparr>"

definition lookup_crate_bucket :: "env \<Rightarrow> string \<Rightarrow> store \<Rightarrow> store_error + crate_bucket" where
  "lookup_crate_bucket e bid s =
     (if en_fault e ''LookupCrateBucket'' then Inl ErrDriver
      else case lookup_by cb_id bid (crate_buckets s) of
             None \<Rightarrow> Inl ErrNotFound | Some r \<Rightarrow> Inr (bucket_of_row r))"

text \<open>ORDER BY created_at DESC, rows of one instant in table order.\<close>

fun insert_desc :: "crate_bucket_row \<Rightarrow> crate_bucket_row list \<Rightarrow> crate_bucket_row list" where
  "insert_desc r [] = [r]"
| "insert_desc r (x # xs) =
     (if cb_created_at x < cb_created_at r \<or> cb_created_at x = cb_created_at r then r # x # xs
      else x # insert_desc r xs)"

definition created_desc :: "crate_bucket_row list \<Rightarrow> crate_bucket_row list" where
  "created_desc rs = foldr insert_desc rs []"

definition list_crate_buckets :: "env \<Rightarrow> string \<Rightarrow> store \<Rightarrow> store_error + crate_bucket list" where
  "list_crate_buckets e prin s =
     (if en_fault e ''ListCrateBucketsByPrincipal'' then Inl ErrDriver
      else Inr (map bucket_of_row
             (created_desc (filter (\<lambda>r. cb_registered_by r = prin) (crate_buckets s)))))"

definition touch_crate_bucket :: "env \<Rightarrow> string \<Rightarrow> unit store_op" where
  "touch_crate_bucket e bid s =
     (if en_fault e ''TouchCrateBucketLastUsed'' then (Inl ErrDriver, s)
      else (Inr (), s\<lparr>crate_buckets := update_where (\<lambda>r. cb_id r = bid)
             (\<lambda>r. r\<lparr>cb_last_used_at := Some (now_rfc3339 e)\<rparr>) (crate_buckets s)\<rparr>))"

definition delete_crate_bucket :: "env \<Rightarrow> string \<Rightarrow> unit store_op" where
  "delete_crate_bucket e bid s =
     (if en_fault e ''DeleteCrateBucket'' then (Inl ErrDriver, s)
      else if rows_matching (\<lambda>r. cb_id r = bid) (crate_buckets s) = 0 then (Inl ErrNotFound, s)
      else (Inr (), s\<lparr>crate_buckets := filter (\<lambda>r. cb_id r \<noteq> bid) (crate_buckets s)\<rparr>))"

lemma set_insert_desc [simp]: "set (insert_desc r xs) = insert r (set xs)"
  by (induction xs) auto

lemma set_created_desc [simp]: "set (created_desc rs) = set rs"
  by (induction rs) (auto simp: created_desc_def)

text \<open>A bucket, once registered, is found; touching it changes nothing but its last use.\<close>

lemma lookup_after_create:
  assumes "create_crate_bucket e b s = (Inr (), s')" and "in_range (bk_created_at b)"
    and "bk_created_at b \<noteq> 0" and "\<not> en_fault e' ''LookupCrateBucket''"
  shows "lookup_crate_bucket e' (bk_id b) s' = Inr (b\<lparr>bk_last_used_at := None\<rparr>)"
  using assms
  by (auto simp: create_crate_bucket_def lookup_crate_bucket_def lookup_by_append bucket_of_row_def
      Let_def split: if_splits)

lemma lookup_after_touch:
  assumes "lookup_crate_bucket e' bid s = Inr b"
  shows "\<exists>t. lookup_crate_bucket e' bid (snd (touch_crate_bucket e bid' s))
    = Inr (b\<lparr>bk_last_used_at := t\<rparr>)"
proof -
  obtain r where r: "lookup_by cb_id bid (crate_buckets s) = Some r" "b = bucket_of_row r"
    and f: "\<not> en_fault e' ''LookupCrateBucket''"
    using assms by (auto simp: lookup_crate_bucket_def split: if_splits option.splits)
  have "lookup_by cb_id bid (update_where (\<lambda>r. cb_id r = bid')
      (\<lambda>r. r\<lparr>cb_last_used_at := Some (now_rfc3339 e)\<rparr>) (crate_buckets s))
    = Some (if cb_id r = bid' then r\<lparr>cb_last_used_at := Some (now_rfc3339 e)\<rparr> else r)"
    by (subst lookup_update_where) (simp_all add: r(1))
  then show ?thesis
    using r f by (cases "en_fault e ''TouchCrateBucketLastUsed''")
      (auto simp: lookup_crate_bucket_def touch_crate_bucket_def bucket_of_row_def)
qed

lemma buckets_frame [frame_simps]:
  "events (snd (create_crate_bucket e b s)) = events s"
  "streams (snd (create_crate_bucket e b s)) = streams s"
  "blobs (snd (create_crate_bucket e b s)) = blobs s"
  "events (snd (touch_crate_bucket e bid s)) = events s"
  "streams (snd (touch_crate_bucket e bid s)) = streams s"
  "blobs (snd (touch_crate_bucket e bid s)) = blobs s"
  by (simp_all add: create_crate_bucket_def touch_crate_bucket_def Let_def)

end
