(* ===== verification/Grants.thy ===== *)
theory Grants
  imports Store_Schema Go_Base64 Store_Buckets
begin

text \<open>
  Grants as macaroons (fabric-sdk-go/grant) and the static part of a Hub. The macaroon library
  (gopkg.in/macaroon.v2), JSON encoding of the structures that are stored or signed, SHA-256 and
  the AEAD are parameters, gathered with the Hub's configuration and identity in the record
  \<open>sys\<close>. What is relied on of the macaroon library is \<open>mac_laws\<close>: a minted macaroon unmarshals to
  its identifier and caveats and verifies under its key, and a macaroon that verifies is one
  that was issued under the key, with caveats added at the end.
\<close>

record scope =
  sc_primitive :: string
  sc_namespace :: string
  sc_operations :: "string list"

record grant_identifier =
  idn_grant_id :: string
  idn_issued_at :: time
  idn_issued_by :: string
  idn_keypair :: bytes
  idn_parent :: string
  idn_scope :: scope

record grant =
  gt_id :: string
  gt_macaroon :: bytes
  gt_identifier :: grant_identifier
  gt_caveats :: "string list"

text \<open>An unmarshalled macaroon; a caveat with a verification id is a third-party caveat.\<close>

record macaroon =
  mc_id :: bytes
  mc_caveats :: "(string \<times> bytes option) list"

record sys =
  sy_sha256 :: "bytes \<Rightarrow> bytes"
  sy_aead :: aead
  sy_mac_new :: "bytes \<Rightarrow> bytes \<Rightarrow> string \<Rightarrow> string list \<Rightarrow> bytes option"
  sy_mac_unmarshal :: "bytes \<Rightarrow> macaroon option"
  sy_mac_verify :: "bytes \<Rightarrow> bytes \<Rightarrow> (string \<Rightarrow> bool) \<Rightarrow> bool"
  sy_id_marshal :: "grant_identifier \<Rightarrow> bytes option"
  sy_id_unmarshal :: "bytes \<Rightarrow> grant_identifier option"
  sy_json_scope :: "scope \<Rightarrow> string"
  sy_json_strings :: "string list \<Rightarrow> string"
  sy_json_map :: "(string \<times> int) list \<Rightarrow> string"
  sy_json_revocation :: "string \<Rightarrow> string \<Rightarrow> string \<Rightarrow> string \<Rightarrow> bytes"
  sy_unjson_strings :: "string \<Rightarrow> string list"
  sy_unjson_map :: "string \<Rightarrow> (string \<times> int) list"
  sy_blobs_root :: string
  sy_max_event_size :: int
  sy_retention :: int
  sy_strict_binding :: bool
  sy_strict_mint :: bool
  sy_strict_push :: bool
  sy_root_key :: bytes
  sy_hub_id :: string
  sy_public_key :: bytes

record mint_spec =
  ms_root_key :: bytes
  ms_location :: string
  ms_identifier :: grant_identifier
  ms_caveats :: "string list"

datatype grant_error = ErrMintFailed | ErrGrantUnmarshal | ErrGrantIdentifier | ErrSignatureInvalid

definition mint :: "sys \<Rightarrow> mint_spec \<Rightarrow> grant_error + grant" where
  "mint S sp =
     (case sy_id_marshal S (ms_identifier sp) of
        None \<Rightarrow> Inl ErrMintFailed
      | Some j \<Rightarrow>
          (case sy_mac_new S (ms_root_key sp) j (ms_location sp) (ms_caveats sp) of
             None \<Rightarrow> Inl ErrMintFailed
           | Some b \<Rightarrow> Inr \<lparr>gt_id = idn_grant_id (ms_identifier sp), gt_macaroon = b,
                gt_identifier = ms_identifier sp, gt_caveats = ms_caveats sp\<rparr>))"

definition caveat_text :: "string \<times> bytes option \<Rightarrow> string" where
  "caveat_text c = (case snd c of None \<Rightarrow> fst c | Some _ \<Rightarrow> ''third-party:'' @ fst c)"

definition parse_grant :: "sys \<Rightarrow> bytes \<Rightarrow> grant_error + grant" where
  "parse_grant S b =
     (case sy_mac_unmarshal S b of
        None \<Rightarrow> Inl ErrGrantUnmarshal
      | Some m \<Rightarrow>
          (case sy_id_unmarshal S (mc_id m) of
             None \<Rightarrow> Inl ErrGrantIdentifier
           | Some i \<Rightarrow> Inr \<lparr>gt_id = idn_grant_id i, gt_macaroon = b, gt_identifier = i,
                gt_caveats = map caveat_text (mc_caveats m)\<rparr>))"

definition verify_signature :: "sys \<Rightarrow> bytes \<Rightarrow> bytes \<Rightarrow> (string \<Rightarrow> bool) \<Rightarrow> grant_error + unit" where
  "verify_signature S b key check =
     (case sy_mac_unmarshal S b of
        None \<Rightarrow> Inl ErrGrantUnmarshal
      | Some m \<Rightarrow> if sy_mac_verify S key b check then Inr () else Inl ErrSignatureInvalid)"

definition always_satisfied :: "string \<Rightarrow> bool" where
  "always_satisfied c = True"

text \<open>
  What the development relies on. \<open>issued\<close> lists the identifiers and caveats of the macaroons
  made with a key.
\<close>

definition mint_laws :: "sys \<Rightarrow> bool" where
  "mint_laws S =
     ((\<forall>k j l cs b. sy_mac_new S k j l cs = Some b \<longrightarrow>
         sy_mac_unmarshal S b = Some \<lparr>mc_id = j, mc_caveats = map (\<lambda>c. (c, None)) cs\<rparr>
         \<and> (\<forall>check. sy_mac_verify S k b check = list_all check cs))
      \<and> (\<forall>i j. sy_id_marshal S i = Some j \<longrightarrow> sy_id_unmarshal S j = Some i))"

definition unforgeable :: "sys \<Rightarrow> (grant_identifier \<times> string list) set \<Rightarrow> bool" where
  "unforgeable S issued =
     (\<forall>b m check i. sy_mac_verify S (sy_root_key S) b check \<longrightarrow> sy_mac_unmarshal S b = Some m \<longrightarrow>
        sy_id_unmarshal S (mc_id m) = Some i \<longrightarrow>
        (\<exists>cs added. (i, cs) \<in> issued \<and> mc_caveats m = map (\<lambda>c. (c, None)) cs @ added))"

lemma mint_parse:
  assumes "mint_laws S" and "mint S sp = Inr g"
  shows "parse_grant S (gt_macaroon g) = Inr g"
    and "verify_signature S (gt_macaroon g) (ms_root_key sp) always_satisfied = Inr ()"
    and "verify_signature S (gt_macaroon g) (ms_root_key sp) check = Inr () \<longleftrightarrow>
           list_all check (ms_caveats sp)"
    and "gt_identifier g = ms_identifier sp" "gt_caveats g = ms_caveats sp"
proof -
  obtain j b where j: "sy_id_marshal S (ms_identifier sp) = Some j"
    "sy_mac_new S (ms_root_key sp) j (ms_location sp) (ms_caveats sp) = Some b"
    and g: "g = \<lparr>gt_id = idn_grant_id (ms_identifier sp), gt_macaroon = b,
                gt_identifier = ms_identifier sp, gt_caveats = ms_caveats sp\<rparr>"
    using assms(2) by (auto simp: mint_def split: option.splits)
  have u: "sy_mac_unmarshal S b = Some \<lparr>mc_id = j, mc_caveats = map (\<lambda>c. (c, None)) (ms_caveats sp)\<rparr>"
    "\<And>check. sy_mac_verify S (ms_root_key sp) b check = list_all check (ms_caveats sp)"
    "sy_id_unmarshal S j = Some (ms_identifier sp)"
    using assms(1) j by (auto simp: mint_laws_def)
  have "map caveat_text (map (\<lambda>c. (c, None)) cs) = cs" for cs
    by (induction cs) (auto simp: caveat_text_def)
  then show "parse_grant S (gt_macaroon g) = Inr g" using u g by (simp add: parse_grant_def)
  show "verify_signature S (gt_macaroon g) (ms_root_key sp) always_satisfied = Inr ()"
    "verify_signature S (gt_macaroon g) (ms_root_key sp) check = Inr () \<longleftrightarrow>
       list_all check (ms_caveats sp)"
    "gt_identifier g = ms_identifier sp" "gt_caveats g = ms_caveats sp"
    using u g by (auto simp: verify_signature_def always_satisfied_def list_all_iff)
qed

lemma parse_unforgeable:
  assumes "unforgeable S issued" and "verify_signature S b (sy_root_key S) check = Inr ()"
    and "parse_grant S b = Inr g"
  obtains cs where "(gt_identifier g, cs) \<in> issued" "set cs \<subseteq> set (gt_caveats g)"
    "take (length cs) (gt_caveats g) = cs"
proof -
  obtain m i where m: "sy_mac_unmarshal S b = Some m" "sy_id_unmarshal S (mc_id m) = Some i"
    "gt_identifier g = i" "gt_caveats g = map caveat_text (mc_caveats m)"
    using assms(3) by (auto simp: parse_grant_def split: option.splits)
  moreover have "sy_mac_verify S (sy_root_key S) b check"
    using assms(2) m(1) by (auto simp: verify_signature_def split: if_splits)
  ultimately obtain cs added where cs: "(i, cs) \<in> issued"
    "mc_caveats m = map (\<lambda>c. (c, None)) cs @ added"
    using assms(1) unfolding unforgeable_def by blast
  have "map caveat_text (map (\<lambda>c. (c, None)) cs) = cs"
    by (induction cs) (auto simp: caveat_text_def)
  then have "gt_caveats g = cs @ map caveat_text added" using m(4) cs(2) by simp
  then show thesis using that cs(1) m(3) by simp
qed

section \<open>Replies\<close>

text \<open>
  An error response is its status, its code and its retryable flag; the message is left out. A
  handler that returns without writing gives \<open>NoReply\<close> (net/http then sends an empty 200), and
  \<open>Raw\<close> is a body sent as it was stored.
\<close>

datatype http_err = HttpErr int string bool

datatype 'a reply = Reply int 'a | Failure http_err | NoReply | Raw int bytes

fun reply_status :: "'a reply \<Rightarrow> int" where
  "reply_status (Reply st x) = st"
| "reply_status (Failure (HttpErr st code retryable)) = st"
| "reply_status NoReply = 0"
| "reply_status (Raw st b) = st"

definition grant_missing :: http_err where "grant_missing = HttpErr 401 ''grant_missing'' False"
definition grant_invalid :: http_err where "grant_invalid = HttpErr 401 ''grant_invalid'' False"
definition grant_revoked :: http_err where "grant_revoked = HttpErr 401 ''grant_revoked'' False"
definition principal_retired :: http_err where
  "principal_retired = HttpErr 401 ''principal_retired'' False"
definition bad_request :: http_err where "bad_request = HttpErr 400 ''bad_request'' False"
definition scope_denied :: http_err where "scope_denied = HttpErr 403 ''scope_denied'' False"
definition caveat_unmet :: http_err where "caveat_unmet = HttpErr 403 ''caveat_unmet'' False"
definition rate_limited :: http_err where "rate_limited = HttpErr 429 ''rate_limited'' True"
definition not_found :: http_err where "not_found = HttpErr 404 ''not_found'' False"
definition conflict :: http_err where "conflict = HttpErr 409 ''conflict'' False"
definition unavailable :: http_err where "unavailable = HttpErr 500 ''unavailable'' True"
definition not_implemented :: http_err where
  "not_implemented = HttpErr 501 ''not_implemented'' False"

end
