(* ===== verification/Caveats.thy ===== *)
theory Caveats
  imports Complex_Main Store_Schema
begin

text \<open>
  The caveat language of grants (nakli-hub/internal/server/caveats.go) and the Hub's volatile
  state it consults (runtime.go): token buckets per grant id and the cache of discharges. Both
  are LRU caches of a library; the model keeps a map and lets the environment say which other
  entries an Add has evicted. Token counts are rationals where the code has float64.
\<close>

section \<open>Volatile state\<close>

record rate_bucket =
  rb_capacity :: int
  rb_window :: time
  rb_tokens :: rat
  rb_last_refill :: time

record cached_discharge =
  cd_mac :: bytes
  cd_expires :: time

record volatile =
  rate_buckets :: "string \<rightharpoonup> rate_bucket"
  discharge_cache :: "string \<rightharpoonup> cached_discharge"

definition empty_volatile :: volatile where
  "empty_volatile = \<lparr>rate_buckets = (\<lambda>_. None), discharge_cache = (\<lambda>_. None)\<rparr>"

definition lru_add :: "env \<Rightarrow> string \<Rightarrow> 'v \<Rightarrow> (string \<rightharpoonup> 'v) \<Rightarrow> (string \<rightharpoonup> 'v)" where
  "lru_add e k v m = (\<lambda>k'. if k' = k then Some v else if en_evicted e k' then None else m k')"

text \<open>rateBucket.take: refill for the time gone by, then take a token if there is one.\<close>

definition bucket_take :: "time \<Rightarrow> rate_bucket \<Rightarrow> bool \<times> rate_bucket" where
  "bucket_take now b =
     (let elapsed = now - rb_last_refill b;
          b1 = (if 0 < elapsed
                then b\<lparr>rb_tokens := min (of_int (rb_capacity b))
                          (rb_tokens b + of_int (rb_capacity b) * of_int elapsed / of_int (rb_window b)),
                       rb_last_refill := now\<rparr>
                else b)
      in if rb_tokens b1 < 1 then (False, b1) else (True, b1\<lparr>rb_tokens := rb_tokens b1 - 1\<rparr>))"

definition rate_consume ::
  "env \<Rightarrow> string \<Rightarrow> int \<Rightarrow> time \<Rightarrow> volatile \<Rightarrow> bool \<times> volatile" where
  "rate_consume e gid cap window v =
     (if cap \<le> 0 \<or> window \<le> 0 then (True, v)
      else
        let fresh = \<lparr>rb_capacity = cap, rb_window = window, rb_tokens = of_int cap,
                     rb_last_refill = en_now e\<rparr>;
            (b, v1) = (case rate_buckets v gid of
                None \<Rightarrow> (fresh, v\<lparr>rate_buckets := lru_add e gid fresh (rate_buckets v)\<rparr>)
              | Some b \<Rightarrow>
                  if rb_capacity b \<noteq> cap \<or> rb_window b \<noteq> window
                  then (fresh, v\<lparr>rate_buckets := lru_add e gid fresh (rate_buckets v)\<rparr>)
                  else (b, v));
            (ok, b') = bucket_take (en_now e) b
        in (ok, v1\<lparr>rate_buckets := (rate_buckets v1)(gid \<mapsto> b')\<rparr>))"

definition discharge_remember :: "env \<Rightarrow> string \<Rightarrow> bytes \<Rightarrow> time \<Rightarrow> volatile \<Rightarrow> volatile" where
  "discharge_remember e cid mac ttl v =
     v\<lparr>discharge_cache := lru_add e cid \<lparr>cd_mac = mac, cd_expires = en_now e + ttl\<rparr>
         (discharge_cache v)\<rparr>"

definition discharge_lookup :: "env \<Rightarrow> string \<Rightarrow> volatile \<Rightarrow> bytes option \<times> volatile" where
  "discharge_lookup e cid v =
     (case discharge_cache v cid of
        None \<Rightarrow> (None, v)
      | Some d \<Rightarrow>
          if cd_expires d < en_now e
          then (None, v\<lparr>discharge_cache := (discharge_cache v)(cid := None)\<rparr>)
          else (Some (cd_mac d), v))"

section \<open>The evaluator\<close>

text \<open>\<open>cx_server\<close> is false for the hypothetical checks of /grant/verify, where Server is nil.\<close>

record caveat_context =
  cx_now :: time
  cx_operation :: string
  cx_namespace :: string
  cx_has_idempotency_key :: bool
  cx_is_delegation :: bool
  cx_grant_id :: string
  cx_principal_type :: string
  cx_agent_id :: string
  cx_device_id :: string
  cx_is_bridge :: bool
  cx_bridge_domain :: string
  cx_bridge_amount :: int
  cx_bridge_currency :: string
  cx_server :: bool
  cx_discharge_ids :: "string list"
  cx_strict :: bool

datatype rejection_kind = KindUnmet | KindRateLimited | KindHumanApproval

record caveat_error =
  ce_caveat :: string
  ce_kind :: rejection_kind

definition caveat_err :: "string \<Rightarrow> caveat_error option" where
  "caveat_err c = Some \<lparr>ce_caveat = c, ce_kind = KindUnmet\<rparr>"

definition require :: "bool \<Rightarrow> string \<Rightarrow> caveat_error option" where
  "require b c = (if b then None else caveat_err c)"

definition parse_list_bracket :: "string \<Rightarrow> string list" where
  "parse_list_bracket s =
     (let t = trim_suffix '']'' (trim_prefix ''['' (trim_space s))
      in filter (\<lambda>v. v \<noteq> []) (map trim_space (split_char CHR '','' t)))"

text \<open>The digits accumulate in an int, which wraps at 64 bits.\<close>

definition parse_positive_int :: "string \<Rightarrow> int option" where
  "parse_positive_int s =
     (let t = trim_space s
      in if t = [] \<or> \<not> list_all is_digit t then None
         else let n = foldl (\<lambda>n c. wrap64 (n * 10 + int (digit_val c))) 0 t
              in if n \<le> 0 then None else Some n)"

definition parse_window :: "string \<Rightarrow> time option" where
  "parse_window s =
     (let t = trim_space s
      in if t = ''second'' then Some second
         else if t = ''minute'' then Some minute
         else if t = ''hour'' then Some hour
         else if t = ''day'' then Some day
         else None)"

definition check_time_before :: "string \<Rightarrow> time \<Rightarrow> caveat_error option" where
  "check_time_before s now =
     (case parse_timestamp s of
        None \<Rightarrow> caveat_err (''time < '' @ s)
      | Some t \<Rightarrow> if \<not> now < t then caveat_err (''time < '' @ s) else None)"

definition check_time_after :: "string \<Rightarrow> time \<Rightarrow> caveat_error option" where
  "check_time_after s now =
     (case parse_timestamp s of
        None \<Rightarrow> caveat_err (''time > '' @ s)
      | Some t \<Rightarrow> if \<not> t < now then caveat_err (''time > '' @ s) else None)"

definition check_operation_in :: "string \<Rightarrow> string \<Rightarrow> caveat_error option" where
  "check_operation_in body op =
     require (list_ex (\<lambda>a. a = op) (parse_list_bracket body)) (''operation in '' @ body)"

definition check_principal_type_in ::
  "string \<Rightarrow> string \<Rightarrow> string \<Rightarrow> bool \<Rightarrow> caveat_error option" where
  "check_principal_type_in body ty original strict =
     (if ty = [] then (if strict then caveat_err original else None)
      else require (list_ex (\<lambda>a. a = ty) (parse_list_bracket body)) original)"

definition check_equals :: "string \<Rightarrow> string \<Rightarrow> string \<Rightarrow> bool \<Rightarrow> caveat_error option" where
  "check_equals body val original strict =
     (if val = [] then (if strict then caveat_err original else None)
      else require (trim_space body = val) original)"

text \<open>strings.SplitN (body, sep, 2) has two parts exactly when the separator occurs.\<close>

definition check_rate ::
  "env \<Rightarrow> string \<Rightarrow> caveat_context \<Rightarrow> string \<Rightarrow> volatile \<Rightarrow> caveat_error option \<times> volatile" where
  "check_rate e body cx original v =
     (case split_once '' per '' (trim_space body) of
        None \<Rightarrow> (caveat_err original, v)
      | Some (a, b) \<Rightarrow>
          (case parse_positive_int a of
             None \<Rightarrow> (caveat_err original, v)
           | Some n \<Rightarrow>
               (case parse_window b of
                  None \<Rightarrow> (caveat_err original, v)
                | Some w \<Rightarrow>
                    if \<not> cx_server cx \<or> cx_grant_id cx = [] then (None, v)
                    else let (ok, v') = rate_consume e (cx_grant_id cx) n w v
                         in (if ok then None
                             else Some \<lparr>ce_caveat = original, ce_kind = KindRateLimited\<rparr>, v'))))"

definition check_max_amount :: "string \<Rightarrow> caveat_context \<Rightarrow> string \<Rightarrow> caveat_error option" where
  "check_max_amount body cx original =
     (if \<not> cx_is_bridge cx then None
      else case str_fields (trim_space body) of
             [a, cur] \<Rightarrow>
               (case parse_positive_int a of
                  None \<Rightarrow> caveat_err original
                | Some n \<Rightarrow>
                    require (equal_fold (cx_bridge_currency cx) cur \<and> cx_bridge_amount cx \<le> n)
                      original)
           | _ \<Rightarrow> caveat_err original)"

definition check_only_domain :: "string \<Rightarrow> caveat_context \<Rightarrow> string \<Rightarrow> caveat_error option" where
  "check_only_domain body cx original =
     (if \<not> cx_is_bridge cx then None
      else if cx_bridge_domain cx = [] then caveat_err original
      else let d = to_lower (trim_space (cx_bridge_domain cx))
           in require (list_ex (\<lambda>a. equal_fold (trim_space a) d) (parse_list_bracket body)) original)"

definition check_discharge_from ::
  "env \<Rightarrow> string \<Rightarrow> caveat_context \<Rightarrow> string \<Rightarrow> volatile \<Rightarrow> caveat_error option \<times> volatile" where
  "check_discharge_from e body cx original v =
     (let want = trim_space body
      in if want = [] then (caveat_err original, v)
         else if \<not> cx_server cx then (None, v)
         else if list_ex (\<lambda>i. i = want) (cx_discharge_ids cx) then (None, v)
         else case discharge_lookup e want v of
                (Some _, v') \<Rightarrow> (None, v')
              | (None, v') \<Rightarrow> (caveat_err original, v'))"

definition body_of :: "string \<Rightarrow> string \<Rightarrow> string" where
  "body_of p c = drop (length p) c"

definition evaluate_one ::
  "env \<Rightarrow> string \<Rightarrow> caveat_context \<Rightarrow> volatile \<Rightarrow> caveat_error option \<times> volatile" where
  "evaluate_one e c cx v =
     (if has_prefix ''time < '' c
      then (check_time_before (body_of ''time < '' c) (cx_now cx), v)
      else if has_prefix ''time > '' c
      then (check_time_after (body_of ''time > '' c) (cx_now cx), v)
      else if has_prefix ''principal-type in '' c
      then (check_principal_type_in (body_of ''principal-type in '' c) (cx_principal_type cx) c
              (cx_strict cx), v)
      else if has_prefix ''agent-id == '' c
      then (check_equals (body_of ''agent-id == '' c) (cx_agent_id cx) c (cx_strict cx), v)
      else if has_prefix ''device-id == '' c
      then (check_equals (body_of ''device-id == '' c) (cx_device_id cx) c (cx_strict cx), v)
      else if has_prefix ''operation in '' c
      then (check_operation_in (body_of ''operation in '' c) (cx_operation cx), v)
      else if has_prefix ''namespace == '' c
      then (require (cx_namespace cx = trim_space (body_of ''namespace == '' c)) c, v)
      else if c = ''nondelegatable'' then (require (\<not> cx_is_delegation cx) c, v)
      else if c = ''idempotency-required'' then (require (cx_has_idempotency_key cx) c, v)
      else if has_prefix ''rate <= '' c then check_rate e (body_of ''rate <= '' c) cx c v
      else if has_prefix ''max-amount <= '' c
      then (check_max_amount (body_of ''max-amount <= '' c) cx c, v)
      else if has_prefix ''only-domain in '' c
      then (check_only_domain (body_of ''only-domain in '' c) cx c, v)
      else if c = ''requires-human-approval''
      then (if cx_is_bridge cx then Some \<lparr>ce_caveat = c, ce_kind = KindHumanApproval\<rparr> else None, v)
      else if has_prefix ''discharge-from '' c
      then check_discharge_from e (body_of ''discharge-from '' c) cx c v
      else (caveat_err c, v))"

fun evaluate_caveats ::
  "env \<Rightarrow> string list \<Rightarrow> caveat_context \<Rightarrow> volatile \<Rightarrow> caveat_error option \<times> volatile" where
  "evaluate_caveats e [] cx v = (None, v)"
| "evaluate_caveats e (c # cs) cx v =
     (case evaluate_one e (trim_space c) cx v of
        (Some err, v') \<Rightarrow> (Some err, v')
      | (None, v') \<Rightarrow> evaluate_caveats e cs cx v')"

section \<open>What caveats mean\<close>

text \<open>
  The abstract caveats, the parser that gives a caveat string its meaning, and when a caveat is
  met. A rate caveat is met as far as its syntax goes; the tokens are accounted for below. A
  caveat that is only looked at on bridge calls may be malformed elsewhere.
\<close>

datatype caveat =
    NotAfter time
  | NotBefore time
  | PrincipalTypes "string list"
  | AgentIs string
  | DeviceIs string
  | OperationIn "string list"
  | NamespaceIs string
  | NonDelegatable
  | IdempotencyRequired
  | Rate int time
  | MaxAmount int string
  | OnlyDomains "string list"
  | HumanApproval
  | DischargeFrom string
  | BadOnBridge
  | Malformed

definition parse_rate :: "string \<Rightarrow> caveat" where
  "parse_rate body =
     (case split_once '' per '' (trim_space body) of
        None \<Rightarrow> Malformed
      | Some (a, b) \<Rightarrow>
          (case (parse_positive_int a, parse_window b) of
             (Some n, Some w) \<Rightarrow> Rate n w | _ \<Rightarrow> Malformed))"

definition parse_max_amount :: "string \<Rightarrow> caveat" where
  "parse_max_amount body =
     (case str_fields (trim_space body) of
        [a, cur] \<Rightarrow> (case parse_positive_int a of None \<Rightarrow> BadOnBridge | Some n \<Rightarrow> MaxAmount n cur)
      | _ \<Rightarrow> BadOnBridge)"

definition parse_time :: "(time \<Rightarrow> caveat) \<Rightarrow> string \<Rightarrow> caveat" where
  "parse_time k s = (case parse_timestamp s of None \<Rightarrow> Malformed | Some t \<Rightarrow> k t)"

definition parse_caveat :: "string \<Rightarrow> caveat" where
  "parse_caveat c =
     (if has_prefix ''time < '' c then parse_time NotAfter (body_of ''time < '' c)
      else if has_prefix ''time > '' c then parse_time NotBefore (body_of ''time > '' c)
      else if has_prefix ''principal-type in '' c
      then PrincipalTypes (parse_list_bracket (body_of ''principal-type in '' c))
      else if has_prefix ''agent-id == '' c then AgentIs (trim_space (body_of ''agent-id == '' c))
      else if has_prefix ''device-id == '' c then DeviceIs (trim_space (body_of ''device-id == '' c))
      else if has_prefix ''operation in '' c
      then OperationIn (parse_list_bracket (body_of ''operation in '' c))
      else if has_prefix ''namespace == '' c
      then NamespaceIs (trim_space (body_of ''namespace == '' c))
      else if c = ''nondelegatable'' then NonDelegatable
      else if c = ''idempotency-required'' then IdempotencyRequired
      else if has_prefix ''rate <= '' c then parse_rate (body_of ''rate <= '' c)
      else if has_prefix ''max-amount <= '' c then parse_max_amount (body_of ''max-amount <= '' c)
      else if has_prefix ''only-domain in '' c
      then OnlyDomains (parse_list_bracket (body_of ''only-domain in '' c))
      else if c = ''requires-human-approval'' then HumanApproval
      else if has_prefix ''discharge-from '' c
      then (let want = trim_space (body_of ''discharge-from '' c)
            in if want = [] then Malformed else DischargeFrom want)
      else Malformed)"

definition discharged :: "env \<Rightarrow> caveat_context \<Rightarrow> volatile \<Rightarrow> string \<Rightarrow> bool" where
  "discharged e cx v want =
     (\<not> cx_server cx \<or> want \<in> set (cx_discharge_ids cx)
      \<or> (case discharge_cache v want of None \<Rightarrow> False | Some d \<Rightarrow> en_now e \<le> cd_expires d))"

fun meets :: "env \<Rightarrow> caveat_context \<Rightarrow> volatile \<Rightarrow> caveat \<Rightarrow> bool" where
  "meets e cx v (NotAfter t) = (cx_now cx < t)"
| "meets e cx v (NotBefore t) = (t < cx_now cx)"
| "meets e cx v (PrincipalTypes ts) =
     (cx_principal_type cx \<in> set ts \<or> cx_principal_type cx = [] \<and> \<not> cx_strict cx)"
| "meets e cx v (AgentIs a) = (cx_agent_id cx = a \<and> a \<noteq> [] \<or> cx_agent_id cx = [] \<and> \<not> cx_strict cx)"
| "meets e cx v (DeviceIs a) = (cx_device_id cx = a \<and> a \<noteq> [] \<or> cx_device_id cx = [] \<and> \<not> cx_strict cx)"
| "meets e cx v (OperationIn ops) = (cx_operation cx \<in> set ops)"
| "meets e cx v (NamespaceIs ns) = (cx_namespace cx = ns)"
| "meets e cx v NonDelegatable = (\<not> cx_is_delegation cx)"
| "meets e cx v IdempotencyRequired = cx_has_idempotency_key cx"
| "meets e cx v (Rate n w) = True"
| "meets e cx v (MaxAmount n cur) =
     (cx_is_bridge cx \<longrightarrow> equal_fold (cx_bridge_currency cx) cur \<and> cx_bridge_amount cx \<le> n)"
| "meets e cx v (OnlyDomains ds) =
     (cx_is_bridge cx \<longrightarrow> cx_bridge_domain cx \<noteq> []
        \<and> (\<exists>d\<in>set ds. equal_fold (trim_space d) (to_lower (trim_space (cx_bridge_domain cx)))))"
| "meets e cx v HumanApproval = (\<not> cx_is_bridge cx)"
| "meets e cx v (DischargeFrom want) = discharged e cx v want"
| "meets e cx v BadOnBridge = (\<not> cx_is_bridge cx)"
| "meets e cx v Malformed = False"

fun is_rate :: "caveat \<Rightarrow> bool" where
  "is_rate (Rate n w) = True"
| "is_rate _ = False"

lemma require_simps [simp]:
  "require b c = None \<longleftrightarrow> b" "caveat_err c \<noteq> None" "caveat_err c = None \<longleftrightarrow> False"
  by (simp_all add: require_def caveat_err_def)

lemma parse_list_bracket_not_Nil: "[] \<notin> set (parse_list_bracket s)"
  by (simp add: parse_list_bracket_def Let_def)

lemma check_time_meets:
  "check_time_before s (cx_now cx) = None \<longleftrightarrow> meets e cx v (parse_time NotAfter s)"
  "check_time_after s (cx_now cx) = None \<longleftrightarrow> meets e cx v (parse_time NotBefore s)"
  by (auto simp: check_time_before_def check_time_after_def parse_time_def split: option.splits)

lemma check_lists_meet:
  "check_principal_type_in body (cx_principal_type cx) c (cx_strict cx) = None \<longleftrightarrow>
     meets e cx v (PrincipalTypes (parse_list_bracket body))"
  "check_operation_in body (cx_operation cx) = None \<longleftrightarrow>
     meets e cx v (OperationIn (parse_list_bracket body))"
  "check_only_domain body cx c = None \<longleftrightarrow> meets e cx v (OnlyDomains (parse_list_bracket body))"
  using parse_list_bracket_not_Nil [of body]
  by (auto simp: check_principal_type_in_def check_operation_in_def check_only_domain_def
      list_ex_iff Let_def)

lemma check_equals_meets:
  "check_equals body (cx_agent_id cx) c (cx_strict cx) = None \<longleftrightarrow>
     meets e cx v (AgentIs (trim_space body))"
  "check_equals body (cx_device_id cx) c (cx_strict cx) = None \<longleftrightarrow>
     meets e cx v (DeviceIs (trim_space body))"
  by (auto simp: check_equals_def)

lemma check_max_amount_meets:
  "check_max_amount body cx c = None \<longleftrightarrow> meets e cx v (parse_max_amount body)"
  by (auto simp: check_max_amount_def parse_max_amount_def split: list.splits option.splits)

lemma check_discharge_meets:
  "fst (check_discharge_from e body cx c v) = None \<longleftrightarrow>
     meets e cx v (let want = trim_space body in if want = [] then Malformed else DischargeFrom want)"
  by (auto simp: check_discharge_from_def discharged_def discharge_lookup_def Let_def list_ex_iff
      split: option.splits)

lemma check_rate_meets:
  "fst (check_rate e body cx c v) = None \<Longrightarrow> meets e cx v (parse_rate body)"
  "\<not> is_rate (parse_rate body) \<Longrightarrow>
     fst (check_rate e body cx c v) = None \<longleftrightarrow> meets e cx v (parse_rate body)"
  by (auto simp: check_rate_def parse_rate_def split: option.splits prod.splits if_splits)

text \<open>The evaluator decides what the parsed caveat means, rates apart.\<close>

definition decides ::
  "env \<Rightarrow> caveat_context \<Rightarrow> volatile \<Rightarrow> caveat_error option \<times> volatile \<Rightarrow> caveat \<Rightarrow> bool" where
  "decides e cx v r c =
     ((fst r = None \<longrightarrow> meets e cx v c) \<and> (meets e cx v c \<longrightarrow> fst r = None \<or> is_rate c))"

lemma decides_if:
  "(P \<Longrightarrow> decides e cx v a c) \<Longrightarrow> (\<not> P \<Longrightarrow> decides e cx v b d) \<Longrightarrow>
     decides e cx v (if P then a else b) (if P then c else d)"
  by simp

lemma decides_iff: "(fst r = None \<longleftrightarrow> meets e cx v c) \<Longrightarrow> decides e cx v r c"
  by (simp add: decides_def)

lemma decides_rate: "decides e cx v (check_rate e body cx c v) (parse_rate body)"
  using check_rate_meets by (auto simp: decides_def)

lemma decides_leaves:
  "decides e cx v (check_time_before s (cx_now cx), v) (parse_time NotAfter s)"
  "decides e cx v (check_time_after s (cx_now cx), v) (parse_time NotBefore s)"
  "decides e cx v (check_principal_type_in s (cx_principal_type cx) c (cx_strict cx), v)
     (PrincipalTypes (parse_list_bracket s))"
  "decides e cx v (check_equals s (cx_agent_id cx) c (cx_strict cx), v) (AgentIs (trim_space s))"
  "decides e cx v (check_equals s (cx_device_id cx) c (cx_strict cx), v) (DeviceIs (trim_space s))"
  "decides e cx v (check_operation_in s (cx_operation cx), v) (OperationIn (parse_list_bracket s))"
  "decides e cx v (require (cx_namespace cx = ns) c, v) (NamespaceIs ns)"
  "decides e cx v (require (\<not> cx_is_delegation cx) c, v) NonDelegatable"
  "decides e cx v (require (cx_has_idempotency_key cx) c, v) IdempotencyRequired"
  "decides e cx v (check_max_amount s cx c, v) (parse_max_amount s)"
  "decides e cx v (check_only_domain s cx c, v) (OnlyDomains (parse_list_bracket s))"
  by (rule decides_iff, simp only: fst_conv check_time_meets [where e = e and v = v]
      check_lists_meet [where e = e and v = v] check_equals_meets [where e = e and v = v]
      check_max_amount_meets [where e = e and v = v] require_simps meets.simps)+

lemma decides_last:
  "decides e cx v (if cx_is_bridge cx then Some err else None, v) HumanApproval"
  "decides e cx v (check_discharge_from e s cx c v)
     (let want = trim_space s in if want = [] then Malformed else DischargeFrom want)"
  "decides e cx v (caveat_err c, v) Malformed"
  by (rule decides_iff, simp, rule decides_iff, rule check_discharge_meets, rule decides_iff, simp)

lemma evaluate_one_decides: "decides e cx v (evaluate_one e c cx v) (parse_caveat c)"
  unfolding evaluate_one_def parse_caveat_def
  by (intro decides_if decides_rate decides_leaves decides_last)

text \<open>Evaluation only forgets expired discharges and moves tokens, so it does not change what is met.\<close>

definition same_discharges :: "env \<Rightarrow> volatile \<Rightarrow> volatile \<Rightarrow> bool" where
  "same_discharges e v v' = (\<forall>cx w. discharged e cx v' w = discharged e cx v w)"

lemma same_discharges_refl [simp]: "same_discharges e v v"
  by (simp add: same_discharges_def)

lemma rate_consume_discharges: "discharge_cache (snd (rate_consume e gid n w v)) = discharge_cache v"
  by (simp add: rate_consume_def Let_def case_prod_beta split: option.splits)

lemma check_rate_same: "same_discharges e v (snd (check_rate e body cx c v))"
proof -
  have "discharge_cache (snd (check_rate e body cx c v)) = discharge_cache v"
    by (simp add: check_rate_def Let_def case_prod_beta rate_consume_discharges
        split: option.splits)
  then show ?thesis by (simp add: same_discharges_def discharged_def)
qed

lemma check_discharge_same: "same_discharges e v (snd (check_discharge_from e body cx c v))"
  by (auto simp: check_discharge_from_def same_discharges_def discharged_def discharge_lookup_def
      Let_def split: option.splits)

lemma evaluate_one_same: "same_discharges e v (snd (evaluate_one e c cx v))"
  unfolding evaluate_one_def
  by (simp add: check_rate_same check_discharge_same)

lemma meets_same: "same_discharges e v v' \<Longrightarrow> meets e cx v' c = meets e cx v c"
  by (cases c) (simp_all add: same_discharges_def)

lemma evaluate_caveats_sound:
  "fst (evaluate_caveats e cs cx v) = None \<Longrightarrow> c \<in> set cs \<Longrightarrow>
     meets e cx v (parse_caveat (trim_space c))"
proof (induction cs arbitrary: v)
  case (Cons a cs)
  obtain r v' where r: "evaluate_one e (trim_space a) cx v = (r, v')" by fastforce
  have none: "r = None" using Cons.prems(1) r by (cases r) auto
  have "meets e cx v (parse_caveat (trim_space a))"
    using evaluate_one_decides [of e cx v "trim_space a"] r none by (simp add: decides_def)
  moreover have "meets e cx v' d = meets e cx v d" for d
    using meets_same evaluate_one_same [of e v "trim_space a" cx] r by (metis snd_conv)
  ultimately show ?case using Cons r none by auto
qed simp

lemma evaluate_caveats_complete:
  "\<forall>c\<in>set cs. meets e cx v (parse_caveat (trim_space c)) \<and> \<not> is_rate (parse_caveat (trim_space c)) \<Longrightarrow>
     fst (evaluate_caveats e cs cx v) = None"
proof (induction cs arbitrary: v)
  case (Cons a cs)
  obtain r v' where r: "evaluate_one e (trim_space a) cx v = (r, v')" by fastforce
  have none: "r = None"
    using evaluate_one_decides [of e cx v "trim_space a"] r Cons.prems by (simp add: decides_def)
  have "meets e cx v' d = meets e cx v d" for d
    using meets_same evaluate_one_same [of e v "trim_space a" cx] r by (metis snd_conv)
  then show ?case using Cons r none by auto
qed simp

lemma evaluate_caveats_append:
  "evaluate_caveats e (cs @ ds) cx v =
     (case evaluate_caveats e cs cx v of
        (Some err, v') \<Rightarrow> (Some err, v') | (None, v') \<Rightarrow> evaluate_caveats e ds cx v')"
  by (induction cs arbitrary: v) (auto split: prod.splits option.splits)

section \<open>The token bucket\<close>

definition bucket_ok :: "rate_bucket \<Rightarrow> bool" where
  "bucket_ok b = (0 < rb_capacity b \<and> 0 < rb_window b \<and> 0 \<le> rb_tokens b
     \<and> rb_tokens b \<le> of_int (rb_capacity b))"

lemma bucket_take_facts:
  assumes "bucket_ok b" and "bucket_take now b = (ok, b')"
  shows "bucket_ok b'" "rb_capacity b' = rb_capacity b" "rb_window b' = rb_window b"
    "rb_last_refill b' = max now (rb_last_refill b)"
    "rb_tokens b' + (if ok then 1 else 0) \<le> rb_tokens b + of_int (rb_capacity b)
       * of_int (rb_last_refill b' - rb_last_refill b) / of_int (rb_window b)"
proof -
  have nonneg: "0 \<le> (of_int (rb_capacity b) * of_int d / of_int (rb_window b) :: rat)" if "0 < d" for d
    using assms(1) that by (simp add: bucket_ok_def)
  show "bucket_ok b'" "rb_capacity b' = rb_capacity b" "rb_window b' = rb_window b"
    "rb_last_refill b' = max now (rb_last_refill b)"
    using assms nonneg [of "now - rb_last_refill b"]
    by (auto simp: bucket_take_def Let_def bucket_ok_def split: if_splits)
  show "rb_tokens b' + (if ok then 1 else 0) \<le> rb_tokens b + of_int (rb_capacity b)
       * of_int (rb_last_refill b' - rb_last_refill b) / of_int (rb_window b)"
    using assms by (auto simp: bucket_take_def Let_def split: if_splits)
qed

end
