(* ===== verification/Single_Use.thy ===== *)
theory Single_Use
  imports Mesh_Prelude
begin

text \<open>
  The guarded UPDATE of the store: UPDATE ... SET mark = ? WHERE key = ? AND mark IS NULL. The
  revocation of a grant, the retirement of a principal, the completion of a pairing and the
  redemption of a crate token are of this form. A row is open until the first update closes it;
  the locale derives that an update finds at most one open row, that a closed row never changes
  again and that of any number of attempts on a key exactly the first finds the row open.
\<close>

locale single_use =
  fixes key :: "'r \<Rightarrow> string"
    and opened :: "'r \<Rightarrow> bool"
    and close :: "'a \<Rightarrow> 'r \<Rightarrow> 'r"
  assumes key_close: "key (close a r) = key r"
    and close_closed: "\<not> opened (close a r)"
begin

definition guarded :: "string \<Rightarrow> 'r \<Rightarrow> bool" where
  "guarded k r = (key r = k \<and> opened r)"

definition attempt :: "'a \<Rightarrow> string \<Rightarrow> 'r list \<Rightarrow> 'r list" where
  "attempt a k rs = update_where (guarded k) (close a) rs"

lemma attempt_keys: "map key (attempt a k rs) = map key rs"
  by (simp add: attempt_def key_close)

lemma attempt_lookup:
  "lookup_by key k' (attempt a k rs) =
     map_option (\<lambda>r. if k' = k \<and> opened r then close a r else r) (lookup_by key k' rs)"
proof -
  have "lookup_by key k' (attempt a k rs)
      = map_option (\<lambda>r. if guarded k r then close a r else r) (lookup_by key k' rs)"
    unfolding attempt_def by (rule lookup_update_where) (rule key_close)
  also have "\<dots> = map_option (\<lambda>r. if k' = k \<and> opened r then close a r else r) (lookup_by key k' rs)"
    by (rule option.map_cong0) (auto simp: guarded_def dest: lookup_by_SomeD)
  finally show ?thesis .
qed

lemma attempt_closes: "lookup_by key k (attempt a k rs) = Some r \<Longrightarrow> \<not> opened r"
  by (cases "lookup_by key k rs"; cases "opened (the (lookup_by key k rs))")
    (auto simp: attempt_lookup close_closed)

lemma closed_stays:
  "lookup_by key k rs = Some r \<Longrightarrow> \<not> opened r \<Longrightarrow> lookup_by key k (attempt a k' rs) = Some r"
  by (simp add: attempt_lookup)

lemma attempt_other: "k' \<noteq> k \<Longrightarrow> lookup_by key k' (attempt a k rs) = lookup_by key k' rs"
  by (cases "lookup_by key k' rs") (simp_all add: attempt_lookup)

lemma attempt_no_row: "rows_matching (guarded k) rs = 0 \<Longrightarrow> attempt a k rs = rs"
  by (simp add: attempt_def rows_matching_zero update_where_none)

lemma second_attempt_misses: "rows_matching (guarded k) (attempt a k rs) = 0"
  unfolding rows_matching_zero attempt_def guarded_def
  by (induction rs) (simp_all add: close_closed key_close)

lemma misses_stay: "rows_matching (guarded k) rs = 0 \<Longrightarrow> rows_matching (guarded k) (attempt a k' rs) = 0"
  unfolding rows_matching_zero attempt_def guarded_def
  by (induction rs) (simp_all add: close_closed key_close)

lemma hits_iff_open:
  assumes "distinct (map key rs)"
  shows "rows_matching (guarded k) rs \<noteq> 0 \<longleftrightarrow> (\<exists>r. lookup_by key k rs = Some r \<and> opened r)"
proof -
  have "rows_matching (guarded k) rs \<noteq> 0 \<longleftrightarrow> (\<exists>r\<in>set rs. key r = k \<and> opened r)"
    by (simp add: rows_matching_zero guarded_def)
  also have "\<dots> \<longleftrightarrow> (\<exists>r. lookup_by key k rs = Some r \<and> opened r)"
    by (auto dest: lookup_by_SomeD lookup_by_unique [OF assms])
  finally show ?thesis .
qed

text \<open>A list of attempts on one key: which of them find the row open, and the rows after all.\<close>

fun attempts :: "string \<Rightarrow> 'a list \<Rightarrow> 'r list \<Rightarrow> bool list \<times> 'r list" where
  "attempts k [] rs = ([], rs)"
| "attempts k (a # as) rs =
     (let (ws, rs') = attempts k as (attempt a k rs)
      in ((rows_matching (guarded k) rs \<noteq> 0) # ws, rs'))"

lemma attempts_missing:
  "rows_matching (guarded k) rs = 0 \<Longrightarrow> attempts k as rs = (replicate (length as) False, rs)"
  by (induction as arbitrary: rs) (auto simp: attempt_no_row)

lemma first_attempt_wins:
  "rows_matching (guarded k) rs \<noteq> 0 \<Longrightarrow>
     attempts k (a # as) rs = (True # replicate (length as) False, attempt a k rs)"
  by (simp add: attempts_missing second_attempt_misses)

lemma one_winner: "length (filter (\<lambda>w. w) (fst (attempts k as rs))) \<le> 1"
proof (cases "rows_matching (guarded k) rs = 0")
  case True
  then show ?thesis by (simp add: attempts_missing)
next
  case False
  then show ?thesis
    using first_attempt_wins by (cases as) (simp_all del: attempts.simps(2))
qed

end

end
