(* ===== verification/Store_Grants.thy ===== *)
theory Store_Grants
  imports Store_Schema Single_Use
begin

text \<open>
  The grants the Hub has seen and the principals it knows (nakli-hub/internal/storage/grants.go,
  principals.go). A revocation and a retirement are single-use updates.
\<close>

section \<open>Grants\<close>

record known_grant =
  kg_id :: string
  kg_issued_by :: string
  kg_recipient :: string
  kg_parent :: string
  kg_scope :: string
  kg_caveats :: string
  kg_issued_at :: time
  kg_expires_at :: time
  kg_revoked_at :: "time option"
  kg_revocation_event :: string

text \<open>ON CONFLICT (grant_id) DO NOTHING.\<close>

definition insert_grant :: "grant_row \<Rightarrow> store \<Rightarrow> store" where
  "insert_grant r s =
     (if lookup_by gr_id (gr_id r) (grants_known s) = None
      then s\<lparr>grants_known := grants_known s @ [r]\<rparr> else s)"

definition remember_grant :: "env \<Rightarrow> known_grant \<Rightarrow> unit store_op" where
  "remember_grant e g s =
     (if kg_id g = [] then (Inl ErrInvalidInput, s)
      else
        let issued = (if kg_issued_at g = 0 then en_now e else kg_issued_at g)
        in if en_fault e ''RememberGrant'' then (Inl ErrDriver, s)
           else (Inr (), insert_grant
             \<lparr>gr_id = kg_id g, gr_issued_by = kg_issued_by g, gr_recipient = kg_recipient g,
              gr_parent = nullable (kg_parent g), gr_scope = kg_scope g,
              gr_caveats = kg_caveats g, gr_issued_at = fmt_time issued,
              gr_expires_at = fmt_time (kg_expires_at g), gr_revoked_at = None,
              gr_revocation_event = None\<rparr> s))"

definition grant_open :: "grant_row \<Rightarrow> bool" where
  "grant_open r = (gr_revoked_at r = None)"

definition revoke_row :: "string \<times> string \<Rightarrow> grant_row \<Rightarrow> grant_row" where
  "revoke_row a r = r\<lparr>gr_revoked_at := Some (fst a), gr_revocation_event := Some (snd a)\<rparr>"

interpretation revocation: single_use gr_id grant_open revoke_row
  by unfold_locales (simp_all add: revoke_row_def grant_open_def)

definition mark_grant_revoked :: "env \<Rightarrow> string \<Rightarrow> string \<Rightarrow> unit store_op" where
  "mark_grant_revoked e gid rev_event s =
     (if en_fault e ''MarkGrantRevoked'' then (Inl ErrDriver, s)
      else
        let now = now_rfc3339 e;
            p = (\<lambda>r. gr_id r = gid \<and> gr_revoked_at r = None);
            n = rows_matching p (grants_known s);
            s1 = s\<lparr>grants_known := update_where p
                   (\<lambda>r. r\<lparr>gr_revoked_at := Some now, gr_revocation_event := Some rev_event\<rparr>)
                   (grants_known s)\<rparr>
        in if n = 0
           then (if en_fault e ''MarkGrantRevoked.stub'' then (Inl ErrDriver, s1)
                 else (Inr (), insert_grant
                   \<lparr>gr_id = gid, gr_issued_by = [], gr_recipient = [], gr_parent = None,
                    gr_scope = ''{}'', gr_caveats = ''[]'', gr_issued_at = now,
                    gr_expires_at = now, gr_revoked_at = Some now,
                    gr_revocation_event = Some rev_event\<rparr> s1))
           else (Inr (), s1))"

definition get_known_grant :: "env \<Rightarrow> string \<Rightarrow> store \<Rightarrow> store_error + known_grant option" where
  "get_known_grant e gid s =
     (if en_fault e ''GetKnownGrant'' then Inl ErrDriver
      else case lookup_by gr_id gid (grants_known s) of
             None \<Rightarrow> Inr None
           | Some r \<Rightarrow> Inr (Some
               \<lparr>kg_id = gr_id r, kg_issued_by = gr_issued_by r, kg_recipient = gr_recipient r,
                kg_parent = coalesce [] (gr_parent r), kg_scope = gr_scope r,
                kg_caveats = gr_caveats r, kg_issued_at = time_or_zero (gr_issued_at r),
                kg_expires_at = time_or_zero (gr_expires_at r),
                kg_revoked_at = time_opt (gr_revoked_at r),
                kg_revocation_event = coalesce [] (gr_revocation_event r)\<rparr>))"

definition is_grant_revoked :: "env \<Rightarrow> string \<Rightarrow> store \<Rightarrow> store_error + bool" where
  "is_grant_revoked e gid s =
     (if en_fault e ''IsGrantRevoked'' then Inl ErrDriver
      else case lookup_by gr_id gid (grants_known s) of
             None \<Rightarrow> Inr False
           | Some r \<Rightarrow> Inr (coalesce [] (gr_revoked_at r) \<noteq> []))"

text \<open>The abstract state of a grant: the time of its revocation, if it was revoked.\<close>

definition revoked_mark :: "string \<Rightarrow> store \<Rightarrow> string option" where
  "revoked_mark gid s =
     (case lookup_by gr_id gid (grants_known s) of None \<Rightarrow> None | Some r \<Rightarrow> gr_revoked_at r)"

lemma lookup_insert_grant:
  "lookup_by gr_id gid (grants_known (insert_grant r s)) =
     (case lookup_by gr_id gid (grants_known s) of
        None \<Rightarrow> if gr_id r = gid then Some r else None | Some r' \<Rightarrow> Some r')"
  by (auto simp: insert_grant_def lookup_by_append split: option.splits)

lemma mark_grant_revoked_update:
  "update_where (\<lambda>r. gr_id r = gid \<and> gr_revoked_at r = None)
     (\<lambda>r. r\<lparr>gr_revoked_at := Some now, gr_revocation_event := Some ev\<rparr>) rs
   = revocation.attempt (now, ev) gid rs"
  by (simp add: revocation.attempt_def revocation.guarded_def update_where_def grant_open_def
      revoke_row_def)

lemma mark_grant_revoked_marks:
  assumes "fst (mark_grant_revoked e gid ev s) = Inr ()"
  shows "revoked_mark gid (snd (mark_grant_revoked e gid ev s)) =
    Some (coalesce (now_rfc3339 e) (revoked_mark gid s))"
proof -
  let ?rs = "grants_known s" and ?p = "\<lambda>r. gr_id r = gid \<and> gr_revoked_at r = None"
  have upd: "lookup_by gr_id gid (update_where ?p (\<lambda>r. r\<lparr>gr_revoked_at := Some (now_rfc3339 e),
      gr_revocation_event := Some ev\<rparr>) ?rs)
    = map_option (\<lambda>r. if grant_open r then revoke_row (now_rfc3339 e, ev) r else r)
        (lookup_by gr_id gid ?rs)"
    by (simp add: mark_grant_revoked_update revocation.attempt_lookup)
  have none: "lookup_by gr_id gid ?rs = None \<Longrightarrow> rows_matching ?p ?rs = 0"
    by (auto simp: rows_matching_zero lookup_by_None_iff)
  show ?thesis
  proof (cases "lookup_by gr_id gid ?rs")
    case None
    then show ?thesis
      using assms none upd
      by (simp add: mark_grant_revoked_def Let_def revoked_mark_def lookup_insert_grant
          split: if_splits)
  next
    case (Some r)
    then show ?thesis
      using assms upd
      by (cases "gr_revoked_at r")
        (auto simp: mark_grant_revoked_def Let_def revoked_mark_def lookup_insert_grant
          grant_open_def revoke_row_def split: if_splits)
  qed
qed

text \<open>A revocation stays: no operation on the table clears or changes the mark.\<close>

lemma revoked_mark_insert: "revoked_mark gid s = Some t \<Longrightarrow> revoked_mark gid (insert_grant r s) = Some t"
  by (auto simp: revoked_mark_def lookup_insert_grant split: option.splits)

lemma revoked_mark_remember:
  "revoked_mark gid s = Some t \<Longrightarrow> revoked_mark gid (snd (remember_grant e g s)) = Some t"
  by (simp add: remember_grant_def Let_def revoked_mark_insert)

lemma revoked_mark_attempt:
  "revoked_mark gid s = Some t \<Longrightarrow>
     revoked_mark gid (s\<lparr>grants_known := revocation.attempt a gid' (grants_known s)\<rparr>) = Some t"
  by (auto simp: revoked_mark_def revocation.attempt_lookup grant_open_def split: option.splits)

lemma revoked_mark_revoke:
  "revoked_mark gid s = Some t \<Longrightarrow> revoked_mark gid (snd (mark_grant_revoked e gid' ev s)) = Some t"
  by (simp add: mark_grant_revoked_def Let_def mark_grant_revoked_update revoked_mark_attempt
      revoked_mark_insert)

lemma is_grant_revoked_mark:
  "revoked_mark gid s = Some t \<Longrightarrow> t \<noteq> [] \<Longrightarrow> \<not> en_fault e ''IsGrantRevoked'' \<Longrightarrow>
     is_grant_revoked e gid s = Inr True"
  by (auto simp: is_grant_revoked_def revoked_mark_def split: option.splits)

lemma get_known_grant_fields:
  "get_known_grant e gid s = Inr (Some g) \<Longrightarrow>
     \<exists>r. lookup_by gr_id gid (grants_known s) = Some r \<and> kg_id g = gid
       \<and> kg_issued_by g = gr_issued_by r \<and> kg_recipient g = gr_recipient r
       \<and> kg_scope g = gr_scope r \<and> kg_revoked_at g = time_opt (gr_revoked_at r)"
  by (auto simp: get_known_grant_def split: if_splits option.splits dest: lookup_by_SomeD)

lemma grants_frame [frame_simps]:
  "events (snd (remember_grant e g s)) = events s"
  "streams (snd (remember_grant e g s)) = streams s"
  "blobs (snd (remember_grant e g s)) = blobs s"
  "events (snd (mark_grant_revoked e gid ev s)) = events s"
  "streams (snd (mark_grant_revoked e gid ev s)) = streams s"
  "blobs (snd (mark_grant_revoked e gid ev s)) = blobs s"
  by (simp_all add: remember_grant_def mark_grant_revoked_def insert_grant_def Let_def)

section \<open>Principals\<close>

record principal =
  pn_id :: string
  pn_type :: string
  pn_public_key :: "bytes option"
  pn_parent :: string
  pn_display :: string
  pn_created_at :: time
  pn_retired_at :: "time option"
  pn_retirement_event :: string

text \<open>The insert fails when public_key is a nil slice: the column is NOT NULL.\<close>

definition upsert_principal :: "env \<Rightarrow> principal \<Rightarrow> unit store_op" where
  "upsert_principal e p s =
     (if pn_id p = [] then (Inl ErrInvalidInput, s)
      else if en_fault e ''UpsertPrincipal'' then (Inl ErrDriver, s)
      else case pn_public_key p of
             None \<Rightarrow> (Inl ErrDriver, s)
           | Some key \<Rightarrow>
               let created = (if pn_created_at p = 0 then en_now e else pn_created_at p)
               in if lookup_by pr_id (pn_id p) (principals s) = None
                  then (Inr (), s\<lparr>principals := principals s @
                     [\<lparr>pr_id = pn_id p, pr_type = pn_type p, pr_public_key = key,
                       pr_parent = nullable (pn_parent p), pr_display = nullable (pn_display p),
                       pr_created_at = fmt_time created, pr_retired_at = None,
                       pr_retirement_event = None\<rparr>]\<rparr>)
                  else (Inr (), s\<lparr>principals := update_where (\<lambda>r. pr_id r = pn_id p)
                     (\<lambda>r. r\<lparr>pr_display := nullable (pn_display p)\<rparr>) (principals s)\<rparr>))"

definition strip_fabric_suffix :: "string \<Rightarrow> string" where
  "strip_fabric_suffix i = takeWhile (\<lambda>c. c \<noteq> CHR ''@'') i"

definition get_principal :: "env \<Rightarrow> string \<Rightarrow> store \<Rightarrow> store_error + principal" where
  "get_principal e pid s =
     (if en_fault e ''GetPrincipal'' then Inl ErrDriver
      else case lookup_by pr_id (strip_fabric_suffix pid) (principals s) of
             None \<Rightarrow> Inl ErrNotFound
           | Some r \<Rightarrow> Inr
               \<lparr>pn_id = pr_id r, pn_type = pr_type r, pn_public_key = Some (pr_public_key r),
                pn_parent = coalesce [] (pr_parent r), pn_display = coalesce [] (pr_display r),
                pn_created_at = time_or_zero (pr_created_at r),
                pn_retired_at = time_opt (pr_retired_at r),
                pn_retirement_event = coalesce [] (pr_retirement_event r)\<rparr>)"

definition principal_open :: "principal_row \<Rightarrow> bool" where
  "principal_open r = (pr_retired_at r = None)"

definition retire_row :: "string \<times> string \<Rightarrow> principal_row \<Rightarrow> principal_row" where
  "retire_row a r = r\<lparr>pr_retired_at := Some (fst a), pr_retirement_event := Some (snd a)\<rparr>"

interpretation retirement: single_use pr_id principal_open retire_row
  by unfold_locales (simp_all add: retire_row_def principal_open_def)

definition retire_principal :: "env \<Rightarrow> string \<Rightarrow> string \<Rightarrow> unit store_op" where
  "retire_principal e pid ev s =
     (if pid = [] then (Inl ErrInvalidInput, s)
      else if en_fault e ''RetirePrincipal'' then (Inl ErrDriver, s)
      else (Inr (), s\<lparr>principals := update_where
              (\<lambda>r. pr_id r = strip_fabric_suffix pid \<and> pr_retired_at r = None)
              (\<lambda>r. r\<lparr>pr_retired_at := Some (now_rfc3339 e), pr_retirement_event := Some ev\<rparr>)
              (principals s)\<rparr>))"

definition principal_counts :: "env \<Rightarrow> store \<Rightarrow> store_error + (string \<rightharpoonup> nat)" where
  "principal_counts e s =
     (if en_fault e ''PrincipalCounts'' then Inl ErrDriver
      else Inr (\<lambda>t. if t \<in> pr_type ` set (principals s)
                    then Some (rows_matching (\<lambda>r. pr_type r = t) (principals s)) else None))"

lemma retire_principal_update:
  "update_where (\<lambda>r. pr_id r = k \<and> pr_retired_at r = None)
     (\<lambda>r. r\<lparr>pr_retired_at := Some now, pr_retirement_event := Some ev\<rparr>) rs
   = retirement.attempt (now, ev) k rs"
  by (simp add: retirement.attempt_def retirement.guarded_def update_where_def principal_open_def
      retire_row_def)

lemma strip_fabric_suffix_idem [simp]:
  "strip_fabric_suffix (strip_fabric_suffix pid) = strip_fabric_suffix pid"
  by (auto simp: strip_fabric_suffix_def takeWhile_eq_all_conv dest: set_takeWhileD)

text \<open>A retired principal stays retired, with its first event, whatever name it is retired under.\<close>

lemma retired_stays:
  assumes "lookup_by pr_id k (principals s) = Some r" and "pr_retired_at r \<noteq> None"
  shows "lookup_by pr_id k (principals (snd (retire_principal e pid ev s))) = Some r"
  using assms retirement.closed_stays [of k "principals s" r]
  by (auto simp: retire_principal_def retire_principal_update principal_open_def)

lemma retired_survives_upsert:
  assumes "lookup_by pr_id k (principals s) = Some r" and "pr_retired_at r \<noteq> None"
  shows "\<exists>r'. lookup_by pr_id k (principals (snd (upsert_principal e p s))) = Some r'
    \<and> pr_retired_at r' = pr_retired_at r"
proof -
  have "lookup_by pr_id k (update_where (\<lambda>r. pr_id r = pn_id p)
      (\<lambda>r. r\<lparr>pr_display := nullable (pn_display p)\<rparr>) (principals s))
    = map_option (\<lambda>r. if pr_id r = pn_id p then r\<lparr>pr_display := nullable (pn_display p)\<rparr> else r)
        (lookup_by pr_id k (principals s))"
    by (rule lookup_update_where) simp
  then show ?thesis
    using assms by (auto simp: upsert_principal_def Let_def lookup_by_append split: option.splits)
qed

lemma retire_principal_retires:
  assumes "fst (retire_principal e pid ev s) = Inr ()" and "in_range (en_now e)"
    and "get_principal e' pid s = Inr p" and "pn_retired_at p = None"
    and "\<forall>r\<in>set (principals s). pr_retired_at r = None \<or> (\<exists>t. in_range t \<and> pr_retired_at r = Some (fmt_time t))"
  shows "\<exists>p'. get_principal e' pid (snd (retire_principal e pid ev s)) = Inr p'
     \<and> pn_retired_at p' = Some (en_now e) \<and> pn_retirement_event p' = ev"
proof -
  obtain r where r: "lookup_by pr_id (strip_fabric_suffix pid) (principals s) = Some r"
      "time_opt (pr_retired_at r) = None"
    using assms(3,4) by (auto simp: get_principal_def split: if_splits option.splits)
  have "pr_retired_at r = None"
    using assms(5) r lookup_by_SomeD [OF r(1)] by fastforce
  then show ?thesis
    using assms r
    by (auto simp: retire_principal_def retire_principal_update get_principal_def
        retirement.attempt_lookup principal_open_def retire_row_def now_rfc3339_def split: if_splits)
qed

lemma principal_ops_frame [frame_simps]:
  "events (snd (upsert_principal e p s)) = events s"
  "streams (snd (upsert_principal e p s)) = streams s"
  "blobs (snd (upsert_principal e p s)) = blobs s"
  "grants_known (snd (upsert_principal e p s)) = grants_known s"
  "events (snd (retire_principal e pid ev s)) = events s"
  "grants_known (snd (retire_principal e pid ev s)) = grants_known s"
  by (simp_all add: upsert_principal_def retire_principal_def Let_def split: option.splits)

end
