(* ===== verification/Store_Idempotency.thy ===== *)
theory Store_Idempotency
  imports Store_Schema
begin

text \<open>
  Idempotency records (nakli-hub/internal/storage/idempotency.go): the response to a request is
  kept under (key, grant id) with the hash of the request's body, for a retention period. The
  expiry is compared as text, as the query does.
\<close>

datatype idempotency_outcome = IdempotencyFresh | IdempotencyReplay int bytes | IdempotencyConflict

definition bytes_equal :: "bytes \<Rightarrow> bytes \<Rightarrow> bool" where
  "bytes_equal a b =
     (length a = length b \<and> list_all (\<lambda>i. a ! i = b ! i) [0..<length a])"

definition hash_payload :: "(bytes \<Rightarrow> bytes) \<Rightarrow> bytes \<Rightarrow> bytes" where
  "hash_payload sha body = sha body"

definition idem_key :: "idempotency_row \<Rightarrow> string \<times> string" where
  "idem_key r = (id_key r, id_grant r)"

definition lookup_idempotency ::
  "env \<Rightarrow> string \<Rightarrow> string \<Rightarrow> bytes \<Rightarrow> store \<Rightarrow> store_error + idempotency_outcome" where
  "lookup_idempotency e key gid h s =
     (if key = [] \<or> gid = [] then Inl ErrInvalidInput
      else if en_fault e ''LookupIdempotency'' then Inl ErrDriver
      else case lookup_by idem_key (key, gid)
                  (filter (\<lambda>r. now_rfc3339 e < id_expires_at r) (idempotency s)) of
             None \<Rightarrow> Inr IdempotencyFresh
           | Some r \<Rightarrow>
               if \<not> bytes_equal (id_payload_hash r) h then Inr IdempotencyConflict
               else Inr (IdempotencyReplay (id_status r) (coalesce [] (id_body r))))"

definition expiry_text :: "env \<Rightarrow> int \<Rightarrow> string" where
  "expiry_text e retention =
     fmt_time (en_now e + wrap64 ((if retention \<le> 0 then 86400 else retention) * second))"

text \<open>INSERT OR REPLACE on the primary key.\<close>

definition put_idempotency ::
  "env \<Rightarrow> string \<Rightarrow> string \<Rightarrow> string \<Rightarrow> bytes \<Rightarrow> int \<Rightarrow> bytes option \<Rightarrow> int \<Rightarrow> unit store_op" where
  "put_idempotency e key gid endpoint h status body retention s =
     (if en_fault e ''PutIdempotency'' then (Inl ErrDriver, s)
      else (Inr (), s\<lparr>idempotency := filter (\<lambda>r. idem_key r \<noteq> (key, gid)) (idempotency s)
             @ [\<lparr>id_key = key, id_grant = gid, id_endpoint = endpoint, id_payload_hash = h,
                 id_status = status, id_body = body, id_expires_at = expiry_text e retention\<rparr>]\<rparr>))"

definition delete_expired_idempotency :: "env \<Rightarrow> nat store_op" where
  "delete_expired_idempotency e s =
     (if en_fault e ''DeleteExpiredIdempotency'' then (Inl ErrDriver, s)
      else (Inr (rows_matching (\<lambda>r. id_expires_at r \<le> now_rfc3339 e) (idempotency s)),
            s\<lparr>idempotency := filter (\<lambda>r. \<not> id_expires_at r \<le> now_rfc3339 e) (idempotency s)\<rparr>))"

lemma bytes_equal_iff [simp]: "bytes_equal a b \<longleftrightarrow> a = b"
proof
  assume "bytes_equal a b"
  then show "a = b" by (intro nth_equalityI) (simp_all add: bytes_equal_def list_all_iff)
qed (simp add: bytes_equal_def list_all_iff)

text \<open>What a later request finds under the key of a stored response.\<close>

lemma lookup_after_put:
  assumes "put_idempotency e key gid ep h st body ret s = (Inr (), s')"
    and "key \<noteq> []" "gid \<noteq> []" "\<not> en_fault e' ''LookupIdempotency''"
  shows "lookup_idempotency e' key gid h' s' = Inr
    (if \<not> now_rfc3339 e' < expiry_text e ret then IdempotencyFresh
     else if h = h' then IdempotencyReplay st (coalesce [] body) else IdempotencyConflict)"
proof -
  have "lookup_by idem_key (key, gid) (filter (\<lambda>r. now_rfc3339 e' < id_expires_at r)
      (filter (\<lambda>r. idem_key r \<noteq> (key, gid)) (idempotency s))) = None"
    by (auto simp: lookup_by_None_iff)
  then show ?thesis
    using assms
    by (auto simp: put_idempotency_def lookup_idempotency_def lookup_by_append idem_key_def
        split: if_splits)
qed

lemma lookup_put_other:
  assumes "(key', gid') \<noteq> (key, gid)"
  shows "lookup_idempotency e' key' gid' h'
      (snd (put_idempotency e key gid ep h st body ret s)) = lookup_idempotency e' key' gid' h' s"
proof -
  let ?p = "\<lambda>r. now_rfc3339 e' < id_expires_at r"
  have "lookup_by idem_key (key', gid') (filter ?p (filter (\<lambda>r. idem_key r \<noteq> (key, gid)) rs))
      = lookup_by idem_key (key', gid') (filter ?p rs)" for rs
    using assms by (induction rs) (auto simp: idem_key_def)
  then show ?thesis
    using assms
    by (auto simp: put_idempotency_def lookup_idempotency_def lookup_by_append idem_key_def
        split: option.splits)
qed

lemma lookup_delete_expired:
  assumes "now_rfc3339 e \<le> now_rfc3339 e'"
  shows "lookup_idempotency e' key gid h (snd (delete_expired_idempotency e s))
    = lookup_idempotency e' key gid h s"
proof -
  have "filter (\<lambda>r. \<not> id_expires_at r \<le> now_rfc3339 e \<and> now_rfc3339 e' < id_expires_at r)
      (idempotency s) = filter (\<lambda>r. now_rfc3339 e' < id_expires_at r) (idempotency s)"
    using assms by (auto simp: not_le intro!: filter_cong)
  then show ?thesis by (simp add: delete_expired_idempotency_def lookup_idempotency_def)
qed

lemma idempotency_frame [frame_simps]:
  "events (snd (put_idempotency e key gid ep h st body ret s)) = events s"
  "streams (snd (put_idempotency e key gid ep h st body ret s)) = streams s"
  "blobs (snd (put_idempotency e key gid ep h st body ret s)) = blobs s"
  "grants_known (snd (put_idempotency e key gid ep h st body ret s)) = grants_known s"
  by (simp_all add: put_idempotency_def)

end
