(* ===== verification/Store_Tokens.thy ===== *)
theory Store_Tokens
  imports Store_Schema Single_Use
begin

text \<open>
  The token tables (nakli-hub/internal/storage/pairing.go, crate_pairing.go), the pending bridge
  calls (pending_bridge.go) and the operation log (oplog.go). The operations that consume a
  token read the row in one statement and update it in another; the step relations at the end
  interleave those statements between concurrent callers.
\<close>

section \<open>Device pairing\<close>

record pairing_token =
  pk_token :: string
  pk_numeric_code :: string
  pk_initiated_by :: string
  pk_initiated_at :: time
  pk_expires_at :: time
  pk_completed_at :: "time option"
  pk_completed_by :: string
  pk_fif_commitment :: "bytes option"

definition create_pairing_token :: "env \<Rightarrow> pairing_token \<Rightarrow> unit store_op" where
  "create_pairing_token e p s =
     (let initiated = (if pk_initiated_at p = 0 then en_now e else pk_initiated_at p)
      in if en_fault e ''CreatePairingToken''
            \<or> lookup_by pt_token (pk_token p) (pairing_tokens s) \<noteq> None
         then (Inl ErrDriver, s)
         else (Inr (), s\<lparr>pairing_tokens := pairing_tokens s @
           [\<lparr>pt_token = pk_token p, pt_numeric_code = nullable (pk_numeric_code p),
             pt_initiated_by = pk_initiated_by p, pt_initiated_at = fmt_time initiated,
             pt_expires_at = fmt_time (pk_expires_at p), pt_completed_at = None,
             pt_completed_by = None, pt_fif_commitment = pk_fif_commitment p\<rparr>]\<rparr>))"

definition pairing_of_row :: "pairing_row \<Rightarrow> pairing_token" where
  "pairing_of_row r =
     \<lparr>pk_token = pt_token r, pk_numeric_code = coalesce [] (pt_numeric_code r),
      pk_initiated_by = pt_initiated_by r, pk_initiated_at = time_or_zero (pt_initiated_at r),
      pk_expires_at = time_or_zero (pt_expires_at r),
      pk_completed_at = time_opt (pt_completed_at r),
      pk_completed_by = coalesce [] (pt_completed_by r), pk_fif_commitment = pt_fif_commitment r\<rparr>"

definition lookup_pairing_token :: "env \<Rightarrow> string \<Rightarrow> store \<Rightarrow> store_error + pairing_token" where
  "lookup_pairing_token e tok s =
     (if en_fault e ''LookupPairingToken'' then Inl ErrDriver
      else case lookup_by pt_token tok (pairing_tokens s) of
             None \<Rightarrow> Inl ErrNotFound | Some r \<Rightarrow> Inr (pairing_of_row r))"

text \<open>CompletePairing before its UPDATE: Some is the result it returns without one.\<close>

definition complete_check :: "time \<Rightarrow> string \<Rightarrow> pairing_token \<Rightarrow> (store_error + unit) option" where
  "complete_check now dev p =
     (if pk_expires_at p < now then Some (Inl ErrPairingTokenExpired)
      else if pk_completed_at p \<noteq> None
      then Some (if pk_completed_by p = dev then Inr () else Inl ErrPairingTokenUsed)
      else None)"

definition pairing_open :: "pairing_row \<Rightarrow> bool" where
  "pairing_open r = (pt_completed_at r = None)"

definition complete_row :: "string \<times> string \<Rightarrow> pairing_row \<Rightarrow> pairing_row" where
  "complete_row a r = r\<lparr>pt_completed_at := Some (fst a), pt_completed_by := Some (snd a)\<rparr>"

interpretation completion: single_use pt_token pairing_open complete_row
  by unfold_locales (simp_all add: complete_row_def pairing_open_def)

definition complete_update :: "time \<Rightarrow> string \<Rightarrow> string \<Rightarrow> pairing_row list \<Rightarrow> pairing_row list" where
  "complete_update now dev tok rs =
     update_where (\<lambda>r. pt_token r = tok \<and> pairing_open r) (complete_row (fmt_time now, dev)) rs"

definition complete_pairing :: "env \<Rightarrow> string \<Rightarrow> string \<Rightarrow> unit store_op" where
  "complete_pairing e tok dev s =
     (case lookup_pairing_token e tok s of
        Inl err \<Rightarrow> (Inl err, s)
      | Inr p \<Rightarrow>
          (case complete_check (en_now e) dev p of
             Some res \<Rightarrow> (res, s)
           | None \<Rightarrow>
               if en_fault e ''CompletePairing'' then (Inl ErrDriver, s)
               else (Inr (), s\<lparr>pairing_tokens :=
                       complete_update (en_now e) dev tok (pairing_tokens s)\<rparr>)))"

lemma complete_update_attempt:
  "complete_update now dev tok rs = completion.attempt (fmt_time now, dev) tok rs"
  by (simp add: complete_update_def completion.attempt_def completion.guarded_def update_where_def)

text \<open>The completed device of a token, the abstract state of a pairing.\<close>

definition completed_device :: "string \<Rightarrow> store \<Rightarrow> string option" where
  "completed_device tok s =
     (case lookup_by pt_token tok (pairing_tokens s) of
        None \<Rightarrow> None | Some r \<Rightarrow> if pairing_open r then None else pt_completed_by r)"

lemma completed_device_stays:
  "completed_device tok s = Some d \<Longrightarrow>
     completed_device tok (snd (complete_pairing e tok' dev s)) = Some d"
  by (auto simp: complete_pairing_def completed_device_def complete_update_attempt
      completion.attempt_lookup split: option.splits sum.splits if_splits)

section \<open>Crate pairing\<close>

record crate_token =
  ck_secret :: string
  ck_payload_json :: string
  ck_bucket_id :: string
  ck_identity_pubkey :: string
  ck_transport_endpoint :: string
  ck_transport_type :: string
  ck_issued_at :: time
  ck_expires_at :: time
  ck_redeemed_at :: "time option"
  ck_redeemed_by :: string
  ck_fingerprint :: string
  ck_capability_id :: string
  ck_cancelled_at :: "time option"
  ck_created_at :: time

definition create_crate_token :: "env \<Rightarrow> crate_token \<Rightarrow> unit store_op" where
  "create_crate_token e t s =
     (if ck_secret t = [] then (Inl ErrInvalidInput, s)
      else
        let created = (if ck_created_at t = 0 then en_now e else ck_created_at t)
        in if en_fault e ''CreateCratePairingToken'' then (Inl ErrDriver, s)
           else if lookup_by ct_secret (ck_secret t) (crate_pairing_tokens s) \<noteq> None
           then (Inl ErrUnique, s)
           else (Inr (), s\<lparr>crate_pairing_tokens := crate_pairing_tokens s @
             [\<lparr>ct_secret = ck_secret t, ct_payload_json = ck_payload_json t,
               ct_bucket_id = ck_bucket_id t, ct_identity_pubkey = ck_identity_pubkey t,
               ct_transport_endpoint = ck_transport_endpoint t,
               ct_transport_type = ck_transport_type t, ct_issued_at = fmt_time (ck_issued_at t),
               ct_expires_at = fmt_time (ck_expires_at t), ct_redeemed_at = None,
               ct_redeemed_by = None, ct_fingerprint = None, ct_capability_id = None,
               ct_cancelled_at = None, ct_created_at = fmt_time created\<rparr>]\<rparr>))"

definition crate_token_of_row :: "crate_token_row \<Rightarrow> crate_token" where
  "crate_token_of_row r =
     \<lparr>ck_secret = ct_secret r, ck_payload_json = ct_payload_json r,
      ck_bucket_id = ct_bucket_id r, ck_identity_pubkey = ct_identity_pubkey r,
      ck_transport_endpoint = ct_transport_endpoint r, ck_transport_type = ct_transport_type r,
      ck_issued_at = time_or_zero (ct_issued_at r), ck_expires_at = time_or_zero (ct_expires_at r),
      ck_redeemed_at = time_opt (ct_redeemed_at r), ck_redeemed_by = coalesce [] (ct_redeemed_by r),
      ck_fingerprint = coalesce [] (ct_fingerprint r),
      ck_capability_id = coalesce [] (ct_capability_id r),
      ck_cancelled_at = time_opt (ct_cancelled_at r),
      ck_created_at = time_or_zero (ct_created_at r)\<rparr>"

definition lookup_crate_token :: "env \<Rightarrow> string \<Rightarrow> store \<Rightarrow> store_error + crate_token" where
  "lookup_crate_token e sec s =
     (if en_fault e ''LookupCratePairingToken'' then Inl ErrDriver
      else case lookup_by ct_secret sec (crate_pairing_tokens s) of
             None \<Rightarrow> Inl ErrNotFound | Some r \<Rightarrow> Inr (crate_token_of_row r))"

text \<open>The checks of RedeemCratePairingToken and of CancelCratePairingToken before the UPDATE.\<close>

definition redeem_check :: "time \<Rightarrow> crate_token \<Rightarrow> (store_error + unit) option" where
  "redeem_check now t =
     (if ck_cancelled_at t \<noteq> None then Some (Inl ErrCratePairingTokenCancelled)
      else if ck_redeemed_at t \<noteq> None then Some (Inl ErrCratePairingTokenAlreadyRedeemed)
      else if ck_expires_at t < now then Some (Inl ErrCratePairingTokenExpired)
      else None)"

definition cancel_check :: "crate_token \<Rightarrow> (store_error + unit) option" where
  "cancel_check t =
     (if ck_redeemed_at t \<noteq> None then Some (Inl ErrCratePairingTokenAlreadyRedeemed)
      else if ck_cancelled_at t \<noteq> None then Some (Inr ())
      else None)"

definition crate_open :: "crate_token_row \<Rightarrow> bool" where
  "crate_open r = (ct_redeemed_at r = None \<and> ct_cancelled_at r = None)"

record redemption =
  rd_at :: string
  rd_daemon_pubkey :: string
  rd_fingerprint :: string
  rd_capability_id :: string

definition redeem_row :: "redemption \<Rightarrow> crate_token_row \<Rightarrow> crate_token_row" where
  "redeem_row a r = r\<lparr>ct_redeemed_at := Some (rd_at a), ct_redeemed_by := Some (rd_daemon_pubkey a),
     ct_fingerprint := Some (rd_fingerprint a), ct_capability_id := Some (rd_capability_id a)\<rparr>"

definition cancel_row :: "string \<Rightarrow> crate_token_row \<Rightarrow> crate_token_row" where
  "cancel_row at r = r\<lparr>ct_cancelled_at := Some at\<rparr>"

interpretation crate_redemption: single_use ct_secret crate_open redeem_row
  by unfold_locales (simp_all add: redeem_row_def crate_open_def)

interpretation crate_cancellation: single_use ct_secret crate_open cancel_row
  by unfold_locales (simp_all add: cancel_row_def crate_open_def)

definition redeem_update ::
  "redemption \<Rightarrow> string \<Rightarrow> crate_token_row list \<Rightarrow> (store_error + unit) \<times> crate_token_row list" where
  "redeem_update a sec rs =
     (let p = (\<lambda>r. ct_secret r = sec \<and> crate_open r)
      in (if rows_matching p rs = 0 then Inl ErrCratePairingTokenAlreadyRedeemed else Inr (),
          update_where p (redeem_row a) rs))"

definition cancel_update ::
  "string \<Rightarrow> string \<Rightarrow> crate_token_row list \<Rightarrow> (store_error + unit) \<times> crate_token_row list" where
  "cancel_update at sec rs =
     (Inr (), update_where (\<lambda>r. ct_secret r = sec \<and> crate_open r) (cancel_row at) rs)"

definition redeem_crate_token ::
  "env \<Rightarrow> string \<Rightarrow> string \<Rightarrow> string \<Rightarrow> string \<Rightarrow> crate_token store_op" where
  "redeem_crate_token e sec pubkey fp cap s =
     (case lookup_crate_token e sec s of
        Inl err \<Rightarrow> (Inl err, s)
      | Inr t \<Rightarrow>
          (case redeem_check (en_now e) t of
             Some (Inl err) \<Rightarrow> (Inl err, s)
           | Some (Inr ()) \<Rightarrow> (Inr t, s)
           | None \<Rightarrow>
               if en_fault e ''RedeemCratePairingToken'' then (Inl ErrDriver, s)
               else (case redeem_update \<lparr>rd_at = now_rfc3339 e, rd_daemon_pubkey = pubkey,
                            rd_fingerprint = fp, rd_capability_id = cap\<rparr> sec
                            (crate_pairing_tokens s) of
                       (Inl err, _) \<Rightarrow> (Inl err, s)
                     | (Inr (), rs) \<Rightarrow>
                         let s' = s\<lparr>crate_pairing_tokens := rs\<rparr>
                         in if en_fault e ''RedeemCratePairingToken.reread'' then (Inl ErrDriver, s')
                            else (lookup_crate_token e sec s', s'))))"

definition cancel_crate_token :: "env \<Rightarrow> string \<Rightarrow> unit store_op" where
  "cancel_crate_token e sec s =
     (case lookup_crate_token e sec s of
        Inl err \<Rightarrow> (Inl err, s)
      | Inr t \<Rightarrow>
          (case cancel_check t of
             Some res \<Rightarrow> (res, s)
           | None \<Rightarrow>
               if en_fault e ''CancelCratePairingToken'' then (Inl ErrDriver, s)
               else (let (res, rs) = cancel_update (now_rfc3339 e) sec (crate_pairing_tokens s)
                     in (res, s\<lparr>crate_pairing_tokens := rs\<rparr>))))"

lemma redeem_update_attempt:
  "redeem_update a sec rs =
     (if rows_matching (crate_redemption.guarded sec) rs = 0
      then Inl ErrCratePairingTokenAlreadyRedeemed else Inr (),
      crate_redemption.attempt a sec rs)"
  by (simp add: redeem_update_def crate_redemption.attempt_def crate_redemption.guarded_def [abs_def])

lemma cancel_update_attempt:
  "cancel_update at sec rs = (Inr (), crate_cancellation.attempt at sec rs)"
  by (simp add: cancel_update_def crate_cancellation.attempt_def
      crate_cancellation.guarded_def [abs_def])

section \<open>Pending bridge calls and the operation log\<close>

record pending_call =
  pc_id :: string
  pc_grant :: string
  pc_adapter :: string
  pc_operation :: string
  pc_params :: string
  pc_requested_by :: string
  pc_requested_at :: time
  pc_approved_at :: "time option"
  pc_rejected_at :: "time option"
  pc_rejected_reason :: string

definition insert_pending_bridge :: "env \<Rightarrow> pending_call \<Rightarrow> unit store_op" where
  "insert_pending_bridge e p s =
     (if pc_id p = [] then (Inl ErrInvalidInput, s)
      else
        let requested = (if pc_requested_at p = 0 then en_now e else pc_requested_at p)
        in if en_fault e ''InsertPendingBridge'' then (Inl ErrDriver, s)
           else if lookup_by pb_id (pc_id p) (pending_bridge s) \<noteq> None then (Inr (), s)
           else (Inr (), s\<lparr>pending_bridge := pending_bridge s @
             [\<lparr>pb_id = pc_id p, pb_grant = pc_grant p, pb_adapter = pc_adapter p,
               pb_operation = pc_operation p, pb_params = pc_params p,
               pb_requested_by = pc_requested_by p, pb_requested_at = fmt_time requested,
               pb_approved_at = None, pb_rejected_at = None, pb_rejected_reason = None\<rparr>]\<rparr>))"

definition get_pending_bridge :: "env \<Rightarrow> string \<Rightarrow> store \<Rightarrow> store_error + pending_call" where
  "get_pending_bridge e pid s =
     (if en_fault e ''GetPendingBridge'' then Inl ErrDriver
      else case lookup_by pb_id pid (pending_bridge s) of
             None \<Rightarrow> Inl ErrNotFound
           | Some r \<Rightarrow> Inr
               \<lparr>pc_id = pb_id r, pc_grant = pb_grant r, pc_adapter = pb_adapter r,
                pc_operation = pb_operation r, pc_params = pb_params r,
                pc_requested_by = pb_requested_by r,
                pc_requested_at = time_or_zero (pb_requested_at r),
                pc_approved_at = time_opt (pb_approved_at r),
                pc_rejected_at = time_opt (pb_rejected_at r),
                pc_rejected_reason = coalesce [] (pb_rejected_reason r)\<rparr>)"

text \<open>The UPDATE that handleBridgeApprove issues.\<close>

definition approve_pending_bridge :: "env \<Rightarrow> string \<Rightarrow> store \<Rightarrow> store" where
  "approve_pending_bridge e pid s =
     (if en_fault e ''ApprovePendingBridge'' then s
      else s\<lparr>pending_bridge := update_where
             (\<lambda>r. pb_id r = pid \<and> pb_approved_at r = None \<and> pb_rejected_at r = None)
             (\<lambda>r. r\<lparr>pb_approved_at := Some (fmt_time_fixed (en_now e))\<rparr>) (pending_bridge s)\<rparr>)"

definition log_operation ::
  "env \<Rightarrow> string \<Rightarrow> string \<Rightarrow> string \<Rightarrow> string \<Rightarrow> int \<Rightarrow> int \<Rightarrow> string \<Rightarrow> unit store_op" where
  "log_operation e op_id gid prin endpoint status ms code s =
     (if en_fault e ''LogOperation'' \<or> lookup_by ol_op_id op_id (operation_log s) \<noteq> None
      then (Inl ErrDriver, s)
      else (Inr (), s\<lparr>operation_log := operation_log s @
        [\<lparr>ol_op_id = op_id, ol_timestamp = now_rfc3339 e, ol_grant = nullable gid,
          ol_principal = nullable prin, ol_endpoint = endpoint, ol_status = status,
          ol_duration_ms = ms, ol_error_code = nullable code\<rparr>]\<rparr>))"

definition operation_log_count :: "env \<Rightarrow> store \<Rightarrow> store_error + nat" where
  "operation_log_count e s =
     (if en_fault e ''OperationLogCount'' then Inl ErrDriver else Inr (length (operation_log s)))"

lemma tokens_frame [frame_simps]:
  "events (snd (create_pairing_token e p s)) = events s"
  "streams (snd (create_pairing_token e p s)) = streams s"
  "blobs (snd (create_pairing_token e p s)) = blobs s"
  "events (snd (complete_pairing e tok dev s)) = events s"
  "streams (snd (complete_pairing e tok dev s)) = streams s"
  "blobs (snd (complete_pairing e tok dev s)) = blobs s"
  "events (snd (create_crate_token e t s)) = events s"
  "streams (snd (create_crate_token e t s)) = streams s"
  "blobs (snd (create_crate_token e t s)) = blobs s"
  "events (snd (redeem_crate_token e sec pk fp cap s)) = events s"
  "streams (snd (redeem_crate_token e sec pk fp cap s)) = streams s"
  "blobs (snd (redeem_crate_token e sec pk fp cap s)) = blobs s"
  "events (snd (cancel_crate_token e sec s)) = events s"
  "streams (snd (cancel_crate_token e sec s)) = streams s"
  "blobs (snd (cancel_crate_token e sec s)) = blobs s"
  "events (snd (insert_pending_bridge e q s)) = events s"
  "streams (snd (insert_pending_bridge e q s)) = streams s"
  "blobs (snd (insert_pending_bridge e q s)) = blobs s"
  by (simp_all add: create_pairing_token_def complete_pairing_def create_crate_token_def
      redeem_crate_token_def cancel_crate_token_def insert_pending_bridge_def Let_def
      cancel_update_def split: sum.splits option.splits prod.splits unit.splits)

end
