(* ===== verification/Auth.thy ===== *)
theory Auth
  imports Grants Caveats Store_Grants Store_Idempotency Store_Tokens
begin

text \<open>
  Authentication, authorisation and idempotency (nakli-hub/internal/server/middleware.go,
  scope.go, base64.go). The Hub's state is its store and its volatile caches. \<open>rctx\<close> is what the
  request's context holds: the headers, the grant and the discharge ids that authMiddleware put
  there, the idempotency key that idempotencyMiddleware put there.
\<close>

record hub =
  hb_store :: store
  hb_volatile :: volatile

definition empty_hub :: hub where
  "empty_hub = \<lparr>hb_store = empty_store, hb_volatile = empty_volatile\<rparr>"

record req_headers =
  rh_grant :: string
  rh_discharge :: string
  rh_idempotency_key :: string
  rh_principal_type :: string
  rh_agent_id :: string
  rh_device_id :: string
  rh_host :: string
  rh_tls :: bool

record rctx =
  rc_headers :: req_headers
  rc_grant :: "grant option"
  rc_discharge_ids :: "string list"
  rc_idempotency_key :: string

definition on_store :: "(store \<Rightarrow> 'a \<times> store) \<Rightarrow> hub \<Rightarrow> 'a \<times> hub" where
  "on_store f h = (let (r, s) = f (hb_store h) in (r, h\<lparr>hb_store := s\<rparr>))"

definition ctx_grant_id :: "rctx \<Rightarrow> string" where
  "ctx_grant_id rc = (case rc_grant rc of None \<Rightarrow> [] | Some g \<Rightarrow> idn_grant_id (gt_identifier g))"

definition ctx_principal :: "rctx \<Rightarrow> string" where
  "ctx_principal rc = (case rc_grant rc of None \<Rightarrow> [] | Some g \<Rightarrow> idn_issued_by (gt_identifier g))"

lemma on_store_simps [simp]:
  "fst (on_store f h) = fst (f (hb_store h))"
  "hb_store (snd (on_store f h)) = snd (f (hb_store h))"
  "hb_volatile (snd (on_store f h)) = hb_volatile h"
  by (simp_all add: on_store_def split: prod.splits)

section \<open>authMiddleware\<close>

definition decode_macaroon_header :: "string \<Rightarrow> bytes option" where
  "decode_macaroon_header s = try_base64 (trim_space s)"

definition remember_authenticated_grant :: "sys \<Rightarrow> env \<Rightarrow> grant \<Rightarrow> store \<Rightarrow> store" where
  "remember_authenticated_grant S e g s =
     (let i = gt_identifier g
      in if idn_grant_id i = [] then s
         else snd (remember_grant e
           \<lparr>kg_id = idn_grant_id i, kg_issued_by = idn_issued_by i, kg_recipient = [],
            kg_parent = idn_parent i, kg_scope = sy_json_scope S (idn_scope i),
            kg_caveats = sy_json_strings S (gt_caveats g), kg_issued_at = idn_issued_at i,
            kg_expires_at = 0, kg_revoked_at = None, kg_revocation_event = []\<rparr> s))"

definition discharge_check :: "env \<Rightarrow> string \<Rightarrow> bool" where
  "discharge_check e c =
     (let t = trim_space c
      in if has_prefix ''time < '' t
         then check_time_before (body_of ''time < '' t) (en_now e) = None else True)"

text \<open>The loop of parseDischarges over the comma-separated parts, with the ids found so far.\<close>

fun add_discharges ::
  "sys \<Rightarrow> env \<Rightarrow> string list \<Rightarrow> string list \<Rightarrow> volatile \<Rightarrow> (http_err + string list) \<times> volatile" where
  "add_discharges S e [] ids v = (Inr ids, v)"
| "add_discharges S e (p # ps) ids v =
     (let part = trim_space p
      in if part = [] then add_discharges S e ps ids v
         else case decode_macaroon_header part of
                None \<Rightarrow> (Inl grant_invalid, v)
              | Some mac \<Rightarrow>
                  (case verify_signature S mac (sy_root_key S) (discharge_check e) of
                     Inl _ \<Rightarrow> (Inl grant_invalid, v)
                   | Inr _ \<Rightarrow>
                       (case parse_grant S mac of
                          Inl _ \<Rightarrow> (Inl grant_invalid, v)
                        | Inr d \<Rightarrow>
                            let i = idn_grant_id (gt_identifier d)
                            in add_discharges S e ps (ids @ [i])
                                 (discharge_remember e i mac (24 * hour) v))))"

definition parse_discharges ::
  "sys \<Rightarrow> env \<Rightarrow> string \<Rightarrow> volatile \<Rightarrow> (http_err + string list) \<times> volatile" where
  "parse_discharges S e raw v =
     (if raw = [] then (Inr [], v) else add_discharges S e (split_char CHR '','' raw) [] v)"

definition authenticate :: "sys \<Rightarrow> env \<Rightarrow> req_headers \<Rightarrow> hub \<Rightarrow> (http_err + rctx) \<times> hub" where
  "authenticate S e hs h =
     (if rh_grant hs = [] then (Inl grant_missing, h)
      else case decode_macaroon_header (rh_grant hs) of
        None \<Rightarrow> (Inl grant_invalid, h)
      | Some mac \<Rightarrow>
      (case verify_signature S mac (sy_root_key S) always_satisfied of
        Inl _ \<Rightarrow> (Inl grant_invalid, h)
      | Inr _ \<Rightarrow>
      (case parse_grant S mac of
        Inl _ \<Rightarrow> (Inl grant_invalid, h)
      | Inr g \<Rightarrow>
          let known = get_known_grant e (idn_grant_id (gt_identifier g)) (hb_store h);
              revoked = (case known of Inr (Some k) \<Rightarrow> kg_revoked_at k \<noteq> None | _ \<Rightarrow> False)
          in if revoked then (Inl grant_revoked, h)
             else
               let s1 = remember_authenticated_grant S e g (hb_store h);
                   h1 = h\<lparr>hb_store := s1\<rparr>;
                   retired = (rh_agent_id hs \<noteq> [] \<and>
                     (case get_principal e (rh_agent_id hs) s1 of
                        Inr p \<Rightarrow> pn_retired_at p \<noteq> None | Inl _ \<Rightarrow> False))
               in if retired then (Inl principal_retired, h1)
                  else case parse_discharges S e (rh_discharge hs) (hb_volatile h) of
                    (Inl err, v) \<Rightarrow> (Inl err, h1\<lparr>hb_volatile := v\<rparr>)
                  | (Inr ids, v) \<Rightarrow>
                      (Inr \<lparr>rc_headers = hs, rc_grant = Some g, rc_discharge_ids = ids,
                            rc_idempotency_key = []\<rparr>, h1\<lparr>hb_volatile := v\<rparr>))))"

text \<open>A handler that serves requests without authentication gets the bare context.\<close>

definition bare_context :: "req_headers \<Rightarrow> rctx" where
  "bare_context hs =
     \<lparr>rc_headers = hs, rc_grant = None, rc_discharge_ids = [], rc_idempotency_key = []\<rparr>"

definition with_auth ::
  "sys \<Rightarrow> env \<Rightarrow> req_headers \<Rightarrow> (rctx \<Rightarrow> hub \<Rightarrow> 'a reply \<times> hub) \<Rightarrow> hub \<Rightarrow> 'a reply \<times> hub" where
  "with_auth S e hs next h =
     (case authenticate S e hs h of
        (Inl err, h1) \<Rightarrow> (Failure err, h1) | (Inr rc, h1) \<Rightarrow> next rc h1)"

section \<open>checkAuth\<close>

record requirement =
  rq_primitive :: string
  rq_namespace :: string
  rq_operation :: string
  rq_is_delegation :: bool
  rq_is_bridge :: bool
  rq_domain :: string
  rq_amount :: int
  rq_currency :: string

definition need :: "string \<Rightarrow> string \<Rightarrow> string \<Rightarrow> requirement" where
  "need p ns op =
     \<lparr>rq_primitive = p, rq_namespace = ns, rq_operation = op, rq_is_delegation = False,
      rq_is_bridge = False, rq_domain = [], rq_amount = 0, rq_currency = []\<rparr>"

definition contains :: "string list \<Rightarrow> string \<Rightarrow> bool" where
  "contains hay needle = list_ex (\<lambda>s. s = needle) hay"

definition scope_permits :: "scope \<Rightarrow> requirement \<Rightarrow> bool" where
  "scope_permits sc rq =
     (\<not> (sc_primitive sc \<noteq> [] \<and> sc_primitive sc \<noteq> rq_primitive rq)
      \<and> \<not> (rq_namespace rq \<noteq> [] \<and> sc_namespace sc \<noteq> [] \<and> sc_namespace sc \<noteq> ''*''
           \<and> sc_namespace sc \<noteq> rq_namespace rq)
      \<and> \<not> (rq_operation rq \<noteq> [] \<and> sc_operations sc \<noteq> []
           \<and> \<not> contains (sc_operations sc) (rq_operation rq)))"

definition caveat_context_of :: "sys \<Rightarrow> env \<Rightarrow> rctx \<Rightarrow> grant \<Rightarrow> requirement \<Rightarrow> caveat_context" where
  "caveat_context_of S e rc g rq =
     \<lparr>cx_now = en_now e, cx_operation = rq_operation rq, cx_namespace = rq_namespace rq,
      cx_has_idempotency_key = (rc_idempotency_key rc \<noteq> []),
      cx_is_delegation = rq_is_delegation rq, cx_grant_id = idn_grant_id (gt_identifier g),
      cx_principal_type = rh_principal_type (rc_headers rc),
      cx_agent_id = rh_agent_id (rc_headers rc), cx_device_id = rh_device_id (rc_headers rc),
      cx_is_bridge = rq_is_bridge rq, cx_bridge_domain = rq_domain rq,
      cx_bridge_amount = rq_amount rq, cx_bridge_currency = rq_currency rq, cx_server = True,
      cx_discharge_ids = rc_discharge_ids rc, cx_strict = sy_strict_binding S\<rparr>"

datatype auth_result = Allowed grant | Refused http_err | NeedsApproval grant

definition check_auth :: "sys \<Rightarrow> env \<Rightarrow> rctx \<Rightarrow> requirement \<Rightarrow> hub \<Rightarrow> auth_result \<times> hub" where
  "check_auth S e rc rq h =
     (case rc_grant rc of
        None \<Rightarrow> (Refused grant_missing, h)
      | Some g \<Rightarrow>
          if \<not> scope_permits (idn_scope (gt_identifier g)) rq then (Refused scope_denied, h)
          else
            (case evaluate_caveats e (gt_caveats g) (caveat_context_of S e rc g rq) (hb_volatile h) of
               (None, v) \<Rightarrow> (Allowed g, h\<lparr>hb_volatile := v\<rparr>)
             | (Some ce, v) \<Rightarrow>
                 (case ce_kind ce of
                    KindRateLimited \<Rightarrow> Refused rate_limited
                  | KindHumanApproval \<Rightarrow> NeedsApproval g
                  | KindUnmet \<Rightarrow> Refused caveat_unmet,
                  h\<lparr>hb_volatile := v\<rparr>)))"

text \<open>
  A handler's \<open>if err := s.checkAuth(...); err != nil { return }\<close> and the rest of its body, which
  reads the grant from the context.
\<close>

definition authorised ::
  "sys \<Rightarrow> env \<Rightarrow> rctx \<Rightarrow> requirement \<Rightarrow> (grant \<Rightarrow> hub \<Rightarrow> 'a reply \<times> hub) \<Rightarrow> hub \<Rightarrow> 'a reply \<times> hub" where
  "authorised S e rc rq body h =
     (case check_auth S e rc rq h of
        (Allowed g, h1) \<Rightarrow> body g h1
      | (Refused err, h1) \<Rightarrow> (Failure err, h1)
      | (NeedsApproval g, h1) \<Rightarrow> (NoReply, h1))"

definition require_grant_ownership ::
  "env \<Rightarrow> grant \<Rightarrow> string \<Rightarrow> store \<Rightarrow> http_err option" where
  "require_grant_ownership e g target s =
     (case get_known_grant e target s of
        Inl _ \<Rightarrow> Some unavailable
      | Inr None \<Rightarrow> Some not_found
      | Inr (Some k) \<Rightarrow>
          let requester = idn_issued_by (gt_identifier g)
          in if requester \<noteq> kg_issued_by k \<and> requester \<noteq> kg_recipient k
             then Some scope_denied else None)"

fun pick_principal_type :: "string list \<Rightarrow> string" where
  "pick_principal_type [] = []"
| "pick_principal_type (c # cs) =
     (if length ''principal-type in '' < length c \<and> has_prefix ''principal-type in '' c
      then (case parse_list_bracket (body_of ''principal-type in '' c) of
              t # _ \<Rightarrow> t | [] \<Rightarrow> pick_principal_type cs)
      else pick_principal_type cs)"

section \<open>idempotencyMiddleware\<close>

definition max_body :: "sys \<Rightarrow> int" where
  "max_body S = wrap64 (sy_max_event_size S * 2 + 262144)"

text \<open>\<open>render\<close> is the response's body as it goes over the wire.\<close>

definition idempotent ::
  "sys \<Rightarrow> env \<Rightarrow> string \<Rightarrow> bytes \<Rightarrow> ('a reply \<Rightarrow> bytes) \<Rightarrow> (rctx \<Rightarrow> hub \<Rightarrow> 'a reply \<times> hub) \<Rightarrow>
     rctx \<Rightarrow> hub \<Rightarrow> 'a reply \<times> hub" where
  "idempotent S e endpoint body render next rc h =
     (let key = rh_idempotency_key (rc_headers rc); gid = ctx_grant_id rc
      in if key = [] then (Failure bad_request, h)
         else if gid = [] then (Failure grant_missing, h)
         else if max_body S < int (length body) \<or> en_fault e ''ReadBody''
         then (Failure (HttpErr 413 ''bad_request'' False), h)
         else
           let ph = hash_payload (sy_sha256 S) body
           in case lookup_idempotency e key gid ph (hb_store h) of
                Inl _ \<Rightarrow> (Failure unavailable, h)
              | Inr (IdempotencyReplay st b) \<Rightarrow> (Raw st b, h)
              | Inr IdempotencyConflict \<Rightarrow>
                  (Failure (HttpErr 409 ''idempotency_conflict'' False), h)
              | Inr IdempotencyFresh \<Rightarrow>
                  (let (rep, h1) = next (rc\<lparr>rc_idempotency_key := key\<rparr>) h; st = reply_status rep
                   in if 200 \<le> st \<and> st < 300
                      then (rep, h1\<lparr>hb_store := snd (put_idempotency e key gid endpoint ph st
                             (Some (render rep)) (sy_retention S) (hb_store h1))\<rparr>)
                      else (rep, h1)))"

section \<open>logMiddleware\<close>

text \<open>
  The operation is logged from the context of the request logMiddleware itself passed on: a
  middleware below it that puts the grant on the context does so on a copy. \<open>outer\<close> is that
  context; a status of 0 is logged as 200.
\<close>

definition with_log ::
  "env \<Rightarrow> string \<Rightarrow> string \<Rightarrow> req_headers \<Rightarrow> (hub \<Rightarrow> 'a reply \<times> hub) \<Rightarrow> hub \<Rightarrow> 'a reply \<times> hub" where
  "with_log e op_id endpoint hs next h =
     (let outer = bare_context hs; (rep, h1) = next h;
          st = (if reply_status rep = 0 then 200 else reply_status rep)
      in (rep, h1\<lparr>hb_store := snd (log_operation e op_id (ctx_grant_id outer)
             (ctx_principal outer) endpoint st 0 [] (hb_store h1))\<rparr>))"

section \<open>What a granted request has shown\<close>

lemma contains_iff [simp]: "contains hay x \<longleftrightarrow> x \<in> set hay"
  by (auto simp: contains_def list_ex_iff)

lemma check_auth_store [simp]: "hb_store (snd (check_auth S e rc rq h)) = hb_store h"
  by (auto simp: check_auth_def split: option.splits prod.splits rejection_kind.splits)

lemma check_auth_cases:
  obtains g v where "check_auth S e rc rq h = (Allowed g, h\<lparr>hb_volatile := v\<rparr>)"
    "rc_grant rc = Some g" "scope_permits (idn_scope (gt_identifier g)) rq"
    "fst (evaluate_caveats e (gt_caveats g) (caveat_context_of S e rc g rq) (hb_volatile h)) = None"
  | err h1 where "check_auth S e rc rq h = (Refused err, h1)" "hb_store h1 = hb_store h"
  | g ce v where "check_auth S e rc rq h = (NeedsApproval g, h\<lparr>hb_volatile := v\<rparr>)"
    "rc_grant rc = Some g"
    "evaluate_caveats e (gt_caveats g) (caveat_context_of S e rc g rq) (hb_volatile h)
       = (Some ce, v)"
    "ce_kind ce = KindHumanApproval"
proof (cases "rc_grant rc")
  case None
  then show thesis using that(2) [of grant_missing h] by (simp add: check_auth_def)
next
  case (Some g)
  show thesis
  proof (cases "scope_permits (idn_scope (gt_identifier g)) rq")
    case False
    then show thesis using that(2) [of scope_denied h] Some by (simp add: check_auth_def)
  next
    case True
    obtain r v where r: "evaluate_caveats e (gt_caveats g) (caveat_context_of S e rc g rq)
        (hb_volatile h) = (r, v)" by fastforce
    show thesis
    proof (cases r)
      case None
      then show thesis using that(1) [of g v] Some True r by (simp add: check_auth_def)
    next
      case (Some ce)
      show thesis
      proof (cases "ce_kind ce")
        case KindUnmet
        then show thesis
          using that(2) [of caveat_unmet "h\<lparr>hb_volatile := v\<rparr>"] \<open>rc_grant rc = Some g\<close> True r Some
          by (simp add: check_auth_def)
      next
        case KindRateLimited
        then show thesis
          using that(2) [of rate_limited "h\<lparr>hb_volatile := v\<rparr>"] \<open>rc_grant rc = Some g\<close> True r Some
          by (simp add: check_auth_def)
      next
        case KindHumanApproval
        then show thesis
          using that(3) [of g v ce] \<open>rc_grant rc = Some g\<close> True r Some by (simp add: check_auth_def)
      qed
    qed
  qed
qed

lemma check_auth_sound:
  assumes "fst (check_auth S e rc rq h) = Allowed g"
  shows "rc_grant rc = Some g" "scope_permits (idn_scope (gt_identifier g)) rq"
    "c \<in> set (gt_caveats g) \<Longrightarrow>
       meets e (caveat_context_of S e rc g rq) (hb_volatile h) (parse_caveat (trim_space c))"
  using assms
  by (cases rule: check_auth_cases [of S e rc rq h]; auto intro: evaluate_caveats_sound)+

text \<open>A handler's body runs on the same store, and only when its request was allowed.\<close>

lemma authorised_rule:
  assumes "\<And>g h1. fst (check_auth S e rc rq h) = Allowed g \<Longrightarrow> hb_store h1 = hb_store h \<Longrightarrow>
      P (body g h1)"
    and "\<And>err h1. hb_store h1 = hb_store h \<Longrightarrow> P (Failure err, h1)"
    and "\<And>h1. hb_store h1 = hb_store h \<Longrightarrow> P (NoReply, h1)"
  shows "P (authorised S e rc rq body h)"
  using assms by (cases rule: check_auth_cases [of S e rc rq h]) (auto simp: authorised_def)

lemma authorised_keeps:
  assumes "\<And>g h1. hb_store h1 = hb_store h \<Longrightarrow> hb_store (snd (body g h1)) = hb_store h"
  shows "hb_store (snd (authorised S e rc rq body h)) = hb_store h"
  by (rule authorised_rule) (simp_all add: assms)

lemma authorised_allowed:
  assumes "authorised S e rc rq body h = (rep, h')"
    and "\<And>err. rep \<noteq> Failure err" and "rep \<noteq> NoReply"
  obtains g h1 where "fst (check_auth S e rc rq h) = Allowed g" "hb_store h1 = hb_store h"
    "body g h1 = (rep, h')"
proof (cases rule: check_auth_cases [of S e rc rq h])
  case (1 g v)
  then show thesis using assms that [of g "h\<lparr>hb_volatile := v\<rparr>"] by (simp add: authorised_def)
qed (use assms in \<open>auto simp: authorised_def\<close>)

lemma authorised_replied:
  assumes "authorised S e rc rq body h = (Reply st x, h')"
  shows "\<exists>g h1. fst (check_auth S e rc rq h) = Allowed g \<and> hb_store h1 = hb_store h
    \<and> body g h1 = (Reply st x, h')"
  by (rule authorised_allowed [OF assms]) auto

lemma add_discharges_error: "fst (add_discharges S e ps ids v) = Inl err \<Longrightarrow> err = grant_invalid"
  by (induction S e ps ids v rule: add_discharges.induct)
    (auto simp: Let_def split: if_splits option.splits sum.splits)

lemma authenticate_cases:
  obtains err where "authenticate S e hs h = (Inl err, h)"
  | g err v where "authenticate S e hs h = (Inl err, h\<lparr>hb_store :=
      remember_authenticated_grant S e g (hb_store h), hb_volatile := v\<rparr>)"
  | mac g ids v where "decode_macaroon_header (rh_grant hs) = Some mac"
    "verify_signature S mac (sy_root_key S) always_satisfied = Inr ()" "parse_grant S mac = Inr g"
    "\<And>k. get_known_grant e (idn_grant_id (gt_identifier g)) (hb_store h) = Inr (Some k) \<Longrightarrow>
       kg_revoked_at k = None"
    "\<And>p. rh_agent_id hs \<noteq> [] \<Longrightarrow> get_principal e (rh_agent_id hs)
       (remember_authenticated_grant S e g (hb_store h)) = Inr p \<Longrightarrow> pn_retired_at p = None"
    "parse_discharges S e (rh_discharge hs) (hb_volatile h) = (Inr ids, v)"
    "authenticate S e hs h = (Inr \<lparr>rc_headers = hs, rc_grant = Some g, rc_discharge_ids = ids,
         rc_idempotency_key = []\<rparr>,
       h\<lparr>hb_store := remember_authenticated_grant S e g (hb_store h), hb_volatile := v\<rparr>)"
proof (cases "rh_grant hs = []")
  case True
  then show thesis using that(1) by (simp add: authenticate_def)
next
  case hdr: False
  show thesis
  proof (cases "decode_macaroon_header (rh_grant hs)")
    case None
    then show thesis using that(1) hdr by (simp add: authenticate_def)
  next
    case mac: (Some mac)
    show thesis
    proof (cases "verify_signature S mac (sy_root_key S) always_satisfied")
      case (Inl x)
      then show thesis using that(1) hdr mac by (simp add: authenticate_def)
    next
      case ver: (Inr u)
      show thesis
      proof (cases "parse_grant S mac")
        case (Inl x)
        then show thesis using that(1) hdr mac ver by (simp add: authenticate_def)
      next
        case g: (Inr g)
        let ?s1 = "remember_authenticated_grant S e g (hb_store h)"
        let ?revoked = "case get_known_grant e (idn_grant_id (gt_identifier g)) (hb_store h) of
          Inr (Some k) \<Rightarrow> kg_revoked_at k \<noteq> None | _ \<Rightarrow> False"
        let ?retired = "rh_agent_id hs \<noteq> [] \<and> (case get_principal e (rh_agent_id hs) ?s1 of
          Inr p \<Rightarrow> pn_retired_at p \<noteq> None | Inl _ \<Rightarrow> False)"
        show thesis
        proof (cases ?revoked)
          case True
          then show thesis using that(1) hdr mac ver g by (simp add: authenticate_def Let_def)
        next
          case nr: False
          show thesis
          proof (cases ?retired)
            case True
            then have "authenticate S e hs h = (Inl principal_retired, h\<lparr>hb_store := ?s1\<rparr>)"
              using hdr mac ver g nr by (simp add: authenticate_def Let_def)
            then have "authenticate S e hs h = (Inl principal_retired,
                h\<lparr>hb_store := ?s1, hb_volatile := hb_volatile h\<rparr>)" by simp
            then show thesis by (rule that(2))
          next
            case nret: False
            obtain r v where d: "parse_discharges S e (rh_discharge hs) (hb_volatile h) = (r, v)"
              by fastforce
            have eq: "authenticate S e hs h = (map_sum id (\<lambda>ids. \<lparr>rc_headers = hs, rc_grant = Some g,
                rc_discharge_ids = ids, rc_idempotency_key = []\<rparr>) r,
                h\<lparr>hb_store := ?s1, hb_volatile := v\<rparr>)"
              using hdr mac ver g nr nret d
              by (cases r) (simp_all only: authenticate_def Let_def if_False option.case sum.case
                  prod.case map_sum.simps id_apply)
            show thesis
            proof (cases r)
              case (Inl err)
              then have "authenticate S e hs h = (Inl err, h\<lparr>hb_store := ?s1, hb_volatile := v\<rparr>)"
                using eq by simp
              then show thesis by (rule that(2))
            next
              case (Inr ids)
              show thesis
              proof (rule that(3) [OF mac])
                show "verify_signature S mac (sy_root_key S) always_satisfied = Inr ()"
                  using ver by simp
                show "parse_discharges S e (rh_discharge hs) (hb_volatile h) = (Inr ids, v)"
                  using d Inr by simp
                show "authenticate S e hs h = (Inr \<lparr>rc_headers = hs, rc_grant = Some g,
                    rc_discharge_ids = ids, rc_idempotency_key = []\<rparr>,
                    h\<lparr>hb_store := ?s1, hb_volatile := v\<rparr>)"
                  using eq Inr by simp
              qed (use g nr nret in \<open>auto\<close>)
            qed
          qed
        qed
      qed
    qed
  qed
qed

lemma authenticate_store:
  "hb_store (snd (authenticate S e hs h)) = hb_store h
   \<or> (\<exists>g. hb_store (snd (authenticate S e hs h)) = remember_authenticated_grant S e g (hb_store h))"
  by (cases rule: authenticate_cases [of S e hs h]) auto

end
