(* ===== verification/Store_Events.thy ===== *)
theory Store_Events
  imports Store_Schema
begin

text \<open>
  The append-only event store (nakli-hub/internal/storage/events.go): appending to a stream,
  reading a stream page by page, and the invariant of the tables streams and events. The SQL
  statements the three append paths share (AppendEvent here, AppendHistoryEvent and IngestEvent
  in the next theories) are definitions of their own. The locale \<open>stream_appender\<close> states what
  an append path promises; its lemmas give each path the preservation of the invariant and its
  effect on every stream.
\<close>

section \<open>Statements\<close>

definition stream_key :: "stream_row \<Rightarrow> string \<times> string" where
  "stream_key r = (st_namespace r, st_stream_id r)"

definition event_key :: "event_row \<Rightarrow> string \<times> string" where
  "event_key r = (ev_namespace r, ev_stream_id r)"

definition stream_events :: "string \<Rightarrow> string \<Rightarrow> store \<Rightarrow> event_row list" where
  "stream_events ns sid s = filter (\<lambda>r. event_key r = (ns, sid)) (events s)"

definition lookup_stream :: "string \<Rightarrow> string \<Rightarrow> store \<Rightarrow> stream_row option" where
  "lookup_stream ns sid s = lookup_by stream_key (ns, sid) (streams s)"

definition insert_stream :: "string \<Rightarrow> string \<Rightarrow> string \<Rightarrow> string \<Rightarrow> store \<Rightarrow> store" where
  "insert_stream ns sid ty at s =
     s\<lparr>streams := streams s @ [\<lparr>st_stream_id = sid, st_namespace = ns, st_type = ty,
        st_created_at = at, st_head_event_id = None, st_head_event_hash = None,
        st_event_count = 0\<rparr>]\<rparr>"

definition ensure_stream :: "string \<Rightarrow> string \<Rightarrow> string \<Rightarrow> string \<Rightarrow> store \<Rightarrow> store" where
  "ensure_stream ns sid ty at s =
     (if rows_matching (\<lambda>r. stream_key r = (ns, sid)) (streams s) = 0
      then insert_stream ns sid ty at s else s)"

text \<open>COALESCE(MAX(sequence_number), 0) + 1.\<close>

definition next_seq :: "string \<Rightarrow> string \<Rightarrow> store \<Rightarrow> nat" where
  "next_seq ns sid s = fold max (map ev_seq (stream_events ns sid s)) 0 + 1"

definition insert_event :: "event_row \<Rightarrow> store \<Rightarrow> store" where
  "insert_event r s = s\<lparr>events := events s @ [r]\<rparr>"

definition update_head ::
  "string \<Rightarrow> string \<Rightarrow> string \<Rightarrow> bytes option \<Rightarrow> store \<Rightarrow> store" where
  "update_head ns sid eid h s =
     s\<lparr>streams := update_where (\<lambda>r. stream_key r = (ns, sid))
        (\<lambda>r. r\<lparr>st_head_event_id := Some eid, st_head_event_hash := h,
               st_event_count := st_event_count r + 1\<rparr>) (streams s)\<rparr>"

definition event_exists :: "string \<Rightarrow> store \<Rightarrow> bool" where
  "event_exists eid s = (eid \<in> ev_id ` set (events s))"

section \<open>AppendEvent\<close>

record append_input =
  ai_namespace :: string
  ai_stream_id :: string
  ai_stream_type :: string
  ai_kind :: string
  ai_ciphertext :: bytes
  ai_metadata :: string
  ai_causal_deps :: string
  ai_vector_clock :: string
  ai_principal :: string
  ai_grant_id :: string
  ai_device :: string
  ai_prev_hash :: "bytes option"
  ai_hash :: "bytes option"

record append_result =
  ar_event_id :: string
  ar_seq :: nat
  ar_appended_at :: time
  ar_blob_path :: string

definition append_row :: "env \<Rightarrow> append_input \<Rightarrow> string \<Rightarrow> string \<Rightarrow> nat \<Rightarrow> event_row" where
  "append_row e i path eid seq =
     \<lparr>ev_id = eid, ev_namespace = ai_namespace i, ev_stream_id = ai_stream_id i,
      ev_stream_type = ai_stream_type i, ev_seq = seq, ev_kind = ai_kind i, ev_blob_path = path,
      ev_payload_size = length (ai_ciphertext i), ev_metadata = nullable (ai_metadata i),
      ev_causal_deps = nullable (ai_causal_deps i), ev_vector_clock = ai_vector_clock i,
      ev_prev_hash = ai_prev_hash i, ev_hash = ai_hash i, ev_appended_at = now_rfc3339 e,
      ev_principal = ai_principal i, ev_grant_id = ai_grant_id i,
      ev_device = nullable (ai_device i)\<rparr>"

text \<open>
  The transaction of AppendEvent. The insert fails on the primary key when the event id is
  taken, and everything is rolled back.
\<close>

definition append_event :: "env \<Rightarrow> append_input \<Rightarrow> string \<Rightarrow> string \<Rightarrow> append_result store_op" where
  "append_event e i path eid s =
     (if en_fault e ''AppendEvent'' then (Inl ErrDriver, s)
      else
        let ns = ai_namespace i; sid = ai_stream_id i;
            s1 = ensure_stream ns sid (ai_stream_type i) (now_rfc3339 e) s;
            seq = next_seq ns sid s1
        in if event_exists eid s1 then (Inl ErrDriver, s)
           else (Inr \<lparr>ar_event_id = eid, ar_seq = seq, ar_appended_at = en_now e,
                      ar_blob_path = path\<rparr>,
                 update_head ns sid eid (ai_hash i)
                   (insert_event (append_row e i path eid seq) s1)))"

section \<open>ReadStream\<close>

record read_options =
  ro_since :: string
  ro_limit :: int

record read_event =
  re_event_id :: string
  re_seq :: nat
  re_kind :: string
  re_ciphertext :: bytes
  re_metadata :: string
  re_causal_deps :: string
  re_vector_clock :: string
  re_prev_hash :: "bytes option"
  re_hash :: "bytes option"
  re_appended_at :: time
  re_principal :: string
  re_device :: string

definition clamp_limit :: "int \<Rightarrow> nat" where
  "clamp_limit l = (if l \<le> 0 \<or> l > 1000 then 100 else nat l)"

text \<open>ORDER BY sequence_number ASC.\<close>

definition by_seq :: "event_row list \<Rightarrow> event_row list" where
  "by_seq rs = sort_key ev_seq rs"

definition load_event ::
  "(bytes \<Rightarrow> bytes) \<Rightarrow> string \<Rightarrow> env \<Rightarrow> store \<Rightarrow> event_row \<Rightarrow> store_error + read_event" where
  "load_event sha root e s r =
     sum_map (\<lambda>c. \<lparr>re_event_id = ev_id r, re_seq = ev_seq r, re_kind = ev_kind r,
        re_ciphertext = c, re_metadata = coalesce [] (ev_metadata r),
        re_causal_deps = coalesce ''[]'' (ev_causal_deps r),
        re_vector_clock = ev_vector_clock r, re_prev_hash = ev_prev_hash r,
        re_hash = ev_hash r, re_appended_at = time_or_zero (ev_appended_at r),
        re_principal = ev_principal r, re_device = coalesce [] (ev_device r)\<rparr>)
       (read_blob sha root e s (ev_namespace r) (ev_id r))"

fun load_all :: "('r \<Rightarrow> 'e + 'a) \<Rightarrow> 'r list \<Rightarrow> 'e + 'a list" where
  "load_all f [] = Inr []"
| "load_all f (r # rs) =
     (case f r of Inl err \<Rightarrow> Inl err | Inr x \<Rightarrow> sum_map (\<lambda>xs. x # xs) (load_all f rs))"

definition since_seq :: "string \<Rightarrow> string \<Rightarrow> string \<Rightarrow> store \<Rightarrow> store_error + nat" where
  "since_seq ns sid since s =
     (if since = [] then Inr 0
      else case lookup_by ev_id since (stream_events ns sid s) of
             None \<Rightarrow> Inl ErrNotFound | Some r \<Rightarrow> Inr (ev_seq r))"

definition read_rows :: "string \<Rightarrow> string \<Rightarrow> nat \<Rightarrow> nat \<Rightarrow> store \<Rightarrow> event_row list" where
  "read_rows ns sid after n s =
     take n (by_seq (filter (\<lambda>r. after < ev_seq r) (stream_events ns sid s)))"

definition read_stream ::
  "(bytes \<Rightarrow> bytes) \<Rightarrow> string \<Rightarrow> env \<Rightarrow> string \<Rightarrow> string \<Rightarrow> read_options \<Rightarrow> store \<Rightarrow>
     store_error + (read_event list \<times> bool)" where
  "read_stream sha root e ns sid opts s =
     (if en_fault e ''ReadStream'' then Inl ErrDriver
      else
        let limit = clamp_limit (ro_limit opts)
        in case since_seq ns sid (ro_since opts) s of
             Inl err \<Rightarrow> Inl err
           | Inr after \<Rightarrow>
               sum_map (\<lambda>out. if limit < length out then (take limit out, True) else (out, False))
                 (load_all (load_event sha root e s) (read_rows ns sid after (limit + 1) s)))"

section \<open>The invariant\<close>

text \<open>
  Event ids and stream keys are unique, an event belongs to a stream that exists, and a
  stream's row says what its events are: they are numbered 1, 2, ... in the order of arrival,
  event_count counts them and the head columns are those of the last one.
\<close>

definition stream_ok :: "store \<Rightarrow> stream_row \<Rightarrow> bool" where
  "stream_ok s r =
     (let evs = stream_events (st_namespace r) (st_stream_id r) s
      in map ev_seq evs = [1..<Suc (length evs)] \<and> evs \<noteq> []
         \<and> st_event_count r = length evs
         \<and> st_head_event_id r = Some (ev_id (last evs))
         \<and> st_head_event_hash r = ev_hash (last evs))"

definition store_inv :: "store \<Rightarrow> bool" where
  "store_inv s =
     (distinct (map ev_id (events s)) \<and> distinct (map stream_key (streams s))
      \<and> list_all (\<lambda>r. event_key r \<in> stream_key ` set (streams s)) (events s)
      \<and> list_all (stream_ok s) (streams s))"

lemma store_inv_empty: "store_inv empty_store"
  by (simp add: store_inv_def empty_store_def)

lemma store_invD:
  assumes "store_inv s"
  shows "distinct (map ev_id (events s))" "distinct (map stream_key (streams s))"
    "r \<in> set (events s) \<Longrightarrow> event_key r \<in> stream_key ` set (streams s)"
    "t \<in> set (streams s) \<Longrightarrow> stream_ok s t"
  using assms by (auto simp: store_inv_def list_all_iff)

lemma fold_max_upt: "fold max [1..<Suc n] 0 = n"
proof (induction n)
  case (Suc n)
  have "[1..<Suc (Suc n)] = [1..<Suc n] @ [Suc n]" by simp
  then show ?case using Suc by simp
qed simp

lemma stream_events_seqs:
  assumes "store_inv s"
  shows "map ev_seq (stream_events ns sid s) = [1..<Suc (length (stream_events ns sid s))]"
proof (cases "stream_events ns sid s = []")
  case False
  then obtain r where r: "r \<in> set (events s)" "event_key r = (ns, sid)"
    by (auto simp: stream_events_def filter_empty_conv)
  then obtain t where "t \<in> set (streams s)" "stream_key t = (ns, sid)"
    using store_invD(3) [OF assms] by fastforce
  then show ?thesis using store_invD(4) [OF assms, of t]
    by (auto simp: stream_ok_def stream_key_def Let_def)
qed simp

lemma next_seq_inv:
  "store_inv s \<Longrightarrow> next_seq ns sid s = Suc (length (stream_events ns sid s))"
  by (metis Suc_eq_plus1 fold_max_upt next_seq_def stream_events_seqs)

text \<open>The rows of the store after an event was added to its stream.\<close>

definition add_event :: "string \<Rightarrow> event_row \<Rightarrow> store \<Rightarrow> store" where
  "add_event at r s =
     update_head (ev_namespace r) (ev_stream_id r) (ev_id r) (ev_hash r)
       (insert_event r
          (ensure_stream (ev_namespace r) (ev_stream_id r) (ev_stream_type r) at s))"

lemma ensure_stream_events [store_simps]: "events (ensure_stream ns sid ty at s) = events s"
  by (simp add: ensure_stream_def insert_stream_def)

lemma stream_events_ensure [store_simps]:
  "stream_events ns sid (ensure_stream ns' sid' ty at s) = stream_events ns sid s"
  by (simp add: stream_events_def ensure_stream_events)

lemma next_seq_ensure [store_simps]:
  "next_seq ns sid (ensure_stream ns' sid' ty at s) = next_seq ns sid s"
  by (simp add: next_seq_def stream_events_ensure)

lemma events_add_event [store_simps]: "events (add_event at r s) = events s @ [r]"
  by (simp add: add_event_def update_head_def insert_event_def ensure_stream_events)

lemma stream_events_add_event [store_simps]:
  "stream_events ns sid (add_event at r s) =
     stream_events ns sid s @ (if event_key r = (ns, sid) then [r] else [])"
  by (simp add: stream_events_def events_add_event)

lemma other_tables_add_event [frame_simps]:
  "blobs (add_event at r s) = blobs s" "grants_known (add_event at r s) = grants_known s"
  "idempotency (add_event at r s) = idempotency s"
  "principals (add_event at r s) = principals s"
  "pairing_tokens (add_event at r s) = pairing_tokens s"
  "crate_pairing_tokens (add_event at r s) = crate_pairing_tokens s"
  "crate_buckets (add_event at r s) = crate_buckets s"
  "pending_bridge (add_event at r s) = pending_bridge s"
  "operation_log (add_event at r s) = operation_log s"
  by (simp_all add: add_event_def update_head_def insert_event_def ensure_stream_def
      insert_stream_def)

text \<open>The streams of the store after the addition, as a list.\<close>

lemma ensure_stream_cases:
  obtains "event_key r \<in> stream_key ` set (streams s)"
    "ensure_stream (ev_namespace r) (ev_stream_id r) ty at s = s"
  | t where "event_key r \<notin> stream_key ` set (streams s)" "stream_key t = event_key r"
    "streams (ensure_stream (ev_namespace r) (ev_stream_id r) ty at s) = streams s @ [t]"
    "st_event_count t = 0"
proof (cases "event_key r \<in> stream_key ` set (streams s)")
  case True
  then have "0 < rows_matching (\<lambda>x. stream_key x = (ev_namespace r, ev_stream_id r)) (streams s)"
    unfolding rows_matching_pos by (auto simp: event_key_def)
  then show thesis using that(1) True by (simp add: ensure_stream_def)
next
  case False
  then have "rows_matching (\<lambda>x. stream_key x = (ev_namespace r, ev_stream_id r)) (streams s) = 0"
    unfolding rows_matching_zero by (metis event_key_def image_eqI)
  then show thesis
    using that(2) [OF False, of "\<lparr>st_stream_id = ev_stream_id r, st_namespace = ev_namespace r,
        st_type = ty, st_created_at = at, st_head_event_id = None, st_head_event_hash = None,
        st_event_count = 0\<rparr>"]
    by (simp add: ensure_stream_def insert_stream_def) (simp add: stream_key_def event_key_def)
qed

definition head_update :: "event_row \<Rightarrow> stream_row \<Rightarrow> stream_row" where
  "head_update r t =
     (if stream_key t = event_key r
      then t\<lparr>st_head_event_id := Some (ev_id r), st_head_event_hash := ev_hash r,
             st_event_count := st_event_count t + 1\<rparr>
      else t)"

lemma streams_add_event:
  "streams (add_event at r s) =
     map (head_update r)
       (streams (ensure_stream (ev_namespace r) (ev_stream_id r) (ev_stream_type r) at s))"
  by (simp add: add_event_def update_head_def insert_event_def update_where_def head_update_def
      event_key_def)

lemma stream_key_head_update [simp]: "stream_key (head_update r t) = stream_key t"
  by (simp add: head_update_def stream_key_def)

lemma stream_key_comp_head_update [simp]: "stream_key \<circ> head_update r = stream_key"
  by (rule ext) simp

lemma stream_ok_add_event:
  assumes seqs: "map ev_seq (stream_events (st_namespace t) (st_stream_id t) s)
      = [1..<Suc (length (stream_events (st_namespace t) (st_stream_id t) s))]"
    and seq: "ev_seq r = Suc (length (stream_events (ev_namespace r) (ev_stream_id r) s))"
    and t: "stream_key t \<noteq> event_key r \<Longrightarrow> stream_ok s t"
      "st_event_count t = length (stream_events (st_namespace t) (st_stream_id t) s)"
  shows "stream_ok (add_event at r s) (head_update r t)"
proof (cases "stream_key t = event_key r")
  case False
  then show ?thesis
    using t(1) by (simp add: stream_ok_def head_update_def stream_events_add_event stream_key_def)
next
  case True
  then have key: "st_namespace t = ev_namespace r" "st_stream_id t = ev_stream_id r"
    by (simp_all add: stream_key_def event_key_def)
  then show ?thesis
    using True t(2) seqs seq
    by (simp add: stream_ok_def head_update_def stream_events_add_event event_key_def)
qed

lemma store_inv_add_event:
  assumes inv: "store_inv s" and new: "ev_id r \<notin> ev_id ` set (events s)"
    and seq: "ev_seq r = next_seq (ev_namespace r) (ev_stream_id r) s"
  shows "store_inv (add_event at r s)"
proof -
  have seq': "ev_seq r = Suc (length (stream_events (ev_namespace r) (ev_stream_id r) s))"
    using seq next_seq_inv [OF inv] by simp
  have ok: "stream_ok (add_event at r s) (head_update r t)" if "t \<in> set (streams s)" for t
    using store_invD(4) [OF inv that] seq'
    by (intro stream_ok_add_event) (auto simp: stream_ok_def Let_def)
  let ?ss = "streams (ensure_stream (ev_namespace r) (ev_stream_id r) (ev_stream_type r) at s)"
  have "distinct (map stream_key ?ss) \<and> event_key r \<in> stream_key ` set ?ss
      \<and> stream_key ` set (streams s) \<subseteq> stream_key ` set ?ss
      \<and> (\<forall>t\<in>set ?ss. stream_ok (add_event at r s) (head_update r t))"
  proof (rule ensure_stream_cases [of r s "ev_stream_type r" at])
    assume "event_key r \<in> stream_key ` set (streams s)"
      "ensure_stream (ev_namespace r) (ev_stream_id r) (ev_stream_type r) at s = s"
    then show ?thesis using store_invD(2) [OF inv] ok by simp
  next
    fix t
    assume t: "event_key r \<notin> stream_key ` set (streams s)" "stream_key t = event_key r"
      "?ss = streams s @ [t]" "st_event_count t = 0"
    have none: "stream_events (ev_namespace r) (ev_stream_id r) s = []"
      using t(1) store_invD(3) [OF inv]
      by (auto simp: stream_events_def filter_empty_conv) (metis event_key_def)
    have "stream_ok (add_event at r s) (head_update r t)"
      using none t(2,4) seq' by (intro stream_ok_add_event) (auto simp: stream_key_def event_key_def)
    then show ?thesis using t store_invD(2) [OF inv] ok by auto
  qed
  then show ?thesis
    using store_invD [OF inv] new
    by (auto simp: store_inv_def events_add_event streams_add_event list_all_iff image_image)
qed

section \<open>What every append path promises\<close>

text \<open>
  An append path adds one row, numbered after the events of its stream and with a fresh id, and
  leaves the store as it was when it fails.
\<close>

locale stream_appender =
  fixes append :: "env \<Rightarrow> 'i \<Rightarrow> 'r store_op"
    and row_of :: "env \<Rightarrow> store \<Rightarrow> 'i \<Rightarrow> event_row"
    and created :: "env \<Rightarrow> 'i \<Rightarrow> string"
  assumes append_ok: "append e i s = (Inr x, s') \<Longrightarrow>
      s' = add_event (created e i) (row_of e s i) s
      \<and> ev_id (row_of e s i) \<notin> ev_id ` set (events s)
      \<and> ev_seq (row_of e s i) = next_seq (ev_namespace (row_of e s i)) (ev_stream_id (row_of e s i)) s"
    and append_err: "append e i s = (Inl err, s') \<Longrightarrow> s' = s"
begin

lemma append_cases:
  obtains err where "append e i s = (Inl err, s)"
  | x where "append e i s = (Inr x, add_event (created e i) (row_of e s i) s)"
    "ev_id (row_of e s i) \<notin> ev_id ` set (events s)"
    "ev_seq (row_of e s i)
       = next_seq (ev_namespace (row_of e s i)) (ev_stream_id (row_of e s i)) s"
proof (cases "append e i s")
  case (Pair r s')
  then show thesis using that append_ok append_err by (cases r) blast+
qed

lemma append_inv: "store_inv s \<Longrightarrow> store_inv (snd (append e i s))"
  by (cases rule: append_cases [of e i s]) (simp_all add: store_inv_add_event)

lemma append_frame:
  "blobs (snd (append e i s)) = blobs s" "grants_known (snd (append e i s)) = grants_known s"
  "idempotency (snd (append e i s)) = idempotency s"
  "principals (snd (append e i s)) = principals s"
  "pairing_tokens (snd (append e i s)) = pairing_tokens s"
  "crate_pairing_tokens (snd (append e i s)) = crate_pairing_tokens s"
  "crate_buckets (snd (append e i s)) = crate_buckets s"
  "pending_bridge (snd (append e i s)) = pending_bridge s"
  "operation_log (snd (append e i s)) = operation_log s"
  by (cases rule: append_cases [of e i s]; simp add: other_tables_add_event)+

lemma append_events:
  "fst (append e i s) = Inr x \<Longrightarrow> events (snd (append e i s)) = events s @ [row_of e s i]"
  "fst (append e i s) = Inl err \<Longrightarrow> snd (append e i s) = s"
  by (cases rule: append_cases [of e i s]; simp add: events_add_event)+

lemma append_stream:
  assumes "fst (append e i s) = Inr x" and "store_inv s"
  shows "stream_events ns sid (snd (append e i s)) =
      stream_events ns sid s @ (if event_key (row_of e s i) = (ns, sid) then [row_of e s i] else [])"
    and "ev_seq (row_of e s i) = Suc (length (stream_events (ev_namespace (row_of e s i))
        (ev_stream_id (row_of e s i)) s))"
  using assms next_seq_inv
  by (cases rule: append_cases [of e i s]; simp add: stream_events_add_event)+

end

lemma append_event_fold:
  "update_head ns sid eid h (insert_event (append_row e i path eid q) (ensure_stream ns sid ty at s))
     = add_event at (append_row e i path eid q) s"
  if "ns = ai_namespace i" "sid = ai_stream_id i" "h = ai_hash i" "ty = ai_stream_type i"
  using that by (simp add: add_event_def append_row_def)

interpretation vault: stream_appender
  "\<lambda>e (i, path, eid). append_event e i path eid"
  "\<lambda>e s (i, path, eid). append_row e i path eid (next_seq (ai_namespace i) (ai_stream_id i) s)"
  "\<lambda>e i. now_rfc3339 e"
proof unfold_locales
  fix e :: env and i :: "append_input \<times> string \<times> string" and s s' :: store and x err
  obtain a path eid where i: "i = (a, path, eid)" by (cases i)
  show "(case i of (i, path, eid) \<Rightarrow> append_event e i path eid) s = (Inl err, s') \<Longrightarrow> s' = s"
    by (auto simp: i append_event_def Let_def split: if_splits)
  show "(case i of (i, path, eid) \<Rightarrow> append_event e i path eid) s = (Inr x, s') \<Longrightarrow>
      s' = add_event (now_rfc3339 e) ((case i of (i, path, eid) \<Rightarrow>
          append_row e i path eid (next_seq (ai_namespace i) (ai_stream_id i) s))) s
      \<and> ev_id ((case i of (i, path, eid) \<Rightarrow>
          append_row e i path eid (next_seq (ai_namespace i) (ai_stream_id i) s)))
        \<notin> ev_id ` set (events s)
      \<and> ev_seq ((case i of (i, path, eid) \<Rightarrow>
          append_row e i path eid (next_seq (ai_namespace i) (ai_stream_id i) s)))
        = next_seq (ev_namespace ((case i of (i, path, eid) \<Rightarrow>
          append_row e i path eid (next_seq (ai_namespace i) (ai_stream_id i) s))))
          (ev_stream_id ((case i of (i, path, eid) \<Rightarrow>
          append_row e i path eid (next_seq (ai_namespace i) (ai_stream_id i) s)))) s"
    by (auto simp: i append_event_def Let_def event_exists_def ensure_stream_events
        next_seq_ensure append_event_fold split: if_splits)
      (simp_all add: append_row_def)
qed

section \<open>Reading a stream\<close>

definition blobs_inv :: "(bytes \<Rightarrow> bytes) \<Rightarrow> string \<Rightarrow> store \<Rightarrow> bool" where
  "blobs_inv sha root s =
     (\<forall>r\<in>set (events s). blobs s (blob_path sha root (ev_namespace r) (ev_id r)) \<noteq> None)"

text \<open>What a reader sees of a row: its columns with the defaults of the query, and its blob.\<close>

definition event_view :: "(bytes \<Rightarrow> bytes) \<Rightarrow> string \<Rightarrow> store \<Rightarrow> event_row \<Rightarrow> read_event" where
  "event_view sha root s r =
     \<lparr>re_event_id = ev_id r, re_seq = ev_seq r, re_kind = ev_kind r,
      re_ciphertext = coalesce [] (blobs s (blob_path sha root (ev_namespace r) (ev_id r))),
      re_metadata = coalesce [] (ev_metadata r),
      re_causal_deps = coalesce ''[]'' (ev_causal_deps r),
      re_vector_clock = ev_vector_clock r, re_prev_hash = ev_prev_hash r,
      re_hash = ev_hash r, re_appended_at = time_or_zero (ev_appended_at r),
      re_principal = ev_principal r, re_device = coalesce [] (ev_device r)\<rparr>"

lemma load_event_view:
  assumes "blobs_inv sha root s" and "r \<in> set (events s)" and "\<not> en_fault e ''ReadBlob''"
  shows "load_event sha root e s r = Inr (event_view sha root s r)"
  using assms by (auto simp: load_event_def event_view_def read_blob_def blobs_inv_def)

lemma load_all_Inr: "(\<And>r. r \<in> set rs \<Longrightarrow> f r = Inr (g r)) \<Longrightarrow> load_all f rs = Inr (map g rs)"
  by (induction rs) auto

lemma filter_after:
  assumes "map ev_seq evs = [Suc b..<Suc (b + length evs)]"
  shows "filter (\<lambda>r. b + k < ev_seq r) evs = drop k evs"
  using assms
proof (induction evs arbitrary: b k)
  case (Cons r rs)
  then have r: "ev_seq r = Suc b" and rs: "map ev_seq rs = [Suc (Suc b)..<Suc (Suc b + length rs)]"
    using upt_conv_Cons [of "Suc b" "Suc (b + length (r # rs))"] by (simp_all del: upt_Suc)
  show ?case
  proof (cases k)
    case 0
    have "\<forall>x\<in>set rs. Suc b < ev_seq x"
    proof -
      have "ev_seq ` set rs = set [Suc (Suc b)..<Suc (Suc b + length rs)]"
        using rs by (metis set_map)
      then show ?thesis by (metis Suc_le_lessD atLeastLessThan_iff imageI set_upt)
    qed
    then have "filter (\<lambda>r. b < ev_seq r) rs = rs" by (intro filter_True) (auto dest: Suc_lessD)
    then show ?thesis using 0 r by simp
  next
    case (Suc j)
    then have "filter (\<lambda>r. Suc b + j < ev_seq r) rs = drop j rs" using Cons.IH [OF rs] by blast
    then show ?thesis using Suc r by simp
  qed
qed simp

lemma read_rows_slice:
  assumes "store_inv s"
  shows "read_rows ns sid k n s = take n (drop k (stream_events ns sid s))"
proof -
  let ?evs = "stream_events ns sid s"
  have "filter (\<lambda>r. k < ev_seq r) ?evs = drop k ?evs"
    using filter_after [of ?evs 0 k] stream_events_seqs [OF assms] by simp
  moreover have "sorted (map ev_seq (drop k ?evs))"
  proof -
    have "sorted (map ev_seq ?evs)" using stream_events_seqs [OF assms] by (metis sorted_upt)
    then show ?thesis by (metis drop_map sorted_wrt_drop)
  qed
  ultimately show ?thesis by (simp add: read_rows_def by_seq_def sort_key_id_if_sorted)
qed

definition event_position :: "string \<Rightarrow> event_row list \<Rightarrow> nat option" where
  "event_position since evs =
     (if since = [] then Some 0 else map_option ev_seq (lookup_by ev_id since evs))"

lemma read_stream_page:
  assumes inv: "store_inv s" "blobs_inv sha root s"
    and e: "\<not> en_fault e ''ReadStream''" "\<not> en_fault e ''ReadBlob''"
    and k: "event_position (ro_since opts) (stream_events ns sid s) = Some k"
  shows "read_stream sha root e ns sid opts s =
    Inr (map (event_view sha root s)
           (take (clamp_limit (ro_limit opts)) (drop k (stream_events ns sid s))),
         k + clamp_limit (ro_limit opts) < length (stream_events ns sid s))"
proof -
  let ?l = "clamp_limit (ro_limit opts)" and ?evs = "stream_events ns sid s"
  have since: "since_seq ns sid (ro_since opts) s = Inr k"
    using k by (auto simp: since_seq_def event_position_def split: if_splits)
  have "set ?evs \<subseteq> set (events s)" by (auto simp: stream_events_def)
  then have "load_all (load_event sha root e s) (take (?l + 1) (drop k ?evs))
      = Inr (map (event_view sha root s) (take (?l + 1) (drop k ?evs)))"
    by (intro load_all_Inr load_event_view [OF inv(2) _ e(2)]) (meson in_set_dropD in_set_takeD subsetD)
  then show ?thesis
    using e(1) since
    by (auto simp: read_stream_def Let_def read_rows_slice [OF inv(1)] take_map min_def)
qed

lemma clamp_limit_pos: "0 < clamp_limit l" "clamp_limit l \<le> 1000"
  by (auto simp: clamp_limit_def)

text \<open>
  The loop a reader runs: page after page, each starting after the last event of the one
  before, until a page says there are no more.
\<close>

fun read_pages ::
  "(bytes \<Rightarrow> bytes) \<Rightarrow> string \<Rightarrow> env \<Rightarrow> string \<Rightarrow> string \<Rightarrow> int \<Rightarrow> store \<Rightarrow> nat \<Rightarrow> string \<Rightarrow>
     read_event list option" where
  "read_pages sha root e ns sid limit s 0 since = None"
| "read_pages sha root e ns sid limit s (Suc fuel) since =
     (case read_stream sha root e ns sid \<lparr>ro_since = since, ro_limit = limit\<rparr> s of
        Inl _ \<Rightarrow> None
      | Inr (page, again) \<Rightarrow>
          if \<not> again \<or> page = [] then Some page
          else map_option (\<lambda>rest. page @ rest)
                 (read_pages sha root e ns sid limit s fuel (re_event_id (last page))))"

lemma position_of_nth:
  assumes "store_inv s" and "n < length (stream_events ns sid s)"
    and "ev_id (stream_events ns sid s ! n) \<noteq> []"
  shows "event_position (ev_id (stream_events ns sid s ! n)) (stream_events ns sid s) = Some (Suc n)"
proof -
  let ?evs = "stream_events ns sid s"
  have "distinct (map ev_id ?evs)"
    using store_invD(1) [OF assms(1)] by (simp add: stream_events_def distinct_map_filter)
  then have "lookup_by ev_id (ev_id (?evs ! n)) ?evs = Some (?evs ! n)"
    using assms(2) by (intro lookup_by_unique) simp_all
  moreover have "ev_seq (?evs ! n) = map ev_seq ?evs ! n" using assms(2) by simp
  ultimately show ?thesis
    using assms by (simp only: event_position_def stream_events_seqs if_False option.map)
      (simp del: upt_Suc)
qed

lemma read_pages_from:
  assumes inv: "store_inv s" "blobs_inv sha root s"
    and e: "\<not> en_fault e ''ReadStream''" "\<not> en_fault e ''ReadBlob''"
    and ids: "\<forall>r\<in>set (stream_events ns sid s). ev_id r \<noteq> []"
    and k: "event_position since (stream_events ns sid s) = Some k"
    and fuel: "length (stream_events ns sid s) - k < fuel"
  shows "read_pages sha root e ns sid limit s fuel since =
    Some (map (event_view sha root s) (drop k (stream_events ns sid s)))"
  using k fuel
proof (induction fuel arbitrary: since k)
  case (Suc fuel)
  let ?evs = "stream_events ns sid s" and ?l = "clamp_limit limit"
  note page = read_stream_page [OF inv e, of "\<lparr>ro_since = since, ro_limit = limit\<rparr>" ns sid k]
  have page: "read_stream sha root e ns sid \<lparr>ro_since = since, ro_limit = limit\<rparr> s =
      Inr (map (event_view sha root s) (take ?l (drop k ?evs)), k + ?l < length ?evs)"
    using page Suc.prems(1) by simp
  show ?case
  proof (cases "k + ?l < length ?evs")
    case False
    then show ?thesis using page by simp
  next
    case True
    let ?n = "k + ?l - 1"
    have n: "?n < length ?evs" "Suc ?n = k + ?l" using True clamp_limit_pos(1) [of limit] by auto
    have "take ?l (drop k ?evs) \<noteq> []" using True clamp_limit_pos(1) [of limit] by simp
    moreover have "last (take ?l (drop k ?evs)) = ?evs ! ?n"
      using True clamp_limit_pos(1) [of limit] by (simp add: last_conv_nth)
    ultimately have last_id:
      "re_event_id (last (map (event_view sha root s) (take ?l (drop k ?evs)))) = ev_id (?evs ! ?n)"
      by (simp add: last_map event_view_def)
    have "event_position (ev_id (?evs ! ?n)) ?evs = Some (k + ?l)"
      using position_of_nth [OF inv(1) n(1)] ids n by simp
    then have "read_pages sha root e ns sid limit s fuel (ev_id (?evs ! ?n))
        = Some (map (event_view sha root s) (drop (k + ?l) ?evs))"
      using Suc.IH Suc.prems(2) True clamp_limit_pos(1) [of limit] by simp
    then have "read_pages sha root e ns sid limit s (Suc fuel) since
        = Some (map (event_view sha root s) (take ?l (drop k ?evs) @ drop ?l (drop k ?evs)))"
      using page True last_id \<open>take ?l (drop k ?evs) \<noteq> []\<close> by (simp add: add.commute)
    then show ?thesis by (simp only: append_take_drop_id)
  qed
qed simp

end
