(* ===== verification/Store_History.thy ===== *)
theory Store_History
  imports Store_Events
begin

text \<open>
  History streams (nakli-hub/internal/storage/history.go): hash-chained streams under the
  namespace \<open>__history\<close>. AppendHistoryEvent accepts an event only when the caller names the
  current head hash; VerifyHistoryChain walks a stream and recomputes every hash. The abstract
  contract is \<open>chain_ok\<close>: each row holds the hash of its predecessor and the hash of its own
  fields. SHA-256 is a parameter.
\<close>

definition history_namespace :: string where
  "history_namespace = ''__history''"

definition compute_history_event_hash ::
  "(bytes \<Rightarrow> bytes) \<Rightarrow> bytes \<Rightarrow> string \<Rightarrow> string \<Rightarrow> string \<Rightarrow> string \<Rightarrow> bytes" where
  "compute_history_event_hash sha prev eid kind meta deps =
     sha (prev @ eid @ kind @ meta @ deps)"

record history_input =
  hi_stream_id :: string
  hi_kind :: string
  hi_ciphertext :: bytes
  hi_metadata :: string
  hi_causal_deps :: string
  hi_vector_clock :: string
  hi_prev_hash :: bytes
  hi_principal :: string
  hi_grant_id :: string
  hi_device :: string

record history_result =
  hr_event_id :: string
  hr_seq :: nat
  hr_event_hash :: bytes
  hr_appended_at :: time
  hr_blob_path :: string

text \<open>COALESCE(head_event_hash, x'') of the stream's row; no row is None, a nil slice.\<close>

definition current_head :: "string \<Rightarrow> store \<Rightarrow> bytes option" where
  "current_head sid s =
     map_option (\<lambda>r. coalesce [] (st_head_event_hash r)) (lookup_stream history_namespace sid s)"

definition history_row ::
  "(bytes \<Rightarrow> bytes) \<Rightarrow> env \<Rightarrow> history_input \<Rightarrow> string \<Rightarrow> string \<Rightarrow> store \<Rightarrow> event_row" where
  "history_row sha e i path eid s =
     (let head = current_head (hi_stream_id i) s
      in \<lparr>ev_id = eid, ev_namespace = history_namespace, ev_stream_id = hi_stream_id i,
          ev_stream_type = ''history'', ev_seq = next_seq history_namespace (hi_stream_id i) s,
          ev_kind = hi_kind i, ev_blob_path = path, ev_payload_size = length (hi_ciphertext i),
          ev_metadata = nullable (hi_metadata i), ev_causal_deps = nullable (hi_causal_deps i),
          ev_vector_clock = hi_vector_clock i, ev_prev_hash = head,
          ev_hash = Some (compute_history_event_hash sha (coalesce [] head) eid (hi_kind i)
             (hi_metadata i) (hi_causal_deps i)),
          ev_appended_at = now_rfc3339 e, ev_principal = hi_principal i,
          ev_grant_id = hi_grant_id i, ev_device = nullable (hi_device i)\<rparr>)"

definition append_history_event ::
  "(bytes \<Rightarrow> bytes) \<Rightarrow> env \<Rightarrow> history_input \<Rightarrow> string \<Rightarrow> string \<Rightarrow> history_result store_op" where
  "append_history_event sha e i path eid s =
     (if en_fault e ''AppendHistoryEvent'' then (Inl ErrDriver, s)
      else
        let ns = history_namespace; sid = hi_stream_id i; head = current_head sid s
        in if coalesce [] head \<noteq> hi_prev_hash i then (Inl ErrHistoryConflict, s)
           else
             let s1 = (if head = None
                       then insert_stream ns sid ''history'' (now_rfc3339 e) s else s);
                 r = history_row sha e i path eid s
             in if event_exists eid s1 then (Inl ErrDriver, s)
                else (Inr \<lparr>hr_event_id = eid, hr_seq = ev_seq r,
                           hr_event_hash = coalesce [] (ev_hash r), hr_appended_at = en_now e,
                           hr_blob_path = path\<rparr>,
                      update_head ns sid eid (ev_hash r) (insert_event r s1)))"

record verify_result =
  vr_verified :: bool
  vr_length :: nat
  vr_head_hash :: bytes
  vr_broken_at :: string

text \<open>The loop of VerifyHistoryChain, from the expected previous hash and the count so far.\<close>

fun verify_walk :: "(bytes \<Rightarrow> bytes) \<Rightarrow> bytes \<Rightarrow> nat \<Rightarrow> event_row list \<Rightarrow> verify_result" where
  "verify_walk sha expected n [] =
     \<lparr>vr_verified = True, vr_length = n, vr_head_hash = expected, vr_broken_at = []\<rparr>"
| "verify_walk sha expected n (r # rs) =
     (let prev = coalesce [] (ev_prev_hash r);
          computed = compute_history_event_hash sha prev (ev_id r) (ev_kind r)
            (coalesce [] (ev_metadata r)) (coalesce ''[]'' (ev_causal_deps r))
      in if prev \<noteq> expected \<or> computed \<noteq> coalesce [] (ev_hash r)
         then \<lparr>vr_verified = False, vr_length = n, vr_head_hash = expected,
               vr_broken_at = ev_id r\<rparr>
         else verify_walk sha (coalesce [] (ev_hash r)) (n + 1) rs)"

definition verify_history_chain ::
  "(bytes \<Rightarrow> bytes) \<Rightarrow> env \<Rightarrow> string \<Rightarrow> store \<Rightarrow> store_error + verify_result" where
  "verify_history_chain sha e sid s =
     (if en_fault e ''VerifyHistoryChain'' then Inl ErrDriver
      else Inr (verify_walk sha [] 0 (by_seq (stream_events history_namespace sid s))))"

section \<open>AppendHistoryEvent is an append path\<close>

lemma rows_matching_lookup_stream:
  "rows_matching (\<lambda>r. stream_key r = (ns, sid)) (streams s) = 0 \<longleftrightarrow> lookup_stream ns sid s = None"
  unfolding rows_matching_zero lookup_stream_def lookup_by_None_iff by (metis image_iff)

lemma history_ensure:
  "(if current_head sid s = None then insert_stream history_namespace sid ''history'' at s else s)
     = ensure_stream history_namespace sid ''history'' at s"
  by (simp add: ensure_stream_def rows_matching_lookup_stream current_head_def)

lemma history_row_fields [simp]:
  "ev_id (history_row sha e i path eid s) = eid"
  "ev_namespace (history_row sha e i path eid s) = history_namespace"
  "ev_stream_id (history_row sha e i path eid s) = hi_stream_id i"
  "ev_stream_type (history_row sha e i path eid s) = ''history''"
  "ev_seq (history_row sha e i path eid s) = next_seq history_namespace (hi_stream_id i) s"
  "event_key (history_row sha e i path eid s) = (history_namespace, hi_stream_id i)"
  by (simp_all add: history_row_def Let_def event_key_def)

lemma append_history_event_eq:
  "append_history_event sha e i path eid s =
     (if en_fault e ''AppendHistoryEvent'' then (Inl ErrDriver, s)
      else if coalesce [] (current_head (hi_stream_id i) s) \<noteq> hi_prev_hash i
      then (Inl ErrHistoryConflict, s)
      else if eid \<in> ev_id ` set (events s) then (Inl ErrDriver, s)
      else (Inr \<lparr>hr_event_id = eid, hr_seq = next_seq history_namespace (hi_stream_id i) s,
              hr_event_hash = coalesce [] (ev_hash (history_row sha e i path eid s)),
              hr_appended_at = en_now e, hr_blob_path = path\<rparr>,
            add_event (now_rfc3339 e) (history_row sha e i path eid s) s))"
  unfolding append_history_event_def Let_def history_ensure
  by (simp only: event_exists_def ensure_stream_events add_event_def history_row_fields)

lemma append_history_event_cases:
  assumes "append_history_event sha e i path eid s = (r, s')"
  obtains err where "r = Inl err" "s' = s"
  | "r = Inr \<lparr>hr_event_id = eid, hr_seq = next_seq history_namespace (hi_stream_id i) s,
        hr_event_hash = coalesce [] (ev_hash (history_row sha e i path eid s)),
        hr_appended_at = en_now e, hr_blob_path = path\<rparr>"
    "s' = add_event (now_rfc3339 e) (history_row sha e i path eid s) s"
    "eid \<notin> ev_id ` set (events s)"
    "coalesce [] (current_head (hi_stream_id i) s) = hi_prev_hash i"
proof (cases "en_fault e ''AppendHistoryEvent''
    \<or> coalesce [] (current_head (hi_stream_id i) s) \<noteq> hi_prev_hash i
    \<or> eid \<in> ev_id ` set (events s)")
  case True
  then have "\<exists>err. r = Inl err" "s' = s"
    using assms by (auto simp: append_history_event_eq split: if_splits)
  then show thesis using that(1) by blast
next
  case False
  then show thesis using assms by (intro that(2)) (simp_all add: append_history_event_eq)
qed

interpretation history: stream_appender
  "\<lambda>e (i, path, eid). append_history_event sha e i path eid"
  "\<lambda>e s (i, path, eid). history_row sha e i path eid s"
  "\<lambda>e i. now_rfc3339 e" for sha
proof unfold_locales
  fix e :: env and i :: "history_input \<times> string \<times> string" and s s' :: store and x err
  obtain a path eid where i: "i = (a, path, eid)" by (cases i)
  show "(case i of (i, path, eid) \<Rightarrow> append_history_event sha e i path eid) s = (Inl err, s') \<Longrightarrow>
      s' = s"
    by (auto simp: i elim: append_history_event_cases)
  show "(case i of (i, path, eid) \<Rightarrow> append_history_event sha e i path eid) s = (Inr x, s') \<Longrightarrow>
      s' = add_event (now_rfc3339 e) (case i of (i, path, eid) \<Rightarrow> history_row sha e i path eid s) s
      \<and> ev_id (case i of (i, path, eid) \<Rightarrow> history_row sha e i path eid s) \<notin> ev_id ` set (events s)
      \<and> ev_seq (case i of (i, path, eid) \<Rightarrow> history_row sha e i path eid s)
        = next_seq (ev_namespace (case i of (i, path, eid) \<Rightarrow> history_row sha e i path eid s))
            (ev_stream_id (case i of (i, path, eid) \<Rightarrow> history_row sha e i path eid s)) s"
    by (auto simp: i elim: append_history_event_cases)
qed

section \<open>The chain\<close>

definition row_hash :: "(bytes \<Rightarrow> bytes) \<Rightarrow> event_row \<Rightarrow> bytes" where
  "row_hash sha r =
     compute_history_event_hash sha (coalesce [] (ev_prev_hash r)) (ev_id r) (ev_kind r)
       (coalesce [] (ev_metadata r)) (coalesce ''[]'' (ev_causal_deps r))"

fun chain_ok :: "(bytes \<Rightarrow> bytes) \<Rightarrow> bytes \<Rightarrow> event_row list \<Rightarrow> bool" where
  "chain_ok sha prev [] = True"
| "chain_ok sha prev (r # rs) =
     (coalesce [] (ev_prev_hash r) = prev \<and> coalesce [] (ev_hash r) = row_hash sha r
      \<and> chain_ok sha (coalesce [] (ev_hash r)) rs)"

definition last_hash :: "bytes \<Rightarrow> event_row list \<Rightarrow> bytes" where
  "last_hash prev rs = (if rs = [] then prev else coalesce [] (ev_hash (last rs)))"

lemma chain_ok_append:
  "chain_ok sha prev (rs @ [r]) \<longleftrightarrow>
     chain_ok sha prev rs \<and> coalesce [] (ev_prev_hash r) = last_hash prev rs
     \<and> coalesce [] (ev_hash r) = row_hash sha r"
  by (induction rs arbitrary: prev) (auto simp: last_hash_def)

text \<open>The walk decides the chain, and names the first row that breaks it.\<close>

lemma verify_walk_ok:
  "chain_ok sha prev rs \<Longrightarrow>
     verify_walk sha prev n rs = \<lparr>vr_verified = True, vr_length = n + length rs,
       vr_head_hash = last_hash prev rs, vr_broken_at = []\<rparr>"
  by (induction rs arbitrary: prev n) (auto simp: Let_def last_hash_def row_hash_def)

lemma verify_walk_broken:
  "\<not> chain_ok sha prev rs \<Longrightarrow>
     \<exists>k < length rs. chain_ok sha prev (take k rs) \<and> \<not> chain_ok sha prev (take (Suc k) rs)
       \<and> verify_walk sha prev n rs = \<lparr>vr_verified = False, vr_length = n + k,
           vr_head_hash = last_hash prev (take k rs), vr_broken_at = ev_id (rs ! k)\<rparr>"
proof (induction rs arbitrary: prev n)
  case (Cons r rs)
  show ?case
  proof (cases "coalesce [] (ev_prev_hash r) = prev \<and> coalesce [] (ev_hash r) = row_hash sha r")
    case True
    then obtain k where "k < length rs" "chain_ok sha (row_hash sha r) (take k rs)"
      "\<not> chain_ok sha (row_hash sha r) (take (Suc k) rs)"
      "verify_walk sha (row_hash sha r) (n + 1) rs = \<lparr>vr_verified = False, vr_length = n + 1 + k,
         vr_head_hash = last_hash (row_hash sha r) (take k rs), vr_broken_at = ev_id (rs ! k)\<rparr>"
      using Cons.IH [of "row_hash sha r" "n + 1"] Cons.prems by auto
    then show ?thesis
      using True by (intro exI [of _ "Suc k"]) (auto simp: Let_def row_hash_def last_hash_def)
  next
    case False
    then show ?thesis by (intro exI [of _ 0]) (auto simp: Let_def row_hash_def last_hash_def)
  qed
qed simp

lemma by_seq_stream: "store_inv s \<Longrightarrow> by_seq (stream_events ns sid s) = stream_events ns sid s"
  unfolding by_seq_def
  by (rule sort_key_id_if_sorted) (metis sorted_upt stream_events_seqs)

lemma lookup_stream_ok:
  assumes "store_inv s" and "lookup_stream ns sid s = Some t"
  shows "st_namespace t = ns" "st_stream_id t = sid" "stream_ok s t"
proof -
  have "t \<in> set (streams s)" "stream_key t = (ns, sid)"
    using assms(2) lookup_by_SomeD [of stream_key "(ns, sid)" "streams s" t]
    by (auto simp: lookup_stream_def)
  then show "st_namespace t = ns" "st_stream_id t = sid" "stream_ok s t"
    using store_invD(4) [OF assms(1)] by (auto simp: stream_key_def)
qed

lemma lookup_stream_None:
  assumes "store_inv s" and "lookup_stream ns sid s = None"
  shows "stream_events ns sid s = []"
proof -
  have "(ns, sid) \<notin> stream_key ` set (streams s)"
    using assms(2) by (simp add: lookup_stream_def lookup_by_None_iff)
  then show ?thesis
    unfolding stream_events_def filter_empty_conv by (metis store_invD(3) [OF assms(1)])
qed

lemma current_head_last:
  assumes "store_inv s"
  shows "coalesce [] (current_head sid s) = last_hash [] (stream_events history_namespace sid s)"
proof (cases "lookup_stream history_namespace sid s")
  case None
  then show ?thesis
    using lookup_stream_None [OF assms None] by (simp add: current_head_def last_hash_def)
next
  case (Some t)
  then show ?thesis
    using lookup_stream_ok [OF assms Some]
    by (simp add: current_head_def last_hash_def stream_ok_def Let_def)
qed

lemma history_row_hash:
  "hi_causal_deps i \<noteq> [] \<Longrightarrow>
     coalesce [] (ev_hash (history_row sha e i path eid s)) = row_hash sha (history_row sha e i path eid s)"
  by (simp add: history_row_def Let_def row_hash_def)

lemma history_row_prev:
  "ev_prev_hash (history_row sha e i path eid s) = current_head (hi_stream_id i) s"
  by (simp add: history_row_def Let_def)

definition history_ok :: "(bytes \<Rightarrow> bytes) \<Rightarrow> string \<Rightarrow> store \<Rightarrow> bool" where
  "history_ok sha sid s = chain_ok sha [] (stream_events history_namespace sid s)"

lemma history_ok_append:
  assumes "store_inv s" and "history_ok sha sid s" and "hi_causal_deps i \<noteq> []"
  shows "history_ok sha sid (snd (append_history_event sha e i path eid s))"
proof (cases rule: append_history_event_cases [OF prod.collapse [symmetric],
      of sha e i path eid s])
  case 1
  then show ?thesis using assms(2) by simp
next
  case 2
  show ?thesis
  proof (cases "hi_stream_id i = sid")
    case True
    then show ?thesis
      using 2(2) assms
      by (simp add: history_ok_def stream_events_add_event chain_ok_append history_row_prev
          current_head_last history_row_hash)
  next
    case False
    then show ?thesis using 2(2) assms(2) by (simp add: history_ok_def stream_events_add_event)
  qed
qed

text \<open>A run of history appends, each with the environment of its request.\<close>

type_synonym history_request = "env \<times> history_input \<times> string \<times> string"

definition run_history :: "(bytes \<Rightarrow> bytes) \<Rightarrow> history_request list \<Rightarrow> store \<Rightarrow> store" where
  "run_history sha rs s =
     fold (\<lambda>(e, i, path, eid) s. snd (append_history_event sha e i path eid s)) rs s"

lemma append_history_inv:
  "store_inv s \<Longrightarrow> store_inv (snd (append_history_event sha e i path eid s))"
  using history.append_inv [of s sha e "(i, path, eid)"] by simp

lemma run_history_inv:
  "store_inv s \<Longrightarrow> store_inv (run_history sha rs s)"
  unfolding run_history_def
  by (induction rs arbitrary: s) (auto simp: append_history_inv split: prod.splits)

lemma run_history_ok:
  "store_inv s \<Longrightarrow> history_ok sha sid s \<Longrightarrow> \<forall>(e, i, path, eid)\<in>set rs. hi_causal_deps i \<noteq> [] \<Longrightarrow>
     history_ok sha sid (run_history sha rs s)"
  unfolding run_history_def
proof (induction rs arbitrary: s)
  case (Cons q rs)
  obtain e i path eid where q: "q = (e, i, path, eid)" by (cases q)
  show ?case
    using Cons.IH [of "snd (append_history_event sha e i path eid s)"] Cons.prems
      append_history_inv history_ok_append
    by (simp add: q)
qed simp

end
