(* ===== verification/Store_Sync.thy ===== *)
theory Store_Sync
  imports Store_History
begin

text \<open>
  Replication (nakli-hub/internal/storage/sync.go): SyncPull lists the events of all streams by
  rowid from a cursor on, IngestEvent stores an event pushed by a peer. The rowid of an event
  is its position in the table, counted from 1: the table is only appended to.
\<close>

record sync_event =
  se_namespace :: string
  se_stream_id :: string
  se_stream_type :: string
  se_event_id :: string
  se_kind :: string
  se_seq :: nat
  se_ciphertext :: bytes
  se_metadata :: string
  se_causal_deps :: string
  se_vector_clock :: string
  se_prev_hash :: "bytes option"
  se_hash :: "bytes option"
  se_appended_at :: time
  se_principal :: string
  se_grant_id :: string

definition numbered :: "event_row list \<Rightarrow> (nat \<times> event_row) list" where
  "numbered rs = enumerate 1 rs"

definition sync_view :: "event_row \<Rightarrow> bytes \<Rightarrow> sync_event" where
  "sync_view r c =
     \<lparr>se_namespace = ev_namespace r, se_stream_id = ev_stream_id r,
      se_stream_type = ev_stream_type r, se_event_id = ev_id r, se_kind = ev_kind r,
      se_seq = ev_seq r, se_ciphertext = c, se_metadata = coalesce [] (ev_metadata r),
      se_causal_deps = coalesce ''[]'' (ev_causal_deps r), se_vector_clock = ev_vector_clock r,
      se_prev_hash = ev_prev_hash r, se_hash = ev_hash r,
      se_appended_at = time_or_zero (ev_appended_at r), se_principal = ev_principal r,
      se_grant_id = ev_grant_id r\<rparr>"

definition load_sync ::
  "(bytes \<Rightarrow> bytes) \<Rightarrow> string \<Rightarrow> env \<Rightarrow> store \<Rightarrow> nat \<times> event_row \<Rightarrow> store_error + sync_event" where
  "load_sync sha root e s q =
     sum_map (sync_view (snd q)) (read_blob sha root e s (ev_namespace (snd q)) (ev_id (snd q)))"

text \<open>SELECT rowid FROM events WHERE event_id = ?, whose error leaves 0.\<close>

definition rowid_of :: "env \<Rightarrow> string \<Rightarrow> store \<Rightarrow> nat" where
  "rowid_of e eid s =
     (if en_fault e ''SyncPull.rowid'' then 0
      else case lookup_by (\<lambda>q. ev_id (snd q)) eid (numbered (events s)) of
             None \<Rightarrow> 0 | Some q \<Rightarrow> fst q)"

definition cursor_text :: "string \<Rightarrow> nat \<Rightarrow> string" where
  "cursor_text since n = (if 0 < n then dec_digits n else if since \<noteq> [] then since else [])"

definition sync_pull ::
  "(bytes \<Rightarrow> bytes) \<Rightarrow> string \<Rightarrow> env \<Rightarrow> string \<Rightarrow> int \<Rightarrow> store \<Rightarrow>
     store_error + (sync_event list \<times> string \<times> bool)" where
  "sync_pull sha root e since limit s =
     (case (if since = [] then Some 0 else parse_int64 since) of
        None \<Rightarrow> Inl ErrInvalidCursor
      | Some v \<Rightarrow>
          if en_fault e ''SyncPull'' then Inl ErrDriver
          else
            let l = clamp_limit limit;
                rows = take (l + 1) (filter (\<lambda>q. v < int (fst q)) (numbered (events s)))
            in (case load_all (load_sync sha root e s) rows of
                  Inl err \<Rightarrow> Inl err
                | Inr out \<Rightarrow>
                    if l < length out
                    then Inr (take l out,
                              cursor_text since (rowid_of e (se_event_id (out ! (l - 1))) s), True)
                    else Inr (out,
                              cursor_text since (if rows = [] then 0 else fst (last rows)), False)))"

section \<open>IngestEvent\<close>

record ingest_input =
  ii_event_id :: string
  ii_namespace :: string
  ii_stream_id :: string
  ii_stream_type :: string
  ii_kind :: string
  ii_blob_path :: string
  ii_payload_size :: nat
  ii_metadata :: string
  ii_causal_deps :: string
  ii_vector_clock :: string
  ii_prev_hash :: "bytes option"
  ii_hash :: "bytes option"
  ii_appended_at :: time
  ii_principal :: string
  ii_grant_id :: string

definition ingest_time :: "env \<Rightarrow> ingest_input \<Rightarrow> string" where
  "ingest_time e i = fmt_time (if ii_appended_at i = 0 then en_now e else ii_appended_at i)"

definition ingest_row :: "env \<Rightarrow> ingest_input \<Rightarrow> nat \<Rightarrow> event_row" where
  "ingest_row e i seq =
     \<lparr>ev_id = ii_event_id i, ev_namespace = ii_namespace i, ev_stream_id = ii_stream_id i,
      ev_stream_type = ii_stream_type i, ev_seq = seq, ev_kind = ii_kind i,
      ev_blob_path = ii_blob_path i, ev_payload_size = ii_payload_size i,
      ev_metadata = nullable (ii_metadata i), ev_causal_deps = nullable (ii_causal_deps i),
      ev_vector_clock = ii_vector_clock i, ev_prev_hash = ii_prev_hash i, ev_hash = ii_hash i,
      ev_appended_at = ingest_time e i, ev_principal = ii_principal i,
      ev_grant_id = ii_grant_id i, ev_device = None\<rparr>"

definition ingest_event :: "env \<Rightarrow> ingest_input \<Rightarrow> unit store_op" where
  "ingest_event e i s =
     (if ii_event_id i = [] \<or> ii_namespace i = [] \<or> ii_stream_id i = []
      then (Inl ErrInvalidInput, s)
      else if en_fault e ''IngestEvent'' then (Inl ErrDriver, s)
      else if event_exists (ii_event_id i) s then (Inl ErrAlreadyPresent, s)
      else
        let ns = ii_namespace i; sid = ii_stream_id i;
            s1 = ensure_stream ns sid (ii_stream_type i) (ingest_time e i) s;
            seq = next_seq ns sid s1
        in (Inr (), update_head ns sid (ii_event_id i) (ii_hash i)
                      (insert_event (ingest_row e i seq) s1)))"

lemma ingest_row_fields [simp]:
  "ev_id (ingest_row e i q) = ii_event_id i" "ev_namespace (ingest_row e i q) = ii_namespace i"
  "ev_stream_id (ingest_row e i q) = ii_stream_id i" "ev_seq (ingest_row e i q) = q"
  "ev_stream_type (ingest_row e i q) = ii_stream_type i" "ev_hash (ingest_row e i q) = ii_hash i"
  by (simp_all add: ingest_row_def)

lemma ingest_event_eq:
  "ingest_event e i s =
     (if ii_event_id i = [] \<or> ii_namespace i = [] \<or> ii_stream_id i = []
      then (Inl ErrInvalidInput, s)
      else if en_fault e ''IngestEvent'' then (Inl ErrDriver, s)
      else if ii_event_id i \<in> ev_id ` set (events s) then (Inl ErrAlreadyPresent, s)
      else (Inr (), add_event (ingest_time e i)
              (ingest_row e i (next_seq (ii_namespace i) (ii_stream_id i) s)) s))"
  unfolding ingest_event_def Let_def
  by (simp only: event_exists_def next_seq_ensure add_event_def ingest_row_fields)

interpretation ingest: stream_appender
  ingest_event
  "\<lambda>e s i. ingest_row e i (next_seq (ii_namespace i) (ii_stream_id i) s)"
  ingest_time
  by unfold_locales (auto simp: ingest_event_eq split: if_splits)

lemma ingest_event_ids:
  "\<not> en_fault e ''IngestEvent'' \<Longrightarrow> ii_event_id i \<noteq> [] \<Longrightarrow> ii_namespace i \<noteq> [] \<Longrightarrow>
     ii_stream_id i \<noteq> [] \<Longrightarrow>
     ev_id ` set (events (snd (ingest_event e i s))) = insert (ii_event_id i) (ev_id ` set (events s))"
  by (auto simp: ingest_event_eq events_add_event)

section \<open>The cursor loop\<close>

lemma numbered_filter:
  "filter (\<lambda>q. int (b + k) < int (fst q)) (enumerate (Suc b) rs) = drop k (enumerate (Suc b) rs)"
proof (induction rs arbitrary: b k)
  case (Cons r rs)
  show ?case
  proof (cases k)
    case 0
    have "\<forall>q\<in>set (enumerate (Suc (Suc b)) rs). int b < int (fst q)"
      by (auto simp: in_set_enumerate_eq)
    then have "filter (\<lambda>q. int b < int (fst q)) (enumerate (Suc (Suc b)) rs)
        = enumerate (Suc (Suc b)) rs"
      by (intro filter_True) simp
    then show ?thesis using 0 by simp
  next
    case (Suc j)
    then show ?thesis using Cons.IH [of "Suc b" j] by simp
  qed
qed simp

lemma numbered_after:
  "filter (\<lambda>q. int k < int (fst q)) (numbered rs) = drop k (numbered rs)"
  using numbered_filter [of 0 k rs] by (simp add: numbered_def)

lemma numbered_nth [simp]:
  "n < length rs \<Longrightarrow> numbered rs ! n = (Suc n, rs ! n)" "length (numbered rs) = length rs"
  by (simp_all add: numbered_def nth_enumerate_eq)

lemma snd_numbered [simp]: "map snd (numbered rs) = rs"
  by (simp add: numbered_def)

definition row_sync_view :: "(bytes \<Rightarrow> bytes) \<Rightarrow> string \<Rightarrow> store \<Rightarrow> event_row \<Rightarrow> sync_event" where
  "row_sync_view sha root s r =
     sync_view r (coalesce [] (blobs s (blob_path sha root (ev_namespace r) (ev_id r))))"

lemma load_sync_view:
  assumes "blobs_inv sha root s" and "snd q \<in> set (events s)" and "\<not> en_fault e ''ReadBlob''"
  shows "load_sync sha root e s q = Inr (row_sync_view sha root s (snd q))"
  using assms by (auto simp: load_sync_def row_sync_view_def read_blob_def blobs_inv_def)

lemma rowid_of_nth:
  assumes "store_inv s" and "n < length (events s)" and "\<not> en_fault e ''SyncPull.rowid''"
  shows "rowid_of e (ev_id (events s ! n)) s = Suc n"
proof -
  have "map (\<lambda>q. ev_id (snd q)) (numbered (events s)) = map ev_id (events s)"
    by (metis comp_apply list.map_comp list.map_cong0 snd_numbered)
  then have "distinct (map (\<lambda>q. ev_id (snd q)) (numbered (events s)))"
    using store_invD(1) [OF assms(1)] by simp
  then have "lookup_by (\<lambda>q. ev_id (snd q)) (ev_id (snd (numbered (events s) ! n)))
      (numbered (events s)) = Some (numbered (events s) ! n)"
    using assms(2) by (intro lookup_by_unique) (simp_all del: numbered_nth(1))
  then show ?thesis using assms(2,3) by (simp add: rowid_of_def)
qed

text \<open>The position a cursor stands for.\<close>

definition cursor_at :: "string \<Rightarrow> nat \<Rightarrow> bool" where
  "cursor_at since k = (since = [] \<and> k = 0 \<or> since \<noteq> [] \<and> parse_int64 since = Some (int k))"

lemma cursor_at_text: "0 < n \<Longrightarrow> n < 2 ^ 63 \<Longrightarrow> cursor_at (cursor_text since n) n"
  by (simp add: cursor_at_def cursor_text_def)

lemma sync_pull_page:
  assumes inv: "store_inv s" "blobs_inv sha root s" and small: "length (events s) < 2 ^ 63"
    and e: "\<not> en_fault e ''SyncPull''" "\<not> en_fault e ''ReadBlob''" "\<not> en_fault e ''SyncPull.rowid''"
    and k: "cursor_at since k"
  obtains c where
    "sync_pull sha root e since limit s =
       Inr (map (row_sync_view sha root s) (take (clamp_limit limit) (drop k (events s))), c,
            k + clamp_limit limit < length (events s))"
    "cursor_at c (max k (min (k + clamp_limit limit) (length (events s))))"
proof -
  let ?l = "clamp_limit limit" and ?rows = "take (clamp_limit limit + 1) (drop k (numbered (events s)))"
  let ?view = "row_sync_view sha root s"
  have l: "0 < ?l" by (rule clamp_limit_pos)
  have "set (map snd ?rows) \<subseteq> set (events s)"
    using set_take_subset set_drop_subset
    by (metis (no_types, lifting) drop_map snd_numbered subset_trans take_map)
  then have "snd q \<in> set (events s)" if "q \<in> set ?rows" for q
    using that by auto
  then have "load_all (load_sync sha root e s) ?rows = Inr (map (\<lambda>q. ?view (snd q)) ?rows)"
    by (intro load_all_Inr load_sync_view [OF inv(2) _ e(2)])
  also have "map (\<lambda>q. ?view (snd q)) ?rows = map ?view (map snd ?rows)" by simp
  also have "map snd ?rows = take (?l + 1) (drop k (events s))"
    by (metis drop_map snd_numbered take_map)
  finally have load: "load_all (load_sync sha root e s) ?rows
      = Inr (map ?view (take (?l + 1) (drop k (events s))))" .
  have start: "(if since = [] then Some 0 else parse_int64 since) = Some (int k)"
    using k by (auto simp: cursor_at_def)
  note unfolded = sync_pull_def start option.case Let_def numbered_after load sum.case e(1) if_False
  show thesis
  proof (cases "k + ?l < length (events s)")
    case True
    let ?n = "k + ?l - 1"
    have nth: "map ?view (take (?l + 1) (drop k (events s))) ! (?l - 1) = ?view (events s ! ?n)"
      using True l by simp
    have "se_event_id (?view (events s ! ?n)) = ev_id (events s ! ?n)"
      by (simp add: row_sync_view_def sync_view_def)
    then have rid: "rowid_of e (se_event_id (?view (events s ! ?n))) s = k + ?l"
      using rowid_of_nth [OF inv(1) _ e(3), of ?n] True l by simp
    have "?l < length (map ?view (take (?l + 1) (drop k (events s))))" using True by simp
    then have "sync_pull sha root e since limit s =
        Inr (take ?l (map ?view (take (?l + 1) (drop k (events s)))), cursor_text since (k + ?l), True)"
      unfolding unfolded nth rid using e(1) by simp
    moreover have "cursor_at (cursor_text since (k + ?l)) (max k (min (k + ?l) (length (events s))))"
      using True l small cursor_at_text [of "k + ?l" since] by simp
    ultimately show thesis using that True by (simp add: take_map min_def)
  next
    case False
    then have short: "\<not> ?l < length (map ?view (take (?l + 1) (drop k (events s))))" by simp
    have page: "sync_pull sha root e since limit s =
        Inr (map ?view (take (?l + 1) (drop k (events s))),
             cursor_text since (if ?rows = [] then 0 else fst (last ?rows)), False)"
      unfolding unfolded using short e(1) by simp
    have take: "take (?l + 1) (drop k (events s)) = take ?l (drop k (events s))"
      using False by simp
    show thesis
    proof (cases "k < length (events s)")
      case True
      then have ne: "?rows \<noteq> []" by (simp add: length_greater_0_conv [symmetric] del: length_greater_0_conv)
      have rows: "?rows = drop k (numbered (events s))" using False by simp
      have "fst (last (drop k (numbered (events s)))) = length (events s)"
        using True by (simp add: last_drop last_conv_nth [of "numbered (events s)"]
            length_greater_0_conv [symmetric] del: length_greater_0_conv)
      then have "fst (last ?rows) = length (events s)" by (simp only: rows)
      moreover have "cursor_at (cursor_text since (length (events s))) (length (events s))"
        using True small by (intro cursor_at_text) auto
      ultimately show thesis
        using that [of "cursor_text since (length (events s))"] page ne False True
        by (simp only: if_False take) (simp add: max_def min_def)
    next
      case none: False
      then have "?rows = []" by simp
      moreover have "cursor_at (cursor_text since 0) k"
        using k by (auto simp: cursor_at_def cursor_text_def)
      moreover have "max k (min (k + ?l) (length (events s))) = k" using none by simp
      ultimately show thesis
        using that [of "cursor_text since 0"] page none False by (simp only: if_True take) simp
    qed
  qed
qed

fun sync_pages ::
  "(bytes \<Rightarrow> bytes) \<Rightarrow> string \<Rightarrow> env \<Rightarrow> int \<Rightarrow> store \<Rightarrow> nat \<Rightarrow> string \<Rightarrow>
     (sync_event list \<times> string) option" where
  "sync_pages sha root e limit s 0 since = None"
| "sync_pages sha root e limit s (Suc fuel) since =
     (case sync_pull sha root e since limit s of
        Inl _ \<Rightarrow> None
      | Inr (page, cursor, again) \<Rightarrow>
          if \<not> again then Some (page, cursor)
          else map_option (\<lambda>(rest, c). (page @ rest, c)) (sync_pages sha root e limit s fuel cursor))"

lemma sync_pages_from:
  assumes inv: "store_inv s" "blobs_inv sha root s" and small: "length (events s) < 2 ^ 63"
    and e: "\<not> en_fault e ''SyncPull''" "\<not> en_fault e ''ReadBlob''" "\<not> en_fault e ''SyncPull.rowid''"
    and k: "cursor_at since k" "k \<le> length (events s)"
    and fuel: "length (events s) - k < fuel"
  shows "\<exists>c. sync_pages sha root e limit s fuel since =
      Some (map (row_sync_view sha root s) (drop k (events s)), c) \<and> cursor_at c (length (events s))"
  using k fuel
proof (induction fuel arbitrary: since k)
  case (Suc fuel)
  let ?l = "clamp_limit limit"
  obtain c where page: "sync_pull sha root e since limit s =
       Inr (map (row_sync_view sha root s) (take ?l (drop k (events s))), c,
            k + ?l < length (events s))"
    and c: "cursor_at c (max k (min (k + ?l) (length (events s))))"
    by (rule sync_pull_page [OF inv small e Suc.prems(1)])
  have l: "0 < ?l" by (rule clamp_limit_pos)
  show ?case
  proof (cases "k + ?l < length (events s)")
    case False
    then show ?thesis using page c Suc.prems(2) by (simp add: max_def min_def split: if_splits)
  next
    case True
    then have "cursor_at c (k + ?l)" using c by (simp add: max_def min_def split: if_splits)
    have "length (events s) - (k + ?l) < fuel" using True l Suc.prems(3) by linarith
    then obtain c' where c': "sync_pages sha root e limit s fuel c =
        Some (map (row_sync_view sha root s) (drop (k + ?l) (events s)), c')"
      "cursor_at c' (length (events s))"
      using Suc.IH [of c "k + ?l"] \<open>cursor_at c (k + ?l)\<close> True by auto
    have "map (row_sync_view sha root s) (take ?l (drop k (events s)))
        @ map (row_sync_view sha root s) (drop (k + ?l) (events s))
      = map (row_sync_view sha root s) (drop k (events s))"
      by (metis add.commute append_take_drop_id drop_drop map_append)
    then show ?thesis using page True c' by simp
  qed
qed simp

end
