(* ===== verification/Store_Steps.thy ===== *)
theory Store_Steps
  imports Auth Store_Sync Store_Buckets
begin

text \<open>
  The store as a transition system: a step is one call of a method of Store, in any
  environment and with any arguments, except that an event is only added when its blob is
  there. The request handlers are shown to run such steps and nothing else (\<open>evolves\<close>), so that
  what is proved of a step holds of every history of requests. The locale \<open>store_invariant\<close>
  carries an invariant of the step along, and is interpreted on each of them.
\<close>

section \<open>Steps\<close>

inductive store_step :: "sys \<Rightarrow> store \<Rightarrow> store \<Rightarrow> bool" for S :: sys where
  step_blob: "store_step S s (snd (write_blob (sy_sha256 S) (sy_blobs_root S) e ns eid c s))"
| step_append: "blobs s (blob_path (sy_sha256 S) (sy_blobs_root S) (ai_namespace i) eid) \<noteq> None \<Longrightarrow>
    store_step S s (snd (append_event e i path eid s))"
| step_history: "blobs s (blob_path (sy_sha256 S) (sy_blobs_root S) history_namespace eid) \<noteq> None \<Longrightarrow>
    store_step S s (snd (append_history_event (sy_sha256 S) e hi path eid s))"
| step_ingest: "blobs s (blob_path (sy_sha256 S) (sy_blobs_root S) (ii_namespace ii) (ii_event_id ii))
      \<noteq> None \<Longrightarrow>
    store_step S s (snd (ingest_event e ii s))"
| step_remember: "store_step S s (snd (remember_grant e g s))"
| step_revoke: "store_step S s (snd (mark_grant_revoked e gid ev s))"
| step_upsert: "store_step S s (snd (upsert_principal e p s))"
| step_retire: "store_step S s (snd (retire_principal e pid ev s))"
| step_put_idempotency:
    "store_step S s (snd (put_idempotency e key gid endpoint ph st body retention s))"
| step_expire_idempotency: "store_step S s (snd (delete_expired_idempotency e s))"
| step_create_pairing: "store_step S s (snd (create_pairing_token e pk s))"
| step_complete_pairing: "store_step S s (snd (complete_pairing e tok dev s))"
| step_create_crate: "store_step S s (snd (create_crate_token e ck s))"
| step_redeem_crate: "store_step S s (snd (redeem_crate_token e sec pubkey fp cap s))"
| step_cancel_crate: "store_step S s (snd (cancel_crate_token e sec s))"
| step_insert_pending: "store_step S s (snd (insert_pending_bridge e pc s))"
| step_approve_pending: "store_step S s (approve_pending_bridge e pid s)"
| step_log: "store_step S s (snd (log_operation e op_id [] [] endpoint st ms code s))"
| step_create_bucket: "store_step S s (snd (create_crate_bucket e b s))"
| step_touch_bucket: "store_step S s (snd (touch_crate_bucket e bid s))"
| step_delete_bucket: "store_step S s (snd (delete_crate_bucket e bid s))"

definition evolves :: "sys \<Rightarrow> store \<Rightarrow> store \<Rightarrow> bool" where
  "evolves S s s' = (store_step S)\<^sup>*\<^sup>* s s'"

lemma evolves_refl [simp, intro]: "evolves S s s"
  by (simp add: evolves_def)

lemma evolves_trans [trans]: "evolves S s t \<Longrightarrow> evolves S t u \<Longrightarrow> evolves S s u"
  by (simp add: evolves_def)

lemma evolves_step: "store_step S t u \<Longrightarrow> evolves S s t \<Longrightarrow> evolves S s u"
  by (simp add: evolves_def rtranclp.rtrancl_into_rtrancl)

lemma evolves_one: "store_step S s t \<Longrightarrow> evolves S s t"
  by (rule evolves_step [OF _ evolves_refl])

lemmas evolves_steps =
  store_step.intros(5-21) [THEN evolves_step] store_step.intros(1) [THEN evolves_step]

lemma evolves_remember_authenticated:
  "evolves S s t \<Longrightarrow> evolves S s (remember_authenticated_grant S e g t)"
  by (simp add: remember_authenticated_grant_def Let_def evolves_step [OF step_remember])

lemma evolves_authenticate: "evolves S (hb_store h) (hb_store (snd (authenticate S e hs h)))"
proof -
  consider "hb_store (snd (authenticate S e hs h)) = hb_store h"
    | g where "hb_store (snd (authenticate S e hs h)) = remember_authenticated_grant S e g (hb_store h)"
    using authenticate_store by blast
  then show ?thesis by cases (simp_all add: evolves_remember_authenticated)
qed

section \<open>Handlers that run steps\<close>

text \<open>The store of a handler's result comes from the store it was given by steps. The rules follow the
  shape of the handlers' bodies.\<close>

definition runs :: "sys \<Rightarrow> hub \<Rightarrow> 'r \<times> hub \<Rightarrow> bool" where
  "runs S h r = evolves S (hb_store h) (hb_store (snd r))"

named_theorems runs_intros \<open>rules for the shapes of a handler's body\<close>

lemma runs_option [runs_intros]:
  "(x = None \<Longrightarrow> runs S h a) \<Longrightarrow> (\<And>y. x = Some y \<Longrightarrow> runs S h (f y)) \<Longrightarrow>
     runs S h (case x of None \<Rightarrow> a | Some y \<Rightarrow> f y)"
  by (cases x) simp_all

lemma runs_sum [runs_intros]:
  "(\<And>y. x = Inl y \<Longrightarrow> runs S h (f y)) \<Longrightarrow> (\<And>y. x = Inr y \<Longrightarrow> runs S h (g y)) \<Longrightarrow>
     runs S h (case x of Inl y \<Rightarrow> f y | Inr y \<Rightarrow> g y)"
  by (cases x) simp_all

lemma runs_prod [runs_intros]:
  "(\<And>a b. x = (a, b) \<Longrightarrow> runs S h (f a b)) \<Longrightarrow> runs S h (case x of (a, b) \<Rightarrow> f a b)"
  by (cases x) simp_all

lemma runs_if [runs_intros]:
  "(b \<Longrightarrow> runs S h x) \<Longrightarrow> (\<not> b \<Longrightarrow> runs S h y) \<Longrightarrow> runs S h (if b then x else y)"
  by simp

lemma runs_let [runs_intros]: "(\<And>x. x = t \<Longrightarrow> runs S h (f x)) \<Longrightarrow> runs S h (let x = t in f x)"
  by simp

text \<open>The leaves: the store is the handler's own, or what a chain of steps has made of it.\<close>

lemma runs_self: "runs S h (r, h)"
  by (simp add: runs_def)

lemma runs_same: "hb_store h1 = hb_store h \<Longrightarrow> runs S h (r, h1)"
  by (simp add: runs_def)

lemma runs_store:
  "hb_store h1 = hb_store h \<Longrightarrow> evolves S (hb_store h1) s \<Longrightarrow> runs S h (r, h1\<lparr>hb_store := s\<rparr>)"
  by (simp add: runs_def)

lemmas runs_leaves = runs_self runs_same runs_store [OF refl]

lemma runs_trans: "runs S h r \<Longrightarrow> evolves S (hb_store (snd r)) (hb_store (snd r')) \<Longrightarrow> runs S h r'"
  unfolding runs_def by (rule evolves_trans)

lemma runs_authorised [runs_intros]:
  assumes "\<And>g h1. hb_store h1 = hb_store h \<Longrightarrow> runs S h (body g h1)"
  shows "runs S h (authorised S e rc rq body h)"
  unfolding runs_def by (rule authorised_rule) (simp_all add: assms [unfolded runs_def])

lemma runs_with_auth:
  assumes "\<And>rc h1. runs S h1 (next_handler rc h1)"
  shows "runs S h (with_auth S e hs next_handler h)"
proof -
  obtain r h1 where a: "authenticate S e hs h = (r, h1)" by fastforce
  then have "evolves S (hb_store h) (hb_store h1)" using evolves_authenticate [of S h e hs] by simp
  then show ?thesis
    using a assms evolves_trans by (cases r) (auto simp: with_auth_def runs_def)
qed

lemma runs_idempotent:
  assumes "\<And>rc. runs S h (next_handler rc h)"
  shows "runs S h (idempotent S e ep body render next_handler rc h)"
proof -
  obtain rep h1 where n: "next_handler (rc\<lparr>rc_idempotency_key := rh_idempotency_key (rc_headers rc)\<rparr>) h
      = (rep, h1)" by fastforce
  then have "evolves S (hb_store h) (hb_store h1)" using assms unfolding runs_def by (metis snd_conv)
  then show ?thesis
    by (auto simp: runs_def idempotent_def Let_def n evolves_steps
        split: sum.splits idempotency_outcome.splits)
qed

lemma runs_with_log:
  assumes "runs S h (next_handler h)"
  shows "runs S h (with_log e op_id ep hs next_handler h)"
  using assms
  by (cases "next_handler h")
    (simp add: runs_def with_log_def Let_def evolves_steps bare_context_def ctx_grant_id_def ctx_principal_def)

section \<open>Invariants of a step\<close>

locale store_invariant =
  fixes S :: sys and inv :: "store \<Rightarrow> bool"
  assumes preserved: "store_step S s s' \<Longrightarrow> inv s \<Longrightarrow> inv s'"
begin

lemma kept: "evolves S s s' \<Longrightarrow> inv s \<Longrightarrow> inv s'"
  unfolding evolves_def by (induction rule: rtranclp_induct) (auto intro: preserved)

end

text \<open>What the methods that touch other tables leave alone.\<close>

lemma idempotency_steps_frame [frame_simps]:
  "events (snd (delete_expired_idempotency e s)) = events s"
  "streams (snd (delete_expired_idempotency e s)) = streams s"
  "blobs (snd (delete_expired_idempotency e s)) = blobs s"
  by (simp_all add: delete_expired_idempotency_def)

lemma rest_frame [frame_simps]:
  "streams (snd (retire_principal e pid ev s)) = streams s"
  "blobs (snd (retire_principal e pid ev s)) = blobs s"
  "events (approve_pending_bridge e pid s) = events s"
  "streams (approve_pending_bridge e pid s) = streams s"
  "blobs (approve_pending_bridge e pid s) = blobs s"
  "events (snd (log_operation e op_id gid prin endpoint st ms code s)) = events s"
  "streams (snd (log_operation e op_id gid prin endpoint st ms code s)) = streams s"
  "blobs (snd (log_operation e op_id gid prin endpoint st ms code s)) = blobs s"
  "events (snd (delete_crate_bucket e bid s)) = events s"
  "streams (snd (delete_crate_bucket e bid s)) = streams s"
  "blobs (snd (delete_crate_bucket e bid s)) = blobs s"
  by (simp_all add: retire_principal_def approve_pending_bridge_def log_operation_def
      delete_crate_bucket_def)

lemmas other_operations = write_blob_def remember_grant_def mark_grant_revoked_def insert_grant_def upsert_principal_def
  retire_principal_def put_idempotency_def delete_expired_idempotency_def create_pairing_token_def
  complete_pairing_def create_crate_token_def redeem_crate_token_def cancel_crate_token_def
  cancel_update_def insert_pending_bridge_def approve_pending_bridge_def log_operation_def
  create_crate_bucket_def touch_crate_bucket_def delete_crate_bucket_def

lemma append_paths_frame [frame_simps]:
  "grants_known (snd (append_event e i path eid s)) = grants_known s"
  "grants_known (snd (append_history_event sha e hi path eid s)) = grants_known s"
  "grants_known (snd (ingest_event e ii s)) = grants_known s"
  "principals (snd (append_event e i path eid s)) = principals s"
  "principals (snd (append_history_event sha e hi path eid s)) = principals s"
  "principals (snd (ingest_event e ii s)) = principals s"
  "pairing_tokens (snd (append_event e i path eid s)) = pairing_tokens s"
  "pairing_tokens (snd (append_history_event sha e hi path eid s)) = pairing_tokens s"
  "pairing_tokens (snd (ingest_event e ii s)) = pairing_tokens s"
  "crate_pairing_tokens (snd (append_event e i path eid s)) = crate_pairing_tokens s"
  "crate_pairing_tokens (snd (append_history_event sha e hi path eid s)) = crate_pairing_tokens s"
  "crate_pairing_tokens (snd (ingest_event e ii s)) = crate_pairing_tokens s"
  "operation_log (snd (append_event e i path eid s)) = operation_log s"
  "operation_log (snd (append_history_event sha e hi path eid s)) = operation_log s"
  "operation_log (snd (ingest_event e ii s)) = operation_log s"
  using vault.append_frame [of e "(i, path, eid)" s] history.append_frame [of sha e "(hi, path, eid)" s]
    ingest.append_frame [of e ii s]
  by simp_all

lemma grants_known_frame [frame_simps]:
  "grants_known (snd (write_blob sha rt e ns eid c s)) = grants_known s"
  "grants_known (snd (upsert_principal e p s)) = grants_known s"
  "grants_known (snd (retire_principal e pid ev s)) = grants_known s"
  "grants_known (snd (put_idempotency e key gid endpoint ph st body retention s)) = grants_known s"
  "grants_known (snd (delete_expired_idempotency e s)) = grants_known s"
  "grants_known (snd (create_pairing_token e pk s)) = grants_known s"
  "grants_known (snd (complete_pairing e tok dev s)) = grants_known s"
  "grants_known (snd (create_crate_token e ck s)) = grants_known s"
  "grants_known (snd (redeem_crate_token e sec pubkey fp cap s)) = grants_known s"
  "grants_known (snd (cancel_crate_token e sec s)) = grants_known s"
  "grants_known (snd (insert_pending_bridge e pc s)) = grants_known s"
  "grants_known (approve_pending_bridge e pid s) = grants_known s"
  "grants_known (snd (log_operation e op_id gid prin endpoint st ms code s)) = grants_known s"
  "grants_known (snd (create_crate_bucket e b s)) = grants_known s"
  "grants_known (snd (touch_crate_bucket e bid s)) = grants_known s"
  "grants_known (snd (delete_crate_bucket e bid s)) = grants_known s"
  by (simp_all add: other_operations Let_def split: write_outcome.splits sum.splits option.splits
      prod.splits unit.splits)

lemma principals_frame [frame_simps]:
  "principals (snd (write_blob sha rt e ns eid c s)) = principals s"
  "principals (snd (remember_grant e g s)) = principals s"
  "principals (snd (mark_grant_revoked e gid ev s)) = principals s"
  "principals (snd (put_idempotency e key gid endpoint ph st body retention s)) = principals s"
  "principals (snd (delete_expired_idempotency e s)) = principals s"
  "principals (snd (create_pairing_token e pk s)) = principals s"
  "principals (snd (complete_pairing e tok dev s)) = principals s"
  "principals (snd (create_crate_token e ck s)) = principals s"
  "principals (snd (redeem_crate_token e sec pubkey fp cap s)) = principals s"
  "principals (snd (cancel_crate_token e sec s)) = principals s"
  "principals (snd (insert_pending_bridge e pc s)) = principals s"
  "principals (approve_pending_bridge e pid s) = principals s"
  "principals (snd (log_operation e op_id gid prin endpoint st ms code s)) = principals s"
  "principals (snd (create_crate_bucket e b s)) = principals s"
  "principals (snd (touch_crate_bucket e bid s)) = principals s"
  "principals (snd (delete_crate_bucket e bid s)) = principals s"
  by (simp_all add: other_operations Let_def split: write_outcome.splits sum.splits option.splits
      prod.splits unit.splits)

lemma pairing_tokens_frame [frame_simps]:
  "pairing_tokens (snd (write_blob sha rt e ns eid c s)) = pairing_tokens s"
  "pairing_tokens (snd (remember_grant e g s)) = pairing_tokens s"
  "pairing_tokens (snd (mark_grant_revoked e gid ev s)) = pairing_tokens s"
  "pairing_tokens (snd (upsert_principal e p s)) = pairing_tokens s"
  "pairing_tokens (snd (retire_principal e pid ev s)) = pairing_tokens s"
  "pairing_tokens (snd (put_idempotency e key gid endpoint ph st body retention s)) = pairing_tokens s"
  "pairing_tokens (snd (delete_expired_idempotency e s)) = pairing_tokens s"
  "pairing_tokens (snd (create_crate_token e ck s)) = pairing_tokens s"
  "pairing_tokens (snd (redeem_crate_token e sec pubkey fp cap s)) = pairing_tokens s"
  "pairing_tokens (snd (cancel_crate_token e sec s)) = pairing_tokens s"
  "pairing_tokens (snd (insert_pending_bridge e pc s)) = pairing_tokens s"
  "pairing_tokens (approve_pending_bridge e pid s) = pairing_tokens s"
  "pairing_tokens (snd (log_operation e op_id gid prin endpoint st ms code s)) = pairing_tokens s"
  "pairing_tokens (snd (create_crate_bucket e b s)) = pairing_tokens s"
  "pairing_tokens (snd (touch_crate_bucket e bid s)) = pairing_tokens s"
  "pairing_tokens (snd (delete_crate_bucket e bid s)) = pairing_tokens s"
  by (simp_all add: other_operations Let_def split: write_outcome.splits sum.splits option.splits
      prod.splits unit.splits)

lemma crate_pairing_tokens_frame [frame_simps]:
  "crate_pairing_tokens (snd (write_blob sha rt e ns eid c s)) = crate_pairing_tokens s"
  "crate_pairing_tokens (snd (remember_grant e g s)) = crate_pairing_tokens s"
  "crate_pairing_tokens (snd (mark_grant_revoked e gid ev s)) = crate_pairing_tokens s"
  "crate_pairing_tokens (snd (upsert_principal e p s)) = crate_pairing_tokens s"
  "crate_pairing_tokens (snd (retire_principal e pid ev s)) = crate_pairing_tokens s"
  "crate_pairing_tokens (snd (put_idempotency e key gid endpoint ph st body retention s)) = crate_pairing_tokens s"
  "crate_pairing_tokens (snd (delete_expired_idempotency e s)) = crate_pairing_tokens s"
  "crate_pairing_tokens (snd (create_pairing_token e pk s)) = crate_pairing_tokens s"
  "crate_pairing_tokens (snd (complete_pairing e tok dev s)) = crate_pairing_tokens s"
  "crate_pairing_tokens (snd (insert_pending_bridge e pc s)) = crate_pairing_tokens s"
  "crate_pairing_tokens (approve_pending_bridge e pid s) = crate_pairing_tokens s"
  "crate_pairing_tokens (snd (log_operation e op_id gid prin endpoint st ms code s)) = crate_pairing_tokens s"
  "crate_pairing_tokens (snd (create_crate_bucket e b s)) = crate_pairing_tokens s"
  "crate_pairing_tokens (snd (touch_crate_bucket e bid s)) = crate_pairing_tokens s"
  "crate_pairing_tokens (snd (delete_crate_bucket e bid s)) = crate_pairing_tokens s"
  by (simp_all add: other_operations Let_def split: write_outcome.splits sum.splits option.splits
      prod.splits unit.splits)

lemma operation_log_frame [frame_simps]:
  "operation_log (snd (write_blob sha rt e ns eid c s)) = operation_log s"
  "operation_log (snd (remember_grant e g s)) = operation_log s"
  "operation_log (snd (mark_grant_revoked e gid ev s)) = operation_log s"
  "operation_log (snd (upsert_principal e p s)) = operation_log s"
  "operation_log (snd (retire_principal e pid ev s)) = operation_log s"
  "operation_log (snd (put_idempotency e key gid endpoint ph st body retention s)) = operation_log s"
  "operation_log (snd (delete_expired_idempotency e s)) = operation_log s"
  "operation_log (snd (create_pairing_token e pk s)) = operation_log s"
  "operation_log (snd (complete_pairing e tok dev s)) = operation_log s"
  "operation_log (snd (create_crate_token e ck s)) = operation_log s"
  "operation_log (snd (redeem_crate_token e sec pubkey fp cap s)) = operation_log s"
  "operation_log (snd (cancel_crate_token e sec s)) = operation_log s"
  "operation_log (snd (insert_pending_bridge e pc s)) = operation_log s"
  "operation_log (approve_pending_bridge e pid s) = operation_log s"
  "operation_log (snd (create_crate_bucket e b s)) = operation_log s"
  "operation_log (snd (touch_crate_bucket e bid s)) = operation_log s"
  "operation_log (snd (delete_crate_bucket e bid s)) = operation_log s"
  by (simp_all add: other_operations Let_def split: write_outcome.splits sum.splits option.splits
      prod.splits unit.splits)

section \<open>The invariants\<close>

lemma store_inv_cong: "events s' = events s \<Longrightarrow> streams s' = streams s \<Longrightarrow> store_inv s' = store_inv s"
  by (simp add: store_inv_def stream_ok_def [abs_def] stream_events_def)

lemma append_event_inv: "store_inv s \<Longrightarrow> store_inv (snd (append_event e i path eid s))"
  using vault.append_inv [of s e "(i, path, eid)"] by simp

interpretation table_inv: store_invariant S store_inv for S
proof
  fix s s'
  assume "store_step S s s'" "store_inv s"
  then show "store_inv s'"
    by (induction rule: store_step.induct)
      (simp_all add: append_event_inv append_history_inv ingest.append_inv frame_simps store_simps
        cong: store_inv_cong)
qed

definition hub_blobs_inv :: "sys \<Rightarrow> store \<Rightarrow> bool" where
  "hub_blobs_inv S s = blobs_inv (sy_sha256 S) (sy_blobs_root S) s"

lemma blobs_inv_cong: "events s' = events s \<Longrightarrow> blobs s' = blobs s \<Longrightarrow> blobs_inv sha rt s' = blobs_inv sha rt s"
  by (simp add: blobs_inv_def)

lemma blobs_inv_append:
  assumes "blobs_inv sha rt s" and "blobs s' = blobs s"
    and "events s' = events s \<or> (\<exists>r. events s' = events s @ [r]
      \<and> blobs s (blob_path sha rt (ev_namespace r) (ev_id r)) \<noteq> None)"
  shows "blobs_inv sha rt s'"
  using assms by (auto simp: blobs_inv_def)

lemma append_event_adds:
  "events (snd (append_event e i path eid s)) = events s
   \<or> (\<exists>r. events (snd (append_event e i path eid s)) = events s @ [r]
        \<and> ev_namespace r = ai_namespace i \<and> ev_id r = eid)"
  by (cases rule: vault.append_cases [of e "(i, path, eid)" s])
    (auto simp: events_add_event append_row_def)

lemma append_history_event_adds:
  "events (snd (append_history_event sha e hi path eid s)) = events s
   \<or> (\<exists>r. events (snd (append_history_event sha e hi path eid s)) = events s @ [r]
        \<and> ev_namespace r = history_namespace \<and> ev_id r = eid)"
  by (cases rule: history.append_cases [of sha e "(hi, path, eid)" s]) (auto simp: events_add_event)

lemma ingest_event_adds:
  "events (snd (ingest_event e ii s)) = events s
   \<or> (\<exists>r. events (snd (ingest_event e ii s)) = events s @ [r]
        \<and> ev_namespace r = ii_namespace ii \<and> ev_id r = ii_event_id ii)"
  by (cases rule: ingest.append_cases [of e ii s]) (auto simp: events_add_event)

lemma append_paths_blobs [frame_simps]:
  "blobs (snd (append_event e i path eid s)) = blobs s"
  "blobs (snd (append_history_event sha e hi path eid s)) = blobs s"
  "blobs (snd (ingest_event e ii s)) = blobs s"
  using vault.append_frame [of e "(i, path, eid)" s] history.append_frame [of sha e "(hi, path, eid)" s]
    ingest.append_frame [of e ii s]
  by simp_all

lemma blobs_inv_write:
  "blobs_inv sha rt s \<Longrightarrow> blobs_inv sha rt (snd (write_blob sha' rt' e ns eid c s))"
  unfolding blobs_inv_def by (simp only: store_simps) (metis write_blob_dom)

interpretation blob_inv: store_invariant S "hub_blobs_inv S" for S
proof
  fix s s'
  assume "store_step S s s'" "hub_blobs_inv S s"
  then show "hub_blobs_inv S s'"
    unfolding hub_blobs_inv_def
  proof (induction rule: store_step.induct)
    case (step_append s i eid e path)
    show ?case
      by (rule blobs_inv_append [OF step_append(2)], simp add: frame_simps)
        (use append_event_adds [of e i path eid s] step_append(1) in metis)
  next
    case (step_history s eid e hi path)
    show ?case
      by (rule blobs_inv_append [OF step_history(2)], simp add: frame_simps)
        (use append_history_event_adds [of "sy_sha256 S" e hi path eid s] step_history(1) in metis)
  next
    case (step_ingest s ii e)
    show ?case
      by (rule blobs_inv_append [OF step_ingest(2)], simp add: frame_simps)
        (use ingest_event_adds [of e ii s] step_ingest(1) in metis)
  qed (simp_all add: blobs_inv_write frame_simps cong: blobs_inv_cong)
qed

text \<open>The event table is append-only.\<close>

definition extends :: "event_row list \<Rightarrow> store \<Rightarrow> bool" where
  "extends es s = (take (length es) (events s) = es)"

lemma extends_append:
  "extends es s \<Longrightarrow> events s' = events s \<or> (\<exists>r. events s' = events s @ [r]) \<Longrightarrow> extends es s'"
proof -
  assume e: "extends es s" and s: "events s' = events s \<or> (\<exists>r. events s' = events s @ [r])"
  have "events s = es @ drop (length es) (events s)"
    using e unfolding extends_def by (metis append_take_drop_id)
  then obtain ds where "events s' = es @ ds" using s by (metis append.assoc)
  then show "extends es s'" by (simp add: extends_def)
qed

lemma extends_cong: "events s' = events s \<Longrightarrow> extends es s' = extends es s"
  by (simp add: extends_def)

interpretation event_log: store_invariant S "extends es" for S es
proof
  fix s s'
  assume "store_step S s s'" "extends es s"
  then show "extends es s'"
  proof (induction rule: store_step.induct)
    case (step_append s i eid e path)
    then show ?case using append_event_adds [of e i path eid s] extends_append by blast
  next
    case (step_history s eid e hi path)
    then show ?case
      using append_history_event_adds [of "sy_sha256 S" e hi path eid s] extends_append by blast
  next
    case (step_ingest s ii e)
    then show ?case using ingest_event_adds [of e ii s] extends_append by blast
  qed (simp_all add: frame_simps store_simps cong: extends_cong)
qed

text \<open>What is revoked, retired, paired or redeemed stays so.\<close>

lemma revoked_mark_cong: "grants_known s' = grants_known s \<Longrightarrow> revoked_mark gid s' = revoked_mark gid s"
  by (simp add: revoked_mark_def)

interpretation revoked: store_invariant S "\<lambda>s. revoked_mark gid s = Some t" for S gid t
proof
  fix s s'
  assume "store_step S s s'" "revoked_mark gid s = Some t"
  then show "revoked_mark gid s' = Some t"
    by (induction rule: store_step.induct)
      (simp_all add: revoked_mark_remember revoked_mark_revoke frame_simps cong: revoked_mark_cong)
qed

definition retired_mark :: "string \<Rightarrow> store \<Rightarrow> string option" where
  "retired_mark k s =
     (case lookup_by pr_id k (principals s) of None \<Rightarrow> None | Some r \<Rightarrow> pr_retired_at r)"

lemma retired_mark_cong: "principals s' = principals s \<Longrightarrow> retired_mark k s' = retired_mark k s"
  by (simp add: retired_mark_def)

lemma retired_mark_Some:
  "retired_mark k s = Some t \<longleftrightarrow> (\<exists>r. lookup_by pr_id k (principals s) = Some r \<and> pr_retired_at r = Some t)"
  by (auto simp: retired_mark_def split: option.splits)

interpretation retired: store_invariant S "\<lambda>s. retired_mark k s = Some t" for S k t
proof
  fix s s'
  assume "store_step S s s'" "retired_mark k s = Some t"
  then show "retired_mark k s' = Some t"
  proof (induction rule: store_step.induct)
    case (step_upsert s e p)
    then obtain r where r: "lookup_by pr_id k (principals s) = Some r" "pr_retired_at r = Some t"
      by (auto simp: retired_mark_Some)
    then show ?case
      using retired_survives_upsert [of k s r e p] by (auto simp: retired_mark_Some)
  next
    case (step_retire s e pid ev)
    then obtain r where r: "lookup_by pr_id k (principals s) = Some r" "pr_retired_at r = Some t"
      by (auto simp: retired_mark_Some)
    then show ?case using retired_stays [of k s r e pid ev] by (auto simp: retired_mark_Some)
  qed (simp_all add: frame_simps cong: retired_mark_cong)
qed

lemma completed_device_cong:
  "pairing_tokens s' = pairing_tokens s \<Longrightarrow> completed_device tok s' = completed_device tok s"
  by (simp add: completed_device_def)

lemma completed_device_create:
  "completed_device tok s = Some d \<Longrightarrow> completed_device tok (snd (create_pairing_token e pk s)) = Some d"
  by (auto simp: completed_device_def create_pairing_token_def Let_def lookup_by_append
      split: option.splits if_splits)

interpretation paired: store_invariant S "\<lambda>s. completed_device tok s = Some d" for S tok d
proof
  fix s s'
  assume "store_step S s s'" "completed_device tok s = Some d"
  then show "completed_device tok s' = Some d"
    by (induction rule: store_step.induct)
      (simp_all add: completed_device_stays completed_device_create frame_simps
        cong: completed_device_cong)
qed

definition closed_crate :: "string \<Rightarrow> crate_token_row \<Rightarrow> store \<Rightarrow> bool" where
  "closed_crate sec r s =
     (lookup_by ct_secret sec (crate_pairing_tokens s) = Some r \<and> \<not> crate_open r)"

lemma closed_crate_cong:
  "crate_pairing_tokens s' = crate_pairing_tokens s \<Longrightarrow> closed_crate sec r s' = closed_crate sec r s"
  by (simp add: closed_crate_def)

lemma closed_crate_create:
  "closed_crate sec r s \<Longrightarrow> closed_crate sec r (snd (create_crate_token e ck s))"
  by (auto simp: closed_crate_def create_crate_token_def Let_def lookup_by_append)

lemma closed_crate_redeem:
  "closed_crate sec r s \<Longrightarrow> closed_crate sec r (snd (redeem_crate_token e sec' pubkey fp cap s))"
  by (auto simp: closed_crate_def redeem_crate_token_def redeem_update_attempt
      crate_redemption.closed_stays Let_def split: sum.splits option.splits unit.splits prod.splits)

lemma closed_crate_cancel:
  "closed_crate sec r s \<Longrightarrow> closed_crate sec r (snd (cancel_crate_token e sec' s))"
  by (auto simp: closed_crate_def cancel_crate_token_def cancel_update_attempt
      crate_cancellation.closed_stays split: sum.splits option.splits)

interpretation crate_closed: store_invariant S "closed_crate sec r" for S sec r
proof
  fix s s'
  assume "store_step S s s'" "closed_crate sec r s"
  then show "closed_crate sec r s'"
    by (induction rule: store_step.induct)
      (simp_all add: closed_crate_create closed_crate_redeem closed_crate_cancel frame_simps
        cong: closed_crate_cong)
qed

text \<open>The log of operations names nobody: its rows have no grant and no principal.\<close>

definition log_anonymous :: "store \<Rightarrow> bool" where
  "log_anonymous s = (\<forall>r\<in>set (operation_log s). ol_grant r = None \<and> ol_principal r = None)"

lemma log_anonymous_cong: "operation_log s' = operation_log s \<Longrightarrow> log_anonymous s' = log_anonymous s"
  by (simp add: log_anonymous_def)

lemma log_anonymous_log:
  "log_anonymous s \<Longrightarrow> log_anonymous (snd (log_operation e op_id [] [] endpoint st ms code s))"
  by (auto simp: log_anonymous_def log_operation_def nullable_def)

interpretation anonymous: store_invariant S log_anonymous for S
proof
  fix s s'
  assume "store_step S s s'" "log_anonymous s"
  then show "log_anonymous s'"
    by (induction rule: store_step.induct)
      (simp_all add: log_anonymous_log frame_simps cong: log_anonymous_cong)
qed

end
