(* ===== verification/Vault_Handlers.thy ===== *)
theory Vault_Handlers
  imports Store_Steps
begin

text \<open>
  The vault and history endpoints (nakli-hub/internal/server/handlers.go, handlers_history.go,
  handlers_vault_more.go). A request body is given as decoded JSON, \<open>None\<close> when it does not
  decode; path and query values are strings. A handler takes the static part of the Hub, the
  environment, the request context, the request and the Hub's state, and gives the reply with the
  state after it.
\<close>

section \<open>Helpers\<close>

definition new_ulid :: "env \<Rightarrow> nat \<Rightarrow> string" where
  "new_ulid e n = en_ulid e n"

definition raw_or_empty :: "string \<Rightarrow> string" where
  "raw_or_empty rm = (if length rm = 0 then [] else rm)"

definition json_string_array :: "sys \<Rightarrow> string list \<Rightarrow> string" where
  "json_string_array S xs = (if xs = [] then ''[]'' else sy_json_strings S xs)"

definition json_string_map :: "sys \<Rightarrow> (string \<times> int) list \<Rightarrow> string" where
  "json_string_map S m = (if m = [] then ''{}'' else sy_json_map S m)"

definition base64_if_present :: "bytes \<Rightarrow> string" where
  "base64_if_present b = (if b = [] then [] else b64_encode std_encoding b)"

text \<open>The digits accumulate in an int, which wraps at 64 bits.\<close>

definition atoi_safe :: "string \<Rightarrow> int \<Rightarrow> int" where
  "atoi_safe s fallback =
     (if s = [] \<or> \<not> list_all is_digit s then fallback
      else foldl (\<lambda>n c. wrap64 (n * 10 + int (digit_val c))) 0 s)"

definition query_limit :: "string \<Rightarrow> int" where
  "query_limit l =
     (if l = [] then 100
      else let n = atoi_safe l 100 in if 0 < n \<and> n \<le> 1000 then n else 100)"

record event_req =
  er_kind :: string
  er_payload :: string
  er_metadata :: string
  er_deps :: "string list"
  er_clock :: "(string \<times> int) list"
  er_prev_hash :: string

record append_resp =
  ap_event_id :: string
  ap_event_hash :: string
  ap_seq :: nat

record event_out =
  eo_event_id :: string
  eo_kind :: string
  eo_seq :: nat
  eo_ciphertext :: string
  eo_metadata :: string
  eo_deps :: "string list"
  eo_clock :: "(string \<times> int) list"
  eo_prev_hash :: string
  eo_hash :: string
  eo_appended_at :: time
  eo_principal :: string
  eo_device :: string

definition event_out_of :: "sys \<Rightarrow> read_event \<Rightarrow> event_out" where
  "event_out_of S ev =
     \<lparr>eo_event_id = re_event_id ev, eo_kind = re_kind ev, eo_seq = re_seq ev,
      eo_ciphertext = b64_encode std_encoding (re_ciphertext ev), eo_metadata = re_metadata ev,
      eo_deps = (if re_causal_deps ev = [] then [] else sy_unjson_strings S (re_causal_deps ev)),
      eo_clock = (if re_vector_clock ev = [] then [] else sy_unjson_map S (re_vector_clock ev)),
      eo_prev_hash = base64_if_present (coalesce [] (re_prev_hash ev)),
      eo_hash = base64_if_present (coalesce [] (re_hash ev)), eo_appended_at = re_appended_at ev,
      eo_principal = re_principal ev, eo_device = re_device ev\<rparr>"

section \<open>Vault\<close>

record vault_append_req =
  va_namespace :: string
  va_stream_id :: string
  va_event :: event_req

definition fabric_reserved_namespaces :: "string list" where
  "fabric_reserved_namespaces = [''fabric.detections'', ''fabric.federation'', ''fabric.cluster'']"

definition vault_input :: "sys \<Rightarrow> vault_append_req \<Rightarrow> grant \<Rightarrow> bytes \<Rightarrow> append_input" where
  "vault_input S r g c =
     \<lparr>ai_namespace = va_namespace r, ai_stream_id = va_stream_id r, ai_stream_type = ''vault'',
      ai_kind = er_kind (va_event r), ai_ciphertext = c,
      ai_metadata = raw_or_empty (er_metadata (va_event r)),
      ai_causal_deps = json_string_array S (er_deps (va_event r)),
      ai_vector_clock = json_string_map S (er_clock (va_event r)),
      ai_principal = idn_issued_by (gt_identifier g), ai_grant_id = idn_grant_id (gt_identifier g),
      ai_device = [], ai_prev_hash = None, ai_hash = None\<rparr>"

definition handle_vault_append ::
  "sys \<Rightarrow> env \<Rightarrow> rctx \<Rightarrow> vault_append_req option \<Rightarrow> hub \<Rightarrow> append_resp reply \<times> hub" where
  "handle_vault_append S e rc q h =
     (case q of
        None \<Rightarrow> (Failure bad_request, h)
      | Some r \<Rightarrow>
          if va_namespace r = [] \<or> va_stream_id r = [] \<or> er_kind (va_event r) = []
          then (Failure bad_request, h)
          else if va_namespace r \<in> set fabric_reserved_namespaces then (Failure scope_denied, h)
          else authorised S e rc (need ''vault'' (va_namespace r) ''write'')
            (\<lambda>g h1.
               case b64_decode std_encoding (er_payload (va_event r)) of
                 None \<Rightarrow> (Failure bad_request, h1)
               | Some c \<Rightarrow>
                   if sy_max_event_size S < int (length c) then (Failure bad_request, h1)
                   else
                     let eid = new_ulid e 0
                     in case write_blob (sy_sha256 S) (sy_blobs_root S) e (va_namespace r) eid c
                               (hb_store h1) of
                          (Inl _, s1) \<Rightarrow> (Failure unavailable, h1\<lparr>hb_store := s1\<rparr>)
                        | (Inr path, s1) \<Rightarrow>
                            (case append_event e (vault_input S r g c) path eid s1 of
                               (Inl _, s2) \<Rightarrow> (Failure unavailable, h1\<lparr>hb_store := s2\<rparr>)
                             | (Inr res, s2) \<Rightarrow>
                                 (Reply 200 \<lparr>ap_event_id = ar_event_id res, ap_event_hash = [],
                                    ap_seq = ar_seq res\<rparr>, h1\<lparr>hb_store := s2\<rparr>))) h)"

definition handle_vault_read ::
  "sys \<Rightarrow> env \<Rightarrow> rctx \<Rightarrow> string \<Rightarrow> string \<Rightarrow> string \<Rightarrow> string \<Rightarrow> hub \<Rightarrow>
     (event_out list \<times> bool) reply \<times> hub" where
  "handle_vault_read S e rc ns sid since lmt h =
     (if ns = [] \<or> sid = [] then (Failure bad_request, h)
      else authorised S e rc (need ''vault'' ns ''read'')
        (\<lambda>g h1.
           case read_stream (sy_sha256 S) (sy_blobs_root S) e ns sid
                  \<lparr>ro_since = since, ro_limit = query_limit lmt\<rparr> (hb_store h1) of
             Inl err \<Rightarrow> (Failure (if err = ErrNotFound then not_found else unavailable), h1)
           | Inr (evs, more_left) \<Rightarrow> (Reply 200 (map (event_out_of S) evs, more_left), h1)) h)"

text \<open>ORDER BY stream_id ASC.\<close>

definition handle_vault_list_streams ::
  "sys \<Rightarrow> env \<Rightarrow> rctx \<Rightarrow> string \<Rightarrow> hub \<Rightarrow> (string \<times> string \<times> nat) list reply \<times> hub" where
  "handle_vault_list_streams S e rc ns h =
     (if ns = [] then (Failure bad_request, h)
      else authorised S e rc (need ''vault'' ns ''read'')
        (\<lambda>g h1.
           if en_fault e ''ListStreams'' then (Failure unavailable, h1)
           else (Reply 200
              (map (\<lambda>r. (st_stream_id r, coalesce [] (st_head_event_id r), st_event_count r))
                 (sort_key st_stream_id (filter (\<lambda>r. st_namespace r = ns) (streams (hb_store h1))))),
              h1)) h)"

text \<open>
  The Server-Sent Events of a subscription: one round of deliverNew from the last delivered event
  on. A page whose read fails, or that is empty, delivers nothing and leaves the position.
\<close>

definition deliver_new ::
  "sys \<Rightarrow> env \<Rightarrow> string \<Rightarrow> string \<Rightarrow> string \<Rightarrow> store \<Rightarrow> read_event list \<times> string" where
  "deliver_new S e ns sid last_id s =
     (case read_stream (sy_sha256 S) (sy_blobs_root S) e ns sid
             \<lparr>ro_since = last_id, ro_limit = 1000\<rparr> s of
        Inl _ \<Rightarrow> ([], last_id)
      | Inr (evs, _) \<Rightarrow> if evs = [] then ([], last_id) else (evs, re_event_id (last evs)))"

text \<open>The ticks of a subscription, each on the store it finds.\<close>

fun deliver_rounds ::
  "sys \<Rightarrow> string \<Rightarrow> string \<Rightarrow> string \<Rightarrow> (env \<times> store) list \<Rightarrow> read_event list" where
  "deliver_rounds S ns sid last_id [] = []"
| "deliver_rounds S ns sid last_id ((e, s) # ticks) =
     (let (evs, last') = deliver_new S e ns sid last_id s
      in evs @ deliver_rounds S ns sid last' ticks)"

text \<open>
  The writer a handler is given, as a tower of the wrappers of middleware.go. net/http's own writer is
  an http.Flusher; the wrappers embed the interface http.ResponseWriter, which has no Flush, so that
  the type assertion of handleVaultSubscribe fails on them.
\<close>

datatype writer = NetWriter | StatusRecorder writer | BufferingWriter writer

primrec is_flusher :: "writer \<Rightarrow> bool" where
  "is_flusher NetWriter = True"
| "is_flusher (StatusRecorder w) = False"
| "is_flusher (BufferingWriter w) = False"

record subscribe_req =
  sb_namespace :: string
  sb_stream_id :: string
  sb_since :: string

text \<open>\<open>ticks\<close> are the states found on subscribing and at each tick until the client is gone.\<close>

definition handle_vault_subscribe ::
  "sys \<Rightarrow> env \<Rightarrow> rctx \<Rightarrow> writer \<Rightarrow> subscribe_req option \<Rightarrow> (env \<times> store) list \<Rightarrow> hub \<Rightarrow>
     read_event list reply \<times> hub" where
  "handle_vault_subscribe S e rc w q ticks h =
     (case q of
        None \<Rightarrow> (Failure bad_request, h)
      | Some r \<Rightarrow>
          if sb_namespace r = [] \<or> sb_stream_id r = [] then (Failure bad_request, h)
          else authorised S e rc (need ''vault'' (sb_namespace r) ''subscribe'')
            (\<lambda>g h1.
               if \<not> is_flusher w then (Failure unavailable, h1)
               else (Reply 200 (deliver_rounds S (sb_namespace r) (sb_stream_id r) (sb_since r) ticks),
                     h1)) h)"

section \<open>History\<close>

record history_append_req =
  ha_stream_id :: string
  ha_event :: event_req

definition history_input_of ::
  "sys \<Rightarrow> history_append_req \<Rightarrow> grant \<Rightarrow> bytes \<Rightarrow> bytes \<Rightarrow> history_input" where
  "history_input_of S r g c prev =
     \<lparr>hi_stream_id = ha_stream_id r, hi_kind = er_kind (ha_event r), hi_ciphertext = c,
      hi_metadata = raw_or_empty (er_metadata (ha_event r)),
      hi_causal_deps = json_string_array S (er_deps (ha_event r)),
      hi_vector_clock = json_string_map S (er_clock (ha_event r)), hi_prev_hash = prev,
      hi_principal = idn_issued_by (gt_identifier g), hi_grant_id = idn_grant_id (gt_identifier g),
      hi_device = []\<rparr>"

definition handle_history_append ::
  "sys \<Rightarrow> env \<Rightarrow> rctx \<Rightarrow> history_append_req option \<Rightarrow> hub \<Rightarrow> append_resp reply \<times> hub" where
  "handle_history_append S e rc q h =
     (case q of
        None \<Rightarrow> (Failure bad_request, h)
      | Some r \<Rightarrow>
          if ha_stream_id r = [] \<or> er_kind (ha_event r) = [] then (Failure bad_request, h)
          else authorised S e rc (need ''history'' [] ''write'')
            (\<lambda>g h1.
               case b64_decode std_encoding (er_payload (ha_event r)) of
                 None \<Rightarrow> (Failure bad_request, h1)
               | Some c \<Rightarrow>
                   if sy_max_event_size S < int (length c) then (Failure bad_request, h1)
                   else
                     case (if er_prev_hash (ha_event r) = [] then Some []
                           else b64_decode std_encoding (er_prev_hash (ha_event r))) of
                       None \<Rightarrow> (Failure bad_request, h1)
                     | Some prev \<Rightarrow>
                         let eid = new_ulid e 0
                         in case write_blob (sy_sha256 S) (sy_blobs_root S) e history_namespace eid c
                                   (hb_store h1) of
                              (Inl _, s1) \<Rightarrow> (Failure unavailable, h1\<lparr>hb_store := s1\<rparr>)
                            | (Inr path, s1) \<Rightarrow>
                                (case append_history_event (sy_sha256 S) e
                                        (history_input_of S r g c prev) path eid s1 of
                                   (Inl err, s2) \<Rightarrow>
                                     (Failure (if err = ErrHistoryConflict then conflict
                                               else unavailable), h1\<lparr>hb_store := s2\<rparr>)
                                 | (Inr res, s2) \<Rightarrow>
                                     (Reply 200 \<lparr>ap_event_id = hr_event_id res,
                                        ap_event_hash = b64_encode std_encoding (hr_event_hash res),
                                        ap_seq = hr_seq res\<rparr>, h1\<lparr>hb_store := s2\<rparr>))) h)"

definition handle_history_read ::
  "sys \<Rightarrow> env \<Rightarrow> rctx \<Rightarrow> string \<Rightarrow> string \<Rightarrow> string \<Rightarrow> hub \<Rightarrow> (event_out list \<times> bool) reply \<times> hub" where
  "handle_history_read S e rc sid since lmt h =
     (if sid = [] then (Failure bad_request, h)
      else authorised S e rc (need ''history'' [] ''read'')
        (\<lambda>g h1.
           case read_stream (sy_sha256 S) (sy_blobs_root S) e history_namespace sid
                  \<lparr>ro_since = since, ro_limit = query_limit lmt\<rparr> (hb_store h1) of
             Inl err \<Rightarrow> (Failure (if err = ErrNotFound then not_found else unavailable), h1)
           | Inr (evs, more_left) \<Rightarrow> (Reply 200 (map (event_out_of S) evs, more_left), h1)) h)"

record history_verify_resp =
  hv_verified :: bool
  hv_length :: nat
  hv_head_hash :: string
  hv_broken_at :: string

definition handle_history_verify ::
  "sys \<Rightarrow> env \<Rightarrow> rctx \<Rightarrow> string \<Rightarrow> hub \<Rightarrow> history_verify_resp reply \<times> hub" where
  "handle_history_verify S e rc sid h =
     (if sid = [] then (Failure bad_request, h)
      else authorised S e rc (need ''history'' [] ''read'')
        (\<lambda>g h1.
           case verify_history_chain (sy_sha256 S) e sid (hb_store h1) of
             Inl _ \<Rightarrow> (Failure unavailable, h1)
           | Inr v \<Rightarrow> (Reply 200 \<lparr>hv_verified = vr_verified v, hv_length = vr_length v,
               hv_head_hash = base64_if_present (vr_head_hash v), hv_broken_at = vr_broken_at v\<rparr>,
               h1)) h)"

section \<open>The handlers run steps of the store\<close>

lemma write_blob_cases:
  obtains s1 where "write_blob sha rt e ns eid c s = (Inl ErrBlob, s1)"
  | s1 where "write_blob sha rt e ns eid c s = (Inr (blob_path sha rt ns eid), s1)"
    "s1 = s\<lparr>blobs := (blobs s)(blob_path sha rt ns eid \<mapsto> c)\<rparr>"
  by (cases "en_write e") (auto simp: write_blob_def Let_def)

lemma evolves_write_blob:
  assumes "write_blob (sy_sha256 S) (sy_blobs_root S) e ns eid c s = (r, s1)"
  shows "evolves S s s1"
  using evolves_one [OF step_blob [of S s e ns eid c]] assms by simp

lemma write_blob_there:
  "write_blob sha rt e ns eid c s = (Inr path, s1) \<Longrightarrow> blobs s1 (blob_path sha rt ns eid) \<noteq> None"
  by (cases rule: write_blob_cases [of sha rt e ns eid c s]) auto

lemma evolves_blob_append:
  assumes "append_event e' i path eid s1 = (r, s2)"
    and "write_blob (sy_sha256 S) (sy_blobs_root S) e ns eid c s = (Inr path, s1)"
    and "ai_namespace i = ns"
  shows "evolves S s s2"
proof -
  have "store_step S s1 (snd (append_event e' i path eid s1))"
    by (rule step_append) (use write_blob_there [OF assms(2)] assms(3) in simp)
  then show ?thesis using assms(1) evolves_step evolves_write_blob [OF assms(2)] by fastforce
qed

lemma evolves_blob_history:
  assumes "append_history_event (sy_sha256 S) e' i path eid s1 = (r, s2)"
    and "write_blob (sy_sha256 S) (sy_blobs_root S) e history_namespace eid c s = (Inr path, s1)"
  shows "evolves S s s2"
proof -
  have "store_step S s1 (snd (append_history_event (sy_sha256 S) e' i path eid s1))"
    by (rule step_history) (rule write_blob_there [OF assms(2)])
  then show ?thesis using assms(1) evolves_step evolves_write_blob [OF assms(2)] by fastforce
qed

lemma vault_input_namespace [simp]: "ai_namespace (vault_input S r g c) = va_namespace r"
  by (simp add: vault_input_def)

lemma runs_vault_append: "runs S h (handle_vault_append S e rc q h)"
  unfolding handle_vault_append_def
  by (intro runs_intros; hypsubst?; (rule runs_self | rule runs_same, assumption
      | rule runs_store, assumption, (erule evolves_write_blob
          | erule (1) evolves_blob_append, rule vault_input_namespace)))

lemma runs_history_append: "runs S h (handle_history_append S e rc q h)"
  unfolding handle_history_append_def
  by (intro runs_intros; hypsubst?; (rule runs_self | rule runs_same, assumption
      | rule runs_store, assumption, (erule evolves_write_blob | erule (1) evolves_blob_history)))

lemma reads_keep_store:
  "hb_store (snd (handle_vault_read S e rc ns sid since lmt h)) = hb_store h"
  "hb_store (snd (handle_vault_list_streams S e rc ns h)) = hb_store h"
  "hb_store (snd (handle_vault_subscribe S e rc w q ticks h)) = hb_store h"
  "hb_store (snd (handle_history_read S e rc sid since lmt h)) = hb_store h"
  "hb_store (snd (handle_history_verify S e rc sid h)) = hb_store h"
  unfolding handle_vault_read_def handle_vault_list_streams_def handle_vault_subscribe_def
    handle_history_read_def handle_history_verify_def
  by (auto intro!: authorised_keeps split: sum.splits prod.splits option.splits)

end
