(* ===== verification/Grant_Handlers.thy ===== *)
theory Grant_Handlers
  imports Vault_Handlers
begin

text \<open>
  Minting, verifying, revoking and discharging grants
  (nakli-hub/internal/server/handlers_grant.go).
\<close>

definition time_caveat :: "time \<Rightarrow> string" where
  "time_caveat t = ''time < '' @ fmt_time t"

fun first_missing :: "string list \<Rightarrow> string list \<Rightarrow> string" where
  "first_missing have_set [] = []"
| "first_missing have_set (c # cs) =
     (let tc = trim_space c
      in if tc = [] \<or> has_prefix ''time < '' tc then first_missing have_set cs
         else if tc \<in> set have_set then first_missing have_set cs else tc)"

definition missing_caveats :: "string list \<Rightarrow> string list \<Rightarrow> string" where
  "missing_caveats parent child = first_missing (map trim_space child) parent"

section \<open>Mint\<close>

record mint_req =
  mq_recipient :: string
  mq_scope :: scope
  mq_caveats :: "string list"
  mq_expires_at :: "time option"
  mq_parent :: string

record mint_resp =
  mp_grant_id :: string
  mp_macaroon :: string

text \<open>base64.StdEncoding, then the other flavours.\<close>

definition decode_any_base64 :: "string \<Rightarrow> bytes option" where
  "decode_any_base64 s =
     (case b64_decode std_encoding s of Some b \<Rightarrow> Some b | None \<Rightarrow> try_base64 s)"

text \<open>The checks of a child against the parent macaroon; \<open>None\<close> when it may be minted.\<close>

definition delegation_check :: "sys \<Rightarrow> mint_req \<Rightarrow> http_err option" where
  "delegation_check S r =
     (case decode_any_base64 (mq_parent r) of
        None \<Rightarrow> Some bad_request
      | Some b \<Rightarrow>
          (case verify_signature S b (sy_root_key S) always_satisfied of
             Inl _ \<Rightarrow> Some (HttpErr 403 ''grant_invalid'' False)
           | Inr _ \<Rightarrow>
               (case parse_grant S b of
                  Inl _ \<Rightarrow> Some bad_request
                | Inr p \<Rightarrow>
                    let sc = idn_scope (gt_identifier p); want = mq_scope r
                    in if sc_primitive sc \<noteq> [] \<and> sc_primitive sc \<noteq> sc_primitive want
                       then Some scope_denied
                       else if sc_namespace sc \<noteq> [] \<and> sc_namespace sc \<noteq> ''*''
                               \<and> sc_namespace sc \<noteq> sc_namespace want
                       then Some scope_denied
                       else if sc_operations sc \<noteq> []
                               \<and> \<not> list_all (contains (sc_operations sc)) (sc_operations want)
                       then Some scope_denied
                       else if missing_caveats (gt_caveats p) (mq_caveats r) \<noteq> []
                       then Some scope_denied
                       else None)))"

definition minted_identifier :: "env \<Rightarrow> mint_req \<Rightarrow> grant \<Rightarrow> string \<Rightarrow> grant_identifier" where
  "minted_identifier e r g gid =
     \<lparr>idn_grant_id = gid, idn_issued_at = en_now e, idn_issued_by = idn_issued_by (gt_identifier g),
      idn_keypair = idn_keypair (gt_identifier g), idn_parent = idn_grant_id (gt_identifier g),
      idn_scope = mq_scope r\<rparr>"

definition mint_expiry :: "env \<Rightarrow> mint_req \<Rightarrow> time" where
  "mint_expiry e r =
     (case mq_expires_at r of None \<Rightarrow> en_now e + 30 * 24 * hour | Some t \<Rightarrow> t)"

definition handle_grant_mint ::
  "sys \<Rightarrow> env \<Rightarrow> rctx \<Rightarrow> mint_req option \<Rightarrow> hub \<Rightarrow> mint_resp reply \<times> hub" where
  "handle_grant_mint S e rc q h =
     (case q of
        None \<Rightarrow> (Failure bad_request, h)
      | Some r \<Rightarrow>
          if mq_recipient r = [] \<or> sc_primitive (mq_scope r) = [] then (Failure bad_request, h)
          else if sy_strict_mint S \<and> mq_parent r = [] then (Failure bad_request, h)
          else authorised S e rc ((need ''grant'' [] ''mint'')\<lparr>rq_is_delegation := mq_parent r \<noteq> []\<rparr>)
            (\<lambda>g h1.
               case (if mq_parent r = [] then None else delegation_check S r) of
                 Some err \<Rightarrow> (Failure err, h1)
               | None \<Rightarrow>
                   let gid = new_ulid e 0; i = minted_identifier e r g gid;
                       exp_at = mint_expiry e r;
                       caveats = time_caveat exp_at # mq_caveats r
                   in case mint S \<lparr>ms_root_key = sy_root_key S,
                             ms_location = rh_host (rc_headers rc), ms_identifier = i,
                             ms_caveats = caveats\<rparr> of
                        Inl _ \<Rightarrow> (Failure unavailable, h1)
                      | Inr out \<Rightarrow>
                          let s1 = snd (remember_grant e
                            \<lparr>kg_id = gid, kg_issued_by = idn_issued_by (gt_identifier g),
                             kg_recipient = strip_fabric_suffix (mq_recipient r),
                             kg_parent = idn_grant_id (gt_identifier g),
                             kg_scope = sy_json_scope S (mq_scope r),
                             kg_caveats = sy_json_strings S caveats, kg_issued_at = en_now e,
                             kg_expires_at = exp_at, kg_revoked_at = None,
                             kg_revocation_event = []\<rparr> (hb_store h1))
                          in (Reply 200 \<lparr>mp_grant_id = gid,
                                mp_macaroon = b64_encode std_encoding (gt_macaroon out)\<rparr>,
                              h1\<lparr>hb_store := s1\<rparr>)) h)"

section \<open>Verify\<close>

record verify_req =
  vq_macaroon :: string
  vq_primitive :: string
  vq_namespace :: string
  vq_operation :: string

text \<open>The reasons are kept by kind, in the order the handler appends them.\<close>

datatype verify_reason = SignatureInvalid | ParseFailed | PrimitiveDenied | NamespaceDenied
  | OperationDenied | CaveatFailed string

record verify_resp =
  vp_would_succeed :: bool
  vp_reasons :: "verify_reason list"

definition hypothetical_context :: "env \<Rightarrow> verify_req \<Rightarrow> caveat_context" where
  "hypothetical_context e r =
     \<lparr>cx_now = en_now e, cx_operation = vq_operation r, cx_namespace = vq_namespace r,
      cx_has_idempotency_key = False, cx_is_delegation = False, cx_grant_id = [],
      cx_principal_type = [], cx_agent_id = [], cx_device_id = [], cx_is_bridge = False,
      cx_bridge_domain = [], cx_bridge_amount = 0, cx_bridge_currency = [], cx_server = False,
      cx_discharge_ids = [], cx_strict = False\<rparr>"

definition verify_reasons :: "env \<Rightarrow> grant \<Rightarrow> verify_req \<Rightarrow> volatile \<Rightarrow> verify_reason list" where
  "verify_reasons e p r v =
     (let sc = idn_scope (gt_identifier p)
      in (if sc_primitive sc \<noteq> [] \<and> sc_primitive sc \<noteq> vq_primitive r then [PrimitiveDenied] else [])
       @ (if sc_namespace sc \<noteq> [] \<and> sc_namespace sc \<noteq> ''*'' \<and> sc_namespace sc \<noteq> vq_namespace r
          then [NamespaceDenied] else [])
       @ (if sc_operations sc \<noteq> [] \<and> \<not> contains (sc_operations sc) (vq_operation r)
          then [OperationDenied] else [])
       @ (case fst (evaluate_caveats e (gt_caveats p) (hypothetical_context e r) v) of
            None \<Rightarrow> [] | Some ce \<Rightarrow> [CaveatFailed (ce_caveat ce)]))"

definition handle_grant_verify ::
  "sys \<Rightarrow> env \<Rightarrow> rctx \<Rightarrow> verify_req option \<Rightarrow> hub \<Rightarrow> verify_resp reply \<times> hub" where
  "handle_grant_verify S e rc q h =
     (case q of
        None \<Rightarrow> (Failure bad_request, h)
      | Some r \<Rightarrow> authorised S e rc (need ''grant'' [] ''verify'')
          (\<lambda>g h1.
             if vq_macaroon r = [] then (Failure bad_request, h1)
             else case decode_any_base64 (vq_macaroon r) of
               None \<Rightarrow> (Failure bad_request, h1)
             | Some b \<Rightarrow>
                 (case verify_signature S b (sy_root_key S) always_satisfied of
                    Inl _ \<Rightarrow> (Reply 200 \<lparr>vp_would_succeed = False, vp_reasons = [SignatureInvalid]\<rparr>, h1)
                  | Inr _ \<Rightarrow>
                      (case parse_grant S b of
                         Inl _ \<Rightarrow> (Reply 200 \<lparr>vp_would_succeed = False, vp_reasons = [ParseFailed]\<rparr>, h1)
                       | Inr p \<Rightarrow>
                           let reasons = verify_reasons e p r (hb_volatile h1)
                           in (Reply 200 \<lparr>vp_would_succeed = (reasons = []), vp_reasons = reasons\<rparr>,
                               h1)))) h)"

section \<open>Revoke\<close>

record revoke_req =
  kq_grant_id :: string
  kq_reason :: string

definition revocations_stream :: string where
  "revocations_stream = ''revocations''"

definition revocation_input :: "bytes \<Rightarrow> grant \<Rightarrow> bytes \<Rightarrow> history_input" where
  "revocation_input body g prev =
     \<lparr>hi_stream_id = revocations_stream, hi_kind = ''grant.revoked'', hi_ciphertext = body,
      hi_metadata = body, hi_causal_deps = [], hi_vector_clock = [], hi_prev_hash = prev,
      hi_principal = idn_issued_by (gt_identifier g), hi_grant_id = idn_grant_id (gt_identifier g),
      hi_device = []\<rparr>"

text \<open>The SELECT of the head, whose error leaves a nil slice.\<close>

definition revocation_head :: "env \<Rightarrow> store \<Rightarrow> bytes" where
  "revocation_head e s =
     (if en_fault e ''RevocationHead'' then []
      else coalesce [] (current_head revocations_stream s))"

definition handle_grant_revoke ::
  "sys \<Rightarrow> env \<Rightarrow> rctx \<Rightarrow> revoke_req option \<Rightarrow> hub \<Rightarrow> string reply \<times> hub" where
  "handle_grant_revoke S e rc q h =
     (case q of
        None \<Rightarrow> (Failure bad_request, h)
      | Some r \<Rightarrow>
          if kq_grant_id r = [] then (Failure bad_request, h)
          else authorised S e rc (need ''grant'' [] ''revoke'')
            (\<lambda>g h1.
               case require_grant_ownership e g (kq_grant_id r) (hb_store h1) of
                 Some err \<Rightarrow> (Failure err, h1)
               | None \<Rightarrow>
                   let eid = new_ulid e 0;
                       body = sy_json_revocation S (kq_grant_id r) (kq_reason r)
                         (idn_issued_by (gt_identifier g)) (fmt_time (en_now e))
                   in case write_blob (sy_sha256 S) (sy_blobs_root S) e history_namespace eid body
                             (hb_store h1) of
                        (Inl _, s1) \<Rightarrow> (Failure unavailable, h1\<lparr>hb_store := s1\<rparr>)
                      | (Inr path, s1) \<Rightarrow>
                          (case append_history_event (sy_sha256 S) e
                                  (revocation_input body g (revocation_head e s1)) path eid s1 of
                             (Inl _, s2) \<Rightarrow> (Failure unavailable, h1\<lparr>hb_store := s2\<rparr>)
                           | (Inr res, s2) \<Rightarrow>
                               let s3 = snd (mark_grant_revoked e (kq_grant_id r) (hr_event_id res) s2)
                               in (Reply 200 (hr_event_id res), h1\<lparr>hb_store := s3\<rparr>))) h)"

section \<open>Discharge\<close>

record discharge_req =
  dq_grant_id :: string
  dq_verifier_url :: string

record discharge_resp =
  dp_discharge :: string
  dp_expires_at :: string

definition discharge_identifier :: "env \<Rightarrow> string \<Rightarrow> grant_identifier" where
  "discharge_identifier e url =
     \<lparr>idn_grant_id = url, idn_issued_at = en_now e, idn_issued_by = [], idn_keypair = [],
      idn_parent = [], idn_scope = \<lparr>sc_primitive = [], sc_namespace = [], sc_operations = []\<rparr>\<rparr>"

definition handle_grant_discharge ::
  "sys \<Rightarrow> env \<Rightarrow> rctx \<Rightarrow> discharge_req option \<Rightarrow> hub \<Rightarrow> discharge_resp reply \<times> hub" where
  "handle_grant_discharge S e rc q h =
     (case q of
        None \<Rightarrow> (Failure bad_request, h)
      | Some r \<Rightarrow>
          if dq_grant_id r = [] \<or> dq_verifier_url r = [] then (Failure bad_request, h)
          else authorised S e rc (need ''grant'' [] ''discharge'')
            (\<lambda>g h1.
               if is_grant_revoked e (dq_grant_id r) (hb_store h1) = Inr True
               then (Failure (HttpErr 403 ''grant_revoked'' False), h1)
               else
                 let exp_at = en_now e + 24 * hour
                 in case mint S \<lparr>ms_root_key = sy_root_key S, ms_location = dq_verifier_url r,
                           ms_identifier = discharge_identifier e (dq_verifier_url r),
                           ms_caveats = [time_caveat exp_at]\<rparr> of
                      Inl _ \<Rightarrow> (Failure unavailable, h1)
                    | Inr out \<Rightarrow>
                        (Reply 200 \<lparr>dp_discharge = b64_encode std_encoding (gt_macaroon out),
                           dp_expires_at = fmt_time exp_at\<rparr>,
                         h1\<lparr>hb_volatile := discharge_remember e (dq_verifier_url r)
                              (gt_macaroon out) (24 * hour) (hb_volatile h1)\<rparr>)) h)"

section \<open>The handlers run steps of the store\<close>

lemma runs_grant_mint: "runs S h (handle_grant_mint S e rc q h)"
  unfolding handle_grant_mint_def
  by (intro runs_intros; hypsubst?; (rule runs_self | rule runs_same, assumption
      | rule runs_store, assumption, rule evolves_one, rule step_remember))

lemma evolves_revocation:
  assumes "append_history_event (sy_sha256 S) e' i path eid s1 = (r, s2)"
    and "write_blob (sy_sha256 S) (sy_blobs_root S) e history_namespace eid c s = (Inr path, s1)"
  shows "evolves S s (snd (mark_grant_revoked e'' gid ev s2))"
  by (rule evolves_step [OF step_revoke evolves_blob_history [OF assms]])

lemma runs_grant_revoke: "runs S h (handle_grant_revoke S e rc q h)"
  unfolding handle_grant_revoke_def
  by (intro runs_intros; hypsubst?; (rule runs_self | rule runs_same, assumption
      | rule runs_store, assumption, (erule evolves_write_blob | erule (1) evolves_blob_history
          | erule (1) evolves_revocation)))

lemma grant_reads_keep_store:
  "hb_store (snd (handle_grant_verify S e rc q h)) = hb_store h"
  "hb_store (snd (handle_grant_discharge S e rc q' h)) = hb_store h"
  unfolding handle_grant_verify_def handle_grant_discharge_def Let_def
  by (auto intro!: authorised_keeps split: option.splits sum.splits)

end
