(* ===== verification/Pairing_Handlers.thy ===== *)
theory Pairing_Handlers
  imports Grant_Handlers
begin

text \<open>
  Identity and device pairing (nakli-hub/internal/server/handlers_identity.go), crate pairing and
  the life cycle of a daemon's capability (handlers_crate_pairing.go). The QR payload of a
  pairing (base32 of a JSON object of the fields that the reply holds) is left out.
\<close>

section \<open>Identity\<close>

record principal_resp =
  ip_principal_id :: string
  ip_principal_type :: string
  ip_public_key :: string

definition handle_identity_principal ::
  "sys \<Rightarrow> env \<Rightarrow> rctx \<Rightarrow> hub \<Rightarrow> principal_resp reply \<times> hub" where
  "handle_identity_principal S e rc h =
     authorised S e rc (need ''identity'' [] ''read'')
       (\<lambda>g h1.
          let pid = strip_fabric_suffix (idn_issued_by (gt_identifier g))
          in (Reply 200
                (case get_principal e pid (hb_store h1) of
                   Inl _ \<Rightarrow> \<lparr>ip_principal_id = pid,
                     ip_principal_type = pick_principal_type (gt_caveats g), ip_public_key = []\<rparr>
                 | Inr p \<Rightarrow> \<lparr>ip_principal_id = pid, ip_principal_type = pn_type p,
                     ip_public_key = b64_encode std_encoding (coalesce [] (pn_public_key p))\<rparr>),
              h1)) h"

text \<open>
  A number below \<open>bound\<close> from crypto/rand: the value of the n-th random read of the request.
\<close>

definition random_below :: "env \<Rightarrow> nat \<Rightarrow> nat \<Rightarrow> nat" where
  "random_below e n bound = foldl (\<lambda>k c. 256 * k + char_code c) 0 (en_random e n) mod bound"

definition new_numeric_code :: "env \<Rightarrow> nat \<Rightarrow> string option" where
  "new_numeric_code e n =
     (if n = 0 \<or> 9 < n \<or> en_fault e ''crypto/rand'' then None
      else Some (pad_digits n (random_below e 0 (10 ^ n))))"

definition rendezvous_base :: "rctx \<Rightarrow> string" where
  "rendezvous_base rc =
     (if rh_tls (rc_headers rc) then ''https'' else ''http'') @ ''://'' @ rh_host (rc_headers rc)"

record pair_initiate_resp =
  pi_token :: string
  pi_rendezvous :: string
  pi_expires_at :: time
  pi_numeric_code :: string
  pi_magic_link :: string

text \<open>\<open>Some n\<close> is the decoded expires_in_seconds, 0 for an empty body.\<close>

definition pairing_expiry :: "int \<Rightarrow> time" where
  "pairing_expiry n = (if 0 < n \<and> n < 24 * 3600 then n * second else 10 * minute)"

definition handle_pair_initiate ::
  "sys \<Rightarrow> env \<Rightarrow> rctx \<Rightarrow> int option \<Rightarrow> hub \<Rightarrow> pair_initiate_resp reply \<times> hub" where
  "handle_pair_initiate S e rc q h =
     (case q of
        None \<Rightarrow> (Failure bad_request, h)
      | Some n \<Rightarrow> authorised S e rc (need ''identity'' [] ''pair'')
          (\<lambda>g h1.
             let tok = new_ulid e 0
             in case new_numeric_code e 6 of
                  None \<Rightarrow> (Failure unavailable, h1)
                | Some code \<Rightarrow>
                    let exp_at = en_now e + pairing_expiry n;
                        url = rendezvous_base rc @ ''/fabric/v1/identity/pair/complete''
                    in case create_pairing_token e
                           \<lparr>pk_token = tok, pk_numeric_code = code,
                            pk_initiated_by = strip_fabric_suffix (idn_issued_by (gt_identifier g)),
                            pk_initiated_at = en_now e, pk_expires_at = exp_at,
                            pk_completed_at = None, pk_completed_by = [],
                            pk_fif_commitment = None\<rparr> (hb_store h1) of
                         (Inl _, s1) \<Rightarrow> (Failure unavailable, h1\<lparr>hb_store := s1\<rparr>)
                       | (Inr _, s1) \<Rightarrow>
                           (Reply 200 \<lparr>pi_token = tok, pi_rendezvous = url, pi_expires_at = exp_at,
                              pi_numeric_code = code, pi_magic_link = url @ ''?token='' @ tok\<rparr>,
                            h1\<lparr>hb_store := s1\<rparr>)) h)"

record pair_complete_req =
  pq_token :: string
  pq_public_key :: string
  pq_device_name :: string

record pair_complete_resp =
  pp_device_id :: string
  pp_enrollment_grant :: string
  pp_transport_url :: string
  pp_hub_public_key :: string

definition enrollment_spec :: "sys \<Rightarrow> env \<Rightarrow> rctx \<Rightarrow> string \<Rightarrow> string \<Rightarrow> mint_spec" where
  "enrollment_spec S e rc gid dev =
     \<lparr>ms_root_key = sy_root_key S, ms_location = rh_host (rc_headers rc),
      ms_identifier = \<lparr>idn_grant_id = gid, idn_issued_at = en_now e, idn_issued_by = sy_hub_id S,
        idn_keypair = sy_public_key S, idn_parent = [],
        idn_scope = \<lparr>sc_primitive = ''identity'', sc_namespace = ''*'',
          sc_operations = [''enroll'']\<rparr>\<rparr>,
      ms_caveats = [time_caveat (en_now e + 10 * minute), ''principal-type in [device]'',
        ''device-id == '' @ dev, ''nondelegatable'']\<rparr>"

definition handle_pair_complete ::
  "sys \<Rightarrow> env \<Rightarrow> rctx \<Rightarrow> pair_complete_req option \<Rightarrow> hub \<Rightarrow> pair_complete_resp reply \<times> hub" where
  "handle_pair_complete S e rc q h =
     (case q of
        None \<Rightarrow> (Failure bad_request, h)
      | Some r \<Rightarrow>
          if pq_token r = [] \<or> pq_public_key r = [] \<or> pq_device_name r = []
          then (Failure bad_request, h)
          else case b64_decode std_encoding (pq_public_key r) of
            None \<Rightarrow> (Failure bad_request, h)
          | Some pub \<Rightarrow>
              (case lookup_pairing_token e (pq_token r) (hb_store h) of
                 Inl _ \<Rightarrow> (Failure not_found, h)
               | Inr pt \<Rightarrow>
                   if pk_expires_at pt < en_now e then (Failure grant_invalid, h)
                   else if pk_completed_at pt \<noteq> None then (Failure conflict, h)
                   else
                     let dev = new_ulid e 0
                     in case upsert_principal e
                            \<lparr>pn_id = dev, pn_type = ''device'', pn_public_key = Some pub,
                             pn_parent = pk_initiated_by pt, pn_display = pq_device_name r,
                             pn_created_at = en_now e, pn_retired_at = None,
                             pn_retirement_event = []\<rparr> (hb_store h) of
                          (Inl _, s1) \<Rightarrow> (Failure unavailable, h\<lparr>hb_store := s1\<rparr>)
                        | (Inr _, s1) \<Rightarrow>
                            (case complete_pairing e (pq_token r) dev s1 of
                               (Inl _, s2) \<Rightarrow> (Failure unavailable, h\<lparr>hb_store := s2\<rparr>)
                             | (Inr _, s2) \<Rightarrow>
                                 (case mint S (enrollment_spec S e rc (new_ulid e 1) dev) of
                                    Inl _ \<Rightarrow> (Failure unavailable, h\<lparr>hb_store := s2\<rparr>)
                                  | Inr g \<Rightarrow>
                                      (Reply 200 \<lparr>pp_device_id = dev,
                                         pp_enrollment_grant = b64_encode std_encoding (gt_macaroon g),
                                         pp_transport_url = rendezvous_base rc,
                                         pp_hub_public_key =
                                           b64_encode std_encoding (sy_public_key S)\<rparr>,
                                       h\<lparr>hb_store := s2\<rparr>)))))"

section \<open>Crate pairing\<close>

definition unix_epoch :: int where "unix_epoch = 62135596800"

text \<open>time.Unix keeps its seconds in an int64.\<close>

definition unix_time :: "int \<Rightarrow> time" where
  "unix_time n = wrap64 (n + unix_epoch) * second"

definition unix_seconds :: "time \<Rightarrow> int" where
  "unix_seconds t = t div second - unix_epoch"

record crate_payload =
  cq_v :: int
  cq_type :: string
  cq_secret :: string
  cq_transport_endpoint :: string
  cq_transport_type :: string
  cq_bucket_id :: string
  cq_identity_pubkey :: string
  cq_issued_at :: int
  cq_expires_at :: int

definition token_expired :: http_err where "token_expired = HttpErr 410 ''token_expired'' False"
definition token_not_found :: http_err where
  "token_not_found = HttpErr 404 ''token_not_found'' False"
definition token_cancelled :: http_err where
  "token_cancelled = HttpErr 404 ''token_cancelled'' False"
definition token_already_redeemed :: http_err where
  "token_already_redeemed = HttpErr 409 ''token_already_redeemed'' False"
definition protocol_version :: http_err where
  "protocol_version = HttpErr 426 ''protocol_version'' False"

text \<open>validate, with the status the intent handler gives each code.\<close>

definition validate_payload :: "crate_payload \<Rightarrow> time \<Rightarrow> http_err option" where
  "validate_payload p now =
     (if cq_v p = 0 then Some bad_request
      else if cq_v p \<noteq> 1 then Some protocol_version
      else if cq_type p \<noteq> ''crate.pairing.token'' then Some bad_request
      else if cq_secret p = [] then Some bad_request
      else if cq_transport_endpoint p = [] \<or> cq_transport_type p = [] then Some bad_request
      else if cq_bucket_id p = [] then Some bad_request
      else if cq_identity_pubkey p = [] then Some bad_request
      else if cq_issued_at p = 0 \<or> cq_expires_at p = 0 then Some bad_request
      else if cq_expires_at p \<le> cq_issued_at p then Some bad_request
      else if unix_time (cq_expires_at p) < now then Some token_expired
      else None)"

text \<open>The request is the raw body, at most 64 KB, and the payload it decodes to.\<close>

definition handle_crate_intent ::
  "sys \<Rightarrow> env \<Rightarrow> rctx \<Rightarrow> (bytes \<times> crate_payload) option \<Rightarrow> hub \<Rightarrow> unit reply \<times> hub" where
  "handle_crate_intent S e rc q h =
     authorised S e rc (need ''identity'' [] ''pair'')
       (\<lambda>g h1.
          case q of
            None \<Rightarrow> (Failure bad_request, h1)
          | Some (body, p) \<Rightarrow>
              (case validate_payload p (en_now e) of
                 Some err \<Rightarrow> (Failure err, h1)
               | None \<Rightarrow>
                   (case create_crate_token e
                        \<lparr>ck_secret = cq_secret p, ck_payload_json = body,
                         ck_bucket_id = cq_bucket_id p, ck_identity_pubkey = cq_identity_pubkey p,
                         ck_transport_endpoint = cq_transport_endpoint p,
                         ck_transport_type = cq_transport_type p,
                         ck_issued_at = unix_time (cq_issued_at p),
                         ck_expires_at = unix_time (cq_expires_at p), ck_redeemed_at = None,
                         ck_redeemed_by = [], ck_fingerprint = [], ck_capability_id = [],
                         ck_cancelled_at = None, ck_created_at = 0\<rparr> (hb_store h1) of
                      (Inl err, s1) \<Rightarrow>
                        (if err = ErrUnique then Reply 201 () else Failure unavailable,
                         h1\<lparr>hb_store := s1\<rparr>)
                    | (Inr _, s1) \<Rightarrow> (Reply 201 (), h1\<lparr>hb_store := s1\<rparr>)))) h"

definition handle_crate_cancel ::
  "sys \<Rightarrow> env \<Rightarrow> rctx \<Rightarrow> string option \<Rightarrow> hub \<Rightarrow> unit reply \<times> hub" where
  "handle_crate_cancel S e rc q h =
     authorised S e rc (need ''identity'' [] ''pair'')
       (\<lambda>g h1.
          case q of
            None \<Rightarrow> (Failure bad_request, h1)
          | Some sec \<Rightarrow>
              if sec = [] then (Failure bad_request, h1)
              else
                (case cancel_crate_token e sec (hb_store h1) of
                   (Inl err, s1) \<Rightarrow>
                     (Failure (if err = ErrNotFound then token_not_found
                               else if err = ErrCratePairingTokenAlreadyRedeemed
                               then token_already_redeemed else unavailable),
                      h1\<lparr>hb_store := s1\<rparr>)
                 | (Inr _, s1) \<Rightarrow> (Reply 204 (), h1\<lparr>hb_store := s1\<rparr>))) h"

record crate_redeem_req =
  cr_v :: int
  cr_secret :: string
  cr_daemon_pubkey :: string
  cr_fingerprint :: string

record capability_resp =
  cp_capability :: string
  cp_bucket :: string
  cp_transport_pubkey :: string
  cp_expires_at :: int

definition capability_ttl :: time where "capability_ttl = 365 * 24 * hour"

definition capability_spec ::
  "sys \<Rightarrow> rctx \<Rightarrow> grant_identifier \<Rightarrow> string list \<Rightarrow> mint_spec" where
  "capability_spec S rc i caveats =
     \<lparr>ms_root_key = sy_root_key S, ms_location = rh_host (rc_headers rc), ms_identifier = i,
      ms_caveats = caveats\<rparr>"

definition redeemed_identifier :: "sys \<Rightarrow> env \<Rightarrow> string \<Rightarrow> string \<Rightarrow> grant_identifier" where
  "redeemed_identifier S e gid bucket =
     \<lparr>idn_grant_id = gid, idn_issued_at = en_now e, idn_issued_by = sy_hub_id S,
      idn_keypair = sy_public_key S, idn_parent = [],
      idn_scope = \<lparr>sc_primitive = ''sync'', sc_namespace = bucket,
        sc_operations = [''read'', ''write'']\<rparr>\<rparr>"

definition handle_crate_redeem ::
  "sys \<Rightarrow> env \<Rightarrow> rctx \<Rightarrow> crate_redeem_req option \<Rightarrow> hub \<Rightarrow> capability_resp reply \<times> hub" where
  "handle_crate_redeem S e rc q h =
     (case q of
        None \<Rightarrow> (Failure bad_request, h)
      | Some r \<Rightarrow>
          if cr_v r \<noteq> 1 then (Failure protocol_version, h)
          else if cr_secret r = [] \<or> cr_daemon_pubkey r = [] then (Failure bad_request, h)
          else case lookup_crate_token e (cr_secret r) (hb_store h) of
            Inl _ \<Rightarrow> (Failure token_not_found, h)
          | Inr t \<Rightarrow>
              if ck_cancelled_at t \<noteq> None then (Failure token_cancelled, h)
              else if ck_redeemed_at t \<noteq> None then (Failure token_already_redeemed, h)
              else if ck_expires_at t < en_now e then (Failure token_expired, h)
              else
                let exp_at = en_now e + capability_ttl; gid = new_ulid e 0;
                    i = redeemed_identifier S e gid (ck_bucket_id t);
                    caveats = [time_caveat exp_at, ''device-id == '' @ cr_daemon_pubkey r,
                      ''operation in [read, write]'']
                in case mint S (capability_spec S rc i caveats) of
                     Inl _ \<Rightarrow> (Failure unavailable, h)
                   | Inr out \<Rightarrow>
                       (case redeem_crate_token e (cr_secret r) (cr_daemon_pubkey r)
                               (cr_fingerprint r) gid (hb_store h) of
                          (Inl err, s1) \<Rightarrow>
                            (Failure (if err = ErrCratePairingTokenAlreadyRedeemed
                                      then token_already_redeemed
                                      else if err = ErrCratePairingTokenExpired then token_expired
                                      else unavailable), h\<lparr>hb_store := s1\<rparr>)
                        | (Inr _, s1) \<Rightarrow>
                            let s2 = snd (remember_grant e
                              \<lparr>kg_id = gid, kg_issued_by = sy_hub_id S,
                               kg_recipient = cr_daemon_pubkey r, kg_parent = [],
                               kg_scope = sy_json_scope S (idn_scope i),
                               kg_caveats = sy_json_strings S caveats, kg_issued_at = en_now e,
                               kg_expires_at = exp_at, kg_revoked_at = None,
                               kg_revocation_event = []\<rparr> s1)
                            in (Reply 200 \<lparr>cp_capability = b64_encode std_encoding (gt_macaroon out),
                                  cp_bucket = ck_bucket_id t,
                                  cp_transport_pubkey = b64_encode std_encoding (sy_public_key S),
                                  cp_expires_at = unix_seconds exp_at\<rparr>,
                                h\<lparr>hb_store := s2\<rparr>)))"

section \<open>Capabilities\<close>

definition refreshed_caveats :: "time \<Rightarrow> string list \<Rightarrow> string list" where
  "refreshed_caveats exp_at cs =
     time_caveat exp_at
       # filter (\<lambda>tc. \<not> has_prefix ''time < '' tc) (map trim_space cs)"

definition refreshed_identifier :: "sys \<Rightarrow> env \<Rightarrow> string \<Rightarrow> grant \<Rightarrow> grant_identifier" where
  "refreshed_identifier S e gid g =
     \<lparr>idn_grant_id = gid, idn_issued_at = en_now e, idn_issued_by = sy_hub_id S,
      idn_keypair = sy_public_key S, idn_parent = idn_grant_id (gt_identifier g),
      idn_scope = idn_scope (gt_identifier g)\<rparr>"

definition handle_capability_refresh ::
  "sys \<Rightarrow> env \<Rightarrow> rctx \<Rightarrow> hub \<Rightarrow> capability_resp reply \<times> hub" where
  "handle_capability_refresh S e rc h =
     authorised S e rc (need ''sync'' [] ''read'')
       (\<lambda>g h1.
          if is_grant_revoked e (idn_grant_id (gt_identifier g)) (hb_store h1) = Inr True
          then (Failure grant_revoked, h1)
          else
            let exp_at = en_now e + capability_ttl; gid = new_ulid e 0;
                caveats = refreshed_caveats exp_at (gt_caveats g);
                i = refreshed_identifier S e gid g
            in case mint S (capability_spec S rc i caveats) of
                 Inl _ \<Rightarrow> (Failure unavailable, h1)
               | Inr out \<Rightarrow>
                   let s1 = snd (remember_grant e
                     \<lparr>kg_id = gid, kg_issued_by = sy_hub_id S,
                      kg_recipient = idn_issued_by (gt_identifier g),
                      kg_parent = idn_grant_id (gt_identifier g),
                      kg_scope = sy_json_scope S (idn_scope i),
                      kg_caveats = sy_json_strings S caveats, kg_issued_at = en_now e,
                      kg_expires_at = exp_at, kg_revoked_at = None,
                      kg_revocation_event = []\<rparr> (hb_store h1))
                   in (Reply 200 \<lparr>cp_capability = b64_encode std_encoding (gt_macaroon out),
                         cp_bucket = [], cp_transport_pubkey = [],
                         cp_expires_at = unix_seconds exp_at\<rparr>, h1\<lparr>hb_store := s1\<rparr>)) h"

definition handle_capability_revoke ::
  "sys \<Rightarrow> env \<Rightarrow> rctx \<Rightarrow> string \<Rightarrow> hub \<Rightarrow> unit reply \<times> hub" where
  "handle_capability_revoke S e rc gid h =
     (if gid = [] then (Failure bad_request, h)
      else authorised S e rc (need ''grant'' [] ''revoke'')
        (\<lambda>g h1.
           case require_grant_ownership e g gid (hb_store h1) of
             Some err \<Rightarrow> (Failure err, h1)
           | None \<Rightarrow>
               (case mark_grant_revoked e gid [] (hb_store h1) of
                  (Inl _, s1) \<Rightarrow> (Failure unavailable, h1\<lparr>hb_store := s1\<rparr>)
                | (Inr _, s1) \<Rightarrow> (Reply 204 (), h1\<lparr>hb_store := s1\<rparr>))) h)"

section \<open>The handlers run steps of the store\<close>

lemma evolves_snd: "f = (r, s1) \<Longrightarrow> store_step S s (snd f) \<Longrightarrow> evolves S s s1"
  using evolves_one by fastforce

lemma evolves_snd_trans: "f = (r, s2) \<Longrightarrow> store_step S s1 (snd f) \<Longrightarrow> evolves S s s1 \<Longrightarrow> evolves S s s2"
  using evolves_step by fastforce

lemma runs_identity_principal: "runs S h (handle_identity_principal S e rc h)"
  unfolding handle_identity_principal_def
  by (intro runs_intros; hypsubst?; (rule runs_same, assumption))

lemma runs_pair_initiate: "runs S h (handle_pair_initiate S e rc q h)"
  unfolding handle_pair_initiate_def
  by (intro runs_intros; hypsubst?; (rule runs_self | rule runs_same, assumption
      | rule runs_store, assumption, erule evolves_snd, rule step_create_pairing))

lemma runs_pair_complete: "runs S h (handle_pair_complete S e rc q h)"
  unfolding handle_pair_complete_def
  by (intro runs_intros; hypsubst?; (rule runs_self
      | rule runs_store, rule refl, (erule evolves_snd, rule step_upsert
          | erule evolves_snd_trans, rule step_complete_pairing, erule evolves_snd, rule step_upsert)))

lemma runs_crate_intent: "runs S h (handle_crate_intent S e rc q h)"
  unfolding handle_crate_intent_def
  by (intro runs_intros; hypsubst?; (rule runs_self | rule runs_same, assumption
      | rule runs_store, assumption, erule evolves_snd, rule step_create_crate))

lemma runs_crate_cancel: "runs S h (handle_crate_cancel S e rc q h)"
  unfolding handle_crate_cancel_def
  by (intro runs_intros; hypsubst?; (rule runs_self | rule runs_same, assumption
      | rule runs_store, assumption, erule evolves_snd, rule step_cancel_crate))

lemma runs_crate_redeem: "runs S h (handle_crate_redeem S e rc q h)"
  unfolding handle_crate_redeem_def
  by (intro runs_intros; hypsubst?; (rule runs_self
      | rule runs_store, rule refl, (erule evolves_snd, rule step_redeem_crate
          | rule evolves_step, rule step_remember, erule evolves_snd, rule step_redeem_crate)))

lemma runs_capability_refresh: "runs S h (handle_capability_refresh S e rc h)"
  unfolding handle_capability_refresh_def
  by (intro runs_intros; hypsubst?; (rule runs_self | rule runs_same, assumption
      | rule runs_store, assumption, rule evolves_one, rule step_remember))

lemma runs_capability_revoke: "runs S h (handle_capability_revoke S e rc gid h)"
  unfolding handle_capability_revoke_def
  by (intro runs_intros; hypsubst?; (rule runs_self | rule runs_same, assumption
      | rule runs_store, assumption, erule evolves_snd, rule step_revoke))

end
