(* ===== verification/Local_Peers.thy ===== *)
theory Local_Peers
  imports Go_Time
begin

text \<open>
  The peers seen on the local network (fabric-sdk-go/local/local.go): the Browser's table, keyed by
  transport id, and the operations on it. The mDNS library, the background loop and the channels of
  the observers are not modelled: an entry is what the library hands to \<open>absorb\<close>. Go's map has no
  order, so a snapshot is a map too.
\<close>

record peer =
  pe_host :: string
  pe_port :: nat
  pe_principal_id :: string
  pe_device_id :: string
  pe_transport_id :: string
  pe_hub_id :: string
  pe_version :: string
  pe_capabilities :: "string list"
  pe_url :: string
  pe_discovered :: time
  pe_last_seen :: time

record browser =
  br_peers :: "string \<rightharpoonup> peer"
  br_stale_after :: time
  br_exclude :: string

definition new_browser :: browser where
  "new_browser = \<lparr>br_peers = (\<lambda>_. None), br_stale_after = 180 * second, br_exclude = []\<rparr>"

definition set_exclude :: "string \<Rightarrow> browser \<Rightarrow> browser" where
  "set_exclude i b = b\<lparr>br_exclude := i\<rparr>"

definition stale :: "time \<Rightarrow> browser \<Rightarrow> peer \<Rightarrow> bool" where
  "stale now b p = (br_stale_after b < now - pe_last_seen p)"

text \<open>Peers: stale entries are evicted, the Hub's own announcement is hidden.\<close>

definition browser_peers :: "time \<Rightarrow> browser \<Rightarrow> (string \<rightharpoonup> peer) \<times> browser" where
  "browser_peers now b =
     (let kept = (\<lambda>tid. case br_peers b tid of
            None \<Rightarrow> None | Some p \<Rightarrow> if stale now b p then None else Some p)
      in (\<lambda>tid. if tid = br_exclude b then None else kept tid, b\<lparr>br_peers := kept\<rparr>))"

record service_entry =
  en_host :: string
  en_port :: nat
  en_text :: "string list"
  en_ipv4 :: "string list"

definition txt_field :: "string \<Rightarrow> string \<Rightarrow> peer \<Rightarrow> peer" where
  "txt_field k v p =
     (if k = ''principal_id'' then p\<lparr>pe_principal_id := v\<rparr>
      else if k = ''device_id'' then p\<lparr>pe_device_id := v\<rparr>
      else if k = ''transport_id'' then p\<lparr>pe_transport_id := v\<rparr>
      else if k = ''hub_id'' then p\<lparr>pe_hub_id := v\<rparr>
      else if k = ''version'' then p\<lparr>pe_version := v\<rparr>
      else if k = ''capabilities'' then p\<lparr>pe_capabilities := split_char CHR '','' v\<rparr>
      else if k = ''url'' then p\<lparr>pe_url := v\<rparr>
      else p)"

fun txt_fields :: "string list \<Rightarrow> peer \<Rightarrow> peer" where
  "txt_fields [] p = p"
| "txt_fields (kv # kvs) p =
     txt_fields kvs (case split_once ''='' kv of None \<Rightarrow> p | Some (k, v) \<Rightarrow> txt_field k v p)"

definition entry_peer :: "time \<Rightarrow> service_entry \<Rightarrow> peer" where
  "entry_peer now en =
     (let p0 = \<lparr>pe_host = trim_suffix ''.'' (en_host en), pe_port = en_port en,
            pe_principal_id = [], pe_device_id = [], pe_transport_id = [], pe_hub_id = [],
            pe_version = ''naklimesh/1.0'', pe_capabilities = [], pe_url = [],
            pe_discovered = now, pe_last_seen = now\<rparr>;
          p1 = txt_fields (en_text en) p0;
          p2 = (if en_ipv4 en \<noteq> [] \<and> pe_url p1 = []
                then p1\<lparr>pe_url := ''http://'' @ hd (en_ipv4 en) @ '':'' @ dec_digits (en_port en)\<rparr>
                else p1)
      in if pe_transport_id p2 = []
         then p2\<lparr>pe_transport_id := pe_host p2 @ '':'' @ dec_digits (pe_port p2)\<rparr> else p2)"

definition absorb :: "time \<Rightarrow> service_entry \<Rightarrow> browser \<Rightarrow> browser" where
  "absorb now en b =
     (let p = entry_peer now en
      in b\<lparr>br_peers := (br_peers b)(pe_transport_id p \<mapsto>
           (case br_peers b (pe_transport_id p) of
              None \<Rightarrow> p
            | Some old \<Rightarrow> old\<lparr>pe_last_seen := now, pe_url := pe_url p,
                pe_capabilities := pe_capabilities p, pe_version := pe_version p\<rparr>))\<rparr>)"

text \<open>A table where every peer stands under its own transport id, seen no earlier than discovered.\<close>

definition browser_ok :: "browser \<Rightarrow> bool" where
  "browser_ok b =
     (\<forall>tid p. br_peers b tid = Some p \<longrightarrow> pe_transport_id p = tid \<and> tid \<noteq> []
        \<and> pe_discovered p \<le> pe_last_seen p)"

lemma txt_fields_times:
  "pe_discovered (txt_fields kvs p) = pe_discovered p \<and> pe_last_seen (txt_fields kvs p) = pe_last_seen p"
  by (induction kvs arbitrary: p) (auto simp: txt_field_def split: option.splits)

lemma entry_peer_times: "pe_discovered (entry_peer now en) = now" "pe_last_seen (entry_peer now en) = now"
  by (simp_all add: entry_peer_def Let_def txt_fields_times)

lemma entry_peer_named: "pe_transport_id (entry_peer now en) \<noteq> []"
  by (simp add: entry_peer_def Let_def)

lemma browser_ok_new: "browser_ok new_browser"
  by (simp add: browser_ok_def new_browser_def)

lemma browser_ok_absorb:
  assumes "browser_ok b" and "\<forall>tid p. br_peers b tid = Some p \<longrightarrow> pe_last_seen p \<le> now"
  shows "browser_ok (absorb now en b)"
  unfolding browser_ok_def
proof (intro allI impI)
  fix tid p
  assume p: "br_peers (absorb now en b) tid = Some p"
  let ?q = "entry_peer now en"
  show "pe_transport_id p = tid \<and> tid \<noteq> [] \<and> pe_discovered p \<le> pe_last_seen p"
  proof (cases "tid = pe_transport_id ?q")
    case False
    then show ?thesis using p assms(1) by (simp add: absorb_def Let_def browser_ok_def)
  next
    case True
    show ?thesis
    proof (cases "br_peers b tid")
      case None
      then show ?thesis
        using p True entry_peer_times [of now en] entry_peer_named [of now en]
        by (simp add: absorb_def Let_def)
    next
      case (Some old)
      then have "pe_transport_id old = tid \<and> tid \<noteq> []" "pe_discovered old \<le> now"
        using assms unfolding browser_ok_def by (blast, meson order_trans)
      then show ?thesis using p True Some by (auto simp: absorb_def Let_def)
    qed
  qed
qed

lemma browser_ok_peers: "browser_ok b \<Longrightarrow> browser_ok (snd (browser_peers now b))"
  by (auto simp: browser_ok_def browser_peers_def Let_def split: option.splits if_splits)

lemma absorb_keeps_discovery:
  "br_peers b tid = Some p \<Longrightarrow> \<exists>p'. br_peers (absorb now en b) tid = Some p'
     \<and> pe_discovered p' = pe_discovered p"
  by (auto simp: absorb_def Let_def)

end
