(* ===== verification/Sync_Handlers.thy ===== *)
theory Sync_Handlers
  imports Pairing_Handlers Local_Peers
begin

text \<open>
  Replication between Hubs and the LLM stubs (nakli-hub/internal/server/handlers_stub.go). A push
  is a loop over the events of the request; each is skipped, skipped with an error, or accepted.
\<close>

definition base64_std :: "bytes \<Rightarrow> string" where
  "base64_std b = (if b = [] then [] else base64_if_present b)"

definition decode_std_base64 :: "string \<Rightarrow> bytes option" where
  "decode_std_base64 s = try_base64 s"

section \<open>LLM and peers\<close>

definition handle_llm_routes :: "sys \<Rightarrow> env \<Rightarrow> rctx \<Rightarrow> hub \<Rightarrow> string list reply \<times> hub" where
  "handle_llm_routes S e rc h =
     authorised S e rc (need ''llm'' [] ''read'') (\<lambda>g h1. (Reply 200 [], h1)) h"

definition handle_llm_complete :: "sys \<Rightarrow> env \<Rightarrow> rctx \<Rightarrow> hub \<Rightarrow> unit reply \<times> hub" where
  "handle_llm_complete S e rc h =
     authorised S e rc (need ''llm'' [] ''invoke'') (\<lambda>g h1. (Failure not_implemented, h1)) h"

record peer_out =
  po_peer_id :: string
  po_transport_id :: string
  po_url :: string
  po_version :: string
  po_capabilities :: "string list"
  po_last_seen_at :: string
  po_freshness_ms :: int

definition peer_out_of :: "env \<Rightarrow> peer \<Rightarrow> peer_out" where
  "peer_out_of e p =
     \<lparr>po_peer_id = pe_hub_id p, po_transport_id = pe_transport_id p, po_url = pe_url p,
      po_version = pe_version p, po_capabilities = pe_capabilities p,
      po_last_seen_at = fmt_time_fixed (pe_last_seen p),
      po_freshness_ms = (en_now e - pe_last_seen p) div 1000000\<rparr>"

text \<open>\<open>peers\<close> is the snapshot of the mDNS browser, \<open>None\<close> when the Hub has none.\<close>

definition handle_sync_peers ::
  "sys \<Rightarrow> env \<Rightarrow> rctx \<Rightarrow> peer list option \<Rightarrow> hub \<Rightarrow> peer_out list reply \<times> hub" where
  "handle_sync_peers S e rc peers h =
     authorised S e rc (need ''sync'' [] ''read'')
       (\<lambda>g h1. (Reply 200 (map (peer_out_of e) (coalesce [] peers)), h1)) h"

section \<open>Pull\<close>

record sync_out =
  so_namespace :: string
  so_stream_id :: string
  so_stream_type :: string
  so_event_id :: string
  so_kind :: string
  so_seq :: nat
  so_ciphertext :: string
  so_metadata :: string
  so_deps :: "string list"
  so_clock :: "(string \<times> int) list"
  so_prev_hash :: string
  so_hash :: string
  so_appended_at :: string
  so_principal :: string

definition sync_out_of :: "sys \<Rightarrow> sync_event \<Rightarrow> sync_out" where
  "sync_out_of S ev =
     \<lparr>so_namespace = se_namespace ev, so_stream_id = se_stream_id ev,
      so_stream_type = se_stream_type ev, so_event_id = se_event_id ev, so_kind = se_kind ev,
      so_seq = se_seq ev, so_ciphertext = base64_std (se_ciphertext ev),
      so_metadata = se_metadata ev,
      so_deps = (if se_causal_deps ev = [] then [] else sy_unjson_strings S (se_causal_deps ev)),
      so_clock = (if se_vector_clock ev = [] then [] else sy_unjson_map S (se_vector_clock ev)),
      so_prev_hash = base64_if_present (coalesce [] (se_prev_hash ev)),
      so_hash = base64_if_present (coalesce [] (se_hash ev)),
      so_appended_at = fmt_time_fixed (se_appended_at ev), so_principal = se_principal ev\<rparr>"

definition handle_sync_pull ::
  "sys \<Rightarrow> env \<Rightarrow> rctx \<Rightarrow> string \<Rightarrow> string \<Rightarrow> hub \<Rightarrow> (sync_out list \<times> string \<times> bool) reply \<times> hub" where
  "handle_sync_pull S e rc since lmt h =
     authorised S e rc (need ''sync'' [] ''pull'')
       (\<lambda>g h1.
          case sync_pull (sy_sha256 S) (sy_blobs_root S) e since (query_limit lmt) (hb_store h1) of
            Inl _ \<Rightarrow> (Failure unavailable, h1)
          | Inr (evs, cursor, more_left) \<Rightarrow>
              (Reply 200 (map (sync_out_of S) evs, cursor, more_left), h1)) h"

section \<open>Push\<close>

record sync_event_in =
  sn_namespace :: string
  sn_stream_id :: string
  sn_stream_type :: string
  sn_event_id :: string
  sn_kind :: string
  sn_ciphertext :: string
  sn_metadata :: string
  sn_deps :: "string list"
  sn_clock :: "(string \<times> int) list"
  sn_prev_hash :: string
  sn_hash :: string
  sn_appended_at :: string
  sn_principal :: string
  sn_grant_id :: string

datatype push_error =
    AttributionMismatch string
  | BadCiphertext string
  | HashMismatch string
  | BlobFailed string
  | IngestFailed string

datatype push_outcome = Accepted | Skipped | SkippedWith push_error

definition pushed_prev :: "sync_event_in \<Rightarrow> bytes option" where
  "pushed_prev ev = (if sn_prev_hash ev = [] then None else decode_std_base64 (sn_prev_hash ev))"

definition pushed_claim :: "sync_event_in \<Rightarrow> bytes option" where
  "pushed_claim ev = (if sn_hash ev = [] then None else decode_std_base64 (sn_hash ev))"

definition pushed_recomputed :: "sys \<Rightarrow> sync_event_in \<Rightarrow> bytes" where
  "pushed_recomputed S ev =
     compute_history_event_hash (sy_sha256 S) (coalesce [] (pushed_prev ev)) (sn_event_id ev)
       (sn_kind ev) (sn_metadata ev) (json_string_array S (sn_deps ev))"

definition push_input ::
  "sys \<Rightarrow> sync_event_in \<Rightarrow> bytes \<Rightarrow> string \<Rightarrow> bytes option \<Rightarrow> ingest_input" where
  "push_input S ev c path hash =
     \<lparr>ii_event_id = sn_event_id ev, ii_namespace = sn_namespace ev, ii_stream_id = sn_stream_id ev,
      ii_stream_type = sn_stream_type ev, ii_kind = sn_kind ev, ii_blob_path = path,
      ii_payload_size = length c, ii_metadata = sn_metadata ev,
      ii_causal_deps = json_string_array S (sn_deps ev),
      ii_vector_clock = json_string_map S (sn_clock ev), ii_prev_hash = pushed_prev ev,
      ii_hash = hash, ii_appended_at = time_or_zero (sn_appended_at ev),
      ii_principal = sn_principal ev, ii_grant_id = sn_grant_id ev\<rparr>"

definition push_one :: "sys \<Rightarrow> env \<Rightarrow> grant \<Rightarrow> sync_event_in \<Rightarrow> store \<Rightarrow> push_outcome \<times> store" where
  "push_one S e g ev s =
     (if sn_event_id ev = [] \<or> sn_namespace ev = [] \<or> sn_stream_id ev = [] then (Skipped, s)
      else if sy_strict_push S \<and> sn_principal ev \<noteq> []
              \<and> sn_principal ev \<noteq> idn_issued_by (gt_identifier g)
      then (SkippedWith (AttributionMismatch (sn_event_id ev)), s)
      else case decode_std_base64 (sn_ciphertext ev) of
        None \<Rightarrow> (SkippedWith (BadCiphertext (sn_event_id ev)), s)
      | Some c \<Rightarrow>
          let claimed = pushed_claim ev; is_history = (sn_stream_type ev = ''history'');
              recomputed = pushed_recomputed S ev
          in if is_history \<and> coalesce [] claimed \<noteq> [] \<and> coalesce [] claimed \<noteq> recomputed
             then (SkippedWith (HashMismatch (sn_event_id ev)), s)
             else
               (case write_blob (sy_sha256 S) (sy_blobs_root S) e (sn_namespace ev)
                       (sn_event_id ev) c s of
                  (Inl _, s1) \<Rightarrow> (SkippedWith (BlobFailed (sn_event_id ev)), s1)
                | (Inr path, s1) \<Rightarrow>
                    (case ingest_event e (push_input S ev c path
                            (if is_history then Some recomputed else claimed)) s1 of
                       (Inl err, s2) \<Rightarrow>
                         (if err = ErrAlreadyPresent then Skipped
                          else SkippedWith (IngestFailed (sn_event_id ev)), s2)
                     | (Inr _, s2) \<Rightarrow> (Accepted, s2))))"

fun push_all ::
  "sys \<Rightarrow> env \<Rightarrow> grant \<Rightarrow> sync_event_in list \<Rightarrow> store \<Rightarrow> push_outcome list \<times> store" where
  "push_all S e g [] s = ([], s)"
| "push_all S e g (ev # evs) s =
     (let (o1, s1) = push_one S e g ev s; (os, s2) = push_all S e g evs s1 in (o1 # os, s2))"

record push_resp =
  ps_accepted :: nat
  ps_skipped :: nat
  ps_errors :: "push_error list"

fun outcome_errors :: "push_outcome list \<Rightarrow> push_error list" where
  "outcome_errors [] = []"
| "outcome_errors (SkippedWith err # os) = err # outcome_errors os"
| "outcome_errors (_ # os) = outcome_errors os"

definition push_summary :: "push_outcome list \<Rightarrow> push_resp" where
  "push_summary os =
     \<lparr>ps_accepted = length (filter (\<lambda>x. x = Accepted) os),
      ps_skipped = length (filter (\<lambda>x. x \<noteq> Accepted) os), ps_errors = outcome_errors os\<rparr>"

definition handle_sync_push ::
  "sys \<Rightarrow> env \<Rightarrow> rctx \<Rightarrow> sync_event_in list option \<Rightarrow> hub \<Rightarrow> push_resp reply \<times> hub" where
  "handle_sync_push S e rc q h =
     authorised S e rc (need ''sync'' [] ''push'')
       (\<lambda>g h1.
          case q of
            None \<Rightarrow> (Failure bad_request, h1)
          | Some evs \<Rightarrow>
              (let (os, s1) = push_all S e g evs (hb_store h1)
               in (Reply 200 (push_summary os), h1\<lparr>hb_store := s1\<rparr>))) h"

definition handle_sync_conflict_ack :: "sys \<Rightarrow> env \<Rightarrow> rctx \<Rightarrow> hub \<Rightarrow> unit reply \<times> hub" where
  "handle_sync_conflict_ack S e rc h =
     authorised S e rc (need ''sync'' [] ''write'') (\<lambda>g h1. (Failure not_implemented, h1)) h"

section \<open>The handlers run steps of the store\<close>

lemma evolves_blob_ingest:
  assumes "write_blob (sy_sha256 S) (sy_blobs_root S) e ns eid c s = (Inr path, s1)"
    and "ii_namespace i = ns" "ii_event_id i = eid"
  shows "evolves S s (snd (ingest_event e' i s1))"
proof -
  have "store_step S s1 (snd (ingest_event e' i s1))"
    by (rule step_ingest) (use write_blob_there [OF assms(1)] assms(2,3) in simp)
  then show ?thesis using evolves_step evolves_write_blob [OF assms(1)] by blast
qed

lemma push_input_ids [simp]:
  "ii_namespace (push_input S ev c path hash) = sn_namespace ev"
  "ii_event_id (push_input S ev c path hash) = sn_event_id ev"
  "ii_stream_id (push_input S ev c path hash) = sn_stream_id ev"
  by (simp_all add: push_input_def)

text \<open>A push of one event writes its blob and then ingests it, or leaves the store alone.\<close>

lemma push_one_cases:
  obtains out where "push_one S e g ev s = (out, s)" "out \<noteq> Accepted"
  | s1 where "push_one S e g ev s = (SkippedWith (BlobFailed (sn_event_id ev)), s1)"
    "\<And>c. decode_std_base64 (sn_ciphertext ev) = Some c \<Longrightarrow>
       write_blob (sy_sha256 S) (sy_blobs_root S) e (sn_namespace ev) (sn_event_id ev) c s
         = (Inl ErrBlob, s1)"
    "decode_std_base64 (sn_ciphertext ev) \<noteq> None"
  | c path s1 hash out where "decode_std_base64 (sn_ciphertext ev) = Some c"
    "write_blob (sy_sha256 S) (sy_blobs_root S) e (sn_namespace ev) (sn_event_id ev) c s
       = (Inr path, s1)"
    "push_one S e g ev s = (out, snd (ingest_event e (push_input S ev c path hash) s1))"
    "out = Accepted \<longleftrightarrow> fst (ingest_event e (push_input S ev c path hash) s1) = Inr ()"
proof (cases "sn_event_id ev = [] \<or> sn_namespace ev = [] \<or> sn_stream_id ev = []
    \<or> (sy_strict_push S \<and> sn_principal ev \<noteq> [] \<and> sn_principal ev \<noteq> idn_issued_by (gt_identifier g))
    \<or> decode_std_base64 (sn_ciphertext ev) = None")
  case True
  let ?a = "sn_event_id ev = [] \<or> sn_namespace ev = [] \<or> sn_stream_id ev = []"
  let ?b = "sy_strict_push S \<and> sn_principal ev \<noteq> [] \<and> sn_principal ev \<noteq> idn_issued_by (gt_identifier g)"
  have "push_one S e g ev s = (if ?a then Skipped else if ?b
      then SkippedWith (AttributionMismatch (sn_event_id ev))
      else SkippedWith (BadCiphertext (sn_event_id ev)), s)"
    using True by (cases ?a; cases ?b) (simp_all add: push_one_def del: disj_not1)
  then show thesis by (rule that(1)) simp
next
  case False
  then obtain c where c: "decode_std_base64 (sn_ciphertext ev) = Some c" by auto
  let ?bad = "sn_stream_type ev = ''history'' \<and> coalesce [] (pushed_claim ev) \<noteq> []
    \<and> coalesce [] (pushed_claim ev) \<noteq> pushed_recomputed S ev"
  show thesis
  proof (cases ?bad)
    case True
    then show thesis using False c that(1) by (auto simp: push_one_def Let_def)
  next
    case ok: False
    show thesis
    proof (cases rule: write_blob_cases [of "sy_sha256 S" "sy_blobs_root S" e "sn_namespace ev"
          "sn_event_id ev" c s])
      case (1 s1)
      then show thesis using False c ok that(2) by (auto simp: push_one_def Let_def)
    next
      case (2 s1)
      let ?path = "blob_path (sy_sha256 S) (sy_blobs_root S) (sn_namespace ev) (sn_event_id ev)"
      let ?hash = "if sn_stream_type ev = ''history'' then Some (pushed_recomputed S ev)
        else pushed_claim ev"
      obtain r s2 where i: "ingest_event e (push_input S ev c ?path ?hash) s1 = (r, s2)" by fastforce
      have "push_one S e g ev s = (case r of Inl err \<Rightarrow> if err = ErrAlreadyPresent then Skipped
          else SkippedWith (IngestFailed (sn_event_id ev)) | Inr _ \<Rightarrow> Accepted, s2)"
        using False c ok 2(1) i by (auto simp: push_one_def Let_def split: sum.splits)
      then show thesis using that(3) [OF c 2(1), of _ ?hash] i by (cases r) auto
    qed
  qed
qed

lemma evolves_push_one: "evolves S s (snd (push_one S e g ev s))"
proof (cases rule: push_one_cases [of S e g ev s])
  case (2 s1)
  then show ?thesis using evolves_write_blob by fastforce
next
  case (3 c path s1 hash out)
  then show ?thesis using evolves_blob_ingest by simp
qed simp

lemma evolves_push_all: "evolves S s (snd (push_all S e g evs s))"
proof (induction evs arbitrary: s)
  case (Cons ev evs)
  have "evolves S s (snd (push_all S e g evs (snd (push_one S e g ev s))))"
    using evolves_push_one Cons.IH by (rule evolves_trans)
  then show ?case by (simp add: Let_def case_prod_beta)
qed simp

lemma runs_sync_push: "runs S h (handle_sync_push S e rc q h)"
  unfolding handle_sync_push_def
  by (intro runs_intros; hypsubst?; (rule runs_self | rule runs_same, assumption
      | rule runs_store, assumption, metis evolves_push_all snd_conv))

lemma sync_reads_keep_store:
  "hb_store (snd (handle_llm_routes S e rc h)) = hb_store h"
  "hb_store (snd (handle_llm_complete S e rc h)) = hb_store h"
  "hb_store (snd (handle_sync_peers S e rc peers h)) = hb_store h"
  "hb_store (snd (handle_sync_pull S e rc since lmt h)) = hb_store h"
  "hb_store (snd (handle_sync_conflict_ack S e rc h)) = hb_store h"
  unfolding handle_llm_routes_def handle_llm_complete_def handle_sync_peers_def
    handle_sync_pull_def handle_sync_conflict_ack_def
  by (auto intro!: authorised_keeps split: sum.splits prod.splits)

end
