(* ===== verification/Bridge_Registry.thy ===== *)
theory Bridge_Registry
  imports Mesh_Prelude "HOL-Library.Char_ord"
begin

text \<open>
  The registry of bridge adapters (fabric-sdk-go/bridge/bridge.go), the inert adapter of the
  conformance suite (noop.go) and the bounded reader of upstream bodies (responsebody.go). An
  adapter is the record of its methods; the adapters that call an external service are not
  modelled, so that their \<open>ad_call\<close> stands for what the service answers to a request. A value of
  \<open>map[string]any\<close> is a JSON value.
\<close>

datatype json = JNull | JBool bool | JInt int | JStr string | JArr "json list"
  | JObj "(string \<times> json) list"

type_synonym params = "(string \<times> json) list"

record param_spec =
  ps_name :: string
  ps_type :: string
  ps_required :: bool

record operation_spec =
  os_name :: string
  os_params :: "param_spec list"
  os_side_effects :: bool

record call_request =
  rq_op :: string
  rq_params :: params
  rq_credentials :: "(string \<times> string) list"
  rq_idempotency_key :: string

datatype bridge_error = ErrUnknownOperation | ErrMissingParam | ErrInvalidParam
  | ErrMissingCredential | ErrUpstreamUnavailable | ErrAdapterNotFound | ErrAdapterNil
  | ErrAdapterInit | ErrAdapterOther

record adapter =
  ad_name :: string
  ad_version :: string
  ad_operations :: "operation_spec list"
  ad_effective_host :: "(params \<Rightarrow> string option) option"
  ad_init :: "bool option"
  ad_call :: "call_request \<Rightarrow> bridge_error + params"

section \<open>The registry\<close>

text \<open>Go's map of adapters, as an association list with one entry per name.\<close>

type_synonym registry = "(string \<times> adapter) list"

definition new_registry :: registry where
  "new_registry = []"

definition put_adapter :: "adapter \<Rightarrow> registry \<Rightarrow> registry" where
  "put_adapter a r = (ad_name a, a) # filter (\<lambda>q. fst q \<noteq> ad_name a) r"

text \<open>\<open>ad_init\<close> is the outcome of Init for an adapter with a life cycle.\<close>

definition register :: "adapter option \<Rightarrow> registry \<Rightarrow> bridge_error option \<times> registry" where
  "register ad r =
     (case ad of
        None \<Rightarrow> (Some ErrAdapterNil, r)
      | Some a \<Rightarrow>
          if ad_name a = [] then (Some ErrAdapterNil, r)
          else if ad_init a = Some False then (Some ErrAdapterInit, r)
          else (None, put_adapter a r))"

definition get_adapter :: "string \<Rightarrow> registry \<Rightarrow> adapter option" where
  "get_adapter name r = map_option snd (lookup_by fst name r)"

definition list_adapters :: "registry \<Rightarrow> adapter list" where
  "list_adapters r = sort_key ad_name (map snd r)"

record catalogue_entry =
  ce_name :: string
  ce_version :: string
  ce_operations :: "operation_spec list"
  ce_status :: string

definition catalogue :: "registry \<Rightarrow> catalogue_entry list" where
  "catalogue r =
     map (\<lambda>a. \<lparr>ce_name = ad_name a, ce_version = ad_version a, ce_operations = ad_operations a,
        ce_status = ''active''\<rparr>) (list_adapters r)"

definition registry_call :: "string \<Rightarrow> call_request \<Rightarrow> registry \<Rightarrow> bridge_error + params" where
  "registry_call name q r =
     (case get_adapter name r of None \<Rightarrow> Inl ErrAdapterNotFound | Some a \<Rightarrow> ad_call a q)"

section \<open>Helpers of the adapters\<close>

text \<open>ResolveParam at a type: \<open>as\<close> is the type assertion.\<close>

definition resolve_param ::
  "(json \<Rightarrow> 'a option) \<Rightarrow> params \<Rightarrow> string \<Rightarrow> bool \<Rightarrow> 'a \<Rightarrow> bridge_error + 'a" where
  "resolve_param as_type ps key required dflt =
     (case lookup_by fst key ps of
        None \<Rightarrow> if required then Inl ErrMissingParam else Inr dflt
      | Some kv \<Rightarrow> (case as_type (snd kv) of None \<Rightarrow> Inl ErrInvalidParam | Some x \<Rightarrow> Inr x))"

definition resolve_credential :: "(string \<times> string) list \<Rightarrow> string \<Rightarrow> bridge_error + string" where
  "resolve_credential creds key =
     (case lookup_by fst key creds of
        None \<Rightarrow> Inl ErrMissingCredential
      | Some kv \<Rightarrow> if snd kv = [] then Inl ErrMissingCredential else Inr (snd kv))"

text \<open>ReadBodyCapped on a body that arrives without a read error: what is kept, and whether it is all.\<close>

definition read_body_capped :: "bytes \<Rightarrow> int \<Rightarrow> bytes \<times> bool" where
  "read_body_capped body limit =
     (let m = (if limit \<le> 0 then 4194304 else limit);
          buf = (if wrap64 (m + 1) \<le> 0 then [] else take (nat (wrap64 (m + 1))) body)
      in if m < int (length buf) then (take (nat m) buf, False) else (buf, True))"

section \<open>The inert adapter\<close>

definition noop_name :: string where
  "noop_name = ''conformance-test''"

definition noop_operations :: "operation_spec list" where
  "noop_operations =
     [\<lparr>os_name = ''echo'',
       os_params = [\<lparr>ps_name = ''message'', ps_type = ''string'', ps_required = False\<rparr>],
       os_side_effects = False\<rparr>,
      \<lparr>os_name = ''transfer'',
       os_params = [\<lparr>ps_name = ''amount'', ps_type = ''integer'', ps_required = False\<rparr>,
         \<lparr>ps_name = ''currency'', ps_type = ''string'', ps_required = False\<rparr>,
         \<lparr>ps_name = ''domain'', ps_type = ''string'', ps_required = False\<rparr>],
       os_side_effects = False\<rparr>,
      \<lparr>os_name = ''fetch'', os_params = [], os_side_effects = False\<rparr>]"

text \<open>A call whose context is not cancelled.\<close>

definition noop_call :: "call_request \<Rightarrow> bridge_error + params" where
  "noop_call q =
     (if rq_op q \<in> {''echo'', ''transfer'', ''fetch''}
      then Inr [(''adapter'', JStr noop_name), (''operation'', JStr (rq_op q)),
                (''echo'', JObj (rq_params q))]
      else Inl ErrUnknownOperation)"

definition noop_adapter :: adapter where
  "noop_adapter = \<lparr>ad_name = noop_name, ad_version = ''1.0.0'', ad_operations = noop_operations,
     ad_effective_host = None, ad_init = None, ad_call = noop_call\<rparr>"

section \<open>What the registry keeps\<close>

definition registry_ok :: "registry \<Rightarrow> bool" where
  "registry_ok r = (distinct (map fst r) \<and> list_all (\<lambda>q. fst q = ad_name (snd q) \<and> fst q \<noteq> []) r)"

lemma registry_ok_new: "registry_ok new_registry"
  by (simp add: registry_ok_def new_registry_def)

lemma registry_ok_register: "registry_ok r \<Longrightarrow> registry_ok (snd (register ad r))"
  by (auto simp: registry_ok_def register_def put_adapter_def list_all_iff distinct_map_filter
      split: option.splits)

lemma get_after_register:
  "register (Some a) r = (None, r') \<Longrightarrow>
     get_adapter name r' = (if name = ad_name a then Some a else get_adapter name r)"
  by (auto simp: register_def put_adapter_def get_adapter_def lookup_by_filter_other split: if_splits)

lemma get_adapter_name:
  "registry_ok r \<Longrightarrow> get_adapter name r = Some a \<Longrightarrow> ad_name a = name"
  by (auto simp: get_adapter_def registry_ok_def list_all_iff dest!: lookup_by_SomeD)

lemma list_adapters_sorted: "sorted (map ad_name (list_adapters r))"
  by (simp add: list_adapters_def)

lemma set_list_adapters: "registry_ok r \<Longrightarrow> a \<in> set (list_adapters r) \<longleftrightarrow> get_adapter (ad_name a) r = Some a"
proof
  assume ok: "registry_ok r" and "a \<in> set (list_adapters r)"
  then obtain n where "(n, a) \<in> set r" by (auto simp: list_adapters_def)
  then have "lookup_by fst n r = Some (n, a)" "n = ad_name a"
    using ok lookup_by_unique [of fst r "(n, a)"] by (auto simp: registry_ok_def list_all_iff)
  then show "get_adapter (ad_name a) r = Some a" by (simp add: get_adapter_def)
next
  assume "get_adapter (ad_name a) r = Some a"
  then show "a \<in> set (list_adapters r)"
    by (force simp: get_adapter_def list_adapters_def dest!: lookup_by_SomeD)
qed

lemma read_body_capped_bound:
  assumes "0 < limit" and "limit < 2 ^ 63 - 1"
  shows "read_body_capped body limit =
    (if int (length body) \<le> limit then (body, True) else (take (nat limit) body, False))"
proof -
  have "wrap64 (limit + 1) = limit + 1" using assms by (intro wrap64_id) simp_all
  then show ?thesis using assms by (auto simp: read_body_capped_def Let_def min_def)
qed

end
