(* ===== verification/Bridge_Handlers.thy ===== *)
theory Bridge_Handlers
  imports Sync_Handlers Bridge_Registry
begin

text \<open>
  Bridge calls and their approval (nakli-hub/internal/server/handlers_stub.go). The registry is
  \<open>None\<close> when the Hub has no adapters installed.
\<close>

definition handle_bridge_adapters ::
  "sys \<Rightarrow> env \<Rightarrow> rctx \<Rightarrow> registry option \<Rightarrow> hub \<Rightarrow> catalogue_entry list reply \<times> hub" where
  "handle_bridge_adapters S e rc reg h =
     authorised S e rc (need ''bridge'' [] ''read'')
       (\<lambda>g h1. (Reply 200 (case reg of None \<Rightarrow> [] | Some r \<Rightarrow> catalogue r), h1)) h"

record bridge_call_req =
  bq_adapter :: string
  bq_operation :: string
  bq_domain :: string
  bq_amount :: int
  bq_currency :: string
  bq_params :: "params option"
  bq_credentials :: "(string \<times> string) list"

datatype bridge_resp = BridgeResult string string params | BridgePending string

text \<open>The outbound host a call is judged by: \<open>Inl\<close> is a refusal before any caveat is looked at.\<close>

definition effective_domain :: "registry option \<Rightarrow> bridge_call_req \<Rightarrow> http_err + string" where
  "effective_domain reg r =
     (case Option.bind reg (get_adapter (bq_adapter r)) of
        None \<Rightarrow> Inr (bq_domain r)
      | Some a \<Rightarrow>
          (case ad_effective_host a of
             None \<Rightarrow> Inr (bq_domain r)
           | Some eff \<Rightarrow>
               (case eff (coalesce [] (bq_params r)) of
                  None \<Rightarrow> Inl bad_request
                | Some derived \<Rightarrow>
                    if derived = [] then Inr (bq_domain r)
                    else if bq_domain r \<noteq> [] \<and> \<not> equal_fold (bq_domain r) derived
                    then Inl bad_request
                    else Inr derived)))"

definition bridge_requirement :: "bridge_call_req \<Rightarrow> string \<Rightarrow> requirement" where
  "bridge_requirement r host =
     \<lparr>rq_primitive = ''bridge'', rq_namespace = [], rq_operation = ''call'',
      rq_is_delegation = False, rq_is_bridge = True, rq_domain = host, rq_amount = bq_amount r,
      rq_currency = bq_currency r\<rparr>"

definition bridge_http_err :: "bridge_error \<Rightarrow> http_err" where
  "bridge_http_err err =
     (if err = ErrAdapterNotFound then not_found
      else if err = ErrUnknownOperation \<or> err = ErrMissingParam \<or> err = ErrMissingCredential
              \<or> err = ErrInvalidParam
      then bad_request
      else HttpErr 502 ''unavailable'' True)"

definition bridge_dispatch ::
  "registry option \<Rightarrow> rctx \<Rightarrow> bridge_call_req \<Rightarrow> bridge_resp reply" where
  "bridge_dispatch reg rc r =
     (case reg of
        None \<Rightarrow> Failure not_implemented
      | Some rg \<Rightarrow>
          (case registry_call (bq_adapter r)
                  \<lparr>rq_op = bq_operation r, rq_params = coalesce [] (bq_params r),
                   rq_credentials = bq_credentials r,
                   rq_idempotency_key = rc_idempotency_key rc\<rparr> rg of
             Inl err \<Rightarrow> Failure (bridge_http_err err)
           | Inr res \<Rightarrow> Reply 200 (BridgeResult (bq_adapter r) (bq_operation r) res)))"

text \<open>\<open>sy_json\<close> of the params is a parameter, as the other JSON encodings are.\<close>

definition handle_bridge_call ::
  "(params \<Rightarrow> string) \<Rightarrow> sys \<Rightarrow> env \<Rightarrow> rctx \<Rightarrow> registry option \<Rightarrow> bridge_call_req option \<Rightarrow> hub \<Rightarrow>
     bridge_resp reply \<times> hub" where
  "handle_bridge_call json_params S e rc reg q h =
     (case q of
        None \<Rightarrow> (Failure bad_request, h)
      | Some r \<Rightarrow>
          if rc_idempotency_key rc = [] then (Failure bad_request, h)
          else case effective_domain reg r of
            Inl err \<Rightarrow> (Failure err, h)
          | Inr host \<Rightarrow>
              (case check_auth S e rc (bridge_requirement r host) h of
                 (Allowed g, h1) \<Rightarrow> (bridge_dispatch reg rc r, h1)
               | (Refused err, h1) \<Rightarrow> (Failure err, h1)
               | (NeedsApproval g, h1) \<Rightarrow>
                   (case insert_pending_bridge e
                        \<lparr>pc_id = new_ulid e 0, pc_grant = idn_grant_id (gt_identifier g),
                         pc_adapter = bq_adapter r, pc_operation = bq_operation r,
                         pc_params = (case bq_params r of None \<Rightarrow> ''{}'' | Some p \<Rightarrow> json_params p),
                         pc_requested_by = idn_issued_by (gt_identifier g), pc_requested_at = 0,
                         pc_approved_at = None, pc_rejected_at = None, pc_rejected_reason = []\<rparr>
                        (hb_store h1) of
                      (Inl _, s1) \<Rightarrow> (Failure unavailable, h1\<lparr>hb_store := s1\<rparr>)
                    | (Inr _, s1) \<Rightarrow>
                        (Reply 202 (BridgePending (new_ulid e 0)), h1\<lparr>hb_store := s1\<rparr>))))"

definition handle_bridge_approve ::
  "sys \<Rightarrow> env \<Rightarrow> rctx \<Rightarrow> string option \<Rightarrow> hub \<Rightarrow> unit reply \<times> hub" where
  "handle_bridge_approve S e rc q h =
     (case q of
        None \<Rightarrow> (Failure bad_request, h)
      | Some pid \<Rightarrow>
          if pid = [] then (Failure bad_request, h)
          else authorised S e rc (need ''bridge'' [] ''approve'')
            (\<lambda>g h1.
               let t = rh_principal_type (rc_headers rc)
               in if t \<noteq> [] \<and> t \<noteq> ''human'' then (Failure caveat_unmet, h1)
                  else case get_pending_bridge e pid (hb_store h1) of
                    Inl _ \<Rightarrow> (Failure not_found, h1)
                  | Inr _ \<Rightarrow>
                      (Reply 200 (), h1\<lparr>hb_store := approve_pending_bridge e pid (hb_store h1)\<rparr>)) h)"

datatype pending_status = Pending | Approved | Rejected

definition pending_status_of :: "pending_call \<Rightarrow> pending_status" where
  "pending_status_of p =
     (if pc_approved_at p \<noteq> None then Approved
      else if pc_rejected_at p \<noteq> None then Rejected else Pending)"

definition handle_bridge_pending ::
  "sys \<Rightarrow> env \<Rightarrow> rctx \<Rightarrow> string \<Rightarrow> hub \<Rightarrow> (string \<times> pending_status \<times> string \<times> string) reply \<times> hub" where
  "handle_bridge_pending S e rc pid h =
     (if pid = [] then (Failure bad_request, h)
      else authorised S e rc (need ''bridge'' [] ''read'')
        (\<lambda>g h1.
           case get_pending_bridge e pid (hb_store h1) of
             Inl _ \<Rightarrow> (Failure not_found, h1)
           | Inr p \<Rightarrow>
               (Reply 200 (pc_id p, pending_status_of p, pc_adapter p, pc_operation p), h1)) h)"

section \<open>The handlers run steps of the store\<close>

lemma runs_bridge_call: "runs S h (handle_bridge_call json_params S e rc reg q h)"
proof (cases q)
  case (Some r)
  show ?thesis
  proof (cases "effective_domain reg r")
    case (Inr host)
    show ?thesis
    proof (cases rule: check_auth_cases [of S e rc "bridge_requirement r host" h])
      case (3 g ce v)
      obtain res s1 where ins: "insert_pending_bridge e
          \<lparr>pc_id = new_ulid e 0, pc_grant = idn_grant_id (gt_identifier g),
           pc_adapter = bq_adapter r, pc_operation = bq_operation r,
           pc_params = (case bq_params r of None \<Rightarrow> ''{}'' | Some p \<Rightarrow> json_params p),
           pc_requested_by = idn_issued_by (gt_identifier g), pc_requested_at = 0,
           pc_approved_at = None, pc_rejected_at = None, pc_rejected_reason = []\<rparr> (hb_store h)
          = (res, s1)" by fastforce
      then have "evolves S (hb_store h) s1" by (rule evolves_snd) (rule step_insert_pending)
      then show ?thesis
        using Some Inr 3(1) ins by (cases res) (simp_all add: handle_bridge_call_def runs_def)
    qed (use Some Inr in \<open>simp_all add: handle_bridge_call_def runs_def\<close>)
  qed (use Some in \<open>simp add: handle_bridge_call_def runs_def\<close>)
qed (simp add: handle_bridge_call_def runs_def)

lemma runs_bridge_approve: "runs S h (handle_bridge_approve S e rc q h)"
  unfolding handle_bridge_approve_def
  by (intro runs_intros; hypsubst?; (rule runs_self | rule runs_same, assumption
      | rule runs_store, assumption, rule evolves_one, rule step_approve_pending))

lemma bridge_reads_keep_store:
  "hb_store (snd (handle_bridge_adapters S e rc reg h)) = hb_store h"
  "hb_store (snd (handle_bridge_pending S e rc pid h)) = hb_store h"
  unfolding handle_bridge_adapters_def handle_bridge_pending_def
  by (auto intro!: authorised_keeps split: sum.splits)

end
