(* ===== verification/Go_Url.thy ===== *)
theory Go_Url
  imports Mesh_Prelude
begin

text \<open>
  What the code uses of Go's net/url and encoding/hex: escaping, percent decoding, and parsing of
  absolute URLs with an authority. \<open>parse_url\<close> gives the host, the decoded path and the query
  values; a user part is cut off the authority.
\<close>

definition upper_hex_digit :: "nat \<Rightarrow> char" where
  "upper_hex_digit n = ''0123456789ABCDEF'' ! n"

text \<open>fmt.Fprintf (\"%%%02X\").\<close>

definition percent_byte :: "char \<Rightarrow> string" where
  "percent_byte c =
     [CHR ''%'', upper_hex_digit (char_code c div 16), upper_hex_digit (char_code c mod 16)]"

definition is_alpha_num :: "char \<Rightarrow> bool" where
  "is_alpha_num c =
     (let n = char_code c
      in 65 \<le> n \<and> n \<le> 90 \<or> 97 \<le> n \<and> n \<le> 122 \<or> 48 \<le> n \<and> n \<le> 57)"

definition unreserved :: "char \<Rightarrow> bool" where
  "unreserved c = (is_alpha_num c \<or> c \<in> set ''-_.~'')"

definition escape_with :: "(char \<Rightarrow> bool) \<Rightarrow> string \<Rightarrow> string" where
  "escape_with keep s = concat (map (\<lambda>c. if keep c then [c] else percent_byte c) s)"

text \<open>url.PathEscape and url.QueryEscape.\<close>

definition path_escape :: "string \<Rightarrow> string" where
  "path_escape s = escape_with (\<lambda>c. unreserved c \<or> c \<in> set ''$&+=:@'') s"

definition query_escape :: "string \<Rightarrow> string" where
  "query_escape s =
     concat (map (\<lambda>c. if unreserved c then [c] else if c = CHR '' '' then ''+'' else percent_byte c) s)"

definition hex_val :: "char \<Rightarrow> nat option" where
  "hex_val c =
     (let n = char_code c
      in if 48 \<le> n \<and> n \<le> 57 then Some (n - 48)
         else if 97 \<le> n \<and> n \<le> 102 then Some (n - 87)
         else if 65 \<le> n \<and> n \<le> 70 then Some (n - 55)
         else None)"

text \<open>Percent decoding; \<open>pl\<close> reads a plus sign as a space.\<close>

fun unescape :: "bool \<Rightarrow> string \<Rightarrow> string option" where
  "unescape pl [] = Some []"
| "unescape pl (c # cs) =
     (if c = CHR ''%'' then
        (case cs of
           a # b # rest \<Rightarrow>
             (case (hex_val a, hex_val b) of
                (Some x, Some y) \<Rightarrow> map_option (\<lambda>r. char_of (16 * x + y) # r) (unescape pl rest)
              | _ \<Rightarrow> None)
         | _ \<Rightarrow> None)
      else map_option (\<lambda>r. (if pl \<and> c = CHR ''+'' then CHR '' '' else c) # r) (unescape pl cs))"

type_synonym url_values = "(string \<times> string list) list"

record url =
  ur_host :: string
  ur_path :: string
  ur_query :: url_values

definition add_value :: "string \<Rightarrow> string \<Rightarrow> url_values \<Rightarrow> url_values" where
  "add_value k v q =
     (if k \<in> fst ` set q then map (\<lambda>(k', vs). (k', if k' = k then vs @ [v] else vs)) q
      else q @ [(k, [v])])"

text \<open>url.ParseQuery: malformed pairs are dropped.\<close>

fun parse_pairs :: "string list \<Rightarrow> url_values \<Rightarrow> url_values" where
  "parse_pairs [] q = q"
| "parse_pairs (p # ps) q =
     (if p = [] \<or> CHR '';'' \<in> set p then parse_pairs ps q
      else
        let (k, v) = (case split_once ''='' p of None \<Rightarrow> (p, []) | Some kv \<Rightarrow> kv)
        in case (unescape True k, unescape True v) of
             (Some k', Some v') \<Rightarrow> parse_pairs ps (add_value k' v' q)
           | _ \<Rightarrow> parse_pairs ps q)"

definition parse_query :: "string \<Rightarrow> url_values" where
  "parse_query s = parse_pairs (split_char CHR ''&'' s) []"

definition cut :: "string \<Rightarrow> string \<Rightarrow> string \<times> string" where
  "cut sep s = (case split_once sep s of None \<Rightarrow> (s, []) | Some ab \<Rightarrow> ab)"

definition host_char :: "char \<Rightarrow> bool" where
  "host_char c = (unreserved c \<or> 128 \<le> char_code c \<or> c \<in> set ''!$&()*+,;=:[]<>'' \<or> c = CHR 0x27
     \<or> c = CHR 0x22)"

definition after_last_at :: "string \<Rightarrow> string" where
  "after_last_at s = rev (takeWhile (\<lambda>c. c \<noteq> CHR ''@'') (rev s))"

definition parse_url :: "string \<Rightarrow> url option" where
  "parse_url s =
     (if list_ex (\<lambda>c. char_code c < 32 \<or> char_code c = 127) s then None
      else case split_once ''://'' (fst (cut ''#'' s)) of
        None \<Rightarrow> None
      | Some (scheme, rest) \<Rightarrow>
          let (hp, q) = cut ''?'' rest;
              authority = takeWhile (\<lambda>c. c \<noteq> CHR ''/'') hp;
              host = after_last_at authority
          in if \<not> list_all host_char host then None
             else map_option (\<lambda>p. \<lparr>ur_host = host, ur_path = p, ur_query = parse_query q\<rparr>)
                    (unescape False (dropWhile (\<lambda>c. c \<noteq> CHR ''/'') hp)))"

section \<open>Decoding undoes escaping\<close>

lemma upper_hex_val:
  assumes "n < 16"
  shows "hex_val (upper_hex_digit n) = Some n"
proof -
  have all: "list_all (\<lambda>n. hex_val (upper_hex_digit n) = Some n) [0..<16]"
    by (simp add: upt_conv_Cons upper_hex_digit_def hex_val_def char_code_def)
  have "n \<in> set [0..<16]" using assms by simp
  then show ?thesis using all unfolding list_all_iff by blast
qed

lemma char_code_bound: "char_code c < 256"
  using of_char_mod_256 [of c] by (metis char_code_def mod_less_divisor zero_less_numeral)

lemma char_of_code [simp]: "char_of (char_code c) = c"
  by (simp add: char_code_def)

lemma unescape_percent: "unescape pl (percent_byte c @ s) = map_option (\<lambda>r. c # r) (unescape pl s)"
proof -
  have "char_code c div 16 < 16" using char_code_bound [of c] by simp
  then have "hex_val (upper_hex_digit (char_code c div 16)) = Some (char_code c div 16)"
    by (rule upper_hex_val)
  moreover have "hex_val (upper_hex_digit (char_code c mod 16)) = Some (char_code c mod 16)"
    by (rule upper_hex_val) simp
  ultimately show ?thesis by (simp add: percent_byte_def)
qed

lemma unescape_escape:
  assumes "\<not> keep CHR ''%''" and "pl \<Longrightarrow> \<not> keep CHR ''+''"
  shows "unescape pl (escape_with keep s) = Some s"
proof (induction s)
  case (Cons c s)
  show ?case
  proof (cases "keep c")
    case True
    then have "c \<noteq> CHR ''%''" "\<not> (pl \<and> c = CHR ''+'')" using assms by auto
    then show ?thesis using True Cons by (simp add: escape_with_def)
  next
    case False
    then have "escape_with keep (c # s) = percent_byte c @ escape_with keep s"
      by (simp add: escape_with_def)
    then show ?thesis using Cons unescape_percent by simp
  qed
qed (simp add: escape_with_def)

lemma unreserved_not: "\<not> unreserved CHR ''%''" "\<not> unreserved CHR ''+''" "\<not> unreserved CHR ''/''"
  "\<not> unreserved CHR ''&''" "\<not> unreserved CHR ''=''"
  by (simp_all add: unreserved_def is_alpha_num_def char_code_def)

lemma unescape_path:
  assumes "\<not> keep CHR ''%''"
  shows "unescape False (escape_with keep s) = Some s"
  by (rule unescape_escape) (use assms in simp_all)

lemma escape_with_inject:
  assumes "\<not> keep CHR ''%''" and "escape_with keep s = escape_with keep t"
  shows "s = t"
proof -
  have "Some s = unescape False (escape_with keep t)"
    using unescape_path [of keep s, OF assms(1)] assms(2) by simp
  also have "\<dots> = Some t" by (rule unescape_path) (rule assms(1))
  finally show ?thesis by (simp only: option.inject)
qed

lemma upper_hex_alpha_num:
  assumes "n < 16"
  shows "is_alpha_num (upper_hex_digit n)"
proof -
  have all: "list_all (\<lambda>n. is_alpha_num (upper_hex_digit n)) [0..<16]"
    by (simp add: upt_conv_Cons upper_hex_digit_def is_alpha_num_def char_code_def)
  have "n \<in> set [0..<16]" using assms by simp
  then show ?thesis using all unfolding list_all_iff by blast
qed

lemma set_escape_with:
  assumes "c \<in> set (escape_with keep s)"
  shows "keep c \<or> c = CHR ''%'' \<or> is_alpha_num c"
proof -
  have "char_code d div 16 < 16" for d using char_code_bound [of d] by simp
  moreover have "char_code d mod 16 < 16" for d by simp
  ultimately show ?thesis
    using assms by (auto simp: escape_with_def percent_byte_def intro: upper_hex_alpha_num split: if_splits)
qed

end
