(* ===== verification/SigV4.thy ===== *)
theory SigV4
  imports Go_Url Go_Time Go_Path "HOL-Library.Product_Lexorder" "HOL-Library.Multiset"
begin

text \<open>
  AWS Signature Version 4 (nakli-hub/internal/crate/sigv4.go): canonicalisation, the signing key,
  the Authorization header, and the endpoint URLs of the bucket providers. SHA-256 is a parameter;
  HMAC is built from it as crypto/hmac does. Go's maps of headers and of query values have no
  order; the model's lists stand for one iteration order, and the section at the end shows that
  the order does not matter. Header names are kept in lower case.
\<close>

definition unsigned_payload :: string where
  "unsigned_payload = ''UNSIGNED-PAYLOAD''"

definition empty_body_sha256 :: string where
  "empty_body_sha256 = ''e3b0c44298fc1c149afbf4c8996fb92427ae41e4649b934ca495991b7852b855''"

definition sig_algorithm :: string where
  "sig_algorithm = ''AWS4-HMAC-SHA256''"

definition uri_encode_segment :: "string \<Rightarrow> string" where
  "uri_encode_segment s = escape_with unreserved s"

definition canonical_path :: "string \<Rightarrow> string" where
  "canonical_path p =
     (if p = [] then ''/''
      else join_with ''/'' (map uri_encode_segment (split_char CHR ''/'' p)))"

definition query_pairs :: "url_values \<Rightarrow> (string \<times> string) list" where
  "query_pairs q =
     concat (map (\<lambda>(k, vs). if vs = [] then [(uri_encode_segment k, [])]
        else map (\<lambda>v. (uri_encode_segment k, uri_encode_segment v)) vs) q)"

definition canonical_query :: "url_values \<Rightarrow> string" where
  "canonical_query q = join_with ''&'' (map (\<lambda>(k, v). k @ ''='' @ v) (sort (query_pairs q)))"

fun collapse_runs :: "bool \<Rightarrow> string \<Rightarrow> string" where
  "collapse_runs in_space [] = []"
| "collapse_runs in_space (c # cs) =
     (if c = CHR '' '' \<or> c = CHR 0x09
      then (if in_space then collapse_runs True cs else CHR '' '' # collapse_runs True cs)
      else c # collapse_runs False cs)"

definition collapse_ws :: "string \<Rightarrow> string" where
  "collapse_ws s = collapse_runs False (trim_space s)"

definition header_pairs :: "url_values \<Rightarrow> (string \<times> string) list" where
  "header_pairs h = map (\<lambda>(k, vs). (to_lower k, collapse_ws (join_with '','' vs))) h"

definition canonical_headers :: "url_values \<Rightarrow> string \<times> string" where
  "canonical_headers h =
     (let ps = sort_key fst (header_pairs h)
      in (concat (map (\<lambda>(k, v). k @ '':'' @ v @ [CHR 0x0A]) ps), join_with '';'' (map fst ps)))"

section \<open>Keys\<close>

definition xor_byte :: "nat \<Rightarrow> char \<Rightarrow> char" where
  "xor_byte n c = char_of (Bit_Operations.xor (char_code c) n)"

definition hmac_bytes :: "(bytes \<Rightarrow> bytes) \<Rightarrow> bytes \<Rightarrow> bytes \<Rightarrow> bytes" where
  "hmac_bytes sha key data =
     (let k0 = (if 64 < length key then sha key else key);
          k = k0 @ replicate (64 - length k0) (char_of (0::nat))
      in sha (map (xor_byte 92) k @ sha (map (xor_byte 54) k @ data)))"

definition sha256_hex :: "(bytes \<Rightarrow> bytes) \<Rightarrow> bytes \<Rightarrow> string" where
  "sha256_hex sha b = hex_encode (sha b)"

text \<open>The layout 20060102T150405Z.\<close>

definition amz_date :: "time \<Rightarrow> string" where
  "amz_date t =
     (let c = civil_of t
      in year_text (c_year c) @ pad_digits 2 (c_month c) @ pad_digits 2 (c_day c) @ ''T''
         @ pad_digits 2 (c_hour c) @ pad_digits 2 (c_min c) @ pad_digits 2 (c_sec c) @ ''Z'')"

record sign_opts =
  so_method :: string
  so_url :: string
  so_headers :: url_values
  so_payload_hash :: string
  so_region :: string
  so_service :: string
  so_access_key :: string
  so_secret_key :: bytes
  so_date :: time

definition set_header :: "string \<Rightarrow> string \<Rightarrow> url_values \<Rightarrow> url_values" where
  "set_header k v h = filter (\<lambda>q. fst q \<noteq> k) h @ [(k, [v])]"

definition merged_headers :: "sign_opts \<Rightarrow> url \<Rightarrow> string \<Rightarrow> string \<Rightarrow> url_values" where
  "merged_headers so u date payload_hash =
     set_header ''x-amz-content-sha256'' payload_hash
       (set_header ''x-amz-date'' date
         (set_header ''host'' (ur_host u) (map (\<lambda>(k, vs). (to_lower k, vs)) (so_headers so))))"

definition signing_key :: "(bytes \<Rightarrow> bytes) \<Rightarrow> bytes \<Rightarrow> string \<Rightarrow> string \<Rightarrow> string \<Rightarrow> bytes" where
  "signing_key sha secret stamp region service =
     hmac_bytes sha (hmac_bytes sha (hmac_bytes sha (hmac_bytes sha (''AWS4'' @ secret) stamp)
       region) service) ''aws4_request''"

definition canonical_request :: "string \<Rightarrow> url \<Rightarrow> url_values \<Rightarrow> string \<Rightarrow> string" where
  "canonical_request verb u headers payload_hash =
     (let (hs, names) = canonical_headers headers
      in join_with [CHR 0x0A] [verb, canonical_path (ur_path u), canonical_query (ur_query u), hs,
           names, payload_hash])"

text \<open>\<open>now\<close> is the clock that SignRequest reads when the options hold no date.\<close>

definition sign_request :: "(bytes \<Rightarrow> bytes) \<Rightarrow> time \<Rightarrow> sign_opts \<Rightarrow> url_values option" where
  "sign_request sha now so =
     (if so_url so = [] \<or> so_region so = [] \<or> so_access_key so = [] \<or> so_secret_key so = []
      then None
      else case parse_url (so_url so) of
        None \<Rightarrow> None
      | Some u \<Rightarrow>
          let m = to_upper (so_method so); verb = (if m = [] then ''GET'' else m);
              service = (if so_service so = [] then ''s3'' else so_service so);
              date = amz_date (if so_date so = 0 then now else so_date so); stamp = take 8 date;
              ph = (if so_payload_hash so = [] then empty_body_sha256 else so_payload_hash so);
              headers = merged_headers so u date ph;
              cred_scope = stamp @ ''/'' @ so_region so @ ''/'' @ service @ ''/aws4_request'';
              to_sign = join_with [CHR 0x0A] [sig_algorithm, date, cred_scope,
                sha256_hex sha (canonical_request verb u headers ph)];
              signature = hex_encode (hmac_bytes sha
                (signing_key sha (so_secret_key so) stamp (so_region so) service) to_sign);
              auth = sig_algorithm @ '' Credential='' @ so_access_key so @ ''/'' @ cred_scope
                @ '', SignedHeaders='' @ snd (canonical_headers headers)
                @ '', Signature='' @ signature
          in Some (set_header ''authorization'' auth headers))"

section \<open>Endpoints\<close>

definition endpoint_r2 :: "string \<Rightarrow> string \<Rightarrow> string" where
  "endpoint_r2 account bucket =
     ''https://'' @ account @ ''.r2.cloudflarestorage.com/'' @ path_escape bucket @ ''/''"

definition endpoint_hetzner :: "string \<Rightarrow> string \<Rightarrow> string" where
  "endpoint_hetzner datacenter bucket =
     ''https://'' @ path_escape bucket @ ''.'' @ datacenter @ ''.your-objectstorage.com/''"

definition endpoint_b2 :: "string \<Rightarrow> string \<Rightarrow> string" where
  "endpoint_b2 region bucket =
     ''https://'' @ path_escape bucket @ ''.s3.'' @ region @ ''.backblazeb2.com/''"

definition endpoint_aws :: "string \<Rightarrow> string \<Rightarrow> string" where
  "endpoint_aws region bucket =
     ''https://'' @ path_escape bucket @ ''.s3.'' @ region @ ''.amazonaws.com/''"

definition endpoint_for_provider :: "string \<Rightarrow> string \<Rightarrow> string \<Rightarrow> string \<Rightarrow> string option" where
  "endpoint_for_provider provider account region bucket =
     (let p = to_lower provider
      in if p = ''r2'' then Some (endpoint_r2 account bucket)
         else if p = ''hetzner'' then Some (endpoint_hetzner region bucket)
         else if p = ''b2'' then Some (endpoint_b2 region bucket)
         else if p = ''aws-s3'' \<or> p = ''aws'' then Some (endpoint_aws region bucket)
         else None)"

section \<open>Canonical forms do not depend on the iteration order\<close>

lemma sort_mset_eq: "mset xs = mset ys \<Longrightarrow> sort xs = sort (ys :: 'a::linorder list)"
  by (metis mset_sort properties_for_sort sorted_sort)

lemma canonical_query_order: "mset q = mset q' \<Longrightarrow> canonical_query q = canonical_query q'"
proof -
  assume q: "mset q = mset q'"
  have "mset (concat (map f xs)) = sum_mset (image_mset (\<lambda>x. mset (f x)) (mset xs))"
    for f :: "string \<times> string list \<Rightarrow> (string \<times> string) list" and xs
    by (induction xs) auto
  then have "mset (query_pairs q) = mset (query_pairs q')" by (simp only: query_pairs_def q)
  then have "sort (query_pairs q) = sort (query_pairs q')" by (rule sort_mset_eq)
  then show ?thesis by (simp only: canonical_query_def)
qed

lemma sort_key_fst_unique:
  assumes "mset ps = mset qs" and "distinct (map fst ps)"
  shows "sort_key fst ps = sort_key fst (qs :: (string \<times> 'b) list)"
proof -
  have "map fst (sort_key fst ps) = sort (map fst ps)" for ps :: "(string \<times> 'b) list"
    by (metis (no_types) mset_map mset_sort properties_for_sort sorted_sort_key)
  have d: "distinct (map fst (sort_key fst ps))" "distinct (map fst (sort_key fst qs))"
    using assms by (metis distinct_sort mset_eq_imp_distinct_iff mset_map mset_sort)+
  show ?thesis
  proof (rule map_sorted_distinct_set_unique [of fst])
    show "inj_on fst (set (sort_key fst ps) \<union> set (sort_key fst qs))"
      using assms by (metis distinct_map mset_eq_setD set_sort sup.idem)
    show "sorted (map fst (sort_key fst ps))" "sorted (map fst (sort_key fst qs))" by simp_all
    show "distinct (map fst (sort_key fst ps))" "distinct (map fst (sort_key fst qs))" by (fact d)+
    show "set (sort_key fst ps) = set (sort_key fst qs)" using assms(1) by (metis mset_eq_setD set_sort)
  qed
qed

lemma canonical_headers_order:
  assumes "mset h = mset h'" and "distinct (map (\<lambda>q. to_lower (fst q)) h)"
  shows "canonical_headers h = canonical_headers h'"
proof -
  have "mset (header_pairs h) = mset (header_pairs h')"
    using assms(1) by (simp add: header_pairs_def)
  moreover have "map fst (header_pairs h) = map (\<lambda>q. to_lower (fst q)) h"
    by (simp add: header_pairs_def case_prod_beta)
  ultimately have "sort_key fst (header_pairs h) = sort_key fst (header_pairs h')"
    using assms(2) sort_key_fst_unique by metis
  then show ?thesis by (simp add: canonical_headers_def)
qed

end
