(* ===== verification/Bucket_Handlers.thy ===== *)
theory Bucket_Handlers
  imports Pairing_Handlers SigV4
begin

text \<open>
  The bucket proxy (nakli-hub/internal/server/handlers_crate_bucket.go): registration of a bucket
  with its secret sealed, its metadata, and the object and list requests the Hub signs and sends on.
  The provider is a function from the signed request to its answer, \<open>None\<close> when the call fails; the
  bodies that the code streams are byte strings.
\<close>

definition allowed_providers :: "string list" where
  "allowed_providers = [''r2'', ''hetzner'', ''b2'', ''aws-s3'']"

record register_req =
  gq_provider :: string
  gq_account_id :: string
  gq_region :: string
  gq_bucket_name :: string
  gq_access_key :: string
  gq_secret_key :: string
  gq_endpoint_url :: string

text \<open>The provider, region and endpoint that a registration ends up with.\<close>

definition register_target :: "register_req \<Rightarrow> http_err + (string \<times> string \<times> string)" where
  "register_target r =
     (let provider = to_lower (trim_space (gq_provider r))
      in if provider \<notin> set allowed_providers then Inl bad_request
         else if gq_bucket_name r = [] \<or> gq_access_key r = [] \<or> gq_secret_key r = []
         then Inl bad_request
         else if provider = ''r2'' \<and> gq_account_id r = [] then Inl bad_request
         else if gq_region r = [] \<and> provider \<noteq> ''r2'' then Inl bad_request
         else
           let region = (if gq_region r = [] then ''auto'' else gq_region r)
           in case endpoint_for_provider provider (gq_account_id r) region (gq_bucket_name r) of
                None \<Rightarrow> Inl bad_request
              | Some endpoint \<Rightarrow> Inr (provider, region, endpoint))"

definition handle_bucket_register ::
  "sys \<Rightarrow> env \<Rightarrow> rctx \<Rightarrow> register_req option \<Rightarrow> hub \<Rightarrow> string reply \<times> hub" where
  "handle_bucket_register S e rc q h =
     authorised S e rc (need ''identity'' [] ''pair'')
       (\<lambda>g h1.
          case q of
            None \<Rightarrow> (Failure bad_request, h1)
          | Some r \<Rightarrow>
              (case register_target r of
                 Inl err \<Rightarrow> (Failure err, h1)
               | Inr (provider, region, endpoint) \<Rightarrow>
                   let bid = ''bk_'' @ new_ulid e 0
                   in case derive_bucket_creds_key (sy_aead S) (sy_root_key S) of
                        Inl _ \<Rightarrow> (Failure unavailable, h1)
                      | Inr key \<Rightarrow>
                          (case seal_secret (sy_aead S) e 0 key (gq_secret_key r) bid of
                             Inl _ \<Rightarrow> (Failure unavailable, h1)
                           | Inr (sealed, nonce) \<Rightarrow>
                               (case create_crate_bucket e
                                    \<lparr>bk_id = bid, bk_provider = provider,
                                     bk_account_id = gq_account_id r, bk_region = region,
                                     bk_bucket_name = gq_bucket_name r, bk_endpoint_url = endpoint,
                                     bk_access_key_id = gq_access_key r,
                                     bk_secret_sealed = sealed, bk_nonce = nonce,
                                     bk_registered_by = idn_issued_by (gt_identifier g),
                                     bk_created_at = en_now e, bk_last_used_at = None\<rparr>
                                    (hb_store h1) of
                                  (Inl _, s1) \<Rightarrow> (Failure unavailable, h1\<lparr>hb_store := s1\<rparr>)
                                | (Inr _, s1) \<Rightarrow> (Reply 201 bid, h1\<lparr>hb_store := s1\<rparr>))))) h"

section \<open>Metadata\<close>

record bucket_metadata =
  bm_id :: string
  bm_provider :: string
  bm_region :: string
  bm_bucket_name :: string
  bm_endpoint_url :: string
  bm_created_at :: string
  bm_last_used_at :: "string option"

definition bucket_metadata_of :: "crate_bucket \<Rightarrow> bucket_metadata" where
  "bucket_metadata_of b =
     \<lparr>bm_id = bk_id b, bm_provider = bk_provider b, bm_region = bk_region b,
      bm_bucket_name = bk_bucket_name b, bm_endpoint_url = bk_endpoint_url b,
      bm_created_at = fmt_time (bk_created_at b),
      bm_last_used_at = map_option fmt_time (bk_last_used_at b)\<rparr>"

definition handle_bucket_metadata ::
  "sys \<Rightarrow> env \<Rightarrow> rctx \<Rightarrow> string \<Rightarrow> hub \<Rightarrow> bucket_metadata reply \<times> hub" where
  "handle_bucket_metadata S e rc bid h =
     (if bid = [] then (Failure bad_request, h)
      else authorised S e rc (need ''sync'' bid ''read'')
        (\<lambda>g h1.
           case lookup_crate_bucket e bid (hb_store h1) of
             Inl err \<Rightarrow> (Failure (if err = ErrNotFound then not_found else unavailable), h1)
           | Inr b \<Rightarrow> (Reply 200 (bucket_metadata_of b), h1)) h)"

definition handle_bucket_list ::
  "sys \<Rightarrow> env \<Rightarrow> rctx \<Rightarrow> hub \<Rightarrow> bucket_metadata list reply \<times> hub" where
  "handle_bucket_list S e rc h =
     authorised S e rc (need ''identity'' [] ''pair'')
       (\<lambda>g h1.
          case list_crate_buckets e (idn_issued_by (gt_identifier g)) (hb_store h1) of
            Inl _ \<Rightarrow> (Failure unavailable, h1)
          | Inr bs \<Rightarrow> (Reply 200 (map bucket_metadata_of bs), h1)) h"

section \<open>The proxy\<close>

datatype load_error = LoadStore store_error | LoadCrypto crypto_error

definition load_and_decrypt ::
  "sys \<Rightarrow> env \<Rightarrow> string \<Rightarrow> store \<Rightarrow> load_error + (crate_bucket \<times> bytes)" where
  "load_and_decrypt S e bid s =
     (case lookup_crate_bucket e bid s of
        Inl err \<Rightarrow> Inl (LoadStore err)
      | Inr b \<Rightarrow>
          (case derive_bucket_creds_key (sy_aead S) (sy_root_key S) of
             Inl err \<Rightarrow> Inl (LoadCrypto err)
           | Inr key \<Rightarrow>
               (case open_secret (sy_aead S) key (bk_secret_sealed b) (bk_nonce b) (bk_id b) of
                  Inl err \<Rightarrow> Inl (LoadCrypto err)
                | Inr plain \<Rightarrow> Inr (b, plain))))"

record client_req =
  cl_method :: string
  cl_content_type :: string
  cl_if_match :: string
  cl_if_none_match :: string
  cl_body :: bytes

record upstream_req =
  up_method :: string
  up_url :: string
  up_headers :: url_values
  up_body :: bytes

record upstream_resp =
  us_status :: int
  us_headers :: url_values
  us_body :: bytes

type_synonym upstream = "upstream_req \<Rightarrow> upstream_resp option"

definition bad_gateway :: http_err where "bad_gateway = HttpErr 502 ''unavailable'' True"

definition forwarded_headers :: "client_req \<Rightarrow> url_values" where
  "forwarded_headers c =
     (if cl_method c = ''PUT'' \<and> cl_content_type c \<noteq> []
      then [(''content-type'', [cl_content_type c])] else [])
     @ (if cl_method c \<in> {''PUT'', ''DELETE''} \<and> cl_if_match c \<noteq> []
        then [(''if-match'', [cl_if_match c])] else [])
     @ (if cl_method c \<in> {''PUT'', ''DELETE''} \<and> cl_if_none_match c \<noteq> []
        then [(''if-none-match'', [cl_if_none_match c])] else [])"

definition pass_through_headers :: "string list" where
  "pass_through_headers =
     [''content-type'', ''content-length'', ''content-range'', ''accept-ranges'', ''etag'',
      ''last-modified'', ''x-amz-version-id'', ''x-amz-request-id'', ''x-amz-id-2'',
      ''x-amz-meta-crate-iv'']"

definition header_get :: "string \<Rightarrow> url_values \<Rightarrow> string" where
  "header_get k h = (case lookup_by fst k h of Some (_, v # _) \<Rightarrow> v | _ \<Rightarrow> [])"

definition copied_headers :: "url_values \<Rightarrow> (string \<times> string) list" where
  "copied_headers h =
     map (\<lambda>k. (k, header_get k h)) (filter (\<lambda>k. header_get k h \<noteq> []) pass_through_headers)"

definition proxy_to_upstream ::
  "sys \<Rightarrow> env \<Rightarrow> upstream \<Rightarrow> crate_bucket \<Rightarrow> bytes \<Rightarrow> client_req \<Rightarrow> string \<Rightarrow> bool \<Rightarrow> hub \<Rightarrow>
     ((string \<times> string) list \<times> bytes) reply \<times> hub" where
  "proxy_to_upstream S e up b secret c target stream h =
     (case parse_url target of
        None \<Rightarrow> (Failure bad_gateway, h)
      | Some _ \<Rightarrow>
          (case sign_request (sy_sha256 S) (en_now e)
                  \<lparr>so_method = cl_method c, so_url = target, so_headers = forwarded_headers c,
                   so_payload_hash = (if stream then unsigned_payload else []),
                   so_region = bk_region b, so_service = ''s3'',
                   so_access_key = bk_access_key_id b, so_secret_key = secret, so_date = 0\<rparr> of
             None \<Rightarrow> (Failure unavailable, h)
           | Some hdrs \<Rightarrow>
               (case up \<lparr>up_method = cl_method c, up_url = target, up_headers = hdrs,
                        up_body = cl_body c\<rparr> of
                  None \<Rightarrow> (Failure bad_gateway, h)
                | Some a \<Rightarrow>
                    (Reply (us_status a) (copied_headers (us_headers a), us_body a),
                     if 200 \<le> us_status a \<and> us_status a < 300
                     then h\<lparr>hb_store := snd (touch_crate_bucket e (bk_id b) (hb_store h))\<rparr>
                     else h))))"

definition load_failure :: "load_error \<Rightarrow> http_err" where
  "load_failure err = (if err = LoadStore ErrNotFound then not_found else unavailable)"

definition handle_crate_object ::
  "sys \<Rightarrow> env \<Rightarrow> upstream \<Rightarrow> rctx \<Rightarrow> string \<Rightarrow> string \<Rightarrow> client_req \<Rightarrow> hub \<Rightarrow>
     ((string \<times> string) list \<times> bytes) reply \<times> hub" where
  "handle_crate_object S e up rc bid path c h =
     (if bid = [] \<or> path = [] then (Failure bad_request, h)
      else authorised S e rc
        (need ''sync'' bid (if cl_method c \<in> {''PUT'', ''DELETE''} then ''write'' else ''read''))
        (\<lambda>g h1.
           case load_and_decrypt S e bid (hb_store h1) of
             Inl err \<Rightarrow> (Failure (load_failure err), h1)
           | Inr (b, secret) \<Rightarrow>
               proxy_to_upstream S e up b secret c (bk_endpoint_url b @ path)
                 (cl_method c = ''PUT'') h1) h)"

text \<open>The query of a LIST, in the order url.Values.Encode writes it.\<close>

definition list_query :: "string \<Rightarrow> string \<Rightarrow> string \<Rightarrow> string" where
  "list_query pfx token max_keys =
     join_with ''&'' (map (\<lambda>(k, v). query_escape k @ ''='' @ query_escape v)
       ((if token = [] then [] else [(''continuation-token'', token)])
        @ [(''list-type'', ''2'')]
        @ (if max_keys = [] then [] else [(''max-keys'', max_keys)])
        @ (if pfx = [] then [] else [(''prefix'', pfx)])))"

definition handle_crate_list ::
  "sys \<Rightarrow> env \<Rightarrow> upstream \<Rightarrow> rctx \<Rightarrow> string \<Rightarrow> string \<Rightarrow> string \<Rightarrow> string \<Rightarrow> client_req \<Rightarrow> hub \<Rightarrow>
     ((string \<times> string) list \<times> bytes) reply \<times> hub" where
  "handle_crate_list S e up rc bid pfx token max_keys c h =
     (if bid = [] then (Failure bad_request, h)
      else authorised S e rc (need ''sync'' bid ''read'')
        (\<lambda>g h1.
           case load_and_decrypt S e bid (hb_store h1) of
             Inl err \<Rightarrow> (Failure (load_failure err), h1)
           | Inr (b, secret) \<Rightarrow>
               proxy_to_upstream S e up b secret (c\<lparr>cl_method := ''GET''\<rparr>)
                 (bk_endpoint_url b @ ''?'' @ list_query pfx token max_keys) False h1) h)"

section \<open>The handlers run steps of the store\<close>

lemma runs_bucket_register: "runs S h (handle_bucket_register S e rc q h)"
  unfolding handle_bucket_register_def
  by (intro runs_intros; hypsubst?; (rule runs_self | rule runs_same, assumption
      | rule runs_store, assumption, erule evolves_snd, rule step_create_bucket))

lemma runs_proxy: "runs S h (proxy_to_upstream S e up b secret c target stream h)"
  by (auto simp: runs_def proxy_to_upstream_def evolves_one [OF step_touch_bucket]
      split: option.splits)

lemma runs_rebase: "hb_store h1 = hb_store h \<Longrightarrow> runs S h1 r \<Longrightarrow> runs S h r"
  by (simp add: runs_def)

lemma runs_crate_object: "runs S h (handle_crate_object S e up rc bid path c h)"
  unfolding handle_crate_object_def
  by (intro runs_intros; hypsubst?; (rule runs_self | rule runs_same, assumption
      | erule runs_rebase, rule runs_proxy))

lemma runs_crate_list: "runs S h (handle_crate_list S e up rc bid pfx token max_keys c h)"
  unfolding handle_crate_list_def
  by (intro runs_intros; hypsubst?; (rule runs_self | rule runs_same, assumption
      | erule runs_rebase, rule runs_proxy))

lemma bucket_reads_keep_store:
  "hb_store (snd (handle_bucket_metadata S e rc bid h)) = hb_store h"
  "hb_store (snd (handle_bucket_list S e rc h)) = hb_store h"
  unfolding handle_bucket_metadata_def handle_bucket_list_def
  by (auto intro!: authorised_keeps split: sum.splits)

end
