(* ===== verification/Hub.thy ===== *)
theory Hub
  imports Bridge_Handlers Bucket_Handlers
begin

text \<open>
  The Hub as a whole (nakli-hub/internal/server/server.go, routes in handlers.go): the routing
  table with the middlewares each endpoint runs under, and the transition system of a Hub that
  serves requests one after the other. Everything a request brings along is in \<open>inbound\<close>;
  \<open>site\<close> holds what the Hub process was started with.
\<close>

section \<open>Health and discovery\<close>

record health_data =
  hd_transport_id :: string
  hd_degraded :: bool
  hd_reasons :: "string list"
  hd_peer_health :: "(string \<times> bool) list"
  hd_event_count :: nat
  hd_principals :: "string \<rightharpoonup> nat"

text \<open>The probe of the remote peers is the environment's: who answered, and who did not.\<close>

definition handle_health ::
  "sys \<Rightarrow> env \<Rightarrow> string list \<Rightarrow> string list \<Rightarrow> hub \<Rightarrow> health_data reply \<times> hub" where
  "handle_health S e reachable unreachable h =
     (case principal_counts e (hb_store h) of
        Inl _ \<Rightarrow> (Failure unavailable, h)
      | Inr counts \<Rightarrow>
          (Reply 200 \<lparr>hd_transport_id = sy_hub_id S, hd_degraded = (unreachable \<noteq> []),
             hd_reasons = map (\<lambda>u. ''peer unreachable: '' @ u) unreachable,
             hd_peer_health = map (\<lambda>u. (u, True)) reachable @ map (\<lambda>u. (u, False)) unreachable,
             hd_event_count = (if en_fault e ''CountEvents'' then 0 else length (events (hb_store h))),
             hd_principals = counts\<rparr>, h))"

record discover_data =
  dd_transport_id :: string
  dd_primitives :: "string list"
  dd_caveats :: "string list"
  dd_max_event_size :: int
  dd_max_idempotency_window :: int

definition handle_discover :: "sys \<Rightarrow> hub \<Rightarrow> discover_data reply \<times> hub" where
  "handle_discover S h =
     (Reply 200 \<lparr>dd_transport_id = sy_hub_id S,
        dd_primitives = [''vault'', ''history'', ''sync'', ''grant'', ''identity'', ''llm'', ''bridge''],
        dd_caveats = [''time'', ''principal-type'', ''agent-id'', ''device-id'', ''operation'',
          ''namespace'', ''rate'', ''max-amount'', ''only-domain'', ''requires-human-approval'',
          ''nondelegatable'', ''idempotency-required'', ''discharge-from''],
        dd_max_event_size = sy_max_event_size S, dd_max_idempotency_window = sy_retention S\<rparr>, h)"

definition handle_cluster :: "hub \<Rightarrow> unit reply \<times> hub" where
  "handle_cluster h = (Failure not_implemented, h)"

text \<open>corsMiddleware answers an OPTIONS request itself, before any route is looked at.\<close>

definition handle_preflight :: "hub \<Rightarrow> unit reply \<times> hub" where
  "handle_preflight h = (Reply 204 (), h)"

section \<open>The routing table\<close>

datatype request =
    Health "string list" "string list"
  | Discover
  | VaultAppend "vault_append_req option"
  | VaultRead string string string string
  | VaultListStreams string
  | VaultSubscribe "subscribe_req option" "(env \<times> store) list"
  | HistoryAppend "history_append_req option"
  | HistoryRead string string string
  | HistoryVerify string
  | IdentityPrincipal
  | PairInitiate "int option"
  | PairComplete "pair_complete_req option"
  | GrantMint "mint_req option"
  | GrantVerify "verify_req option"
  | GrantRevoke "revoke_req option"
  | GrantDischarge "discharge_req option"
  | LlmRoutes
  | LlmComplete
  | BridgeAdapters
  | BridgeCall "bridge_call_req option"
  | BridgeApprove "string option"
  | BridgePendingStatus string
  | SyncPeers "peer list option"
  | SyncPull string string
  | SyncPush "sync_event_in list option"
  | SyncConflictAck
  | CrateIntent "(bytes \<times> crate_payload) option"
  | CrateCancel "string option"
  | CrateRedeem "crate_redeem_req option"
  | CapabilityRefresh
  | CapabilityRevoke string
  | BucketRegister "register_req option"
  | BucketList
  | BucketMetadata string
  | CrateObject string string client_req
  | CrateList string string string string client_req
  | Cluster
  | Preflight

text \<open>The writer that every handler is given: logMiddleware has wrapped the one of net/http.\<close>

definition served_writer :: writer where
  "served_writer = StatusRecorder NetWriter"

datatype response =
    RHealth "health_data reply"
  | RDiscover "discover_data reply"
  | RAppend "append_resp reply"
  | REvents "(event_out list \<times> bool) reply"
  | RSubscribed "read_event list reply"
  | RStreams "(string \<times> string \<times> nat) list reply"
  | RVerifyChain "history_verify_resp reply"
  | RPrincipal "principal_resp reply"
  | RPairInitiate "pair_initiate_resp reply"
  | RPairComplete "pair_complete_resp reply"
  | RMint "mint_resp reply"
  | RVerify "verify_resp reply"
  | RText "string reply"
  | RDischarge "discharge_resp reply"
  | RTexts "string list reply"
  | RUnit "unit reply"
  | RCatalogue "catalogue_entry list reply"
  | RBridge "bridge_resp reply"
  | RPending "(string \<times> pending_status \<times> string \<times> string) reply"
  | RPeers "peer_out list reply"
  | RPull "(sync_out list \<times> string \<times> bool) reply"
  | RPush "push_resp reply"
  | RCapability "capability_resp reply"
  | RBuckets "bucket_metadata list reply"
  | RBucket "bucket_metadata reply"
  | RObject "((string \<times> string) list \<times> bytes) reply"

record site =
  si_sys :: sys
  si_registry :: "registry option"
  si_upstream :: upstream
  si_json_params :: "params \<Rightarrow> string"
  si_render :: "response \<Rightarrow> bytes"

record inbound =
  in_headers :: req_headers
  in_body :: bytes
  in_endpoint :: string
  in_op_id :: string

definition logged ::
  "env \<Rightarrow> inbound \<Rightarrow> ('a reply \<Rightarrow> response) \<Rightarrow> (hub \<Rightarrow> 'a reply \<times> hub) \<Rightarrow> hub \<Rightarrow> response \<times> hub" where
  "logged e i k next h =
     map_prod k id (with_log e (in_op_id i) (in_endpoint i) (in_headers i) next h)"

definition authed ::
  "site \<Rightarrow> env \<Rightarrow> inbound \<Rightarrow> ('a reply \<Rightarrow> response) \<Rightarrow> (rctx \<Rightarrow> hub \<Rightarrow> 'a reply \<times> hub) \<Rightarrow> hub \<Rightarrow>
     response \<times> hub" where
  "authed A e i k next h = logged e i k (with_auth (si_sys A) e (in_headers i) next) h"

definition authed_once ::
  "site \<Rightarrow> env \<Rightarrow> inbound \<Rightarrow> ('a reply \<Rightarrow> response) \<Rightarrow> string \<Rightarrow> (rctx \<Rightarrow> hub \<Rightarrow> 'a reply \<times> hub) \<Rightarrow>
     hub \<Rightarrow> response \<times> hub" where
  "authed_once A e i k endpoint next h =
     authed A e i k
       (idempotent (si_sys A) e endpoint (in_body i) (\<lambda>rep. si_render A (k rep)) next) h"

definition serve :: "site \<Rightarrow> env \<Rightarrow> inbound \<Rightarrow> request \<Rightarrow> hub \<Rightarrow> response \<times> hub" where
  "serve A e i req h =
     (let S = si_sys A; bare = bare_context (in_headers i)
      in case req of
           Health up_peers down_peers \<Rightarrow> logged e i RHealth (handle_health S e up_peers down_peers) h
         | Discover \<Rightarrow> logged e i RDiscover (handle_discover S) h
         | VaultAppend q \<Rightarrow>
             authed_once A e i RAppend ''vault/append'' (\<lambda>rc. handle_vault_append S e rc q) h
         | VaultRead ns sid since lmt \<Rightarrow>
             authed A e i REvents (\<lambda>rc. handle_vault_read S e rc ns sid since lmt) h
         | VaultListStreams ns \<Rightarrow> authed A e i RStreams (\<lambda>rc. handle_vault_list_streams S e rc ns) h
         | VaultSubscribe q ticks \<Rightarrow>
             authed A e i RSubscribed (\<lambda>rc. handle_vault_subscribe S e rc served_writer q ticks) h
         | HistoryAppend q \<Rightarrow>
             authed_once A e i RAppend ''history/append'' (\<lambda>rc. handle_history_append S e rc q) h
         | HistoryRead sid since lmt \<Rightarrow>
             authed A e i REvents (\<lambda>rc. handle_history_read S e rc sid since lmt) h
         | HistoryVerify sid \<Rightarrow> authed A e i RVerifyChain (\<lambda>rc. handle_history_verify S e rc sid) h
         | IdentityPrincipal \<Rightarrow> authed A e i RPrincipal (handle_identity_principal S e) h
         | PairInitiate q \<Rightarrow> authed A e i RPairInitiate (\<lambda>rc. handle_pair_initiate S e rc q) h
         | PairComplete q \<Rightarrow> logged e i RPairComplete (handle_pair_complete S e bare q) h
         | GrantMint q \<Rightarrow>
             authed_once A e i RMint ''grant/mint'' (\<lambda>rc. handle_grant_mint S e rc q) h
         | GrantVerify q \<Rightarrow> authed A e i RVerify (\<lambda>rc. handle_grant_verify S e rc q) h
         | GrantRevoke q \<Rightarrow>
             authed_once A e i RText ''grant/revoke'' (\<lambda>rc. handle_grant_revoke S e rc q) h
         | GrantDischarge q \<Rightarrow> authed A e i RDischarge (\<lambda>rc. handle_grant_discharge S e rc q) h
         | LlmRoutes \<Rightarrow> authed A e i RTexts (handle_llm_routes S e) h
         | LlmComplete \<Rightarrow> authed_once A e i RUnit ''llm/complete'' (handle_llm_complete S e) h
         | BridgeAdapters \<Rightarrow>
             authed A e i RCatalogue (\<lambda>rc. handle_bridge_adapters S e rc (si_registry A)) h
         | BridgeCall q \<Rightarrow>
             authed_once A e i RBridge ''bridge/call''
               (\<lambda>rc. handle_bridge_call (si_json_params A) S e rc (si_registry A) q) h
         | BridgeApprove q \<Rightarrow> authed A e i RUnit (\<lambda>rc. handle_bridge_approve S e rc q) h
         | BridgePendingStatus pid \<Rightarrow> authed A e i RPending (\<lambda>rc. handle_bridge_pending S e rc pid) h
         | SyncPeers peers \<Rightarrow> authed A e i RPeers (\<lambda>rc. handle_sync_peers S e rc peers) h
         | SyncPull since lmt \<Rightarrow> authed A e i RPull (\<lambda>rc. handle_sync_pull S e rc since lmt) h
         | SyncPush q \<Rightarrow> authed A e i RPush (\<lambda>rc. handle_sync_push S e rc q) h
         | SyncConflictAck \<Rightarrow> authed A e i RUnit (handle_sync_conflict_ack S e) h
         | CrateIntent q \<Rightarrow> authed A e i RUnit (\<lambda>rc. handle_crate_intent S e rc q) h
         | CrateCancel q \<Rightarrow> authed A e i RUnit (\<lambda>rc. handle_crate_cancel S e rc q) h
         | CrateRedeem q \<Rightarrow> logged e i RCapability (handle_crate_redeem S e bare q) h
         | CapabilityRefresh \<Rightarrow> authed A e i RCapability (handle_capability_refresh S e) h
         | CapabilityRevoke gid \<Rightarrow> authed A e i RUnit (\<lambda>rc. handle_capability_revoke S e rc gid) h
         | BucketRegister q \<Rightarrow> authed A e i RText (\<lambda>rc. handle_bucket_register S e rc q) h
         | BucketList \<Rightarrow> authed A e i RBuckets (handle_bucket_list S e) h
         | BucketMetadata bid \<Rightarrow> authed A e i RBucket (\<lambda>rc. handle_bucket_metadata S e rc bid) h
         | CrateObject bid path c \<Rightarrow>
             authed A e i RObject (\<lambda>rc. handle_crate_object S e (si_upstream A) rc bid path c) h
         | CrateList bid pfx token max_keys c \<Rightarrow>
             authed A e i RObject
               (\<lambda>rc. handle_crate_list S e (si_upstream A) rc bid pfx token max_keys c) h
         | Cluster \<Rightarrow> logged e i RUnit handle_cluster h
         | Preflight \<Rightarrow> logged e i RUnit handle_preflight h)"

section \<open>Histories of requests\<close>

inductive hub_step :: "site \<Rightarrow> hub \<Rightarrow> hub \<Rightarrow> bool" for A :: site where
  serve_step: "serve A e i req h = (resp, h') \<Longrightarrow> hub_step A h h'"

inductive_simps hub_step_iff: "hub_step A h h'"

lemma runs_keeps: "hb_store (snd r) = hb_store h \<Longrightarrow> runs S h r"
  by (simp add: runs_def)

lemma runs_logged: "runs S h (next_handler h) \<Longrightarrow> runs S h (logged e i k next_handler h)"
  using runs_with_log [of S h next_handler e "in_op_id i" "in_endpoint i" "in_headers i"]
  by (simp add: runs_def logged_def)

lemma runs_authed:
  "(\<And>rc h1. runs (si_sys A) h1 (next_handler rc h1)) \<Longrightarrow> runs (si_sys A) h (authed A e i k next_handler h)"
  unfolding authed_def by (intro runs_logged runs_with_auth)

lemma runs_authed_once:
  "(\<And>rc h1. runs (si_sys A) h1 (next_handler rc h1)) \<Longrightarrow>
     runs (si_sys A) h (authed_once A e i k endpoint next_handler h)"
  unfolding authed_once_def by (intro runs_authed runs_idempotent)

lemmas runs_handlers =
  runs_vault_append runs_history_append runs_grant_mint runs_grant_revoke runs_identity_principal
  runs_pair_initiate runs_pair_complete runs_crate_intent runs_crate_cancel runs_crate_redeem
  runs_capability_refresh runs_capability_revoke runs_sync_push runs_bridge_call
  runs_bridge_approve runs_bucket_register runs_crate_object runs_crate_list
  reads_keep_store [THEN runs_keeps] grant_reads_keep_store [THEN runs_keeps]
  sync_reads_keep_store [THEN runs_keeps] bridge_reads_keep_store [THEN runs_keeps]
  bucket_reads_keep_store [THEN runs_keeps]

lemma runs_open_handlers:
  "runs S h (handle_health S e up_peers down_peers h)" "runs S h (handle_discover S h)"
  "runs S h (handle_cluster h)" "runs S h (handle_preflight h)"
  by (simp_all add: runs_def handle_health_def handle_discover_def handle_cluster_def handle_preflight_def
      split: sum.splits)

lemma runs_serve: "runs (si_sys A) h (serve A e i req h)"
  unfolding serve_def Let_def
  by (cases req; simp only: request.case;
      (rule runs_logged runs_authed runs_authed_once, rule runs_handlers runs_open_handlers))

text \<open>A Hub's history runs steps of the store, so an invariant of the steps holds throughout.\<close>

lemma hub_step_evolves: "hub_step A h h' \<Longrightarrow> evolves (si_sys A) (hb_store h) (hb_store h')"
proof -
  assume "hub_step A h h'"
  then obtain e i req resp where "serve A e i req h = (resp, h')" by (auto simp: hub_step_iff)
  then show ?thesis using runs_serve [of A h e i req] by (simp add: runs_def)
qed

lemma hub_steps_evolve: "(hub_step A)\<^sup>*\<^sup>* h h' \<Longrightarrow> evolves (si_sys A) (hb_store h) (hb_store h')"
  by (induction rule: rtranclp_induct) (auto intro: evolves_trans dest: hub_step_evolves)

definition reachable :: "site \<Rightarrow> hub \<Rightarrow> bool" where
  "reachable A h = (hub_step A)\<^sup>*\<^sup>* empty_hub h"

lemma reachable_inv:
  assumes "reachable A h"
  shows "store_inv (hb_store h)" "hub_blobs_inv (si_sys A) (hb_store h)"
proof -
  have ev: "evolves (si_sys A) empty_store (hb_store h)"
    using hub_steps_evolve [OF assms [unfolded reachable_def]] by (simp add: empty_hub_def)
  show "store_inv (hb_store h)" by (rule table_inv.kept [OF ev store_inv_empty])
  show "hub_blobs_inv (si_sys A) (hb_store h)"
    by (rule blob_inv.kept [OF ev])
      (simp add: hub_blobs_inv_def blobs_inv_def empty_store_def)
qed

end
