(* ===== verification/Sample_Hub.thy ===== *)
theory Sample_Hub
  imports Hub
begin

text \<open>
  A concrete instance of the parameters, on which the properties with hypotheses are exercised: an
  injective framing of lists of byte strings, a macaroon that is the framing of its key, identifier
  and caveats, a cipher whose ciphertext carries its additional data, and a SHA-256 stand-in with
  32-byte results. The laws that the development relies on hold of it. The second instance has
  issued a single macaroon, and nothing else verifies under its key.
\<close>

section \<open>Framing\<close>

definition mark :: char where "mark = CHR 0x01"
definition stop :: char where "stop = CHR 0x00"

fun frame :: "string \<Rightarrow> bytes" where
  "frame [] = [stop]"
| "frame (c # cs) = mark # c # frame cs"

fun unframe :: "bytes \<Rightarrow> (string \<times> bytes) option" where
  "unframe [] = None"
| "unframe (x # xs) =
     (if x = stop then Some ([], xs)
      else case xs of [] \<Rightarrow> None
           | c # rest \<Rightarrow> map_option (\<lambda>(w, r). (c # w, r)) (unframe rest))"

definition frames :: "string list \<Rightarrow> bytes" where
  "frames ws = concat (map frame ws)"

fun unframes :: "nat \<Rightarrow> bytes \<Rightarrow> string list option" where
  "unframes 0 b = None"
| "unframes (Suc n) b =
     (if b = [] then Some []
      else case unframe b of None \<Rightarrow> None | Some (w, r) \<Rightarrow> map_option (\<lambda>ws. w # ws) (unframes n r))"

definition parse_frames :: "bytes \<Rightarrow> string list option" where
  "parse_frames b = unframes (Suc (length b)) b"

lemma mark_stop [simp]: "mark \<noteq> stop" "stop \<noteq> mark"
  by (simp_all add: mark_def stop_def)

lemma unframe_frame [simp]: "unframe (frame w @ r) = Some (w, r)"
  by (induction w) auto

lemma frame_not_Nil [simp]: "frame w \<noteq> []"
  by (cases w) auto

lemma unframes_frames: "length ws < n \<Longrightarrow> unframes n (frames ws) = Some ws"
proof (induction ws arbitrary: n)
  case Nil
  then show ?case by (cases n) (auto simp: frames_def)
next
  case (Cons w ws)
  then obtain m where m: "n = Suc m" "length ws < m" by (cases n) auto
  have "frames (w # ws) = frame w @ frames ws" by (simp add: frames_def)
  then show ?case using Cons.IH [OF m(2)] m(1) by simp
qed

lemma length_frames: "length ws \<le> length (frames ws)"
proof (induction ws)
  case (Cons w ws)
  have "1 \<le> length (frame w)" by (cases w) simp_all
  then show ?case using Cons by (simp add: frames_def)
qed (simp add: frames_def)

lemma parse_frames_frames [simp]: "parse_frames (frames ws) = Some ws"
  unfolding parse_frames_def by (rule unframes_frames) (simp add: length_frames le_imp_less_Suc)

section \<open>Parameters\<close>

definition sample_sha :: "bytes \<Rightarrow> bytes" where
  "sample_sha b = take 32 (b @ replicate 32 stop)"

lemma length_sample_sha [simp]: "length (sample_sha b) = 32"
  by (simp add: sample_sha_def)

definition sample_seal :: "bytes \<Rightarrow> bytes \<Rightarrow> bytes \<Rightarrow> bytes \<Rightarrow> bytes" where
  "sample_seal k n p a = frame a @ p"

definition sample_open :: "bytes \<Rightarrow> bytes \<Rightarrow> bytes \<Rightarrow> bytes \<Rightarrow> bytes option" where
  "sample_open k n c a =
     (case unframe c of None \<Rightarrow> None | Some (b, p) \<Rightarrow> if b = a then Some p else None)"

definition sample_aead :: aead where
  "sample_aead = \<lparr>aead_seal = sample_seal, aead_open = sample_open,
     hkdf = (\<lambda>r s i. replicate 32 stop)\<rparr>"

lemma sample_aead_laws: "aead_laws sample_aead"
  by (simp add: aead_laws_def sample_aead_def sample_seal_def sample_open_def)

definition int_text :: "int \<Rightarrow> string" where
  "int_text t = (if t < 0 then ''-'' else ''+'') @ dec_digits (nat \<bar>t\<bar>)"

definition text_int :: "string \<Rightarrow> int" where
  "text_int s = (if hd s = CHR ''-'' then - int (digits_val (tl s)) else int (digits_val (tl s)))"

lemma text_int_text [simp]: "text_int (int_text t) = t"
  by (simp add: text_int_def int_text_def)

definition id_fields :: "grant_identifier \<Rightarrow> string list" where
  "id_fields i =
     [idn_grant_id i, int_text (idn_issued_at i), idn_issued_by i, idn_keypair i, idn_parent i,
      sc_primitive (idn_scope i), sc_namespace (idn_scope i)] @ sc_operations (idn_scope i)"

definition fields_id :: "string list \<Rightarrow> grant_identifier option" where
  "fields_id ws =
     (case ws of
        a # b # c # d # f # p # n # ops \<Rightarrow>
          Some \<lparr>idn_grant_id = a, idn_issued_at = text_int b, idn_issued_by = c, idn_keypair = d,
            idn_parent = f, idn_scope = \<lparr>sc_primitive = p, sc_namespace = n, sc_operations = ops\<rparr>\<rparr>
      | _ \<Rightarrow> None)"

lemma fields_id_fields [simp]: "fields_id (id_fields i) = Some i"
  by (simp add: fields_id_def id_fields_def)

definition sample_macaroon :: "bytes \<Rightarrow> bytes \<Rightarrow> string list \<Rightarrow> bytes" where
  "sample_macaroon key j cs = frames (key # j # cs)"

definition read_macaroon :: "bytes \<Rightarrow> macaroon option" where
  "read_macaroon b =
     (case parse_frames b of
        Some (k # j # cs) \<Rightarrow> Some \<lparr>mc_id = j, mc_caveats = map (\<lambda>c. (c, None)) cs\<rparr>
      | _ \<Rightarrow> None)"

definition check_macaroon :: "bytes \<Rightarrow> bytes \<Rightarrow> (string \<Rightarrow> bool) \<Rightarrow> bool" where
  "check_macaroon key b check =
     (case parse_frames b of Some (k # j # cs) \<Rightarrow> k = key \<and> list_all check cs | _ \<Rightarrow> False)"

definition sample_root_key :: bytes where
  "sample_root_key = replicate 32 (CHR ''k'')"

definition sample_sys :: sys where
  "sample_sys =
     \<lparr>sy_sha256 = sample_sha, sy_aead = sample_aead,
      sy_mac_new = (\<lambda>key j l cs. Some (sample_macaroon key j cs)),
      sy_mac_unmarshal = read_macaroon, sy_mac_verify = check_macaroon,
      sy_id_marshal = (\<lambda>i. Some (frames (id_fields i))),
      sy_id_unmarshal = (\<lambda>b. Option.bind (parse_frames b) fields_id),
      sy_json_scope = (\<lambda>sc. frames [sc_primitive sc, sc_namespace sc]),
      sy_json_strings = (\<lambda>ws. CHR ''['' # frames ws),
      sy_json_map = (\<lambda>m. CHR ''{'' # frames (map fst m)),
      sy_json_revocation = (\<lambda>g r b t. frames [g, r, b, t]),
      sy_unjson_strings = (\<lambda>s. coalesce [] (parse_frames (tl s))), sy_unjson_map = (\<lambda>s. []),
      sy_blobs_root = ''/data/blobs'', sy_max_event_size = 1048576, sy_retention = 86400,
      sy_strict_binding = True, sy_strict_mint = False, sy_strict_push = False,
      sy_root_key = sample_root_key, sy_hub_id = ''hub_1'', sy_public_key = ''pub''\<rparr>"

lemma sample_mint_laws: "mint_laws sample_sys"
  by (simp add: mint_laws_def sample_sys_def sample_macaroon_def read_macaroon_def
      check_macaroon_def)

definition issued_identifier :: grant_identifier where
  "issued_identifier =
     \<lparr>idn_grant_id = ''g1'', idn_issued_at = 0, idn_issued_by = ''owner'', idn_keypair = ''pub'',
      idn_parent = [], idn_scope = \<lparr>sc_primitive = [], sc_namespace = ''*'', sc_operations = []\<rparr>\<rparr>"

definition issued_caveats :: "string list" where
  "issued_caveats = [''nondelegatable'']"

definition issued_macaroon :: bytes where
  "issued_macaroon = sample_macaroon sample_root_key (frames (id_fields issued_identifier)) issued_caveats"

text \<open>Only the one macaroon that was issued verifies.\<close>

definition sealed_sys :: sys where
  "sealed_sys = sample_sys\<lparr>sy_mac_verify := \<lambda>key b check. b = issued_macaroon
     \<and> check_macaroon key b check\<rparr>"

lemma sealed_unforgeable: "unforgeable sealed_sys {(issued_identifier, issued_caveats)}"
  by (auto simp: unforgeable_def sealed_sys_def sample_sys_def issued_macaroon_def
      sample_macaroon_def read_macaroon_def split: if_splits)

section \<open>A site and a first request\<close>

definition sample_site :: site where
  "sample_site = \<lparr>si_sys = sealed_sys, si_registry = None, si_upstream = (\<lambda>q. None),
     si_json_params = (\<lambda>p. []), si_render = (\<lambda>r. ''ok'')\<rparr>"

definition sample_env :: env where
  "sample_env = plain_env 0 (\<lambda>n. ''E'' @ dec_digits n)"

definition owner_headers :: req_headers where
  "owner_headers =
     \<lparr>rh_grant = b64_encode std_encoding issued_macaroon, rh_discharge = [],
      rh_idempotency_key = ''key1'', rh_principal_type = [], rh_agent_id = [], rh_device_id = [],
      rh_host = ''hub.local'', rh_tls = True\<rparr>"

definition sample_inbound :: inbound where
  "sample_inbound = \<lparr>in_headers = owner_headers, in_body = ''body'', in_endpoint = ''/vault/append'',
     in_op_id = ''op1''\<rparr>"

definition issued_grant :: grant where
  "issued_grant = \<lparr>gt_id = ''g1'', gt_macaroon = issued_macaroon, gt_identifier = issued_identifier,
     gt_caveats = issued_caveats\<rparr>"

lemma b64_not_space: "c \<in> set (b64_encode std_encoding b) \<Longrightarrow> \<not> is_space c"
proof -
  assume c: "c \<in> set (b64_encode std_encoding b)"
  have "length std_alphabet = 64" using good_alphabets(1) by (simp only: good_alphabet_def)
  then have q: "c \<in> set (quad std_alphabet n) \<Longrightarrow> c \<in> set std_alphabet" for n
    by (auto simp: quad_def intro!: nth_mem)
  from set_b64_encode [OF c] q have "c \<in> insert (CHR ''='') (set std_alphabet)"
    by (auto simp: std_encoding_def)
  moreover have "list_all (\<lambda>c. \<not> is_space c) (CHR ''='' # std_alphabet)"
    by (simp add: is_space_def std_alphabet_def)
  ultimately show ?thesis by (auto simp: list_all_iff)
qed

lemma trim_b64 [simp]: "trim_space (b64_encode std_encoding b) = b64_encode std_encoding b"
proof (cases "b64_encode std_encoding b = []")
  case True
  then show ?thesis by (simp add: trim_space_def)
next
  case False
  then show ?thesis
    using b64_not_space [OF hd_in_set [OF False]] b64_not_space [OF last_in_set [OF False]]
    by (intro trim_space_trimmed) simp_all
qed

lemma decode_macaroon_b64 [simp]: "decode_macaroon_header (b64_encode std_encoding b) = Some b"
  by (simp add: decode_macaroon_header_def)

lemma sealed_simps [simp]:
  "sy_root_key sealed_sys = sample_root_key" "sy_max_event_size sealed_sys = 1048576"
  "sy_sha256 sealed_sys = sample_sha" "sy_strict_binding sealed_sys = True"
  "sy_blobs_root sealed_sys = ''/data/blobs''" "sy_retention sealed_sys = 86400"
  by (simp_all add: sealed_sys_def sample_sys_def)

lemma issued_verifies:
  "verify_signature sealed_sys issued_macaroon sample_root_key always_satisfied = Inr ()"
  "parse_grant sealed_sys issued_macaroon = Inr issued_grant"
  by (simp_all add: verify_signature_def parse_grant_def sealed_sys_def sample_sys_def
      issued_macaroon_def sample_macaroon_def read_macaroon_def check_macaroon_def issued_caveats_def
      always_satisfied_def caveat_text_def issued_grant_def issued_identifier_def)

definition sample_payload :: bytes where
  "sample_payload = ''hello''"

lemma length_sample_payload [simp]: "length sample_payload = 5"
  by (simp add: sample_payload_def)

lemma b64_std [simp]: "b64_decode std_encoding (b64_encode std_encoding b) = Some b"
  by (rule b64_decode_encode) (simp add: std_encoding_def)

definition first_append :: vault_append_req where
  "first_append =
     \<lparr>va_namespace = ''notes'', va_stream_id = ''s1'',
      va_event = \<lparr>er_kind = ''note'', er_payload = b64_encode std_encoding sample_payload,
        er_metadata = [], er_deps = [], er_clock = [], er_prev_hash = []\<rparr>\<rparr>"

definition sample_context :: rctx where
  "sample_context = \<lparr>rc_headers = owner_headers, rc_grant = Some issued_grant, rc_discharge_ids = [],
     rc_idempotency_key = []\<rparr>"

lemma b64_Nil_iff [simp]: "b64_encode std_encoding b = [] \<longleftrightarrow> b = []"
  by (metis b64_encode.simps(1) option.inject try_base64_std)

lemma issued_macaroon_not_Nil [simp]: "issued_macaroon \<noteq> []"
  by (simp add: issued_macaroon_def sample_macaroon_def frames_def)

lemma sample_authenticate:
  "authenticate sealed_sys sample_env owner_headers empty_hub =
     (Inr sample_context, empty_hub\<lparr>hb_store :=
        remember_authenticated_grant sealed_sys sample_env issued_grant empty_store\<rparr>)"
  by (simp add: authenticate_def owner_headers_def issued_verifies get_known_grant_def sample_env_def
      empty_hub_def empty_store_def parse_discharges_def sample_context_def)

lemma issued_caveats_met:
  "evaluate_caveats e issued_caveats cx v = (require (\<not> cx_is_delegation cx) ''nondelegatable'', v)"
  by (cases "cx_is_delegation cx")
    (simp_all add: issued_caveats_def evaluate_one_def trim_space_def is_space_def has_prefix_def
      require_def caveat_err_def)

lemma sample_check_auth:
  "\<not> rq_is_delegation rq \<Longrightarrow>
     check_auth sealed_sys e (sample_context\<lparr>rc_idempotency_key := k\<rparr>) rq h = (Allowed issued_grant, h)"
  by (simp add: check_auth_def sample_context_def issued_grant_def issued_caveats_met
      caveat_context_of_def require_def scope_permits_def issued_identifier_def)

text \<open>A Hub that has served one append.\<close>

definition sample_hub :: hub where
  "sample_hub = snd (serve sample_site sample_env sample_inbound (VaultAppend (Some first_append)) empty_hub)"

lemma need_simps [simp]: "\<not> rq_is_delegation (need p ns op)"
  by (simp add: need_def)

lemma sample_env_simps [simp]:
  "en_now sample_env = 0" "en_ulid sample_env n = ''E'' @ dec_digits n"
  "\<not> en_fault sample_env m" "en_write sample_env = WriteOk"
  by (simp_all add: sample_env_def)

lemma sample_append:
  assumes "events (hb_store h) = []" and "streams (hb_store h) = []"
  shows "fst (handle_vault_append sealed_sys sample_env (sample_context\<lparr>rc_idempotency_key := k\<rparr>)
      (Some first_append) h) = Reply 200 \<lparr>ap_event_id = ''E'' @ dec_digits 0, ap_event_hash = [], ap_seq = 1\<rparr>"
    and "map ev_id (events (hb_store (snd (handle_vault_append sealed_sys sample_env
      (sample_context\<lparr>rc_idempotency_key := k\<rparr>) (Some first_append) h)))) = [''E'' @ dec_digits 0]"
    and "map event_key (events (hb_store (snd (handle_vault_append sealed_sys sample_env
      (sample_context\<lparr>rc_idempotency_key := k\<rparr>) (Some first_append) h)))) = [(''notes'', ''s1'')]"
  using assms
  by (simp_all add: handle_vault_append_def first_append_def authorised_def sample_check_auth
      write_blob_def append_event_def ensure_stream_def rows_matching_def
      next_seq_def stream_events_def insert_stream_def event_exists_def insert_event_def update_head_def event_key_def
      append_row_def new_ulid_def vault_input_def fabric_reserved_namespaces_def Let_def)

lemma sample_idempotent:
  assumes "idempotency (hb_store h) = []" and "nxt (sample_context\<lparr>rc_idempotency_key := ''key1''\<rparr>) h = (rep, h1)"
    and "reply_status rep = 200"
  shows "idempotent sealed_sys sample_env ep ''body'' render nxt sample_context h =
    (rep, h1\<lparr>hb_store := snd (put_idempotency sample_env ''key1'' ''g1'' ep (sample_sha ''body'') 200
       (Some (render rep)) 86400 (hb_store h1))\<rparr>)"
proof -
  have c: "rc_headers sample_context = owner_headers" "rh_idempotency_key owner_headers = ''key1''"
    "ctx_grant_id sample_context = ''g1''" "\<not> max_body sealed_sys < 4"
    by (simp_all add: sample_context_def owner_headers_def ctx_grant_id_def issued_grant_def
        issued_identifier_def max_body_def)
  have l: "lookup_idempotency sample_env ''key1'' ''g1'' ph (hb_store h) = Inr IdempotencyFresh" for ph
    using assms(1) by (simp add: lookup_idempotency_def)
  show ?thesis
    by (simp add: idempotent_def Let_def c l assms(2,3) hash_payload_def)
qed

definition signed_in :: hub where
  "signed_in = empty_hub\<lparr>hb_store := remember_authenticated_grant sealed_sys sample_env issued_grant empty_store\<rparr>"

lemma signed_in_store [simp]:
  "events (hb_store signed_in) = []" "streams (hb_store signed_in) = []"
  "idempotency (hb_store signed_in) = []"
  by (simp_all add: signed_in_def remember_authenticated_grant_def remember_grant_def insert_grant_def
      empty_store_def Let_def)

lemma sample_served:
  "fst (serve sample_site sample_env sample_inbound (VaultAppend (Some first_append)) empty_hub)
     = RAppend (Reply 200 \<lparr>ap_event_id = ''E'' @ dec_digits 0, ap_event_hash = [], ap_seq = 1\<rparr>)"
  "map ev_id (events (hb_store sample_hub)) = [''E'' @ dec_digits 0]"
  "map event_key (events (hb_store sample_hub)) = [(''notes'', ''s1'')]"
proof -
  obtain rep h1 where a: "handle_vault_append sealed_sys sample_env
      (sample_context\<lparr>rc_idempotency_key := ''key1''\<rparr>) (Some first_append) signed_in = (rep, h1)"
    by fastforce
  have r: "rep = Reply 200 \<lparr>ap_event_id = ''E'' @ dec_digits 0, ap_event_hash = [], ap_seq = 1\<rparr>"
    "map ev_id (events (hb_store h1)) = [''E'' @ dec_digits 0]"
    "map event_key (events (hb_store h1)) = [(''notes'', ''s1'')]"
    using sample_append [of signed_in "''key1''"] a by simp_all
  have s: "serve sample_site sample_env sample_inbound (VaultAppend (Some first_append)) empty_hub =
      map_prod RAppend id (with_log sample_env ''op1'' ''/vault/append'' owner_headers
        (\<lambda>h. (rep, h1\<lparr>hb_store := snd (put_idempotency sample_env ''key1'' ''g1'' ''vault/append''
          (sample_sha ''body'') 200 (Some ''ok'') 86400 (hb_store h1))\<rparr>)) empty_hub)"
    using sample_idempotent [where nxt = "\<lambda>rc. handle_vault_append sealed_sys sample_env rc (Some first_append)",
      OF signed_in_store(3) a, of "''vault/append''" "\<lambda>rep. ''ok''"] r(1)
    by (simp add: serve_def sample_site_def authed_once_def authed_def logged_def with_log_def
        with_auth_def sample_inbound_def sample_authenticate signed_in_def)
  show "fst (serve sample_site sample_env sample_inbound (VaultAppend (Some first_append)) empty_hub)
     = RAppend (Reply 200 \<lparr>ap_event_id = ''E'' @ dec_digits 0, ap_event_hash = [], ap_seq = 1\<rparr>)"
    unfolding s using r(1) by (simp add: with_log_def Let_def)
  show "map ev_id (events (hb_store sample_hub)) = [''E'' @ dec_digits 0]"
    "map event_key (events (hb_store sample_hub)) = [(''notes'', ''s1'')]"
    unfolding sample_hub_def s using r
    by (simp_all add: with_log_def log_operation_def put_idempotency_def Let_def)
qed

lemma sample_reachable: "reachable sample_site sample_hub"
  unfolding reachable_def sample_hub_def
  by (rule r_into_rtranclp, rule serve_step) (rule prod.collapse [symmetric])

lemma sample_context_key [simp]: "sample_context\<lparr>rc_idempotency_key := []\<rparr> = sample_context"
  by (simp add: sample_context_def)

lemma sample_check_auth_bare [simp]:
  "\<not> rq_is_delegation rq \<Longrightarrow> check_auth sealed_sys e sample_context rq h = (Allowed issued_grant, h)"
  using sample_check_auth [of rq e "[]" h] by simp

lemma sample_authenticate_at:
  assumes "revoked_mark ''g1'' (hb_store h) = None"
  shows "authenticate sealed_sys sample_env owner_headers h = (Inr sample_context, h\<lparr>hb_store :=
    remember_authenticated_grant sealed_sys sample_env issued_grant (hb_store h)\<rparr>)"
  using assms
  by (auto simp: authenticate_def owner_headers_def issued_verifies get_known_grant_def
      parse_discharges_def sample_context_def Let_def issued_grant_def issued_identifier_def
      revoked_mark_def split: option.splits)

section \<open>Instants of the first month\<close>

lemma civil_first_month:
  assumes "d < 31" "s < 86400" "n < 1000000000"
  shows "civil_of (int ((d * 86400 + s) * 1000000000 + n)) =
    \<lparr>c_year = 1, c_month = 1, c_day = d + 1, c_hour = s div 3600, c_min = s mod 3600 div 60,
     c_sec = s mod 60, c_nsec = n\<rparr>"
proof -
  let ?k = "((146097 + d) * 86400 + s) * 1000000000 + n"
  have e: "int ((d * 86400 + s) * 1000000000 + n) + int era_days * day = int ?k"
    by (simp add: durations era_days_def algebra_simps)
  have "?k mod 1000000000 = n" "?k div 1000000000 = (146097 + d) * 86400 + s"
    using assms(3) by (simp_all only: mod_mult_self3 mod_less div_mult_self3 div_less)
  moreover have "((146097 + d) * 86400 + s) mod 86400 = s" "((146097 + d) * 86400 + s) div 86400 = 146097 + d"
    using assms(2) by (simp_all only: mod_mult_self3 mod_less div_mult_self3 div_less)
  moreover have "(146097 + d) div era_days = 1" "(146097 + d) mod era_days = d"
    using assms(1) by (simp_all add: era_days_def div_add_self1 mod_add_self1)
  moreover have "find_year (Suc 0) d = (1, d)"
    using assms(1) by (simp add: find_year.simps [of "Suc 0"] days_in_year_def leap_def)
  moreover have "find_month 1 (month_lengths 1) d = (1, d)"
    using assms(1) by (simp add: month_lengths_def)
  ultimately show ?thesis unfolding civil_of_def e nat_int Let_def by (simp add: case_prod_unfold)
qed

lemma pad_unrolled: "pad_digits 2 n = [digit_char (n div 10 mod 10), digit_char (n mod 10)]"
  "pad_digits 4 n = [digit_char (n div 10 div 10 div 10 mod 10),
    digit_char (n div 10 div 10 mod 10), digit_char (n div 10 mod 10), digit_char (n mod 10)]"
proof -
  have n: "(2::nat) = Suc (Suc 0)" "(4::nat) = Suc (Suc (Suc (Suc 0)))" by simp_all
  show "pad_digits 2 n = [digit_char (n div 10 mod 10), digit_char (n mod 10)]"
    by (subst n) simp
  show "pad_digits 4 n = [digit_char (n div 10 div 10 div 10 mod 10),
    digit_char (n div 10 div 10 mod 10), digit_char (n div 10 mod 10), digit_char (n mod 10)]"
    by (subst n) simp
qed

lemma digit_chars: "digit_char 0 = CHR ''0''" "digit_char 1 = CHR ''1''"  "digit_char (Suc 0) = CHR ''1''" "digit_char 2 = CHR ''2''" "digit_char (Suc (Suc 0)) = CHR ''2''"  "digit_char 3 = CHR ''3''"
   "digit_char 5 = CHR ''5''"
  by code_simp+

lemma pad9: "pad_digits 9 500000000 = ''500000000''"
proof -
  have n: "(9::nat) = Suc (Suc (Suc (Suc (Suc (Suc (Suc (Suc (Suc 0))))))))" by simp
  show ?thesis by (subst n) (simp add: digit_chars)
qed

lemma fmt_half: "fmt_time 500000000 = ''0001-01-01T00:00:00.5Z''"
  using civil_first_month [of 0 0 500000000] by (simp add: fmt_time_def fmt_civil_def year_text_def pad_unrolled digit_chars frac_digits_def pad9)

lemma fmt_0: "fmt_time 0 = ''0001-01-01T00:00:00Z''"
  using civil_first_month [of 0 0 0] by (simp add: fmt_time_def fmt_civil_def year_text_def pad_unrolled digit_chars)

lemma fmt_1d: "fmt_time 86400000000000 = ''0001-01-02T00:00:00Z''"
  using civil_first_month [of 1 0 0] by (simp add: fmt_time_def fmt_civil_def year_text_def pad_unrolled digit_chars)

lemma fmt_30d: "fmt_time (30 * 86400000000000) = ''0001-01-31T00:00:00Z''"
  using civil_first_month [of 30 0 0] by (simp add: fmt_time_def fmt_civil_def year_text_def pad_unrolled digit_chars)

lemma in_range_first_month: "0 \<le> t \<Longrightarrow> t \<le> 60 * 86400000000000 \<Longrightarrow> in_range t"
  by (simp add: in_range_def durations)

section \<open>A crate token, registered and cancelled\<close>

definition sample_payload_crate :: crate_payload where
  "sample_payload_crate = \<lparr>cq_v = 1, cq_type = ''crate.pairing.token'', cq_secret = ''s'',
     cq_transport_endpoint = ''t'', cq_transport_type = ''tt'', cq_bucket_id = ''b'',
     cq_identity_pubkey = ''i'', cq_issued_at = 1, cq_expires_at = 2\<rparr>"

definition hub_with_crate :: hub where
  "hub_with_crate = snd (serve sample_site sample_env sample_inbound
     (CrateIntent (Some (''{}'', sample_payload_crate))) empty_hub)"

definition hub_with_cancelled_crate :: hub where
  "hub_with_cancelled_crate = snd (serve sample_site sample_env (sample_inbound\<lparr>in_op_id := ''op2''\<rparr>)
     (CrateCancel (Some ''s'')) hub_with_crate)"

lemma remember_authenticated_frame [simp]:
  "crate_pairing_tokens (remember_authenticated_grant S e g s) = crate_pairing_tokens s"
  by (simp add: remember_authenticated_grant_def remember_grant_def insert_grant_def Let_def)

lemma sample_authed_tables:
  assumes "in_headers i = owner_headers" and "revoked_mark ''g1'' (hb_store h) = None"
  defines "h1 \<equiv> h\<lparr>hb_store := remember_authenticated_grant sealed_sys sample_env issued_grant (hb_store h)\<rparr>"
  shows "crate_pairing_tokens (hb_store (snd (authed sample_site sample_env i k nxt h)))
      = crate_pairing_tokens (hb_store (snd (nxt sample_context h1)))"
    and "grants_known (hb_store (snd (authed sample_site sample_env i k nxt h)))
      = grants_known (hb_store (snd (nxt sample_context h1)))"
  using sample_authenticate_at [OF assms(2)]
  by (simp_all add: authed_def logged_def with_log_def with_auth_def sample_site_def assms(1) h1_def
      Let_def case_prod_unfold log_operation_def)

lemma remember_issued_unrevoked:
  "revoked_mark ''g1'' (remember_authenticated_grant sealed_sys sample_env issued_grant empty_store) = None"
  by (simp add: revoked_mark_def remember_authenticated_grant_def remember_grant_def insert_grant_def
      Let_def empty_store_def issued_grant_def issued_identifier_def)

lemma sample_bare [simp]: "in_headers sample_inbound = owner_headers" "hb_store empty_hub = empty_store"
  "si_sys sample_site = sealed_sys"
  by (simp_all add: sample_inbound_def empty_hub_def sample_site_def)

lemma empty_unrevoked: "revoked_mark gid empty_store = None" "crate_pairing_tokens empty_store = []"
  by (simp_all add: revoked_mark_def empty_store_def)

lemma sample_intent:
  assumes "crate_pairing_tokens (hb_store h) = []"
  shows "\<exists>r. crate_pairing_tokens (hb_store (snd (handle_crate_intent sealed_sys sample_env sample_context
      (Some (''{}'', sample_payload_crate)) h))) = [r] \<and> ct_secret r = ''s'' \<and> crate_open r"
    and "grants_known (hb_store (snd (handle_crate_intent sealed_sys sample_env sample_context
      (Some (''{}'', sample_payload_crate)) h))) = grants_known (hb_store h)"
proof -
  have v: "validate_payload sample_payload_crate 0 = None" "cq_secret sample_payload_crate = ''s''"
    by (simp_all add: validate_payload_def sample_payload_crate_def unix_time_def unix_epoch_def
        durations)
  show "\<exists>r. crate_pairing_tokens (hb_store (snd (handle_crate_intent sealed_sys sample_env sample_context
      (Some (''{}'', sample_payload_crate)) h))) = [r] \<and> ct_secret r = ''s'' \<and> crate_open r"
    "grants_known (hb_store (snd (handle_crate_intent sealed_sys sample_env sample_context
      (Some (''{}'', sample_payload_crate)) h))) = grants_known (hb_store h)"
    by (simp_all add: handle_crate_intent_def authorised_def v create_crate_token_def Let_def assms
        crate_open_def)
qed

lemma hub_with_crate_row:
  "\<exists>r. crate_pairing_tokens (hb_store hub_with_crate) = [r] \<and> ct_secret r = ''s'' \<and> crate_open r"
  "revoked_mark ''g1'' (hb_store hub_with_crate) = None"
proof -
  have c: "crate_pairing_tokens (hb_store hub_with_crate) = crate_pairing_tokens (hb_store (snd
      (handle_crate_intent sealed_sys sample_env sample_context (Some (''{}'', sample_payload_crate)) signed_in)))"
    "grants_known (hb_store hub_with_crate) = grants_known (hb_store (snd
      (handle_crate_intent sealed_sys sample_env sample_context (Some (''{}'', sample_payload_crate)) signed_in)))"
    by (simp_all add: hub_with_crate_def serve_def sample_authed_tables empty_unrevoked Let_def signed_in_def)
  have e: "crate_pairing_tokens (hb_store signed_in) = []"
    by (simp add: signed_in_def empty_unrevoked)
  show "\<exists>r. crate_pairing_tokens (hb_store hub_with_crate) = [r] \<and> ct_secret r = ''s'' \<and> crate_open r"
    unfolding c by (rule sample_intent(1) [OF e])
  show "revoked_mark ''g1'' (hb_store hub_with_crate) = None"
    using remember_issued_unrevoked unfolding revoked_mark_def c sample_intent(2) [OF e]
    by (simp add: signed_in_def)
qed

lemma hub_with_cancelled_crate_row:
  "\<exists>r. closed_crate ''s'' r (hb_store hub_with_cancelled_crate)"
proof -
  obtain r where r: "crate_pairing_tokens (hb_store hub_with_crate) = [r]" "ct_secret r = ''s''" "crate_open r"
    using hub_with_crate_row(1) by blast
  then show ?thesis
    by (simp add: hub_with_cancelled_crate_def serve_def sample_authed_tables hub_with_crate_row(2) Let_def
        handle_crate_cancel_def authorised_def cancel_crate_token_def lookup_crate_token_def
        cancel_check_def crate_token_of_row_def crate_open_def cancel_update_def update_where_def
        closed_crate_def cancel_row_def)
qed

lemma hub_with_cancelled_crate_reachable: "reachable sample_site hub_with_cancelled_crate"
proof -
  have "hub_step sample_site empty_hub hub_with_crate"
    "hub_step sample_site hub_with_crate hub_with_cancelled_crate"
    unfolding hub_with_crate_def hub_with_cancelled_crate_def
    by (rule serve_step, rule prod.collapse [symmetric])+
  then show ?thesis unfolding reachable_def by simp
qed

definition open_crate :: crate_token_row where
  "open_crate = \<lparr>ct_secret = ''s'', ct_payload_json = ''{}'', ct_bucket_id = ''b'',
     ct_identity_pubkey = ''i'', ct_transport_endpoint = ''t'', ct_transport_type = ''tt'',
     ct_issued_at = fmt_time 0, ct_expires_at = fmt_time 86400000000000, ct_redeemed_at = None,
     ct_redeemed_by = None, ct_fingerprint = None, ct_capability_id = None, ct_cancelled_at = None,
     ct_created_at = fmt_time 0\<rparr>"

definition hub_with_open_crate :: hub where
  "hub_with_open_crate = empty_hub\<lparr>hb_store := empty_store\<lparr>crate_pairing_tokens := [open_crate]\<rparr>\<rparr>"

end
