(* ===== verification/Token_Races.thy ===== *)
theory Token_Races
  imports Store_Tokens
begin

text \<open>
  Concurrent callers of RedeemCratePairingToken, CancelCratePairingToken and CompletePairing.
  Each method reads the row in one statement and updates it in a second; SQLite runs the
  statements one after the other, in any interleaving of the callers. A caller is its method
  with its arguments, its clock and how far it is. Driver errors are left out here: a caller
  that meets one changes nothing.
\<close>

datatype phase = Waiting | Checked | Finished "store_error + unit"

section \<open>Crate tokens\<close>

datatype crate_op = Redeem redemption | Cancel string

record crate_caller =
  cc_op :: crate_op
  cc_secret :: string
  cc_now :: time
  cc_phase :: phase

definition crate_check :: "crate_caller \<Rightarrow> crate_token_row list \<Rightarrow> phase" where
  "crate_check c rs =
     (case lookup_by ct_secret (cc_secret c) rs of
        None \<Rightarrow> Finished (Inl ErrNotFound)
      | Some r \<Rightarrow>
          (case (case cc_op c of Redeem _ \<Rightarrow> redeem_check (cc_now c) (crate_token_of_row r)
                  | Cancel _ \<Rightarrow> cancel_check (crate_token_of_row r)) of
             Some res \<Rightarrow> Finished res | None \<Rightarrow> Checked))"

definition crate_update ::
  "crate_caller \<Rightarrow> crate_token_row list \<Rightarrow> (store_error + unit) \<times> crate_token_row list" where
  "crate_update c rs =
     (case cc_op c of Redeem a \<Rightarrow> redeem_update a (cc_secret c) rs
      | Cancel at \<Rightarrow> cancel_update at (cc_secret c) rs)"

type_synonym crate_config = "crate_caller list \<times> crate_token_row list"

inductive crate_step :: "crate_config \<Rightarrow> crate_config \<Rightarrow> bool" where
  check: "n < length cs \<Longrightarrow> cc_phase (cs ! n) = Waiting \<Longrightarrow>
    crate_step (cs, rs) (cs[n := (cs ! n)\<lparr>cc_phase := crate_check (cs ! n) rs\<rparr>], rs)"
| update: "n < length cs \<Longrightarrow> cc_phase (cs ! n) = Checked \<Longrightarrow>
    crate_update (cs ! n) rs = (res, rs') \<Longrightarrow>
    crate_step (cs, rs) (cs[n := (cs ! n)\<lparr>cc_phase := Finished res\<rparr>], rs')"

definition crate_start :: "crate_config \<Rightarrow> bool" where
  "crate_start c = (list_all (\<lambda>x. cc_phase x = Waiting) (fst c)
     \<and> distinct (map ct_secret (snd c)))"

definition redeemed_ok :: "crate_caller \<Rightarrow> bool" where
  "redeemed_ok c = (cc_phase c = Finished (Inr ()) \<and> (\<exists>a. cc_op c = Redeem a))"

text \<open>The row holds what this caller wrote.\<close>

definition holds_redemption :: "crate_caller \<Rightarrow> crate_token_row list \<Rightarrow> bool" where
  "holds_redemption c rs =
     (\<exists>a r. cc_op c = Redeem a \<and> lookup_by ct_secret (cc_secret c) rs = Some r
        \<and> ct_redeemed_at r = Some (rd_at a) \<and> ct_redeemed_by r = Some (rd_daemon_pubkey a)
        \<and> ct_capability_id r = Some (rd_capability_id a) \<and> ct_fingerprint r = Some (rd_fingerprint a))"

definition race_inv :: "crate_config \<Rightarrow> bool" where
  "race_inv c =
     (distinct (map ct_secret (snd c))
      \<and> (\<forall>i < length (fst c). redeemed_ok (fst c ! i) \<longrightarrow> holds_redemption (fst c ! i) (snd c))
      \<and> (\<forall>i < length (fst c). \<forall>j < length (fst c).
           redeemed_ok (fst c ! i) \<longrightarrow> redeemed_ok (fst c ! j) \<longrightarrow>
           cc_secret (fst c ! i) = cc_secret (fst c ! j) \<longrightarrow> i = j))"

lemma race_invD:
  assumes "race_inv (cs, rs)"
  shows "distinct (map ct_secret rs)"
    "i < length cs \<Longrightarrow> redeemed_ok (cs ! i) \<Longrightarrow> holds_redemption (cs ! i) rs"
    "i < length cs \<Longrightarrow> j < length cs \<Longrightarrow> redeemed_ok (cs ! i) \<Longrightarrow> redeemed_ok (cs ! j) \<Longrightarrow>
       cc_secret (cs ! i) = cc_secret (cs ! j) \<Longrightarrow> i = j"
  using assms by (auto simp: race_inv_def)

lemma redeem_check_error: "redeem_check now t \<noteq> Some (Inr ())"
  by (simp add: redeem_check_def)

lemma crate_check_not_ok: "\<not> redeemed_ok (c\<lparr>cc_phase := crate_check c rs\<rparr>)"
  by (auto simp: redeemed_ok_def crate_check_def redeem_check_error split: option.splits)

lemma crate_update_keys: "crate_update c rs = (res, rs') \<Longrightarrow> map ct_secret rs' = map ct_secret rs"
  by (auto simp: crate_update_def redeem_update_attempt cancel_update_attempt
      crate_redemption.attempt_keys crate_cancellation.attempt_keys split: crate_op.splits)

text \<open>A row that holds a redemption is closed, so no statement changes it.\<close>

lemma holds_redemption_stays:
  assumes "holds_redemption c rs" and "crate_update d rs = (res, rs')"
  shows "holds_redemption c rs'"
proof -
  obtain r where r: "lookup_by ct_secret (cc_secret c) rs = Some r" "\<not> crate_open r"
    using assms(1) by (auto simp: holds_redemption_def crate_open_def)
  have "lookup_by ct_secret (cc_secret c) rs' = Some r"
    using assms(2) crate_redemption.closed_stays [OF r] crate_cancellation.closed_stays [OF r]
    by (auto simp: crate_update_def redeem_update_attempt cancel_update_attempt
        split: crate_op.splits)
  then show ?thesis using assms(1) r(1) by (auto simp: holds_redemption_def)
qed

text \<open>A redemption that succeeds found its row open, and the row holds it afterwards.\<close>

lemma redeem_wins:
  assumes "crate_update c rs = (Inr (), rs')" and "cc_op c = Redeem a"
    and "distinct (map ct_secret rs)"
  shows "\<exists>r. lookup_by ct_secret (cc_secret c) rs = Some r \<and> crate_open r"
    and "holds_redemption (c\<lparr>cc_phase := p\<rparr>) rs'"
proof -
  have hit: "rows_matching (crate_redemption.guarded (cc_secret c)) rs \<noteq> 0"
    and rs': "rs' = crate_redemption.attempt a (cc_secret c) rs"
    using assms by (auto simp: crate_update_def redeem_update_attempt split: if_splits)
  then show "\<exists>r. lookup_by ct_secret (cc_secret c) rs = Some r \<and> crate_open r"
    using crate_redemption.hits_iff_open [OF assms(3)] by blast
  then show "holds_redemption (c\<lparr>cc_phase := p\<rparr>) rs'"
    using assms(2) by (auto simp: holds_redemption_def rs' crate_redemption.attempt_lookup redeem_row_def)
qed

lemma race_inv_step:
  assumes "crate_step c c'" and "race_inv c"
  shows "race_inv c'"
  using assms
proof (cases rule: crate_step.cases)
  case (check n cs rs)
  let ?c = "(cs ! n)\<lparr>cc_phase := crate_check (cs ! n) rs\<rparr>"
  have old: "i \<noteq> n \<and> cs[n := ?c] ! i = cs ! i"
    if "redeemed_ok (cs[n := ?c] ! i)" "i < length cs" for i
    using that crate_check_not_ok by (cases "i = n") auto
  have inv: "race_inv (cs, rs)" using assms(2) check by simp
  have "holds_redemption (cs[n := ?c] ! i) rs" if "redeemed_ok (cs[n := ?c] ! i)" "i < length cs" for i
    using old [OF that] that race_invD(2) [OF inv] by auto
  moreover have "i = j" if "redeemed_ok (cs[n := ?c] ! i)" "i < length cs"
    "redeemed_ok (cs[n := ?c] ! j)" "j < length cs"
    "cc_secret (cs[n := ?c] ! i) = cc_secret (cs[n := ?c] ! j)" for i j
    using old [OF that(1,2)] old [OF that(3,4)] that race_invD(3) [OF inv, of i j] by auto
  ultimately show ?thesis using race_invD(1) [OF inv] check by (auto simp: race_inv_def)
next
  case (update n cs rs res rs')
  have inv: "race_inv (cs, rs)" using assms(2) update by simp
  let ?c = "(cs ! n)\<lparr>cc_phase := Finished res\<rparr>"
  have keys: "distinct (map ct_secret rs')"
    using race_invD(1) [OF inv] crate_update_keys [OF update(5)] by simp
  have old: "holds_redemption (cs ! i) rs'" if "i < length cs" "redeemed_ok (cs ! i)" for i
    using race_invD(2) [OF inv that] holds_redemption_stays update(5) by blast
  have new: "holds_redemption ?c rs' \<and>
      (\<forall>i < length cs. redeemed_ok (cs ! i) \<longrightarrow> cc_secret (cs ! i) \<noteq> cc_secret (cs ! n))"
    if ok: "redeemed_ok ?c"
  proof -
    obtain a where a: "cc_op (cs ! n) = Redeem a" "res = Inr ()"
      using ok by (auto simp: redeemed_ok_def)
    note win = redeem_wins [OF update(5) [unfolded a(2)] a(1) race_invD(1) [OF inv]]
    have "cc_secret (cs ! i) \<noteq> cc_secret (cs ! n)" if "i < length cs" "redeemed_ok (cs ! i)" for i
      using race_invD(2) [OF inv that] win(1) by (auto simp: holds_redemption_def crate_open_def)
    then show ?thesis using win(2) by blast
  qed
  have holds: "holds_redemption (cs[n := ?c] ! i) rs'"
    if "i < length cs" "redeemed_ok (cs[n := ?c] ! i)" for i
    using that old new by (cases "i = n") auto
  have uniq: "i = j" if "i < length cs" "j < length cs" "redeemed_ok (cs[n := ?c] ! i)"
    "redeemed_ok (cs[n := ?c] ! j)" "cc_secret (cs[n := ?c] ! i) = cc_secret (cs[n := ?c] ! j)" for i j
    using that new race_invD(3) [OF inv, of i j]
    by (cases "i = n"; cases "j = n") auto
  show ?thesis
    using keys holds uniq update by (simp add: race_inv_def)
qed

lemma race_inv_start: "crate_start c \<Longrightarrow> race_inv c"
  by (auto simp: race_inv_def crate_start_def redeemed_ok_def list_all_length)

lemma race_inv_reachable: "crate_step\<^sup>*\<^sup>* c c' \<Longrightarrow> crate_start c \<Longrightarrow> race_inv c'"
  by (induction rule: rtranclp_induct) (auto intro: race_inv_start race_inv_step)

section \<open>Device pairing\<close>

record pairing_caller =
  pl_token :: string
  pl_device :: string
  pl_now :: time
  pl_phase :: phase

definition pairing_check :: "pairing_caller \<Rightarrow> pairing_row list \<Rightarrow> phase" where
  "pairing_check c rs =
     (case lookup_by pt_token (pl_token c) rs of
        None \<Rightarrow> Finished (Inl ErrNotFound)
      | Some r \<Rightarrow> (case complete_check (pl_now c) (pl_device c) (pairing_of_row r) of
                     Some res \<Rightarrow> Finished res | None \<Rightarrow> Checked))"

type_synonym pairing_config = "pairing_caller list \<times> pairing_row list"

inductive pairing_step :: "pairing_config \<Rightarrow> pairing_config \<Rightarrow> bool" where
  pcheck: "n < length cs \<Longrightarrow> pl_phase (cs ! n) = Waiting \<Longrightarrow>
    pairing_step (cs, rs) (cs[n := (cs ! n)\<lparr>pl_phase := pairing_check (cs ! n) rs\<rparr>], rs)"
| pupdate: "n < length cs \<Longrightarrow> pl_phase (cs ! n) = Checked \<Longrightarrow>
    pairing_step (cs, rs) (cs[n := (cs ! n)\<lparr>pl_phase := Finished (Inr ())\<rparr>],
      complete_update (pl_now (cs ! n)) (pl_device (cs ! n)) (pl_token (cs ! n)) rs)"

text \<open>The row keeps the first device whatever the callers were told.\<close>

lemma pairing_first_device:
  assumes "pairing_step\<^sup>*\<^sup>* c c'" and "lookup_by pt_token tok (snd c) = Some r"
    and "\<not> pairing_open r"
  shows "lookup_by pt_token tok (snd c') = Some r"
  using assms
proof (induction rule: rtranclp_induct)
  case (step c' c'')
  then have r: "lookup_by pt_token tok (snd c') = Some r" by simp
  from step.hyps(2) show ?case
  proof cases
    case (pupdate n cs rs)
    then show ?thesis
      using r assms(3) completion.closed_stays by (simp add: complete_update_attempt)
  qed (use r in simp)
qed simp

end
