(* ===== verification/Store_Guarantees.thy ===== *)
theory Store_Guarantees
  imports Sample_Hub Token_Races
begin

text \<open>
  What the storage layer guarantees: consistency of every reachable Hub, complete and ordered reads,
  the append-only log, replication, history chains, idempotent replay, single-use tokens and the
  place of the blob files.
\<close>

section \<open>Streams\<close>

lemma reachable_blobs:
  "reachable A h \<Longrightarrow> blobs_inv (sy_sha256 (si_sys A)) (sy_blobs_root (si_sys A)) (hb_store h)"
  using reachable_inv(2) by (simp add: hub_blobs_inv_def)

text \<open>
  C1: in every state a Hub can reach by serving requests, event ids and stream keys are unique, each
  stream's events are numbered 1, 2, ... without gaps, its row counts them and names the last one and
  its hash, and the ciphertext file of every event exists.
\<close>

theorem reachable_hub_consistent:
  assumes "reachable A h"
  shows "store_inv (hb_store h) \<and> hub_blobs_inv (si_sys A) (hb_store h)"
  using reachable_inv [OF assms] by blast

theorem reachable_hub_consistent_witness:
  "store_inv (hb_store sample_hub) \<and> hub_blobs_inv (si_sys sample_site) (hb_store sample_hub)
     \<and> length (events (hb_store sample_hub)) = 1"
proof -
  have "length (events (hb_store sample_hub)) = 1"
    using arg_cong [OF sample_served(2), of length] by simp
  then show ?thesis using reachable_hub_consistent [OF sample_reachable] by simp
qed

text \<open>
  C13: a client that reads a stream page by page, with any page size, starting after an event it
  knows, gets every later event of the stream once and in order, and its loop ends; at most one page
  per event is asked for.
\<close>

theorem stream_read_complete:
  assumes "reachable A h"
    and "\<not> en_fault e ''ReadStream''" "\<not> en_fault e ''ReadBlob''"
    and "\<forall>r\<in>set (stream_events ns sid (hb_store h)). ev_id r \<noteq> []"
    and "event_position since (stream_events ns sid (hb_store h)) = Some k"
  shows "read_pages (sy_sha256 (si_sys A)) (sy_blobs_root (si_sys A)) e ns sid limit (hb_store h)
      (Suc (length (stream_events ns sid (hb_store h)))) since =
    Some (map (event_view (sy_sha256 (si_sys A)) (sy_blobs_root (si_sys A)) (hb_store h))
      (drop k (stream_events ns sid (hb_store h))))"
  using assms reachable_inv(1) [OF assms(1)] reachable_blobs [OF assms(1)]
  by (intro read_pages_from) auto

theorem stream_read_complete_witness:
  "read_pages sample_sha ''/data/blobs'' sample_env ''notes'' ''s1'' 10 (hb_store sample_hub)
      (Suc (length (stream_events ''notes'' ''s1'' (hb_store sample_hub)))) [] =
    Some (map (event_view sample_sha ''/data/blobs'' (hb_store sample_hub))
      (stream_events ''notes'' ''s1'' (hb_store sample_hub)))
   \<and> length (stream_events ''notes'' ''s1'' (hb_store sample_hub)) = 1"
proof -
  have "ev_id r \<in> set (map ev_id (events (hb_store sample_hub)))"
    if "r \<in> set (stream_events ''notes'' ''s1'' (hb_store sample_hub))" for r
    using that by (auto simp: stream_events_def)
  then have ids: "\<forall>r\<in>set (stream_events ''notes'' ''s1'' (hb_store sample_hub)). ev_id r \<noteq> []"
    unfolding sample_served(2) by auto
  have one: "length (stream_events ''notes'' ''s1'' (hb_store sample_hub)) = 1"
    using sample_served(3) by (auto simp: stream_events_def)
  show ?thesis
    using stream_read_complete [OF sample_reachable, of sample_env "''notes''" "''s1''" "[]" 0 10] ids one
    by (simp add: sample_site_def event_position_def)
qed

lemma event_position_append:
  "event_position since evs = Some k \<Longrightarrow> event_position since (evs @ rs) = Some k"
  by (auto simp: event_position_def lookup_by_append split: if_splits option.splits)

lemma vault_append_ok:
  assumes "handle_vault_append S e rc (Some r) h = (Reply 200 x, h')"
  obtains g c s1 path res where
    "b64_decode std_encoding (er_payload (va_event r)) = Some c"
    "write_blob (sy_sha256 S) (sy_blobs_root S) e (va_namespace r) (new_ulid e 0) c (hb_store h)
       = (Inr path, s1)"
    "append_event e (vault_input S r g c) path (new_ulid e 0) s1 = (Inr res, hb_store h')"
    "ap_event_id x = ar_event_id res" "ap_seq x = ar_seq res"
  using assms unfolding handle_vault_append_def option.case Let_def
  by (auto split: option.splits if_splits prod.splits sum.splits intro: that
      dest!: authorised_replied)

lemma append_event_ok:
  assumes "append_event e i path eid s = (Inr res, s')"
  shows "s' = add_event (now_rfc3339 e) (append_row e i path eid (ar_seq res)) s"
    and "ar_event_id res = eid" "ar_seq res = next_seq (ai_namespace i) (ai_stream_id i) s"
  using assms
  by (auto simp: append_event_def Let_def append_event_fold store_simps split: if_splits)

text \<open>
  C28: what a client appends is what a reader gets: after an append that was answered with 200, a
  reader who has read the stream up to its former end is sent exactly the new event, under the
  identifier and number of the answer and with the bytes of the request, and no more pages follow.
\<close>

theorem appended_event_is_read_back:
  assumes "store_inv (hb_store h)" "hub_blobs_inv S (hb_store h)"
    and ok: "handle_vault_append S e rc (Some r) h = (Reply 200 x, h')"
    and "\<not> en_fault e' ''ReadStream''" "\<not> en_fault e' ''ReadBlob''"
    and pos: "event_position since (stream_events (va_namespace r) (va_stream_id r) (hb_store h))
      = Some (length (stream_events (va_namespace r) (va_stream_id r) (hb_store h)))"
  shows "\<exists>ev. read_stream (sy_sha256 S) (sy_blobs_root S) e' (va_namespace r) (va_stream_id r)
        \<lparr>ro_since = since, ro_limit = lmt\<rparr> (hb_store h') = Inr ([ev], False)
      \<and> re_event_id ev = ap_event_id x \<and> re_seq ev = ap_seq x
      \<and> re_kind ev = er_kind (va_event r)
      \<and> b64_decode std_encoding (er_payload (va_event r)) = Some (re_ciphertext ev)"
proof -
  obtain g c s1 path res where c: "b64_decode std_encoding (er_payload (va_event r)) = Some c"
    and w: "write_blob (sy_sha256 S) (sy_blobs_root S) e (va_namespace r) (new_ulid e 0) c (hb_store h)
       = (Inr path, s1)"
    and a: "append_event e (vault_input S r g c) path (new_ulid e 0) s1 = (Inr res, hb_store h')"
    and x: "ap_event_id x = ar_event_id res" "ap_seq x = ar_seq res"
    using vault_append_ok [OF ok] .
  let ?row = "append_row e (vault_input S r g c) path (new_ulid e 0) (ar_seq res)"
  let ?evs = "stream_events (va_namespace r) (va_stream_id r) (hb_store h)"
  have s1: "blobs s1 (blob_path (sy_sha256 S) (sy_blobs_root S) (va_namespace r) (new_ulid e 0)) = Some c"
    "events s1 = events (hb_store h)"
    using w by (auto simp: write_blob_def Let_def split: write_outcome.splits)
  have inv: "store_inv (hb_store h')" "hub_blobs_inv S (hb_store h')"
    using runs_vault_append [of S h e rc "Some r", unfolded ok] assms(1,2)
    by (auto simp: runs_def intro: table_inv.kept blob_inv.kept)
  have evs: "stream_events (va_namespace r) (va_stream_id r) (hb_store h') = ?evs @ [?row]"
    unfolding append_event_ok(1) [OF a] stream_events_add_event
    by (simp add: stream_events_def s1(2) append_row_def vault_input_def event_key_def)
  have bl: "blobs (hb_store h') = blobs s1" using append_event_ok(1) [OF a] by (simp add: frame_simps)
  have "read_stream (sy_sha256 S) (sy_blobs_root S) e' (va_namespace r) (va_stream_id r)
        \<lparr>ro_since = since, ro_limit = lmt\<rparr> (hb_store h')
      = Inr ([event_view (sy_sha256 S) (sy_blobs_root S) (hb_store h') ?row], False)"
    using read_stream_page [OF inv(1) inv(2) [unfolded hub_blobs_inv_def] assms(4,5),
        of "\<lparr>ro_since = since, ro_limit = lmt\<rparr>"] event_position_append [OF pos, of "[?row]"]
      clamp_limit_pos(1) [of lmt]
    by (simp add: evs)
  moreover have "ev_namespace ?row = va_namespace r" "ev_id ?row = new_ulid e 0"
    "ev_kind ?row = er_kind (va_event r)" "ev_seq ?row = ar_seq res"
    by (simp_all add: append_row_def vault_input_def)
  ultimately show ?thesis
    using c x append_event_ok(2) [OF a] by (auto simp: event_view_def bl s1(1))
qed

lemma signed_in_inv: "store_inv (hb_store signed_in)" "hub_blobs_inv S (hb_store signed_in)"
  by (simp_all add: store_inv_def hub_blobs_inv_def blobs_inv_def)

theorem appended_event_is_read_back_witness:
  "\<exists>ev. read_stream sample_sha ''/data/blobs'' sample_env ''notes'' ''s1''
      \<lparr>ro_since = [], ro_limit = 5\<rparr> (hb_store (snd (handle_vault_append sealed_sys sample_env
        sample_context (Some first_append) signed_in))) = Inr ([ev], False)
    \<and> re_ciphertext ev = sample_payload"
proof -
  obtain rep h' where a: "handle_vault_append sealed_sys sample_env sample_context (Some first_append)
      signed_in = (rep, h')" by fastforce
  have "sample_context\<lparr>rc_idempotency_key := []\<rparr> = sample_context" by (simp add: sample_context_def)
  then have "rep = Reply 200 \<lparr>ap_event_id = ''E'' @ dec_digits 0, ap_event_hash = [], ap_seq = 1\<rparr>"
    using sample_append(1) [of signed_in "[]"] a by simp
  moreover have "b64_decode std_encoding (er_payload (va_event first_append)) = Some sample_payload"
    "va_namespace first_append = ''notes''" "va_stream_id first_append = ''s1''"
    by (simp_all add: first_append_def)
  ultimately show ?thesis
    using appended_event_is_read_back [OF signed_in_inv, of sealed_sys sample_env sample_context
        first_append _ h' sample_env "[]" 5] a
    by (auto simp: event_position_def stream_events_def)
qed

text \<open>
  C29: the log is append-only. Whatever requests a Hub serves from some state on, the events it had
  then keep their rows, their content and their order at the front of the log.
\<close>

theorem event_log_append_only:
  assumes "(hub_step A)\<^sup>*\<^sup>* h h'"
  shows "\<exists>added. events (hb_store h') = events (hb_store h) @ added"
proof -
  have "extends (events (hb_store h)) (hb_store h')"
    by (rule event_log.kept [OF hub_steps_evolve [OF assms]]) (simp add: extends_def)
  then show ?thesis unfolding extends_def by (metis append_take_drop_id)
qed

theorem event_log_append_only_witness:
  "\<exists>added. events (hb_store sample_hub) = events (hb_store empty_hub) @ added \<and> added \<noteq> []"
proof -
  have "(hub_step sample_site)\<^sup>*\<^sup>* empty_hub sample_hub"
    using sample_reachable by (simp add: reachable_def)
  moreover have "events (hb_store sample_hub) \<noteq> []" using sample_served(2) by auto
  ultimately show ?thesis
    using event_log_append_only [of sample_site empty_hub sample_hub]
    by (auto simp: empty_hub_def empty_store_def)
qed

lemma load_all_length: "load_all f rs = Inr xs \<Longrightarrow> length xs = length rs"
  by (induction rs arbitrary: xs) (auto split: sum.splits simp: sum_map_Inr_iff)

lemma read_stream_length:
  "read_stream sha rt e ns sid opts s = Inr (page, again) \<Longrightarrow>
     length page \<le> clamp_limit (ro_limit opts)"
  by (auto simp: read_stream_def Let_def sum_map_Inr_iff split: if_splits sum.splits)

lemma sync_pull_length:
  "sync_pull sha rt e since lmt s = Inr (page, cursor, again) \<Longrightarrow> length page \<le> clamp_limit lmt"
  by (auto simp: sync_pull_def Let_def simp del: load_all.simps split: if_splits sum.splits option.splits)

text \<open>
  No page is longer than 1000 events, for any requested limit (also one that the query parser
  has wrapped around to a negative or huge number), in any state of the store, for streams and for
  replication alike.
\<close>

theorem pages_are_bounded:
  "(case read_stream sha rt e ns sid opts s of Inl _ \<Rightarrow> True | Inr (page, _) \<Rightarrow> length page \<le> 1000)
   \<and> (case sync_pull sha rt e since lmt s of Inl _ \<Rightarrow> True | Inr (page, _, _) \<Rightarrow> length page \<le> 1000)"
  using read_stream_length [of sha rt e ns sid opts s] sync_pull_length [of sha rt e since lmt s]
    clamp_limit_pos(2) [of lmt] clamp_limit_pos(2) [of "ro_limit opts"]
  by (auto split: sum.splits)

section \<open>Replication\<close>

text \<open>
  C5: replication is complete. Pulling from a cursor on, page after page with any page size, gives
  every event of the Hub from that position on exactly once, in the order in which the Hub stored
  them, and leaves a cursor from which a later pull resumes.
\<close>

theorem sync_pull_complete:
  assumes "reachable A h" and "length (events (hb_store h)) < 2 ^ 63"
    and "\<not> en_fault e ''SyncPull''" "\<not> en_fault e ''ReadBlob''" "\<not> en_fault e ''SyncPull.rowid''"
    and "cursor_at since k" "k \<le> length (events (hb_store h))"
  shows "\<exists>cursor. sync_pages (sy_sha256 (si_sys A)) (sy_blobs_root (si_sys A)) e lmt (hb_store h)
        (Suc (length (events (hb_store h)))) since =
      Some (map (row_sync_view (sy_sha256 (si_sys A)) (sy_blobs_root (si_sys A)) (hb_store h))
        (drop k (events (hb_store h))), cursor)
    \<and> cursor_at cursor (length (events (hb_store h)))"
  using assms reachable_inv(1) [OF assms(1)] reachable_blobs [OF assms(1)]
  by (intro sync_pages_from) auto

theorem sync_pull_complete_witness:
  "\<exists>cursor. sync_pages sample_sha ''/data/blobs'' sample_env 1 (hb_store sample_hub) (Suc 1) [] =
      Some (map (row_sync_view sample_sha ''/data/blobs'' (hb_store sample_hub))
        (events (hb_store sample_hub)), cursor) \<and> cursor_at cursor 1"
proof -
  have n: "length (events (hb_store sample_hub)) = 1"
    using arg_cong [OF sample_served(2), of length] by simp
  show ?thesis
    using sync_pull_complete [OF sample_reachable, of sample_env "[]" 0 1]
    by (simp add: n cursor_at_def sample_site_def del: sync_pages.simps)
qed

text \<open>When a pushed event can be stored, as far as the event itself and the pusher go.\<close>

definition pushable :: "sys \<Rightarrow> grant \<Rightarrow> sync_event_in \<Rightarrow> bool" where
  "pushable S g ev =
     (sn_event_id ev \<noteq> [] \<and> sn_namespace ev \<noteq> [] \<and> sn_stream_id ev \<noteq> []
      \<and> \<not> (sy_strict_push S \<and> sn_principal ev \<noteq> [] \<and> sn_principal ev \<noteq> idn_issued_by (gt_identifier g))
      \<and> decode_std_base64 (sn_ciphertext ev) \<noteq> None
      \<and> \<not> (sn_stream_type ev = ''history'' \<and> coalesce [] (pushed_claim ev) \<noteq> []
           \<and> coalesce [] (pushed_claim ev) \<noteq> pushed_recomputed S ev))"

definition event_ids :: "store \<Rightarrow> string set" where
  "event_ids s = ev_id ` set (events s)"

definition storing :: "env \<Rightarrow> bool" where
  "storing e = (en_write e = WriteOk \<and> \<not> en_fault e ''IngestEvent'')"

lemma push_one_not_pushable:
  "\<not> pushable S g ev \<Longrightarrow> \<exists>out. push_one S e g ev s = (out, s) \<and> out \<noteq> Accepted"
  by (auto simp: pushable_def push_one_def Let_def split: option.splits)

lemma push_one_pushable:
  assumes "pushable S g ev" and "storing e"
  obtains c where "decode_std_base64 (sn_ciphertext ev) = Some c"
    "events (snd (push_one S e g ev s)) = events s \<or> sn_event_id ev \<notin> event_ids s"
    "event_ids (snd (push_one S e g ev s)) = insert (sn_event_id ev) (event_ids s)"
    "blobs (snd (push_one S e g ev s)) = (blobs s)
       (blob_path (sy_sha256 S) (sy_blobs_root S) (sn_namespace ev) (sn_event_id ev) \<mapsto> c)"
    "fst (push_one S e g ev s) = (if sn_event_id ev \<in> event_ids s then Skipped else Accepted)"
proof -
  obtain c where c: "decode_std_base64 (sn_ciphertext ev) = Some c"
    using assms(1) by (auto simp: pushable_def)
  define s1 where "s1 = s\<lparr>blobs := (blobs s)
    (blob_path (sy_sha256 S) (sy_blobs_root S) (sn_namespace ev) (sn_event_id ev) \<mapsto> c)\<rparr>"
  define i where "i = push_input S ev c
    (blob_path (sy_sha256 S) (sy_blobs_root S) (sn_namespace ev) (sn_event_id ev))
    (if sn_stream_type ev = ''history'' then Some (pushed_recomputed S ev) else pushed_claim ev)"
  have w: "write_blob (sy_sha256 S) (sy_blobs_root S) e (sn_namespace ev) (sn_event_id ev) c s
     = (Inr (blob_path (sy_sha256 S) (sy_blobs_root S) (sn_namespace ev) (sn_event_id ev)), s1)"
    using assms(2) by (simp add: write_blob_def storing_def s1_def Let_def)
  have p: "push_one S e g ev s = (case ingest_event e i s1 of
      (Inl err, s2) \<Rightarrow> (if err = ErrAlreadyPresent then Skipped
         else SkippedWith (IngestFailed (sn_event_id ev)), s2)
    | (Inr _, s2) \<Rightarrow> (Accepted, s2))"
  proof -
    have a: "(sn_event_id ev = [] \<or> sn_namespace ev = [] \<or> sn_stream_id ev = []) = False"
      "(sy_strict_push S \<and> sn_principal ev \<noteq> [] \<and> sn_principal ev \<noteq> idn_issued_by (gt_identifier g))
        = False"
      "(sn_stream_type ev = ''history'' \<and> coalesce [] (pushed_claim ev) \<noteq> []
           \<and> coalesce [] (pushed_claim ev) \<noteq> pushed_recomputed S ev) = False"
      using assms(1) by (auto simp: pushable_def)
    show ?thesis
      by (simp only: push_one_def Let_def a c w i_def if_False option.case sum.case prod.case)
  qed
  have ev: "events s1 = events s" by (simp add: s1_def)
  have ids: "ii_event_id i = sn_event_id ev" "ii_namespace i = sn_namespace ev"
    "ii_stream_id i = sn_stream_id ev" by (simp_all add: i_def)
  have "ingest_event e i s1 =
    (if sn_event_id ev \<in> event_ids s then (Inl ErrAlreadyPresent, s1)
     else (Inr (), add_event (ingest_time e i)
              (ingest_row e i (next_seq (ii_namespace i) (ii_stream_id i) s1)) s1))"
    using assms by (simp add: ingest_event_eq ids ev pushable_def storing_def event_ids_def)
  then show thesis
    using p by (intro that [OF c])
      (auto simp: event_ids_def events_add_event ev ids frame_simps s1_def)
qed

lemma push_one_ids:
  assumes "storing e"
  shows "event_ids (snd (push_one S e g ev s)) =
    event_ids s \<union> (if pushable S g ev then {sn_event_id ev} else {})"
proof (cases "pushable S g ev")
  case True
  show ?thesis by (rule push_one_pushable [OF True assms]) (use True in simp)
next
  case False
  then show ?thesis using push_one_not_pushable [OF False, of e s] by auto
qed

lemma push_all_ids:
  assumes "storing e"
  shows "event_ids (snd (push_all S e g evs s)) =
    event_ids s \<union> sn_event_id ` {ev \<in> set evs. pushable S g ev}"
proof (induction evs arbitrary: s)
  case (Cons ev evs)
  then show ?case
    using push_one_ids [OF assms, of S g ev s] by (auto simp: case_prod_unfold Let_def)
qed simp

lemma push_one_known:
  assumes "pushable S g ev \<Longrightarrow> sn_event_id ev \<in> event_ids s"
  shows "fst (push_one S e g ev s) \<noteq> Accepted \<and> events (snd (push_one S e g ev s)) = events s"
proof (cases "pushable S g ev")
  case False
  then show ?thesis using push_one_not_pushable [OF False, of e s] by auto
next
  case True
  have w: "write_blob (sy_sha256 S) (sy_blobs_root S) e ns eid c s = (r, s1) \<Longrightarrow> events s1 = events s"
    for ns eid c r s1
    by (auto simp: write_blob_def Let_def split: write_outcome.splits)
  show ?thesis
  proof (cases rule: push_one_cases [of S e g ev s])
    case (3 c path s1 hash out)
    then have "ii_event_id (push_input S ev c path hash) \<in> ev_id ` set (events s1)"
      using assms [OF True] w by (simp add: event_ids_def)
    then show ?thesis using 3(3,4) w [OF 3(2)] by (simp add: ingest_event_eq)
  next
    case (2 s1)
    then show ?thesis using w by auto
  qed simp
qed

lemma push_all_known:
  assumes "\<forall>ev\<in>set evs. pushable S g ev \<longrightarrow> sn_event_id ev \<in> event_ids s"
  shows "Accepted \<notin> set (fst (push_all S e g evs s)) \<and> events (snd (push_all S e g evs s)) = events s"
  using assms
proof (induction evs arbitrary: s)
  case (Cons ev evs)
  have 1: "fst (push_one S e g ev s) \<noteq> Accepted \<and> events (snd (push_one S e g ev s)) = events s"
    by (rule push_one_known) (use Cons.prems in simp)
  then have "event_ids (snd (push_one S e g ev s)) = event_ids s" by (simp add: event_ids_def)
  then show ?case
    using 1 Cons.IH [of "snd (push_one S e g ev s)"] Cons.prems by (auto simp: case_prod_unfold Let_def)
qed simp

text \<open>
  C10: replication into a Hub is a union. Whatever batch is pushed, in whatever order and with
  whatever duplicates, the identifiers the Hub holds afterwards are those it held and those of the
  events of the batch that are well-formed, attributed as the Hub's strictness demands and, on
  history streams, carry the hash that their fields have.
\<close>

theorem push_is_union:
  assumes "storing e"
  shows "event_ids (snd (push_all S e g evs s)) =
    event_ids s \<union> sn_event_id ` {ev \<in> set evs. pushable S g ev}"
  by (rule push_all_ids [OF assms])

text \<open>
  C32: pushing a batch again changes nothing in the log: no event is accepted a second time, in
  whatever environment the repetition runs (a full disk, a failing database), and the log is the one
  the first push left.
\<close>

theorem push_is_idempotent:
  assumes "storing e" and "push_all S e g evs s = (os, s1)"
  shows "Accepted \<notin> set (fst (push_all S e' g evs s1))
    \<and> events (snd (push_all S e' g evs s1)) = events s1"
proof (rule push_all_known, intro ballI impI)
  fix ev assume "ev \<in> set evs" "pushable S g ev"
  then show "sn_event_id ev \<in> event_ids s1"
    using push_all_ids [OF assms(1), of S g evs s] assms(2) by auto
qed

text \<open>
  C34: an event the Hub already has is counted as skipped, yet its ciphertext file is replaced: the
  blob is written before the identifier is looked up. Whoever may push can so overwrite the content
  of any event, while its row (and the hash of a history event) stays.
\<close>

theorem push_replaces_known_ciphertext:
  assumes "storing e" "pushable S g ev" "decode_std_base64 (sn_ciphertext ev) = Some c"
    and "r \<in> set (events s)" "ev_id r = sn_event_id ev" "ev_namespace r = sn_namespace ev"
    and "\<not> en_fault e' ''ReadBlob''"
  shows "fst (push_one S e g ev s) = Skipped \<and> events (snd (push_one S e g ev s)) = events s
    \<and> sum_map re_ciphertext (load_event (sy_sha256 S) (sy_blobs_root S) e'
        (snd (push_one S e g ev s)) r) = Inr c"
proof -
  have id: "sn_event_id ev \<in> event_ids s" using assms(4,5) by (force simp: event_ids_def)
  have "events (snd (push_one S e g ev s)) = events s"
    using push_one_known [of S g ev s e] id by blast
  moreover have "fst (push_one S e g ev s) = Skipped \<and> blobs (snd (push_one S e g ev s)) =
      (blobs s) (blob_path (sy_sha256 S) (sy_blobs_root S) (sn_namespace ev) (sn_event_id ev) \<mapsto> c)"
    by (rule push_one_pushable [OF assms(2,1), of s]) (use id assms(3) in simp)
  ultimately show ?thesis using assms(5-7) by (simp add: load_event_def read_blob_def)
qed

definition sample_event :: sync_event_in where
  "sample_event =
     \<lparr>sn_namespace = ''notes'', sn_stream_id = ''s1'', sn_stream_type = ''vault'',
      sn_event_id = ''E9'', sn_kind = ''note'', sn_ciphertext = b64_encode std_encoding sample_payload,
      sn_metadata = [], sn_deps = [], sn_clock = [], sn_prev_hash = [], sn_hash = [],
      sn_appended_at = [], sn_principal = ''peer'', sn_grant_id = ''g9''\<rparr>"

lemma sample_event_pushable: "pushable sealed_sys g sample_event"
  by (simp add: pushable_def sample_event_def decode_std_base64_def sealed_sys_def sample_sys_def)

lemma storing_sample [simp]: "storing sample_env"
  by (simp add: storing_def)

theorem push_is_union_witness:
  "event_ids (snd (push_all sealed_sys sample_env issued_grant
      [sample_event, sample_event\<lparr>sn_event_id := []\<rparr>, sample_event] empty_store)) = {''E9''}"
proof -
  have "\<not> pushable sealed_sys issued_grant (sample_event\<lparr>sn_event_id := []\<rparr>)"
    by (simp add: pushable_def)
  moreover have "sn_event_id sample_event = ''E9''" by (simp add: sample_event_def)
  moreover have "event_ids empty_store = {}" by (simp add: event_ids_def empty_store_def)
  moreover have "{ev \<in> {sample_event, sample_event\<lparr>sn_event_id := []\<rparr>}. pushable sealed_sys issued_grant ev}
      = {sample_event}"
    using calculation(1) sample_event_pushable by auto
  ultimately show ?thesis
    unfolding push_is_union [OF storing_sample] by (simp add: insert_commute)
qed

theorem push_is_idempotent_witness:
  "Accepted \<notin> set (fst (push_all sealed_sys (sample_env\<lparr>en_write := WriteNotOpened\<rparr>) issued_grant
      [sample_event] (snd (push_all sealed_sys sample_env issued_grant [sample_event] empty_store))))"
  using push_is_idempotent [OF storing_sample, of sealed_sys issued_grant "[sample_event]" empty_store
      "fst (push_all sealed_sys sample_env issued_grant [sample_event] empty_store)"
      "snd (push_all sealed_sys sample_env issued_grant [sample_event] empty_store)"]
  by (simp only: prod.collapse simp_thms)

text \<open>The event of the sample Hub, overwritten with other bytes.\<close>

theorem push_replaces_known_ciphertext_witness:
  "\<exists>r\<in>set (events (hb_store sample_hub)).
     sum_map re_ciphertext (load_event sample_sha ''/data/blobs'' sample_env
       (snd (push_one sealed_sys sample_env issued_grant
          (sample_event\<lparr>sn_event_id := ev_id r, sn_namespace := ev_namespace r,
             sn_ciphertext := b64_encode std_encoding ''forged''\<rparr>) (hb_store sample_hub))) r)
     = Inr ''forged''"
proof -
  have "events (hb_store sample_hub) \<noteq> []" using sample_served(2) by auto
  then obtain r where r: "r \<in> set (events (hb_store sample_hub))" by (cases "events (hb_store sample_hub)") auto
  then have "ev_id r \<in> set (map ev_id (events (hb_store sample_hub)))"
    "event_key r \<in> set (map event_key (events (hb_store sample_hub)))" by simp_all
  then have "ev_id r \<noteq> []" "ev_namespace r \<noteq> []"
    unfolding sample_served(2,3) by (auto simp: event_key_def)
  then have p: "pushable sealed_sys issued_grant (sample_event\<lparr>sn_event_id := ev_id r,
      sn_namespace := ev_namespace r, sn_ciphertext := b64_encode std_encoding ''forged''\<rparr>)"
    using sample_event_pushable
    by (simp add: pushable_def sample_event_def decode_std_base64_def del: b64_encode.simps)
  then show ?thesis
    using push_replaces_known_ciphertext [OF storing_sample p, of "''forged''" r] r
    by (intro bexI [OF _ r]) (simp add: decode_std_base64_def del: b64_encode.simps)
qed

section \<open>History chains\<close>

lemma history_head_moves:
  assumes "store_inv s" and "append_history_event sha e i path eid s = (Inr x, s')"
  shows "coalesce [] (current_head (hi_stream_id i) s') = hr_event_hash x"
    and "stream_events history_namespace (hi_stream_id i) s' =
      stream_events history_namespace (hi_stream_id i) s @ [history_row sha e i path eid s]"
proof -
  have s': "s' = add_event (now_rfc3339 e) (history_row sha e i path eid s) s"
    and x: "hr_event_hash x = coalesce [] (ev_hash (history_row sha e i path eid s))"
    using assms(2) by (auto simp: append_history_event_eq split: if_splits)
  show evs: "stream_events history_namespace (hi_stream_id i) s' =
      stream_events history_namespace (hi_stream_id i) s @ [history_row sha e i path eid s]"
    by (simp add: s' stream_events_add_event)
  have "store_inv s'" using append_history_inv [OF assms(1), of sha e i path eid] assms(2) by simp
  then show "coalesce [] (current_head (hi_stream_id i) s') = hr_event_hash x"
    by (simp add: current_head_last evs last_hash_def x)
qed


definition sample_history :: "bytes \<Rightarrow> history_input" where
  "sample_history prev = \<lparr>hi_stream_id = ''audit'', hi_kind = ''k'', hi_ciphertext = ''c'',
     hi_metadata = ''m'', hi_causal_deps = ''[]'', hi_vector_clock = ''{}'', hi_prev_hash = prev,
     hi_principal = ''owner'', hi_grant_id = ''g1'', hi_device = []\<rparr>"

text \<open>Two writers who both saw the empty stream; the second one is refused.\<close>

definition two_writers :: "history_request list" where
  "two_writers = [(sample_env, sample_history [], ''p'', ''E1''), (sample_env, sample_history [], ''p'', ''E2'')]"

lemma sample_history_simps [simp]:
  "hi_stream_id (sample_history prev) = ''audit''" "hi_prev_hash (sample_history prev) = prev"
  "hi_causal_deps (sample_history prev) = ''[]''"
  by (simp_all add: sample_history_def)

lemma first_history:
  obtains x where "append_history_event sample_sha sample_env (sample_history []) ''p'' ''E1'' empty_store =
      (Inr x, snd (append_history_event sample_sha sample_env (sample_history []) ''p'' ''E1'' empty_store))"
    "length (hr_event_hash x) = 32"
  by (simp add: append_history_event_eq current_head_def lookup_stream_def empty_store_def
      history_row_def compute_history_event_hash_def Let_def)


text \<open>
  C27: the verifier is exact. On a consistent store it accepts a stream if and only if every row holds
  its predecessor's hash and the hash of its own fields, and otherwise it names the first row that
  does not, with the number and head of the intact rows before it.
\<close>

theorem verifier_is_exact:
  assumes "store_inv s" and "verify_history_chain sha e sid s = Inr v"
  shows "(vr_verified v \<longleftrightarrow> chain_ok sha [] (stream_events history_namespace sid s))
    \<and> (\<not> vr_verified v \<longrightarrow> (\<exists>k < length (stream_events history_namespace sid s).
          chain_ok sha [] (take k (stream_events history_namespace sid s))
        \<and> \<not> chain_ok sha [] (take (Suc k) (stream_events history_namespace sid s))
        \<and> vr_length v = k \<and> vr_broken_at v = ev_id (stream_events history_namespace sid s ! k)
        \<and> vr_head_hash v = last_hash [] (take k (stream_events history_namespace sid s))))"
proof -
  let ?rs = "stream_events history_namespace sid s"
  have v: "v = verify_walk sha [] 0 ?rs"
    using assms by (auto simp: verify_history_chain_def by_seq_stream split: if_splits)
  show ?thesis
  proof (cases "chain_ok sha [] ?rs")
    case True
    then show ?thesis by (simp add: v verify_walk_ok)
  next
    case False
    then show ?thesis using verify_walk_broken [OF False, of 0] by (auto simp: v)
  qed
qed

definition tampered :: store where
  "tampered = snd (append_history_event sample_sha sample_env ((sample_history [])\<lparr>hi_causal_deps := []\<rparr>)
     ''p'' ''E1'' empty_store)"

theorem verifier_is_exact_witness:
  "store_inv tampered \<and> (\<exists>v. verify_history_chain sample_sha sample_env ''audit'' tampered = Inr v
     \<and> (vr_verified v \<longleftrightarrow> chain_ok sample_sha [] (stream_events history_namespace ''audit'' tampered)))"
proof -
  have i: "store_inv tampered"
    unfolding tampered_def by (rule append_history_inv [OF store_inv_empty])
  obtain v where v: "verify_history_chain sample_sha sample_env ''audit'' tampered = Inr v"
    by (simp add: verify_history_chain_def)
  show ?thesis using verifier_is_exact [OF i v] i v by blast
qed

text \<open>
  Appends to a history stream are serialised by its head hash. Of two writers that name the same
  head the first wins, the stream's head becomes the hash of its event, and the second is told of the
  conflict and changes nothing (unless the hash function maps the event back to the old head).
\<close>

theorem history_appends_serialise:
  assumes "store_inv s" and "append_history_event sha e i path eid s = (Inr x, s')"
    and "hi_stream_id j = hi_stream_id i" "hi_prev_hash j = hi_prev_hash i"
    and "hr_event_hash x \<noteq> hi_prev_hash i" and "\<not> en_fault e' ''AppendHistoryEvent''"
  shows "coalesce [] (current_head (hi_stream_id i) s') = hr_event_hash x
    \<and> append_history_event sha e' j path' eid' s' = (Inl ErrHistoryConflict, s')"
  using history_head_moves(1) [OF assms(1,2)] assms(3-6) by (simp add: append_history_event_eq)

theorem history_appends_serialise_witness:
  "append_history_event sample_sha sample_env (sample_history []) ''p'' ''E2''
      (snd (append_history_event sample_sha sample_env (sample_history []) ''p'' ''E1'' empty_store))
    = (Inl ErrHistoryConflict,
       snd (append_history_event sample_sha sample_env (sample_history []) ''p'' ''E1'' empty_store))"
proof (rule first_history)
  fix x assume x: "append_history_event sample_sha sample_env (sample_history []) ''p'' ''E1'' empty_store =
      (Inr x, snd (append_history_event sample_sha sample_env (sample_history []) ''p'' ''E1'' empty_store))"
    "length (hr_event_hash x) = 32"
  have "hr_event_hash x \<noteq> []" using x(2) by auto
  then show ?thesis
    using history_appends_serialise [OF store_inv_empty x(1), of "sample_history []" sample_env] by simp
qed

text \<open>The boundary between an event's kind and its metadata, moved.\<close>

definition resplit :: "nat \<Rightarrow> event_row \<Rightarrow> event_row" where
  "resplit n r =
     (let text = ev_kind r @ coalesce [] (ev_metadata r)
      in r\<lparr>ev_kind := take n text, ev_metadata := Some (drop n text)\<rparr>)"

lemma resplit_keeps [simp]:
  "event_key (resplit n r) = event_key r" "ev_seq (resplit n r) = ev_seq r"
  "row_hash sha (resplit n r) = row_hash sha r" "ev_id (resplit n r) = ev_id r"
  "ev_prev_hash (resplit n r) = ev_prev_hash r" "ev_hash (resplit n r) = ev_hash r"
proof -
  have td: "take n (a @ b) @ drop n (a @ b) @ c = a @ b @ c" for a b c :: string
    by (metis append.assoc append_take_drop_id)
  show "row_hash sha (resplit n r) = row_hash sha r"
    by (simp add: resplit_def row_hash_def compute_history_event_hash_def Let_def td
        del: take_append drop_append)
qed (simp_all add: resplit_def Let_def event_key_def)

lemma verify_walk_row_hash:
  "verify_walk sha expected n (r # rs) =
     (if coalesce [] (ev_prev_hash r) \<noteq> expected \<or> row_hash sha r \<noteq> coalesce [] (ev_hash r)
      then \<lparr>vr_verified = False, vr_length = n, vr_head_hash = expected, vr_broken_at = ev_id r\<rparr>
      else verify_walk sha (coalesce [] (ev_hash r)) (n + 1) rs)"
  by (simp add: row_hash_def Let_def)

lemma verify_walk_resplit: "verify_walk sha expected n (map (resplit k) rs) = verify_walk sha expected n rs"
  by (induction rs arbitrary: expected n) (simp_all add: verify_walk_row_hash del: verify_walk.simps(2))

lemma by_seq_resplit: "by_seq (map (resplit k) rs) = map (resplit k) (by_seq rs)"
proof -
  have "insort_key ev_seq (resplit k r) (map (resplit k) rs) = map (resplit k) (insort_key ev_seq r rs)"
    for r rs by (induction rs) auto
  then show ?thesis by (induction rs) (simp_all add: by_seq_def)
qed

text \<open>
  What a verified chain does not attest. The hashed fields are concatenated without separators
  and the content is not among them: moving the boundary between kind and metadata in every stored
  event, and replacing every ciphertext file, leaves the verifier's answer as it was, whatever the
  hash function.
\<close>

theorem history_tampering_undetected:
  "verify_history_chain sha e sid (s\<lparr>events := map (resplit n) (events s), blobs := b\<rparr>)
     = verify_history_chain sha e sid s"
proof -
  have "stream_events history_namespace sid (s\<lparr>events := map (resplit n) (events s), blobs := b\<rparr>)
      = map (resplit n) (stream_events history_namespace sid s)"
    by (simp add: stream_events_def filter_map comp_def)
  then show ?thesis by (simp add: verify_history_chain_def by_seq_resplit verify_walk_resplit)
qed

section \<open>Idempotency\<close>



section \<open>Single-use tokens\<close>

text \<open>
  C6: a crate token is redeemed at most once. However the statements of concurrent redemptions and
  cancellations interleave, at most one redemption of a token reports success, and the token's row
  then holds that caller's time, daemon key, fingerprint and capability.
\<close>

theorem crate_token_has_one_winner:
  assumes "crate_step\<^sup>*\<^sup>* c (cs, rs)" and "crate_start c"
    and "i < length cs" "redeemed_ok (cs ! i)"
  shows "holds_redemption (cs ! i) rs
    \<and> (\<forall>j < length cs. redeemed_ok (cs ! j) \<and> cc_secret (cs ! j) = cc_secret (cs ! i) \<longrightarrow> j = i)"
  using race_invD(2,3) [OF race_inv_reachable [OF assms(1,2)]] assms(3,4) by blast

definition redeemer :: "string \<Rightarrow> phase \<Rightarrow> crate_caller" where
  "redeemer d p = \<lparr>cc_op = Redeem \<lparr>rd_at = fmt_time 0, rd_daemon_pubkey = d, rd_fingerprint = d,
     rd_capability_id = d\<rparr>, cc_secret = ''s'', cc_now = 0, cc_phase = p\<rparr>"

lemma open_crate_check:
  "crate_check (redeemer d p) [open_crate] = Checked"
  by (simp add: crate_check_def redeemer_def open_crate_def redeem_check_def crate_token_of_row_def
      in_range_first_month)

lemma four_steps: "r a b \<Longrightarrow> r b c \<Longrightarrow> r c d \<Longrightarrow> r d x \<Longrightarrow> r\<^sup>*\<^sup>* a x"
  by (meson rtranclp.rtrancl_into_rtrancl rtranclp.rtrancl_refl)

text \<open>Two redeemers both pass the check before either updates the row.\<close>

lemma sample_race:
  obtains rs where "crate_step\<^sup>*\<^sup>* ([redeemer ''x'' Waiting, redeemer ''y'' Waiting], [open_crate])
    ([redeemer ''x'' (Finished (Inr ())),
      redeemer ''y'' (Finished (Inl ErrCratePairingTokenAlreadyRedeemed))], rs)"
proof -
  let ?a = "\<lparr>rd_at = fmt_time 0, rd_daemon_pubkey = ''x'', rd_fingerprint = ''x'', rd_capability_id = ''x''\<rparr>"
  have ph: "(redeemer d p)\<lparr>cc_phase := q\<rparr> = redeemer d q" "cc_phase (redeemer d p) = p" for d p q
    by (simp_all add: redeemer_def)
  have s1: "crate_step ([redeemer ''x'' Waiting, redeemer ''y'' Waiting], [open_crate])
      ([redeemer ''x'' Checked, redeemer ''y'' Waiting], [open_crate])"
    using check [of 0 "[redeemer ''x'' Waiting, redeemer ''y'' Waiting]" "[open_crate]"]
    by (simp add: ph open_crate_check)
  have s2: "crate_step ([redeemer ''x'' Checked, redeemer ''y'' Waiting], [open_crate])
      ([redeemer ''x'' Checked, redeemer ''y'' Checked], [open_crate])"
    using check [of 1 "[redeemer ''x'' Checked, redeemer ''y'' Waiting]" "[open_crate]"]
    by (simp add: ph open_crate_check)
  have s3: "crate_step ([redeemer ''x'' Checked, redeemer ''y'' Checked], [open_crate])
      ([redeemer ''x'' (Finished (Inr ())), redeemer ''y'' Checked], [redeem_row ?a open_crate])"
    using update [of 0 "[redeemer ''x'' Checked, redeemer ''y'' Checked]" "[open_crate]"
        "Inr ()" "[redeem_row ?a open_crate]"]
    by (simp add: ph) (simp add: crate_update_def redeemer_def redeem_update_def open_crate_def
        crate_open_def rows_matching_def update_where_def)
  have s4: "crate_step ([redeemer ''x'' (Finished (Inr ())), redeemer ''y'' Checked], [redeem_row ?a open_crate])
      ([redeemer ''x'' (Finished (Inr ())),
        redeemer ''y'' (Finished (Inl ErrCratePairingTokenAlreadyRedeemed))], [redeem_row ?a open_crate])"
    using update [of 1 "[redeemer ''x'' (Finished (Inr ())), redeemer ''y'' Checked]"
        "[redeem_row ?a open_crate]" "Inl ErrCratePairingTokenAlreadyRedeemed" "[redeem_row ?a open_crate]"]
    by (simp add: ph) (simp add: crate_update_def redeemer_def redeem_update_def open_crate_def
        crate_open_def rows_matching_def update_where_def redeem_row_def)
  show thesis by (rule that, rule four_steps [of crate_step, OF s1 s2 s3 s4])
qed

lemma sample_race_start: "crate_start ([redeemer ''x'' Waiting, redeemer ''y'' Waiting], [open_crate])"
  by (simp add: crate_start_def redeemer_def)

theorem crate_token_has_one_winner_witness:
  "\<exists>cs rs. crate_step\<^sup>*\<^sup>* ([redeemer ''x'' Waiting, redeemer ''y'' Waiting], [open_crate]) (cs, rs)
     \<and> redeemed_ok (cs ! 0) \<and> holds_redemption (cs ! 0) rs \<and> \<not> redeemed_ok (cs ! 1)"
proof (rule sample_race)
  fix rs
  let ?cs = "[redeemer ''x'' (Finished (Inr ())),
      redeemer ''y'' (Finished (Inl ErrCratePairingTokenAlreadyRedeemed))]"
  assume r: "crate_step\<^sup>*\<^sup>* ([redeemer ''x'' Waiting, redeemer ''y'' Waiting], [open_crate]) (?cs, rs)"
  have w: "redeemed_ok (?cs ! 0)" "\<not> redeemed_ok (?cs ! 1)"
    by (simp_all add: redeemed_ok_def redeemer_def)
  then have "holds_redemption (?cs ! 0) rs"
    using crate_token_has_one_winner [OF r sample_race_start, of 0] by simp
  then show ?thesis using r w by blast
qed

definition pairer :: "string \<Rightarrow> phase \<Rightarrow> pairing_caller" where
  "pairer d p = \<lparr>pl_token = ''t'', pl_device = d, pl_now = 0, pl_phase = p\<rparr>"

definition open_pairing :: pairing_row where
  "open_pairing = \<lparr>pt_token = ''t'', pt_numeric_code = None, pt_initiated_by = ''owner'',
     pt_initiated_at = fmt_time 0, pt_expires_at = fmt_time 86400000000000, pt_completed_at = None,
     pt_completed_by = None, pt_fif_commitment = None\<rparr>"

text \<open>
  A device pairing lacks that protection. Two devices that both pass the check before either
  updates the row are both told that the pairing succeeded, though the row names only the first.
\<close>

theorem pairing_admits_two_devices:
  "\<exists>rs. pairing_step\<^sup>*\<^sup>* ([pairer ''phone'' Waiting, pairer ''laptop'' Waiting], [open_pairing])
       ([pairer ''phone'' (Finished (Inr ())), pairer ''laptop'' (Finished (Inr ()))], rs)
     \<and> map pt_completed_by rs = [Some ''phone'']"
proof -
  let ?r = "complete_row (fmt_time 0, ''phone'') open_pairing"
  have ph: "(pairer d p)\<lparr>pl_phase := q\<rparr> = pairer d q" "pl_phase (pairer d p) = p" for d p q
    by (simp_all add: pairer_def)
  have c: "pairing_check (pairer d Waiting) [open_pairing] = Checked" for d
    by (simp add: pairing_check_def pairer_def open_pairing_def complete_check_def pairing_of_row_def
        in_range_first_month)
  have s1: "pairing_step ([pairer ''phone'' Waiting, pairer ''laptop'' Waiting], [open_pairing])
      ([pairer ''phone'' Checked, pairer ''laptop'' Waiting], [open_pairing])"
    using pcheck [of 0 "[pairer ''phone'' Waiting, pairer ''laptop'' Waiting]" "[open_pairing]"]
    by (simp add: ph c)
  have s2: "pairing_step ([pairer ''phone'' Checked, pairer ''laptop'' Waiting], [open_pairing])
      ([pairer ''phone'' Checked, pairer ''laptop'' Checked], [open_pairing])"
    using pcheck [of 1 "[pairer ''phone'' Checked, pairer ''laptop'' Waiting]" "[open_pairing]"]
    by (simp add: ph c)
  have u: "complete_update 0 d ''t'' [open_pairing] = [complete_row (fmt_time 0, d) open_pairing]"
    "complete_update 0 d ''t'' [?r] = [?r]" for d
    by (simp_all add: complete_update_def update_where_def open_pairing_def pairing_open_def
        complete_row_def)
  have s3: "pairing_step ([pairer ''phone'' Checked, pairer ''laptop'' Checked], [open_pairing])
      ([pairer ''phone'' (Finished (Inr ())), pairer ''laptop'' Checked], [?r])"
    using pupdate [of 0 "[pairer ''phone'' Checked, pairer ''laptop'' Checked]" "[open_pairing]"] u
    by (simp add: ph) (simp add: pairer_def)
  have s4: "pairing_step ([pairer ''phone'' (Finished (Inr ())), pairer ''laptop'' Checked], [?r])
      ([pairer ''phone'' (Finished (Inr ())), pairer ''laptop'' (Finished (Inr ()))], [?r])"
    using pupdate [of 1 "[pairer ''phone'' (Finished (Inr ())), pairer ''laptop'' Checked]" "[?r]"] u
    by (simp add: ph) (simp add: pairer_def)
  have "pairing_step\<^sup>*\<^sup>* ([pairer ''phone'' Waiting, pairer ''laptop'' Waiting], [open_pairing])
       ([pairer ''phone'' (Finished (Inr ())), pairer ''laptop'' (Finished (Inr ()))], [?r])"
    by (rule four_steps [of pairing_step, OF s1 s2 s3 s4])
  then show ?thesis by (intro exI [of _ "[?r]"]) (simp add: complete_row_def)
qed

definition unique_secrets :: "store \<Rightarrow> bool" where
  "unique_secrets s = distinct (map ct_secret (crate_pairing_tokens s))"

lemma unique_secrets_cong:
  "crate_pairing_tokens s' = crate_pairing_tokens s \<Longrightarrow> unique_secrets s' = unique_secrets s"
  by (simp add: unique_secrets_def)

lemma unique_secrets_create: "unique_secrets s \<Longrightarrow> unique_secrets (snd (create_crate_token e ck s))"
  by (auto simp: unique_secrets_def create_crate_token_def Let_def lookup_by_None_iff)

lemma unique_secrets_consume:
  "unique_secrets s \<Longrightarrow> unique_secrets (snd (redeem_crate_token e sec pubkey fp cap s))"
  "unique_secrets s \<Longrightarrow> unique_secrets (snd (cancel_crate_token e sec s))"
  by (auto simp: unique_secrets_def redeem_crate_token_def redeem_update_attempt
      cancel_crate_token_def cancel_update_attempt crate_redemption.attempt_keys
      crate_cancellation.attempt_keys Let_def split: sum.splits option.splits unit.splits prod.splits)

interpretation secrets: store_invariant S unique_secrets for S
proof
  fix s s'
  assume "store_step S s s'" "unique_secrets s"
  then show "unique_secrets s'"
    by (induction rule: store_step.induct)
      (simp_all add: unique_secrets_create unique_secrets_consume frame_simps cong: unique_secrets_cong)
qed

lemma reachable_secrets: "reachable A h \<Longrightarrow> unique_secrets (hb_store h)"
proof -
  assume "reachable A h"
  then have "evolves (si_sys A) (hb_store empty_hub) (hb_store h)"
    unfolding reachable_def by (rule hub_steps_evolve)
  then show "unique_secrets (hb_store h)"
    by (rule secrets.kept) (simp add: unique_secrets_def empty_hub_def empty_store_def)
qed

text \<open>
  A crate token that is redeemed or cancelled stays so. Whatever requests the Hub serves
  afterwards, the token's row does not change and no redemption of it succeeds.
\<close>

theorem closed_crate_token_stays_closed:
  assumes "reachable A h" and "(hub_step A)\<^sup>*\<^sup>* h h'" and "closed_crate sec r (hb_store h)"
  shows "lookup_by ct_secret sec (crate_pairing_tokens (hb_store h')) = Some r
    \<and> (\<exists>err. redeem_crate_token e sec key fp cap (hb_store h') = (Inl err, hb_store h'))"
proof -
  have "closed_crate sec r (hb_store h')"
    by (rule crate_closed.kept [OF hub_steps_evolve [OF assms(2)] assms(3)])
  then have r: "lookup_by ct_secret sec (crate_pairing_tokens (hb_store h')) = Some r" "\<not> crate_open r"
    by (simp_all add: closed_crate_def)
  have "reachable A h'" using assms(1,2) by (simp add: reachable_def)
  then have "distinct (map ct_secret (crate_pairing_tokens (hb_store h')))"
    using reachable_secrets by (simp add: unique_secrets_def)
  then have "rows_matching (crate_redemption.guarded sec) (crate_pairing_tokens (hb_store h')) = 0"
    using crate_redemption.hits_iff_open [of "crate_pairing_tokens (hb_store h')" sec] r by auto
  then show ?thesis
    using r redeem_check_error
    by (auto simp: redeem_crate_token_def lookup_crate_token_def redeem_update_attempt
        split: option.splits sum.splits unit.splits)
qed

theorem closed_crate_token_stays_closed_witness:
  "\<exists>r err. closed_crate ''s'' r (hb_store hub_with_cancelled_crate)
     \<and> redeem_crate_token sample_env ''s'' ''d'' ''f'' ''c'' (hb_store hub_with_cancelled_crate)
         = (Inl err, hb_store hub_with_cancelled_crate)"
proof -
  obtain r where r: "closed_crate ''s'' r (hb_store hub_with_cancelled_crate)"
    using hub_with_cancelled_crate_row by blast
  show ?thesis
    using closed_crate_token_stays_closed [OF hub_with_cancelled_crate_reachable _ r,
        of hub_with_cancelled_crate sample_env] r by blast
qed

section \<open>The place of the blobs\<close>

lemma hash_dirs:
  assumes "length (sha x) = 32"
  shows "length (take 2 (hex_encode (sha x))) = 2" "length (take 2 (drop 2 (hex_encode (sha x)))) = 2"
    "set (take 2 (hex_encode (sha x))) \<subseteq> set ''0123456789abcdef''"
    "set (take 2 (drop 2 (hex_encode (sha x)))) \<subseteq> set ''0123456789abcdef''"
proof -
  show "length (take 2 (hex_encode (sha x))) = 2" "length (take 2 (drop 2 (hex_encode (sha x)))) = 2"
    using assms by simp_all
  show "set (take 2 (hex_encode (sha x))) \<subseteq> set ''0123456789abcdef''"
    "set (take 2 (drop 2 (hex_encode (sha x)))) \<subseteq> set ''0123456789abcdef''"
    using hex_encode_charset by (meson in_set_dropD in_set_takeD subsetI)+
qed

text \<open>
  The ciphertext of an event whose identifier is an ordinary file name, such as the ULIDs that the
  Hub draws, lies in the two-level directory below the blob root that the hash of identifier and
  namespace selects; the namespace, which clients choose freely, has no other part in the path.
\<close>

theorem blob_file_below_root:
  assumes "clean_root rt es" and "\<And>x. length (sha x) = 32" and "plain_elem (eid @ ''.bin'')"
  shows "\<exists>d1 d2. blob_path sha rt ns eid = rt @ ''/'' @ d1 @ ''/'' @ d2 @ ''/'' @ eid @ ''.bin''
    \<and> length d1 = 2 \<and> length d2 = 2 \<and> set (d1 @ d2) \<subseteq> set ''0123456789abcdef''"
  unfolding blob_path_plain [OF assms]
  using hash_dirs [of sha "eid @ ns", OF assms(2)]
  by (intro exI [of _ "take 2 (hex_encode (sha (eid @ ns)))"]
      exI [of _ "take 2 (drop 2 (hex_encode (sha (eid @ ns))))"]) auto

theorem blob_file_below_root_witness:
  "\<exists>d1 d2. blob_path sample_sha ''/data/blobs'' ''../../etc'' ''01ARZ3'' =
      ''/data/blobs'' @ ''/'' @ d1 @ ''/'' @ d2 @ ''/'' @ ''01ARZ3'' @ ''.bin''
    \<and> length d1 = 2 \<and> length d2 = 2 \<and> set (d1 @ d2) \<subseteq> set ''0123456789abcdef''"
  by (rule blob_file_below_root [of _ "[''data'', ''blobs'']"])
    (simp_all add: clean_root_def plain_elem_def)

text \<open>
  The identifier of a pushed event is the peer's choice and is not checked. One that holds path
  elements leaves the directory: the file of such an event is outside the blob root, wherever the
  hash points and whatever the namespace.
\<close>

theorem blob_file_escapes_root:
  assumes "\<And>x. length (sha x) = 32"
  shows "blob_path sha ''/data/blobs'' ns ''../../../../etc/cron'' = ''/etc/cron.bin''"
proof -
  let ?h = "hex_encode (sha (''../../../../etc/cron'' @ ns))"
  have h: "length d = 2 \<and> set d \<subseteq> set ''0123456789abcdef''" if "d = take 2 ?h \<or> d = take 2 (drop 2 ?h)" for d
    using hash_dirs [of sha "''../../../../etc/cron'' @ ns", OF assms] that by (elim disjE) (simp_all only:)
  have p: "plain_elem d" if "d = take 2 ?h \<or> d = take 2 (drop 2 ?h)" for d
    using h [OF that] by (auto simp: plain_elem_def)
  let ?ws = "[''data'', ''blobs'', take 2 ?h, take 2 (drop 2 ?h), ''..'', ''..'', ''..'', ''..'',
    ''etc'', ''cron.bin'']"
  have c: "CHR ''/'' \<notin> set (take 2 ?h)" "CHR ''/'' \<notin> set (take 2 (drop 2 ?h))"
    using p by (auto simp: plain_elem_def)
  have "blob_path sha ''/data/blobs'' ns ''../../../../etc/cron'' = path_clean (join_with ''/'' ([] # ?ws))"
    using p [of "take 2 ?h"] p [of "take 2 (drop 2 ?h)"]
    by (simp add: blob_path_def Let_def path_join_def plain_elem_def)
  also have "\<dots> = ''/'' @ join_with ''/'' (clean_elems True ([] # ?ws))"
  proof -
    have "split_char CHR ''/'' (join_with ''/'' ([] # ?ws)) = [] # ?ws"
      by (rule split_join) (use c in auto)
    moreover have "is_abs (join_with ''/'' ([] # ?ws))" "join_with ''/'' ([] # ?ws) \<noteq> []"
      by (simp_all add: is_abs_def has_prefix_def)
    ultimately show ?thesis by (simp only: path_clean_def Let_def if_False if_True)
  qed
  also have "clean_elems True ([] # ?ws) = [''etc'', ''cron.bin'']"
    using p [of "take 2 ?h"] p [of "take 2 (drop 2 ?h)"]
    by (simp add: clean_elems_def clean_step_def plain_elem_def)
  finally show ?thesis by simp
qed

theorem blob_file_escapes_root_witness:
  "blob_path sample_sha ''/data/blobs'' ''notes'' ''../../../../etc/cron'' = ''/etc/cron.bin''"
  by (rule blob_file_escapes_root) simp

end
