(* ===== verification/Access.thy ===== *)
theory Access
  imports Hub
begin

text \<open>
  Which permission every endpoint of the routing table demands, and the library for the claim that
  nothing is done or told without it: a handler's result is \<open>guarded\<close> when checkAuth has let the
  request through, or the request was refused and the Hub's data is as it was.
\<close>

section \<open>The permission an endpoint demands\<close>

text \<open>Primitive, namespace and operation, as each handler passes them to checkAuth.\<close>

definition permission :: "requirement \<Rightarrow> string \<times> string \<times> string" where
  "permission rq = (rq_primitive rq, rq_namespace rq, rq_operation rq)"

lemma permission_need [simp]: "permission (need p ns op) = (p, ns, op)"
  "permission ((need p ns op)\<lparr>rq_is_delegation := d\<rparr>) = (p, ns, op)"
  "permission (bridge_requirement r host) = (''bridge'', [], ''call'')"
  by (simp_all add: permission_def need_def bridge_requirement_def)

fun demand :: "request \<Rightarrow> (string \<times> string \<times> string) option" where
  "demand (Health up_peers down_peers) = None"
| "demand Discover = None"
| "demand (VaultAppend q) =
     Some (''vault'', (case q of None \<Rightarrow> [] | Some r \<Rightarrow> va_namespace r), ''write'')"
| "demand (VaultRead ns sid since lmt) = Some (''vault'', ns, ''read'')"
| "demand (VaultListStreams ns) = Some (''vault'', ns, ''read'')"
| "demand (VaultSubscribe q ticks) =
     Some (''vault'', (case q of None \<Rightarrow> [] | Some r \<Rightarrow> sb_namespace r), ''subscribe'')"
| "demand (HistoryAppend q) = Some (''history'', [], ''write'')"
| "demand (HistoryRead sid since lmt) = Some (''history'', [], ''read'')"
| "demand (HistoryVerify sid) = Some (''history'', [], ''read'')"
| "demand IdentityPrincipal = Some (''identity'', [], ''read'')"
| "demand (PairInitiate q) = Some (''identity'', [], ''pair'')"
| "demand (PairComplete q) = None"
| "demand (GrantMint q) = Some (''grant'', [], ''mint'')"
| "demand (GrantVerify q) = Some (''grant'', [], ''verify'')"
| "demand (GrantRevoke q) = Some (''grant'', [], ''revoke'')"
| "demand (GrantDischarge q) = Some (''grant'', [], ''discharge'')"
| "demand LlmRoutes = Some (''llm'', [], ''read'')"
| "demand LlmComplete = Some (''llm'', [], ''invoke'')"
| "demand BridgeAdapters = Some (''bridge'', [], ''read'')"
| "demand (BridgeCall q) = Some (''bridge'', [], ''call'')"
| "demand (BridgeApprove q) = Some (''bridge'', [], ''approve'')"
| "demand (BridgePendingStatus pid) = Some (''bridge'', [], ''read'')"
| "demand (SyncPeers peers) = Some (''sync'', [], ''read'')"
| "demand (SyncPull since lmt) = Some (''sync'', [], ''pull'')"
| "demand (SyncPush q) = Some (''sync'', [], ''push'')"
| "demand SyncConflictAck = Some (''sync'', [], ''write'')"
| "demand (CrateIntent q) = Some (''identity'', [], ''pair'')"
| "demand (CrateCancel q) = Some (''identity'', [], ''pair'')"
| "demand (CrateRedeem q) = None"
| "demand CapabilityRefresh = Some (''sync'', [], ''read'')"
| "demand (CapabilityRevoke gid) = Some (''grant'', [], ''revoke'')"
| "demand (BucketRegister q) = Some (''identity'', [], ''pair'')"
| "demand BucketList = Some (''identity'', [], ''pair'')"
| "demand (BucketMetadata bid) = Some (''sync'', bid, ''read'')"
| "demand (CrateObject bid path c) =
     Some (''sync'', bid, if cl_method c \<in> {''PUT'', ''DELETE''} then ''write'' else ''read'')"
| "demand (CrateList bid pfx token max_keys c) = Some (''sync'', bid, ''read'')"
| "demand Cluster = None"
| "demand Preflight = None"

section \<open>What a response says\<close>

definition outline :: "'a reply \<Rightarrow> unit reply" where
  "outline r = map_reply (\<lambda>_. ()) r"

lemma outline_simps [simp]:
  "outline (Reply st x) = Reply st ()" "outline (Failure err) = Failure err"
  "outline NoReply = NoReply" "outline (Raw st b) = Raw st b"
  by (simp_all add: outline_def)

primrec outcome :: "response \<Rightarrow> unit reply" where
  "outcome (RHealth r) = outline r"
| "outcome (RDiscover r) = outline r"
| "outcome (RAppend r) = outline r"
| "outcome (REvents r) = outline r"
| "outcome (RSubscribed r) = outline r"
| "outcome (RStreams r) = outline r"
| "outcome (RVerifyChain r) = outline r"
| "outcome (RPrincipal r) = outline r"
| "outcome (RPairInitiate r) = outline r"
| "outcome (RPairComplete r) = outline r"
| "outcome (RMint r) = outline r"
| "outcome (RVerify r) = outline r"
| "outcome (RText r) = outline r"
| "outcome (RDischarge r) = outline r"
| "outcome (RTexts r) = outline r"
| "outcome (RUnit r) = outline r"
| "outcome (RCatalogue r) = outline r"
| "outcome (RBridge r) = outline r"
| "outcome (RPending r) = outline r"
| "outcome (RPeers r) = outline r"
| "outcome (RPull r) = outline r"
| "outcome (RPush r) = outline r"
| "outcome (RCapability r) = outline r"
| "outcome (RBuckets r) = outline r"
| "outcome (RBucket r) = outline r"
| "outcome (RObject r) = outline r"

text \<open>A 202 is the answer to a bridge call that awaits a human's approval: it was not carried out.\<close>

fun executed :: "unit reply \<Rightarrow> bool" where
  "executed (Reply st x) = (st \<noteq> 202)"
| "executed _ = False"

text \<open>
  The Hub's data: all of its store but the bookkeeping of the middlewares (the log of operations, the
  grants seen, the responses kept for replay) and the queue of bridge calls awaiting approval.
\<close>

definition data_of :: "store \<Rightarrow> store" where
  "data_of s = s\<lparr>operation_log := [], grants_known := [], idempotency := [], pending_bridge := []\<rparr>"

section \<open>Guarded results\<close>

definition let_through :: "sys \<Rightarrow> env \<Rightarrow> string \<times> string \<times> string \<Rightarrow> rctx \<Rightarrow> hub \<Rightarrow> bool" where
  "let_through S e p rc h =
     (\<exists>g rq. permission rq = p \<and> fst (check_auth S e rc rq h) = Allowed g)"

definition guarded ::
  "sys \<Rightarrow> env \<Rightarrow> string \<times> string \<times> string \<Rightarrow> rctx \<Rightarrow> hub \<Rightarrow> 'a reply \<times> hub \<Rightarrow> bool" where
  "guarded S e p rc h r =
     (let_through S e p rc h
      \<or> \<not> executed (outline (fst r)) \<and> data_of (hb_store (snd r)) = data_of (hb_store h))"

named_theorems guarded_intros \<open>rules for the shapes of a handler's body before checkAuth\<close>

lemma guarded_failure [guarded_intros]: "guarded S e p rc h (Failure err, h)"
  by (simp add: guarded_def)

lemma guarded_option [guarded_intros]:
  "(x = None \<Longrightarrow> guarded S e p rc h a) \<Longrightarrow> (\<And>y. x = Some y \<Longrightarrow> guarded S e p rc h (f y)) \<Longrightarrow>
     guarded S e p rc h (case x of None \<Rightarrow> a | Some y \<Rightarrow> f y)"
  by (cases x) simp_all

lemma guarded_sum [guarded_intros]:
  "(\<And>y. x = Inl y \<Longrightarrow> guarded S e p rc h (f y)) \<Longrightarrow> (\<And>y. x = Inr y \<Longrightarrow> guarded S e p rc h (g y)) \<Longrightarrow>
     guarded S e p rc h (case x of Inl y \<Rightarrow> f y | Inr y \<Rightarrow> g y)"
  by (cases x) simp_all

lemma guarded_if [guarded_intros]:
  "(b \<Longrightarrow> guarded S e p rc h x) \<Longrightarrow> (\<not> b \<Longrightarrow> guarded S e p rc h y) \<Longrightarrow>
     guarded S e p rc h (if b then x else y)"
  by simp

lemma guarded_authorised [guarded_intros]:
  assumes "permission rq = p"
  shows "guarded S e p rc h (authorised S e rc rq body h)"
  by (rule authorised_rule) (use assms in \<open>auto simp: guarded_def let_through_def\<close>)

lemma data_of_pending: "insert_pending_bridge e pc s = (r, s1) \<Longrightarrow> data_of s1 = data_of s"
  by (auto simp: insert_pending_bridge_def data_of_def Let_def split: if_splits)

lemma guarded_bridge_call:
  "guarded S e (''bridge'', [], ''call'') rc h (handle_bridge_call json_params S e rc reg q h)"
proof (cases q)
  case None
  then show ?thesis by (simp add: handle_bridge_call_def guarded_failure)
next
  case (Some r)
  show ?thesis
  proof (cases "effective_domain reg r")
    case (Inl err)
    then show ?thesis by (simp add: handle_bridge_call_def Some guarded_failure)
  next
    case (Inr host)
    have "let_through S e (''bridge'', [], ''call'') rc h"
      if "fst (check_auth S e rc (bridge_requirement r host) h) = Allowed g" for g
      using that unfolding let_through_def by (intro exI [of _ g] exI conjI) simp_all
    then show ?thesis
      by (cases rule: check_auth_cases [of S e rc "bridge_requirement r host" h])
        (auto simp: handle_bridge_call_def Some Inr guarded_failure guarded_def
          split: prod.splits sum.splits dest: data_of_pending)
  qed
qed

lemma guarded_handlers:
  "guarded S e (''vault'', (case va of None \<Rightarrow> [] | Some r \<Rightarrow> va_namespace r), ''write'') rc h
     (handle_vault_append S e rc va h)"
  "guarded S e (''vault'', ns, ''read'') rc h (handle_vault_read S e rc ns sid since lmt h)"
  "guarded S e (''vault'', ns, ''read'') rc h (handle_vault_list_streams S e rc ns h)"
  "guarded S e (''vault'', (case vs of None \<Rightarrow> [] | Some r \<Rightarrow> sb_namespace r), ''subscribe'') rc h
     (handle_vault_subscribe S e rc w vs ticks h)"
  "guarded S e (''history'', [], ''write'') rc h (handle_history_append S e rc ha h)"
  "guarded S e (''history'', [], ''read'') rc h (handle_history_read S e rc sid since lmt h)"
  "guarded S e (''history'', [], ''read'') rc h (handle_history_verify S e rc sid h)"
  "guarded S e (''identity'', [], ''read'') rc h (handle_identity_principal S e rc h)"
  "guarded S e (''identity'', [], ''pair'') rc h (handle_pair_initiate S e rc pin h)"
  "guarded S e (''grant'', [], ''mint'') rc h (handle_grant_mint S e rc gm h)"
  "guarded S e (''grant'', [], ''verify'') rc h (handle_grant_verify S e rc gv h)"
  "guarded S e (''grant'', [], ''revoke'') rc h (handle_grant_revoke S e rc gr h)"
  "guarded S e (''grant'', [], ''discharge'') rc h (handle_grant_discharge S e rc gd h)"
  unfolding handle_vault_append_def handle_vault_read_def handle_vault_list_streams_def
    handle_vault_subscribe_def handle_history_append_def handle_history_read_def handle_history_verify_def
    handle_identity_principal_def handle_pair_initiate_def handle_grant_mint_def
    handle_grant_verify_def handle_grant_revoke_def handle_grant_discharge_def
  by (intro guarded_intros; simp)+

lemma guarded_sync_handlers:
  "guarded S e (''llm'', [], ''read'') rc h (handle_llm_routes S e rc h)"
  "guarded S e (''llm'', [], ''invoke'') rc h (handle_llm_complete S e rc h)"
  "guarded S e (''bridge'', [], ''read'') rc h (handle_bridge_adapters S e rc reg h)"
  "guarded S e (''bridge'', [], ''approve'') rc h (handle_bridge_approve S e rc bp h)"
  "guarded S e (''bridge'', [], ''read'') rc h (handle_bridge_pending S e rc pid h)"
  "guarded S e (''sync'', [], ''read'') rc h (handle_sync_peers S e rc peers h)"
  "guarded S e (''sync'', [], ''pull'') rc h (handle_sync_pull S e rc since lmt h)"
  "guarded S e (''sync'', [], ''push'') rc h (handle_sync_push S e rc sp h)"
  "guarded S e (''sync'', [], ''write'') rc h (handle_sync_conflict_ack S e rc h)"
  unfolding handle_llm_routes_def handle_llm_complete_def handle_bridge_adapters_def
    handle_bridge_approve_def handle_bridge_pending_def handle_sync_peers_def handle_sync_pull_def
    handle_sync_push_def handle_sync_conflict_ack_def
  by (intro guarded_intros; simp)+

lemma guarded_crate_handlers:
  "guarded S e (''identity'', [], ''pair'') rc h (handle_crate_intent S e rc ci h)"
  "guarded S e (''identity'', [], ''pair'') rc h (handle_crate_cancel S e rc cc h)"
  "guarded S e (''sync'', [], ''read'') rc h (handle_capability_refresh S e rc h)"
  "guarded S e (''grant'', [], ''revoke'') rc h (handle_capability_revoke S e rc gid h)"
  "guarded S e (''identity'', [], ''pair'') rc h (handle_bucket_register S e rc br h)"
  "guarded S e (''identity'', [], ''pair'') rc h (handle_bucket_list S e rc h)"
  "guarded S e (''sync'', bid, ''read'') rc h (handle_bucket_metadata S e rc bid h)"
  "guarded S e (''sync'', bid, if cl_method c \<in> {''PUT'', ''DELETE''} then ''write'' else ''read'') rc h
     (handle_crate_object S e up rc bid path c h)"
  "guarded S e (''sync'', bid, ''read'') rc h (handle_crate_list S e up rc bid pfx token max_keys c h)"
  unfolding handle_crate_intent_def handle_crate_cancel_def handle_capability_refresh_def
    handle_capability_revoke_def handle_bucket_register_def handle_bucket_list_def
    handle_bucket_metadata_def handle_crate_object_def handle_crate_list_def
  by (intro guarded_intros; simp)+

section \<open>Through the middlewares\<close>

lemma data_of_bookkeeping:
  "data_of (snd (log_operation e op_id gid prin endpoint st ms code s)) = data_of s"
  "data_of (snd (put_idempotency e key gid endpoint ph st' body retention s)) = data_of s"
  "data_of (snd (remember_grant e kg s)) = data_of s"
  by (simp_all add: log_operation_def put_idempotency_def remember_grant_def insert_grant_def
      data_of_def Let_def)

lemma data_of_authenticate: "data_of (hb_store (snd (authenticate S e hs h))) = data_of (hb_store h)"
  using authenticate_store [of S e hs h]
  by (auto simp: remember_authenticated_grant_def Let_def data_of_bookkeeping)

lemma idempotent_guarded:
  assumes "guarded S e p (rc\<lparr>rc_idempotency_key := rh_idempotency_key (rc_headers rc)\<rparr>) h
      (next_handler (rc\<lparr>rc_idempotency_key := rh_idempotency_key (rc_headers rc)\<rparr>) h)"
  shows "let_through S e p (rc\<lparr>rc_idempotency_key := rh_idempotency_key (rc_headers rc)\<rparr>) h
    \<or> \<not> executed (outline (fst (idempotent S e ep body render next_handler rc h)))
      \<and> data_of (hb_store (snd (idempotent S e ep body render next_handler rc h))) = data_of (hb_store h)"
  using assms
  by (auto simp: idempotent_def Let_def guarded_def data_of_bookkeeping
      split: sum.splits idempotency_outcome.splits prod.splits)

text \<open>What a request has shown when its handler went past checkAuth.\<close>

definition entitled ::
  "sys \<Rightarrow> env \<Rightarrow> req_headers \<Rightarrow> string \<times> string \<times> string \<Rightarrow> hub \<Rightarrow> bool" where
  "entitled S e hs p h =
     (\<exists>rc h1 key. authenticate S e hs h = (Inr rc, h1)
        \<and> let_through S e p (rc\<lparr>rc_idempotency_key := key\<rparr>) h1)"

lemma with_log_facts:
  "fst (with_log e op_id ep hs nxt h) = fst (nxt h)"
  "data_of (hb_store (snd (with_log e op_id ep hs nxt h))) = data_of (hb_store (snd (nxt h)))"
  by (simp_all add: with_log_def Let_def data_of_bookkeeping split: prod.splits)

lemma authed_guarded:
  assumes "authed A e i k nxt h = (resp, h')" and "\<And>rep. outcome (k rep) = outline rep"
    and g: "\<And>rc h1. rc_idempotency_key rc = [] \<Longrightarrow> (\<exists>key. let_through (si_sys A) e p (rc\<lparr>rc_idempotency_key := key\<rparr>) h1)
      \<or> \<not> executed (outline (fst (nxt rc h1))) \<and> data_of (hb_store (snd (nxt rc h1))) = data_of (hb_store h1)"
  shows "entitled (si_sys A) e (in_headers i) p h
    \<or> \<not> executed (outcome resp) \<and> data_of (hb_store h') = data_of (hb_store h)"
proof -
  let ?r = "with_auth (si_sys A) e (in_headers i) nxt h"
  have r: "outcome resp = outline (fst ?r)" "data_of (hb_store h') = data_of (hb_store (snd ?r))"
    using assms(1,2) with_log_facts [of e "in_op_id i" "in_endpoint i" "in_headers i"
        "with_auth (si_sys A) e (in_headers i) nxt" h]
    by (auto simp: authed_def logged_def map_prod_def case_prod_unfold)
  show ?thesis
  proof (cases "authenticate (si_sys A) e (in_headers i) h")
    case (Pair a h1)
    have h1: "data_of (hb_store h1) = data_of (hb_store h)"
      using data_of_authenticate [of "si_sys A" e "in_headers i" h] Pair by simp
    show ?thesis
    proof (cases a)
      case (Inl err)
      then show ?thesis using r h1 Pair by (simp add: with_auth_def)
    next
      case (Inr rc)
      then have "rc_idempotency_key rc = []"
        using Pair by (cases rule: authenticate_cases [of "si_sys A" e "in_headers i" h]) auto
      from g [OF this, of h1] show ?thesis
        using r h1 Pair Inr by (auto simp: with_auth_def entitled_def)
    qed
  qed
qed

lemma authed_plain_guarded:
  assumes "authed A e i k nxt h = (resp, h')" and "\<And>rep. outcome (k rep) = outline rep"
    and "\<And>rc h1. guarded (si_sys A) e p rc h1 (nxt rc h1)"
  shows "entitled (si_sys A) e (in_headers i) p h
    \<or> \<not> executed (outcome resp) \<and> data_of (hb_store h') = data_of (hb_store h)"
proof (rule authed_guarded [OF assms(1,2)])
  fix rc :: rctx and h1 assume "rc_idempotency_key rc = []"
  then have "rc\<lparr>rc_idempotency_key := []\<rparr> = rc" by simp
  then show "(\<exists>key. let_through (si_sys A) e p (rc\<lparr>rc_idempotency_key := key\<rparr>) h1)
      \<or> \<not> executed (outline (fst (nxt rc h1))) \<and> data_of (hb_store (snd (nxt rc h1))) = data_of (hb_store h1)"
    using assms(3) [of rc h1] unfolding guarded_def by metis
qed

lemma authed_once_guarded:
  assumes "authed_once A e i k ep nxt h = (resp, h')" and "\<And>rep. outcome (k rep) = outline rep"
    and "\<And>rc h1. guarded (si_sys A) e p rc h1 (nxt rc h1)"
  shows "entitled (si_sys A) e (in_headers i) p h
    \<or> \<not> executed (outcome resp) \<and> data_of (hb_store h') = data_of (hb_store h)"
proof (rule authed_guarded [OF assms(1) [unfolded authed_once_def] assms(2)])
  fix rc :: rctx and h1
  show "(\<exists>key. let_through (si_sys A) e p (rc\<lparr>rc_idempotency_key := key\<rparr>) h1)
      \<or> \<not> executed (outline (fst (idempotent (si_sys A) e ep (in_body i)
             (\<lambda>rep. si_render A (k rep)) nxt rc h1)))
        \<and> data_of (hb_store (snd (idempotent (si_sys A) e ep (in_body i)
             (\<lambda>rep. si_render A (k rep)) nxt rc h1))) = data_of (hb_store h1)"
    using idempotent_guarded [where next_handler = nxt and rc = rc and h = h1, OF assms(3)] by metis
qed

lemma serve_guarded:
  assumes "serve A e i req h = (resp, h')" and "demand req = Some p"
  shows "entitled (si_sys A) e (in_headers i) p h
    \<or> \<not> executed (outcome resp) \<and> data_of (hb_store h') = data_of (hb_store h)"
  using assms
  by (cases req; simp only: serve_def Let_def request.case demand.simps option.inject option.distinct;
      (hypsubst_thin+)?)
    (((erule authed_plain_guarded, simp) | (erule authed_once_guarded, simp)),
      rule guarded_handlers guarded_sync_handlers guarded_crate_handlers guarded_bridge_call)+

text \<open>What an entitled request's grant is.\<close>

lemma entitled_grant:
  assumes "entitled S e hs p h"
  obtains mac g rc rq v where "decode_macaroon_header (rh_grant hs) = Some mac"
    "verify_signature S mac (sy_root_key S) always_satisfied = Inr ()" "parse_grant S mac = Inr g"
    "\<And>k. get_known_grant e (idn_grant_id (gt_identifier g)) (hb_store h) = Inr (Some k) \<Longrightarrow>
       kg_revoked_at k = None"
    "permission rq = p" "scope_permits (idn_scope (gt_identifier g)) rq" "rc_headers rc = hs"
    "\<And>c. c \<in> set (gt_caveats g) \<Longrightarrow>
       meets e (caveat_context_of S e rc g rq) v (parse_caveat (trim_space c))"
proof -
  from assms obtain rc h1 key where a: "authenticate S e hs h = (Inr rc, h1)"
    and l: "let_through S e p (rc\<lparr>rc_idempotency_key := key\<rparr>) h1"
    unfolding entitled_def by blast
  from l obtain g rq where rq: "permission rq = p"
    and ok: "fst (check_auth S e (rc\<lparr>rc_idempotency_key := key\<rparr>) rq h1) = Allowed g"
    unfolding let_through_def by blast
  from a obtain mac where m: "decode_macaroon_header (rh_grant hs) = Some mac"
    "verify_signature S mac (sy_root_key S) always_satisfied = Inr ()" "parse_grant S mac = Inr g"
    "\<And>k. get_known_grant e (idn_grant_id (gt_identifier g)) (hb_store h) = Inr (Some k) \<Longrightarrow>
       kg_revoked_at k = None" and rc: "rc_headers rc = hs"
    using check_auth_sound(1) [OF ok]
    by (cases rule: authenticate_cases [of S e hs h]) auto
  have hs: "rc_headers (rc\<lparr>rc_idempotency_key := key\<rparr>) = hs" using rc by simp
  show thesis
    by (rule that [OF m rq check_auth_sound(2) [OF ok] hs check_auth_sound(3) [OF ok]])
qed

text \<open>A request that authMiddleware refuses is answered with its error, and nothing else happens.\<close>

lemma authed_refused:
  assumes "authenticate (si_sys A) e (in_headers i) h = (Inl err, h1)"
    and "\<And>rep. outcome (k rep) = outline rep" and "authed A e i k nxt h = (resp, h')"
  shows "outcome resp = Failure err \<and> data_of (hb_store h') = data_of (hb_store h)"
proof -
  have "data_of (hb_store h1) = data_of (hb_store h)"
    using data_of_authenticate [of "si_sys A" e "in_headers i" h] assms(1) by simp
  then show ?thesis
    using assms(2,3) with_log_facts [of e "in_op_id i" "in_endpoint i" "in_headers i"
        "with_auth (si_sys A) e (in_headers i) nxt" h]
    by (auto simp: authed_def logged_def map_prod_def case_prod_unfold with_auth_def assms(1))
qed

lemma serve_refused:
  assumes "authenticate (si_sys A) e (in_headers i) h = (Inl err, h1)"
    and "demand req \<noteq> None" and "serve A e i req h = (resp, h')"
  shows "outcome resp = Failure err \<and> data_of (hb_store h') = data_of (hb_store h)"
  using assms(2,3)
  by (cases req; simp only: serve_def Let_def request.case demand.simps option.distinct authed_once_def
      not_None_eq simp_thms)
    (erule authed_refused [OF assms(1), rotated], simp)+

text \<open>A proper reply, not one kept for replay, comes from the handler.\<close>

lemma idempotent_replied:
  assumes "idempotent S e ep body render nxt rc h = (Reply st x, h')"
  shows "\<exists>h2. nxt (rc\<lparr>rc_idempotency_key := rh_idempotency_key (rc_headers rc)\<rparr>) h = (Reply st x, h2)
    \<and> grants_known (hb_store h') = grants_known (hb_store h2) \<and> events (hb_store h') = events (hb_store h2)"
  using assms
  by (auto simp: idempotent_def Let_def put_idempotency_def
      split: if_splits sum.splits idempotency_outcome.splits prod.splits)

lemma authed_replied:
  assumes "authed A e i k nxt h = (k (Reply st x), h')" and "\<And>a b. k a = k b \<Longrightarrow> a = b"
  obtains rc h1 h2 where "authenticate (si_sys A) e (in_headers i) h = (Inr rc, h1)"
    "nxt rc h1 = (Reply st x, h2)" "grants_known (hb_store h') = grants_known (hb_store h2)"
    "events (hb_store h') = events (hb_store h2)"
proof (cases "authenticate (si_sys A) e (in_headers i) h")
  case (Pair a h1)
  show thesis
  proof (cases a)
    case (Inl err)
    then have "k (Failure err) = k (Reply st x)" using assms(1) Pair
      by (simp add: authed_def logged_def with_log_def with_auth_def Let_def)
    then show thesis by (auto dest: assms(2))
  next
    case (Inr rc)
    obtain rep h2 where n: "nxt rc h1 = (rep, h2)" by fastforce
    then have "k rep = k (Reply st x)" and t: "grants_known (hb_store h') = grants_known (hb_store h2)"
      "events (hb_store h') = events (hb_store h2)"
      using assms(1) Pair Inr
      by (auto simp: authed_def logged_def with_log_def with_auth_def Let_def log_operation_def)
    then have "rep = Reply st x" by (auto dest: assms(2))
    with n t Pair Inr show thesis by (intro that) auto
  qed
qed

lemma authed_once_replied:
  assumes "authed_once A e i k ep nxt h = (k (Reply st x), h')" and "\<And>a b. k a = k b \<Longrightarrow> a = b"
  obtains rc h1 h2 where "authenticate (si_sys A) e (in_headers i) h = (Inr rc, h1)"
    "nxt (rc\<lparr>rc_idempotency_key := rh_idempotency_key (rc_headers rc)\<rparr>) h1 = (Reply st x, h2)"
    "grants_known (hb_store h') = grants_known (hb_store h2)" "events (hb_store h') = events (hb_store h2)"
  using assms(1) unfolding authed_once_def
  by (rule authed_replied [OF _ assms(2)]) (auto dest!: idempotent_replied intro: that)

lemma revoked_mark_authenticate:
  "revoked_mark gid (hb_store h) = None \<Longrightarrow>
     revoked_mark gid (hb_store (snd (authenticate S e hs h))) = None"
  using authenticate_store [of S e hs h]
  by (auto simp: remember_authenticated_grant_def remember_grant_def revoked_mark_def
      lookup_insert_grant Let_def split: option.splits if_splits)

end
