(* ===== verification/Rate_Limit.thy ===== *)
theory Rate_Limit
  imports Caveats
begin

text \<open>
  What the token buckets of runtime.go guarantee over a run of requests: a bound on the requests
  a rate caveat lets through in any interval, and what becomes of the bound when a grant carries
  two rate caveats, which share the bucket of their grant id.
\<close>

record rate_call =
  rk_env :: env
  rk_grant :: string
  rk_capacity :: int
  rk_window :: time

fun run_rate :: "rate_call list \<Rightarrow> volatile \<Rightarrow> (rate_call \<times> bool) list \<times> volatile" where
  "run_rate [] v = ([], v)"
| "run_rate (q # qs) v =
     (let (ok, v1) = rate_consume (rk_env q) (rk_grant q) (rk_capacity q) (rk_window q) v;
          (rs, v2) = run_rate qs v1
      in ((q, ok) # rs, v2))"

definition allowed_for :: "string \<Rightarrow> (rate_call \<times> bool) list \<Rightarrow> nat" where
  "allowed_for gid rs = length (filter (\<lambda>(q, ok). rk_grant q = gid \<and> ok) rs)"

definition volatile_ok :: "volatile \<Rightarrow> bool" where
  "volatile_ok v = (\<forall>g b. rate_buckets v g = Some b \<longrightarrow> bucket_ok b)"

text \<open>The calls of the run that matter: one limit for the grant, made between two instants.\<close>

definition calls_for :: "string \<Rightarrow> int \<Rightarrow> time \<Rightarrow> time \<Rightarrow> time \<Rightarrow> rate_call list \<Rightarrow> bool" where
  "calls_for gid cap w t0 t1 qs =
     list_all (\<lambda>q. 0 < rk_capacity q \<and> 0 < rk_window q \<and> \<not> en_evicted (rk_env q) gid
       \<and> t0 \<le> en_now (rk_env q) \<and> en_now (rk_env q) \<le> t1
       \<and> (rk_grant q = gid \<longrightarrow> rk_capacity q = cap \<and> rk_window q = w)) qs"

lemma calls_for_Cons:
  "calls_for gid cap w t0 t1 (q # qs) \<longleftrightarrow>
     0 < rk_capacity q \<and> 0 < rk_window q \<and> \<not> en_evicted (rk_env q) gid
     \<and> t0 \<le> en_now (rk_env q) \<and> en_now (rk_env q) \<le> t1
     \<and> (rk_grant q = gid \<longrightarrow> rk_capacity q = cap \<and> rk_window q = w)
     \<and> calls_for gid cap w t0 t1 qs"
  by (auto simp: calls_for_def)

text \<open>The clock has not been set back behind the last refill of the grant's bucket.\<close>

definition refilled_by :: "volatile \<Rightarrow> string \<Rightarrow> time \<Rightarrow> bool" where
  "refilled_by v gid t =
     (case rate_buckets v gid of None \<Rightarrow> True | Some b \<Rightarrow> rb_last_refill b \<le> t)"

lemma bucket_take_capacity:
  assumes "bucket_ok b" and "bucket_take now b = (ok, b')"
  shows "rb_tokens b' + (if ok then 1 else 0) \<le> of_int (rb_capacity b)"
  using assms by (auto simp: bucket_take_def Let_def bucket_ok_def split: if_splits)

lemma bucket_ok_fresh:
  "0 < cap \<Longrightarrow> 0 < w \<Longrightarrow>
     bucket_ok \<lparr>rb_capacity = cap, rb_window = w, rb_tokens = of_int cap, rb_last_refill = t\<rparr>"
  by (simp add: bucket_ok_def)

lemma rate_consume_other:
  assumes "g \<noteq> gid" and "\<not> en_evicted e gid"
  shows "rate_buckets (snd (rate_consume e g cap w v)) gid = rate_buckets v gid"
  using assms by (auto simp: rate_consume_def Let_def case_prod_beta lru_add_def split: option.splits)

text \<open>The bucket a call takes its token from.\<close>

lemma rate_consume_bucket:
  assumes "volatile_ok v" and "0 < cap" "0 < w" and "rate_consume e gid cap w v = (ok, v')"
  obtains b b' where "bucket_ok b" "rb_capacity b = cap" "rb_window b = w"
    "bucket_take (en_now e) b = (ok, b')" "rate_buckets v' gid = Some b'"
    "\<forall>c. rate_buckets v gid = Some c \<and> rb_capacity c = cap \<and> rb_window c = w \<longrightarrow> b = c"
    "rb_last_refill b = en_now e \<or> rate_buckets v gid = Some b"
proof -
  let ?fresh = "\<lparr>rb_capacity = cap, rb_window = w, rb_tokens = of_int cap, rb_last_refill = en_now e\<rparr>"
  define b where "b = (case rate_buckets v gid of None \<Rightarrow> ?fresh
     | Some c \<Rightarrow> if rb_capacity c \<noteq> cap \<or> rb_window c \<noteq> w then ?fresh else c)"
  obtain ok' b' where take: "bucket_take (en_now e) b = (ok', b')" by fastforce
  have "ok = ok' \<and> rate_buckets v' gid = Some b'"
    using assms(2-4) take
    by (auto simp: rate_consume_def Let_def b_def split: option.splits if_splits prod.splits)
  then have r: "bucket_take (en_now e) b = (ok, b')" "rate_buckets v' gid = Some b'"
    using take by simp_all
  have "bucket_ok b"
    using assms(1-3) bucket_ok_fresh by (auto simp: b_def volatile_ok_def split: option.splits)
  moreover have "rb_capacity b = cap" "rb_window b = w"
    "\<forall>c. rate_buckets v gid = Some c \<and> rb_capacity c = cap \<and> rb_window c = w \<longrightarrow> b = c"
    "rb_last_refill b = en_now e \<or> rate_buckets v gid = Some b"
    by (auto simp: b_def split: option.splits)
  ultimately show thesis using that [of b b'] r by simp
qed

lemma volatile_ok_consume:
  assumes "volatile_ok v" and "0 < cap" "0 < w"
  shows "volatile_ok (snd (rate_consume e gid cap w v))"
proof -
  obtain ok v' where r: "rate_consume e gid cap w v = (ok, v')" by fastforce
  obtain b b' where b: "bucket_ok b" "bucket_take (en_now e) b = (ok, b')" "rate_buckets v' gid = Some b'"
    using rate_consume_bucket [OF assms r] by metis
  have "rate_buckets v' g = None \<or> rate_buckets v' g = rate_buckets v g" if "g \<noteq> gid" for g
    using r that assms(2,3)
    by (auto simp: rate_consume_def Let_def case_prod_beta lru_add_def split: option.splits if_splits)
  then show ?thesis
    using assms(1) r b bucket_take_facts(1) [OF b(1,2)]
    by (auto simp: volatile_ok_def) (metis option.distinct(1) option.inject)
qed

text \<open>Tokens spent since a bucket's last refill are covered by its tokens and the time gone by.\<close>

lemma run_rate_spent:
  assumes "calls_for gid cap w t0 t1 qs" and "volatile_ok v"
    and "rate_buckets v gid = Some b" "rb_capacity b = cap" "rb_window b = w" "rb_last_refill b \<le> t1"
  shows "of_nat (allowed_for gid (fst (run_rate qs v)))
    \<le> rb_tokens b + of_int cap * of_int (t1 - rb_last_refill b) / of_int w"
  using assms
proof (induction qs arbitrary: v b)
  case Nil
  then have "bucket_ok b" by (auto simp: volatile_ok_def)
  then show ?case using Nil.prems by (simp add: allowed_for_def bucket_ok_def)
next
  case (Cons q qs)
  note q = Cons.prems(1) [unfolded calls_for_Cons]
  obtain ok v' where r: "rate_consume (rk_env q) (rk_grant q) (rk_capacity q) (rk_window q) v = (ok, v')"
    by fastforce
  have ok': "volatile_ok v'" using volatile_ok_consume [OF Cons.prems(2)] q r by (metis snd_conv)
  show ?case
  proof (cases "rk_grant q = gid")
    case False
    then have "rate_buckets v' gid = Some b"
      using rate_consume_other q r Cons.prems(3) by (metis snd_conv)
    then have "of_nat (allowed_for gid (fst (run_rate qs v')))
        \<le> rb_tokens b + of_int cap * of_int (t1 - rb_last_refill b) / of_int w"
      using Cons.IH [of v' b] q ok' Cons.prems by simp
    then show ?thesis using False r by (simp add: Let_def case_prod_beta allowed_for_def)
  next
    case True
    then have cw: "rk_capacity q = cap" "rk_window q = w" "0 < cap" "0 < w" using q by auto
    obtain b' where b': "bucket_take (en_now (rk_env q)) b = (ok, b')" "rate_buckets v' gid = Some b'"
      using rate_consume_bucket [OF Cons.prems(2) cw(3,4) r [unfolded True cw(1,2)]] Cons.prems(3-5)
      by metis
    have "bucket_ok b" using Cons.prems(2,3) by (auto simp: volatile_ok_def)
    note facts = bucket_take_facts [OF this b'(1)]
    have le: "rb_last_refill b' \<le> t1" using facts(4) q Cons.prems(6) by simp
    have IH: "of_nat (allowed_for gid (fst (run_rate qs v')))
        \<le> rb_tokens b' + of_int cap * of_int (t1 - rb_last_refill b') / of_int w"
      using Cons.IH [of v' b'] q ok' b'(2) facts(2,3) le Cons.prems(4,5) by simp
    have "allowed_for gid (fst (run_rate (q # qs) v))
        = (if ok then 1 else 0) + allowed_for gid (fst (run_rate qs v'))"
      using True r by (simp add: Let_def case_prod_beta allowed_for_def)
    then have "of_nat (allowed_for gid (fst (run_rate (q # qs) v)))
        \<le> rb_tokens b' + (if ok then 1 else 0)
           + of_int cap * of_int (t1 - rb_last_refill b') / of_int w"
      using IH by auto
    also have "\<dots> \<le> rb_tokens b + of_int cap * of_int (rb_last_refill b' - rb_last_refill b) / of_int w
           + of_int cap * of_int (t1 - rb_last_refill b') / of_int w"
      using facts(5) Cons.prems(4,5) by simp
    also have "\<dots> = rb_tokens b + of_int cap * of_int (t1 - rb_last_refill b) / of_int w"
      by (simp add: add_divide_distrib [symmetric] algebra_simps)
    finally show ?thesis .
  qed
qed

lemma run_rate_bound:
  assumes "calls_for gid cap w t0 t1 qs" and "volatile_ok v" and "0 < cap" "0 < w" and "t0 \<le> t1"
    and "refilled_by v gid t1"
  shows "of_nat (allowed_for gid (fst (run_rate qs v)))
    \<le> (of_int cap + of_int cap * of_int (t1 - t0) / of_int w :: rat)"
  using assms
proof (induction qs arbitrary: v)
  case Nil
  then show ?case by (simp add: allowed_for_def)
next
  case (Cons q qs)
  note q = Cons.prems(1) [unfolded calls_for_Cons]
  obtain ok v' where r: "rate_consume (rk_env q) (rk_grant q) (rk_capacity q) (rk_window q) v = (ok, v')"
    by fastforce
  have ok': "volatile_ok v'" using volatile_ok_consume [OF Cons.prems(2)] q r by (metis snd_conv)
  show ?case
  proof (cases "rk_grant q = gid")
    case False
    then have "rate_buckets v' gid = rate_buckets v gid"
      using rate_consume_other q r by (metis snd_conv)
    then show ?thesis
      using False Cons.IH [of v'] q ok' Cons.prems r
      by (simp add: Let_def case_prod_beta allowed_for_def refilled_by_def)
  next
    case True
    then have cw: "rk_capacity q = cap" "rk_window q = w" using q by auto
    obtain b b' where b: "bucket_ok b" "rb_capacity b = cap" "rb_window b = w"
      "bucket_take (en_now (rk_env q)) b = (ok, b')" "rate_buckets v' gid = Some b'"
      "rb_last_refill b = en_now (rk_env q) \<or> rate_buckets v gid = Some b"
      using rate_consume_bucket [OF Cons.prems(2,3,4) r [unfolded True cw]] by metis
    note facts = bucket_take_facts [OF b(1,4)]
    have le: "rb_last_refill b \<le> t1"
      using b(6) q Cons.prems(6) by (auto simp: refilled_by_def)
    then have "rb_last_refill b' \<le> t1" "t0 \<le> rb_last_refill b'"
      using facts(4) q by (auto simp: max_def)
    then have "of_nat (allowed_for gid (fst (run_rate qs v')))
        \<le> rb_tokens b' + of_int cap * of_int (t1 - rb_last_refill b') / of_int w"
      using run_rate_spent [of gid cap w t0 t1 qs v' b'] q ok' b facts by simp
    also have "\<dots> \<le> rb_tokens b' + of_int cap * of_int (t1 - t0) / of_int w"
      using \<open>t0 \<le> rb_last_refill b'\<close> Cons.prems(3,4)
      by (simp add: divide_right_mono mult_left_mono)
    finally show ?thesis
      using bucket_take_capacity [OF b(1,4)] b(2) True r
      by (auto simp: Let_def case_prod_beta allowed_for_def)
  qed
qed

section \<open>Two rate caveats\<close>

definition rate_branch ::
  "env \<Rightarrow> string \<Rightarrow> caveat_context \<Rightarrow> volatile \<Rightarrow> caveat_error option \<times> volatile \<Rightarrow> caveat \<Rightarrow> bool" where
  "rate_branch e c cx v r k =
     (is_rate k \<longrightarrow> r = check_rate e (body_of ''rate <= '' c) cx c v
        \<and> k = parse_rate (body_of ''rate <= '' c))"

lemma rate_branch_if:
  "(P \<Longrightarrow> rate_branch e c cx v r k) \<Longrightarrow> (\<not> P \<Longrightarrow> rate_branch e c cx v r' k') \<Longrightarrow>
     rate_branch e c cx v (if P then r else r') (if P then k else k')"
  by simp

lemma rate_branch_no_rate: "\<not> is_rate k \<Longrightarrow> rate_branch e c cx v r k"
  by (simp add: rate_branch_def)

lemma not_rate:
  "\<not> is_rate (parse_time NotAfter s)" "\<not> is_rate (parse_time NotBefore s)"
  "\<not> is_rate (parse_max_amount s)" "\<not> is_rate (let x = s in if x = [] then Malformed else DischargeFrom x)"
  by (auto simp: parse_time_def parse_max_amount_def Let_def split: option.splits list.splits)

lemma evaluate_one_rate_branch: "rate_branch e c cx v (evaluate_one e c cx v) (parse_caveat c)"
  unfolding evaluate_one_def parse_caveat_def
  by (intro rate_branch_if; (rule rate_branch_no_rate, rule not_rate)?;
      simp add: rate_branch_def)

lemma rate_caveat_branch:
  assumes "parse_caveat c = Rate n w"
  shows "evaluate_one e c cx v = check_rate e (body_of ''rate <= '' c) cx c v"
    and "parse_rate (body_of ''rate <= '' c) = Rate n w"
  using evaluate_one_rate_branch [of e c cx v] assms by (simp_all add: rate_branch_def)

lemma check_rate_consumes:
  assumes "parse_rate body = Rate n w" and "cx_server cx" and "cx_grant_id cx \<noteq> []"
  shows "check_rate e body cx c v =
    (if fst (rate_consume e (cx_grant_id cx) n w v) then None
     else Some \<lparr>ce_caveat = c, ce_kind = KindRateLimited\<rparr>,
     snd (rate_consume e (cx_grant_id cx) n w v))"
  using assms
  by (auto simp: check_rate_def parse_rate_def Let_def case_prod_beta split: option.splits prod.splits)

lemma evaluate_rate:
  assumes "parse_caveat c = Rate n w" and "cx_server cx" and "cx_grant_id cx \<noteq> []"
  shows "evaluate_one e c cx v =
    (if fst (rate_consume e (cx_grant_id cx) n w v) then None
     else Some \<lparr>ce_caveat = c, ce_kind = KindRateLimited\<rparr>,
     snd (rate_consume e (cx_grant_id cx) n w v))"
  using rate_caveat_branch [OF assms(1)] check_rate_consumes assms(2,3) by metis

text \<open>A bucket of another size is replaced by a full one.\<close>

definition other_limit :: "volatile \<Rightarrow> string \<Rightarrow> int \<Rightarrow> time \<Rightarrow> bool" where
  "other_limit v gid cap w =
     (case rate_buckets v gid of None \<Rightarrow> True | Some b \<Rightarrow> rb_capacity b \<noteq> cap \<or> rb_window b \<noteq> w)"

lemma rate_consume_replaces:
  assumes "other_limit v gid cap w" and "0 < cap" "0 < w"
  shows "fst (rate_consume e gid cap w v)"
    and "(cap, w) \<noteq> (cap', w') \<Longrightarrow> other_limit (snd (rate_consume e gid cap w v)) gid cap' w'"
proof -
  have "1 \<le> (of_int cap :: rat)" using assms(2) by simp
  then have not_less: "\<not> (of_int cap :: rat) < 1" by simp
  show "fst (rate_consume e gid cap w v)"
    using assms not_less
    by (auto simp: rate_consume_def other_limit_def bucket_take_def Let_def split: option.splits)
  show "(cap, w) \<noteq> (cap', w') \<Longrightarrow> other_limit (snd (rate_consume e gid cap w v)) gid cap' w'"
    using assms not_less
    by (auto simp: rate_consume_def other_limit_def bucket_take_def Let_def split: option.splits)
qed

lemma parse_positive_int_pos: "parse_positive_int s = Some n \<Longrightarrow> 0 < n"
  by (auto simp: parse_positive_int_def Let_def split: if_splits)

lemma parse_window_pos: "parse_window s = Some w \<Longrightarrow> 0 < w"
  by (auto simp: parse_window_def Let_def durations split: if_splits)

lemma parse_rate_pos: "parse_rate body = Rate n w \<Longrightarrow> 0 < n \<and> 0 < w"
  by (auto simp: parse_rate_def parse_positive_int_pos parse_window_pos split: option.splits prod.splits)

text \<open>A run of requests under one grant, each evaluating the grant's caveats.\<close>

fun run_caveats ::
  "string list \<Rightarrow> (env \<times> caveat_context) list \<Rightarrow> volatile \<Rightarrow> caveat_error option list \<times> volatile" where
  "run_caveats cs [] v = ([], v)"
| "run_caveats cs ((e, cx) # qs) v =
     (let (r, v1) = evaluate_caveats e cs cx v; (rs, v2) = run_caveats cs qs v1 in (r # rs, v2))"

lemma two_rates_step:
  assumes c: "parse_caveat (trim_space c) = Rate n w" and d: "parse_caveat (trim_space d) = Rate m u"
    and ne: "(n, w) \<noteq> (m, u)" and cx: "cx_server cx" "cx_grant_id cx = gid" "gid \<noteq> []"
    and v: "other_limit v gid n w"
  shows "fst (evaluate_caveats e [c, d] cx v) = None"
    and "other_limit (snd (evaluate_caveats e [c, d] cx v)) gid n w"
proof -
  have pos: "0 < n" "0 < w" "0 < m" "0 < u"
    using parse_rate_pos rate_caveat_branch(2) c d by blast+
  obtain ok v1 where r1: "rate_consume e gid n w v = (ok, v1)" by fastforce
  obtain ok2 v2 where r2: "rate_consume e gid m u v1 = (ok2, v2)" by fastforce
  have first: "ok" using rate_consume_replaces(1) [OF v pos(1,2), where e = e] r1 by simp
  have o: "other_limit v1 gid m u"
    using rate_consume_replaces(2) [OF v pos(1,2) ne, where e = e] r1 by simp
  have "ok2" using rate_consume_replaces(1) [OF o pos(3,4), where e = e] r2 by simp
  have "other_limit v2 gid n w"
    using rate_consume_replaces(2) [OF o pos(3,4) not_sym [OF ne], where e = e] r2 by simp
  moreover have "evaluate_one e (trim_space c) cx v = (None, v1)"
    using evaluate_rate [OF c cx(1)] cx r1 first by simp
  moreover have "evaluate_one e (trim_space d) cx v1 = (None, v2)"
    using evaluate_rate [OF d cx(1)] cx r2 \<open>ok2\<close> by simp
  ultimately show "fst (evaluate_caveats e [c, d] cx v) = None"
    "other_limit (snd (evaluate_caveats e [c, d] cx v)) gid n w"
    by simp_all
qed

end
