(* ===== verification/Grant_Guarantees.thy ===== *)
theory Grant_Guarantees
  imports Access Rate_Limit Sample_Hub
begin

text \<open>
  What the grant layer guarantees: no effect and no data without an issued grant whose scope and
  caveats permit the request, the meaning of caveats, rate limits, minting, delegation and
  revocation, and the places where the code grants more than it means to.
\<close>

section \<open>Access control\<close>



text \<open>
  A request that demands a permission and carries no grant is answered with 401 and the code
  grant_missing, whatever else it carries, and leaves the Hub's data as it is.
\<close>

theorem request_without_grant_refused:
  assumes "rh_grant (in_headers i) = []" and "demand req \<noteq> None" and "serve A e i req h = (resp, h')"
  shows "outcome resp = Failure (HttpErr 401 ''grant_missing'' False)
    \<and> data_of (hb_store h') = data_of (hb_store h)"
  using serve_refused [of A e i h grant_missing h req resp h'] assms
  by (simp add: authenticate_def grant_missing_def)

theorem request_without_grant_refused_witness:
  "outcome (fst (serve sample_site sample_env (sample_inbound\<lparr>in_headers := owner_headers\<lparr>rh_grant := []\<rparr>\<rparr>)
     LlmRoutes empty_hub)) = Failure (HttpErr 401 ''grant_missing'' False)"
  using request_without_grant_refused [of "sample_inbound\<lparr>in_headers := owner_headers\<lparr>rh_grant := []\<rparr>\<rparr>"
      LlmRoutes sample_site sample_env empty_hub, OF _ _ prod.collapse [symmetric]]
  by simp

section \<open>Revocation\<close>

lemma revoke_replied:
  assumes "handle_grant_revoke S e rc (Some r) h = (Reply 200 x, h')"
  obtains g s1 s2 path body res where
    "fst (check_auth S e rc (need ''grant'' [] ''revoke'') h) = Allowed g"
    "require_grant_ownership e g (kq_grant_id r) (hb_store h) = None"
    "write_blob (sy_sha256 S) (sy_blobs_root S) e history_namespace (new_ulid e 0) body (hb_store h) = (Inr path, s1)"
    "append_history_event (sy_sha256 S) e (revocation_input body g (revocation_head e s1)) path
        (new_ulid e 0) s1 = (Inr res, s2)"
    "hb_store h' = snd (mark_grant_revoked e (kq_grant_id r) (hr_event_id res) s2)"
    "grants_known s2 = grants_known (hb_store h)"
proof -
  obtain g s1 s2 path body res where o:
    "fst (check_auth S e rc (need ''grant'' [] ''revoke'') h) = Allowed g"
    "require_grant_ownership e g (kq_grant_id r) (hb_store h) = None"
    "write_blob (sy_sha256 S) (sy_blobs_root S) e history_namespace (new_ulid e 0) body (hb_store h) = (Inr path, s1)"
    "append_history_event (sy_sha256 S) e (revocation_input body g (revocation_head e s1)) path
        (new_ulid e 0) s1 = (Inr res, s2)"
    "hb_store h' = snd (mark_grant_revoked e (kq_grant_id r) (hr_event_id res) s2)"
    using assms unfolding handle_grant_revoke_def option.case Let_def
    by (auto split: option.splits if_splits prod.splits sum.splits dest!: authorised_replied)
  have "grants_known s2 = grants_known (hb_store h)"
    using append_paths_frame(2) [of "sy_sha256 S" e] arg_cong [OF o(4), of snd] grants_known_frame(1)
      arg_cong [OF o(3), of snd] by (metis snd_conv)
  with o show thesis by (rule that)
qed

lemma revoke_marks:
  assumes "handle_grant_revoke S e rc (Some r) h = (Reply 200 x, h')"
    and "revoked_mark (kq_grant_id r) (hb_store h) = None" and "\<not> en_fault e ''MarkGrantRevoked''"
  shows "revoked_mark (kq_grant_id r) (hb_store h') = Some (fmt_time (en_now e))"
  using assms(1)
proof (rule revoke_replied)
  fix g s2 res
  assume own: "require_grant_ownership e g (kq_grant_id r) (hb_store h) = None"
    and h': "hb_store h' = snd (mark_grant_revoked e (kq_grant_id r) (hr_event_id res) s2)"
    and same: "grants_known s2 = grants_known (hb_store h)"
  obtain k where k: "lookup_by gr_id (kq_grant_id r) (grants_known s2) = Some k" "gr_revoked_at k = None"
    using own assms(2) unfolding same
    by (auto simp: require_grant_ownership_def get_known_grant_def revoked_mark_def
        split: sum.splits option.splits if_splits)
  then have "rows_matching (\<lambda>r'. gr_id r' = kq_grant_id r \<and> gr_revoked_at r' = None) (grants_known s2) \<noteq> 0"
    using lookup_by_SomeD [OF k(1)] by (auto simp: rows_matching_zero)
  then have "fst (mark_grant_revoked e (kq_grant_id r) (hr_event_id res) s2) = Inr ()"
    using assms(3) by (simp add: mark_grant_revoked_def Let_def)
  from mark_grant_revoked_marks [OF this] show ?thesis
    using k unfolding h' by (simp add: now_rfc3339_def revoked_mark_def)
qed

lemma revoked_refused:
  assumes "revoked_mark (idn_grant_id (gt_identifier g)) (hb_store h) = Some (fmt_time t)" "in_range t"
    and "decode_macaroon_header (rh_grant hs) = Some mac" "parse_grant S mac = Inr g"
    and "\<not> en_fault e ''GetKnownGrant''"
  shows "\<exists>err. authenticate S e hs h = (Inl err, h) \<and> err \<in> {grant_revoked, grant_invalid, grant_missing}"
  using assms
  by (auto simp: authenticate_def get_known_grant_def revoked_mark_def split: sum.splits option.splits)


definition loss :: revoke_req where
  "loss = \<lparr>kq_grant_id = ''g1'', kq_reason = ''lost''\<rparr>"

text \<open>The sample Hub with another hash function.\<close>

lemma context_other_hash [simp]:
  "caveat_context_of (S\<lparr>sy_sha256 := f\<rparr>) e rc g rq = caveat_context_of S e rc g rq"
  by (simp add: caveat_context_of_def)

lemma other_hash [simp]:
  "check_auth (S\<lparr>sy_sha256 := f\<rparr>) e rc rq h = check_auth S e rc rq h"
  "sealed_sys\<lparr>sy_sha256 := sample_sha\<rparr> = sealed_sys"
  unfolding check_auth_def context_other_hash by (simp_all add: sealed_sys_def sample_sys_def)

lemma sample_revoke:
  "\<exists>x h'. handle_grant_revoke (sealed_sys\<lparr>sy_sha256 := f\<rparr>) sample_env
     (sample_context\<lparr>rc_idempotency_key := k\<rparr>) (Some loss) signed_in = (Reply 200 x, h')"
proof -
  have own: "require_grant_ownership sample_env issued_grant ''g1'' (hb_store signed_in) = None"
    by (simp add: require_grant_ownership_def get_known_grant_def signed_in_def
        remember_authenticated_grant_def remember_grant_def insert_grant_def Let_def empty_store_def
        issued_grant_def issued_identifier_def)
  have head: "current_head revocations_stream s = None" if "streams s = []" for s
    using that by (simp add: current_head_def lookup_stream_def)
  show ?thesis
    by (simp add: handle_grant_revoke_def loss_def authorised_def sample_check_auth own Let_def write_blob_def
        append_history_event_eq revocation_head_def revocation_input_def head)
qed

definition sample_revoked :: hub where
  "sample_revoked = snd (serve sample_site sample_env sample_inbound (GrantRevoke (Some loss)) empty_hub)"

lemma sample_revoked_served:
  "\<exists>x. serve sample_site sample_env sample_inbound (GrantRevoke (Some loss)) empty_hub
     = (RText (Reply 200 x), sample_revoked)"
proof -
  obtain rep x h1 where a: "handle_grant_revoke sealed_sys sample_env
      (sample_context\<lparr>rc_idempotency_key := ''key1''\<rparr>) (Some loss) signed_in = (rep, h1)"
    and x: "rep = Reply 200 x"
    using sample_revoke [of sample_sha "''key1''"] unfolding other_hash by blast
  have "fst (serve sample_site sample_env sample_inbound (GrantRevoke (Some loss)) empty_hub) = RText (Reply 200 x)"
    using sample_idempotent [where nxt = "\<lambda>rc. handle_grant_revoke sealed_sys sample_env rc (Some loss)",
      OF signed_in_store(3) a, of "''grant/revoke''" "\<lambda>rep. ''ok''"] x
    by (simp add: serve_def sample_site_def authed_once_def authed_def logged_def with_log_def
        with_auth_def sample_inbound_def sample_authenticate signed_in_def Let_def)
  then show ?thesis unfolding sample_revoked_def by (metis prod.collapse)
qed


text \<open>
  Who may revoke. A revocation is answered with 200 only if the revoking grant's issuer is, in the
  Hub's table, the issuer or the recipient of the revoked grant, and the revoking grant permits it.
\<close>

theorem revocation_needs_ownership:
  assumes "handle_grant_revoke S e rc (Some r) h = (Reply 200 x, h')"
  shows "\<exists>g row. rc_grant rc = Some g
    \<and> lookup_by gr_id (kq_grant_id r) (grants_known (hb_store h)) = Some row
    \<and> (idn_issued_by (gt_identifier g) = gr_issued_by row \<or> idn_issued_by (gt_identifier g) = gr_recipient row)
    \<and> scope_permits (idn_scope (gt_identifier g)) (need ''grant'' [] ''revoke'')"
  using assms
proof (rule revoke_replied)
  fix g
  assume "fst (check_auth S e rc (need ''grant'' [] ''revoke'') h) = Allowed g"
    and own: "require_grant_ownership e g (kq_grant_id r) (hb_store h) = None"
  then show ?thesis
    using check_auth_sound(1,2) by (fastforce simp: require_grant_ownership_def Let_def
        dest!: get_known_grant_fields split: sum.splits option.splits if_splits)
qed

theorem revocation_needs_ownership_witness:
  "\<exists>row. lookup_by gr_id ''g1'' (grants_known (hb_store signed_in)) = Some row
     \<and> (gr_issued_by row = ''owner'' \<or> gr_recipient row = ''owner'')"
proof -
  obtain x h' where "handle_grant_revoke sealed_sys sample_env (sample_context\<lparr>rc_idempotency_key := []\<rparr>)
      (Some loss) signed_in = (Reply 200 x, h')"
    using sample_revoke [of sample_sha "[]"] unfolding other_hash by blast
  from revocation_needs_ownership [OF this] show ?thesis
    by (auto simp: sample_context_def issued_grant_def issued_identifier_def loss_def)
qed

text \<open>
  C37: the stream of revocations never verifies. The revocation's event is hashed with empty causal
  dependencies, but the verifier reads the missing value back as []: after any revocation answered
  with 200, verification of the stream fails, unless the hash function maps both texts to one value.
\<close>

theorem revocation_breaks_its_stream:
  assumes "store_inv (hb_store h)" and "\<And>b. sy_sha256 S (b @ ''[]'') \<noteq> sy_sha256 S b"
    and "handle_grant_revoke S e rc (Some r) h = (Reply 200 x, h')"
  shows "case verify_history_chain (sy_sha256 S) e' revocations_stream (hb_store h') of
    Inl _ \<Rightarrow> True | Inr v \<Rightarrow> \<not> vr_verified v"
  using assms(3)
proof (rule revoke_replied)
  fix g s1 s2 path body res
  assume w: "write_blob (sy_sha256 S) (sy_blobs_root S) e history_namespace (new_ulid e 0) body (hb_store h) = (Inr path, s1)"
    and a: "append_history_event (sy_sha256 S) e (revocation_input body g (revocation_head e s1)) path
        (new_ulid e 0) s1 = (Inr res, s2)"
    and h': "hb_store h' = snd (mark_grant_revoked e (kq_grant_id r) (hr_event_id res) s2)"
  let ?row = "history_row (sy_sha256 S) e (revocation_input body g (revocation_head e s1)) path (new_ulid e 0) s1"
  have inv: "store_inv s1"
    by (rule table_inv.kept [OF evolves_write_blob [OF w] assms(1)])
  have s2: "s2 = add_event (now_rfc3339 e) ?row s1"
    using a by (cases rule: append_history_event_cases [OF a]) auto
  have s2_inv: "store_inv s2" using append_history_inv [OF inv] a by (metis snd_conv)
  have "store_inv (hb_store h')"
    unfolding h' by (rule table_inv.preserved [OF step_revoke s2_inv])
  then have "by_seq (stream_events history_namespace revocations_stream (hb_store h'))
      = stream_events history_namespace revocations_stream s1 @ [?row]"
    by (subst by_seq_stream, assumption) (simp add: h' grants_frame s2 stream_events_def events_add_event revocation_input_def)
  moreover have "coalesce [] (ev_hash ?row) \<noteq> row_hash (sy_sha256 S) ?row"
    using assms(2) [of "coalesce [] (current_head revocations_stream s1) @ new_ulid e 0 @ ''grant.revoked'' @ body"]
    by (simp add: history_row_def row_hash_def revocation_input_def compute_history_event_hash_def Let_def
        del: append_Cons)
  ultimately have "\<not> chain_ok (sy_sha256 S) [] (by_seq (stream_events history_namespace revocations_stream (hb_store h')))"
    by (simp add: chain_ok_append)
  then show ?thesis
    using verify_walk_broken [of "sy_sha256 S" "[]" _ 0] by (fastforce simp: verify_history_chain_def)
qed

theorem revocation_breaks_its_stream_witness:
  "\<exists>(h' :: hub) v. verify_history_chain (\<lambda>b. b) sample_env revocations_stream (hb_store h') = Inr v \<and> \<not> vr_verified v"
proof -
  let ?S = "sealed_sys\<lparr>sy_sha256 := \<lambda>b. b\<rparr>"
  obtain x h' where "handle_grant_revoke ?S sample_env (sample_context\<lparr>rc_idempotency_key := []\<rparr>)
      (Some loss) signed_in = (Reply 200 x, h')"
    using sample_revoke [of "\<lambda>b. b" "[]"] by blast
  moreover have "store_inv (hb_store signed_in)"
    using store_inv_empty store_inv_cong [of "hb_store signed_in" empty_store]
    by (simp add: empty_store_def)
  ultimately have "case verify_history_chain (sy_sha256 ?S) sample_env revocations_stream (hb_store h') of
      Inl _ \<Rightarrow> True | Inr v \<Rightarrow> \<not> vr_verified v"
    by (intro revocation_breaks_its_stream) simp_all
  moreover obtain v where "verify_history_chain (\<lambda>b. b) sample_env revocations_stream (hb_store h') = Inr v"
    by (simp add: verify_history_chain_def)
  ultimately show ?thesis by auto
qed

section \<open>Caveats\<close>


lemma parse_namespace_caveat:
  "parse_caveat (trim_space ''namespace == notes'') = NamespaceIs ''notes''"
  "parse_caveat (trim_space ''operation in [read]'') = OperationIn [''read'']"
  by code_simp+


section \<open>Rate limits\<close>

lemma run_caveats_rate:
  assumes "parse_caveat (trim_space c) = Rate n w" and "gid \<noteq> []"
    and "list_all (\<lambda>q. cx_server (snd q) \<and> cx_grant_id (snd q) = gid) qs"
  shows "map (\<lambda>r. r = None) (fst (run_caveats [c] qs v)) = map snd (fst (run_rate
    (map (\<lambda>q. \<lparr>rk_env = fst q, rk_grant = gid, rk_capacity = n, rk_window = w\<rparr>) qs) v))"
  using assms(3)
proof (induction qs arbitrary: v)
  case (Cons q qs)
  obtain e cx where q: "q = (e, cx)" by fastforce
  with Cons.prems have cx: "cx_server cx" "cx_grant_id cx = gid" by simp_all
  have tail: "list_all (\<lambda>q. cx_server (snd q) \<and> cx_grant_id (snd q) = gid) qs"
    using Cons.prems by simp
  show ?case
    using Cons.IH [OF tail] assms(2) cx
    by (simp add: q evaluate_rate [OF assms(1)] Let_def case_prod_unfold)
qed simp

lemma run_rate_grants: "map (rk_grant \<circ> fst) (fst (run_rate qs v)) = map rk_grant qs"
  by (induction qs arbitrary: v) (auto split: prod.splits simp: prod_eq_iff)


text \<open>
  Two rate caveats do not limit. When a grant carries two different rates, each evaluation of one
  finds the bucket of the other, replaces it by a full one of its own, and passes: no request is ever
  limited, however many are made in an instant.
\<close>

theorem two_rate_caveats_never_limit:
  assumes "parse_caveat (trim_space c) = Rate n w" and "parse_caveat (trim_space d) = Rate m u"
    and "(n, w) \<noteq> (m, u)" and "gid \<noteq> []" and "other_limit v gid n w"
    and "list_all (\<lambda>q. cx_server (snd q) \<and> cx_grant_id (snd q) = gid) qs"
  shows "list_all (\<lambda>r. r = None) (fst (run_caveats [c, d] qs v))"
  using assms(5,6)
proof (induction qs arbitrary: v)
  case (Cons q qs)
  obtain e cx where q: "q = (e, cx)" by fastforce
  with Cons.prems have cx: "cx_server cx" "cx_grant_id cx = gid" by simp_all
  note s = two_rates_step [OF assms(1-3) cx assms(4) Cons.prems(1), of e]
  obtain r v1 where r: "evaluate_caveats e [c, d] cx v = (r, v1)" by fastforce
  show ?case
    using s Cons.IH [of v1] Cons.prems(2)
    by (simp add: q r Let_def case_prod_unfold del: evaluate_caveats.simps)
qed simp

text \<open>Three requests in half a second under a rate of one per second, and under two rates.\<close>

definition sample_rate_context :: caveat_context where
  "sample_rate_context = caveat_context_of sealed_sys sample_env sample_context issued_grant
     (need ''vault'' ''notes'' ''read'')"

definition sample_calls :: "(env \<times> caveat_context) list" where
  "sample_calls = map (\<lambda>t. (sample_env\<lparr>en_now := t\<rparr>, sample_rate_context)) [0, 250000000, 500000000]"

lemma sample_rate_context_simps [simp]:
  "cx_server sample_rate_context" "cx_grant_id sample_rate_context = ''g1''"
  by (simp_all add: sample_rate_context_def caveat_context_of_def issued_grant_def issued_identifier_def)

lemma parse_rate_caveats:
  "parse_caveat (trim_space ''rate <= 1 per second'') = Rate 1 1000000000"
  "parse_caveat (trim_space ''rate <= 1 per minute'') = Rate 1 60000000000"
  by code_simp+

lemma sample_volatile_ok: "volatile_ok empty_volatile" "refilled_by empty_volatile gid t"
  "other_limit empty_volatile gid n w"
  by (simp_all add: volatile_ok_def empty_volatile_def refilled_by_def other_limit_def)

lemma sample_never_evicts [simp]: "\<not> en_evicted sample_env k"
  by (simp add: sample_env_def plain_env_def)


theorem two_rate_caveats_never_limit_witness:
  "list_all (\<lambda>r. r = None)
      (fst (run_caveats [''rate <= 1 per second'', ''rate <= 1 per minute''] sample_calls empty_volatile))
   \<and> length sample_calls = 3"
  using two_rate_caveats_never_limit [OF parse_rate_caveats, of "''g1''" empty_volatile sample_calls]
  by (simp add: sample_calls_def sample_volatile_ok del: run_caveats.simps)

end
