(* ===== verification/Mint_Guarantees.thy ===== *)
theory Mint_Guarantees
  imports Access Sample_Hub
begin

text \<open>
  Minted grants: what a macaroon that the Hub mints is good for, how delegation narrows a grant, and
  where it does not.
\<close>

section \<open>Minting\<close>

lemma parse_time_caveat:
  assumes "in_range t"
  shows "parse_caveat (trim_space (time_caveat t)) = NotAfter t"
proof -
  have "trim_space (time_caveat t) = time_caveat t"
    using fmt_time_ends(2) [of t] unfolding time_caveat_def
    by (intro trim_space_trimmed) (simp_all add: is_space_def)
  then show ?thesis
    unfolding time_caveat_def parse_caveat_def
    by (simp only: has_prefix_append if_True body_of_def append_eq_conv_conj [THEN iffD1] drop_append
        parse_time_def) (simp add: assms)
qed

lemma mint_replied:
  assumes "handle_grant_mint S e rc (Some r) h = (Reply 200 x, h')"
  obtains g out where "fst (check_auth S e rc ((need ''grant'' [] ''mint'')\<lparr>rq_is_delegation := mq_parent r \<noteq> []\<rparr>) h) = Allowed g"
    "mq_parent r \<noteq> [] \<Longrightarrow> delegation_check S r = None" "sc_primitive (mq_scope r) \<noteq> []"
    "mint S \<lparr>ms_root_key = sy_root_key S, ms_location = rh_host (rc_headers rc),
       ms_identifier = minted_identifier e r g (new_ulid e 0),
       ms_caveats = time_caveat (mint_expiry e r) # mq_caveats r\<rparr> = Inr out"
    "mp_grant_id x = new_ulid e 0" "mp_macaroon x = b64_encode std_encoding (gt_macaroon out)"
  using assms unfolding handle_grant_mint_def option.case Let_def
  by (auto split: option.splits if_splits sum.splits intro: that dest!: authorised_replied)

text \<open>A grant under which a context was built, and when its caveats let a request through.\<close>

lemma check_auth_iff:
  assumes "rc_grant rc = Some g"
    and "\<forall>c\<in>set (gt_caveats g). \<not> is_rate (parse_caveat (trim_space c))"
  shows "(\<exists>g'. fst (check_auth S e rc rq h) = Allowed g') \<longleftrightarrow>
    scope_permits (idn_scope (gt_identifier g)) rq
    \<and> (\<forall>c\<in>set (gt_caveats g).
          meets e (caveat_context_of S e rc g rq) (hb_volatile h) (parse_caveat (trim_space c)))"
proof
  assume "\<exists>g'. fst (check_auth S e rc rq h) = Allowed g'"
  then show "scope_permits (idn_scope (gt_identifier g)) rq
    \<and> (\<forall>c\<in>set (gt_caveats g).
          meets e (caveat_context_of S e rc g rq) (hb_volatile h) (parse_caveat (trim_space c)))"
    using check_auth_sound [of S e rc rq h] assms(1) by fastforce
next
  assume a: "scope_permits (idn_scope (gt_identifier g)) rq
    \<and> (\<forall>c\<in>set (gt_caveats g).
          meets e (caveat_context_of S e rc g rq) (hb_volatile h) (parse_caveat (trim_space c)))"
  then have "fst (evaluate_caveats e (gt_caveats g) (caveat_context_of S e rc g rq) (hb_volatile h)) = None"
    using assms(2) by (intro evaluate_caveats_complete) auto
  then show "\<exists>g'. fst (check_auth S e rc rq h) = Allowed g'"
    using a by (auto simp: check_auth_def assms(1) split: prod.splits)
qed

lemma authenticate_minted:
  assumes "mint_laws S" and "mint S sp = Inr out" and "ms_root_key sp = sy_root_key S"
    and "rh_grant hs = b64_encode std_encoding (gt_macaroon out)" "gt_macaroon out \<noteq> []"
    and "rh_agent_id hs = []" "rh_discharge hs = []"
    and "revoked_mark (idn_grant_id (ms_identifier sp)) (hb_store h) = None"
  obtains h1 where "authenticate S e hs h = (Inr \<lparr>rc_headers = hs, rc_grant = Some out,
      rc_discharge_ids = [], rc_idempotency_key = []\<rparr>, h1)"
    "gt_identifier out = ms_identifier sp" "gt_caveats out = ms_caveats sp"
proof -
  note m = mint_parse [OF assms(1,2)]
  have k: "kg_revoked_at k = None"
    if "get_known_grant e (idn_grant_id (ms_identifier sp)) (hb_store h) = Inr (Some k)" for k
    using that assms(8) get_known_grant_fields [OF that] by (auto simp: revoked_mark_def)
  have "\<exists>h1. authenticate S e hs h = (Inr \<lparr>rc_headers = hs, rc_grant = Some out,
      rc_discharge_ids = [], rc_idempotency_key = []\<rparr>, h1)"
    using m(1,2,4,5) k assms(3-7)
    by (auto simp: authenticate_def parse_discharges_def Let_def split: sum.splits option.splits)
  with m(4,5) show thesis by (auto intro: that)
qed


definition sample_mint_req :: mint_req where
  "sample_mint_req = \<lparr>mq_recipient = ''phone'',
     mq_scope = \<lparr>sc_primitive = ''vault'', sc_namespace = ''notes'', sc_operations = [''read'']\<rparr>,
     mq_caveats = [], mq_expires_at = None, mq_parent = []\<rparr>"

lemma context_other_verify [simp]:
  "caveat_context_of (S\<lparr>sy_mac_verify := f\<rparr>) e rc g rq = caveat_context_of S e rc g rq"
  by (simp add: caveat_context_of_def)

lemma check_auth_other_verify [simp]:
  "check_auth (S\<lparr>sy_mac_verify := f\<rparr>) e rc rq h = check_auth S e rc rq h"
  unfolding check_auth_def context_other_verify ..

lemma sample_check_auth_unsealed [simp]:
  "\<not> rq_is_delegation rq \<Longrightarrow> check_auth sample_sys e sample_context rq h = (Allowed issued_grant, h)"
  using sample_check_auth_bare [of rq e h] by (simp add: sealed_sys_def)

lemma sample_mint:
  "\<exists>x h'. handle_grant_mint sample_sys sample_env sample_context (Some sample_mint_req) empty_hub
     = (Reply 200 x, h') \<and> mp_grant_id x = ''E'' @ dec_digits 0 \<and> mp_macaroon x \<noteq> []"
  by (simp add: handle_grant_mint_def sample_mint_req_def sample_sys_def [THEN arg_cong, of sy_strict_mint]
      authorised_def need_def mint_def sample_sys_def [THEN arg_cong, of sy_id_marshal]
      sample_sys_def [THEN arg_cong, of sy_mac_new] sample_macaroon_def frames_def new_ulid_def Let_def)

lemma sample_mint_expiry: "mint_expiry sample_env sample_mint_req = 30 * 86400000000000"
  by (simp add: mint_expiry_def sample_mint_req_def durations)


section \<open>Delegation\<close>

lemma first_missing_Nil:
  "first_missing cs ps = [] \<longleftrightarrow>
     (\<forall>c\<in>set ps. trim_space c = [] \<or> has_prefix ''time < '' (trim_space c) \<or> trim_space c \<in> set cs)"
  by (induction ps) (auto simp: Let_def)

text \<open>
  C8: delegation narrows. A mint request with a parent macaroon that names at least one operation is
  answered with 200 only if the parent verifies under the Hub's key and whatever the child's scope
  permits, the parent's permits; and the child takes over every caveat of the parent but the
  upper bounds on time.
\<close>

theorem delegation_narrows:
  assumes "handle_grant_mint S e rc (Some r) h = (Reply 200 x, h')"
    and "mq_parent r \<noteq> []" and "sc_operations (mq_scope r) \<noteq> []"
  shows "\<exists>b p. decode_any_base64 (mq_parent r) = Some b
    \<and> verify_signature S b (sy_root_key S) always_satisfied = Inr () \<and> parse_grant S b = Inr p
    \<and> (\<forall>rq. scope_permits (mq_scope r) rq \<longrightarrow>
          scope_permits (idn_scope (gt_identifier p)) rq)
    \<and> (\<forall>c\<in>set (gt_caveats p). trim_space c = [] \<or> has_prefix ''time < '' (trim_space c)
          \<or> trim_space c \<in> trim_space ` set (mq_caveats r))"
  using assms(1)
proof (rule mint_replied)
  assume "mq_parent r \<noteq> [] \<Longrightarrow> delegation_check S r = None"
    and prim: "sc_primitive (mq_scope r) \<noteq> []"
  with assms(2) have d: "delegation_check S r = None" by simp
  then obtain b p where p: "decode_any_base64 (mq_parent r) = Some b"
    "verify_signature S b (sy_root_key S) always_satisfied = Inr ()" "parse_grant S b = Inr p"
    by (auto simp: delegation_check_def split: option.splits sum.splits)
  let ?sc = "idn_scope (gt_identifier p)"
  have sc: "sc_primitive ?sc = [] \<or> sc_primitive ?sc = sc_primitive (mq_scope r)"
    "sc_namespace ?sc = [] \<or> sc_namespace ?sc = ''*'' \<or> sc_namespace ?sc = sc_namespace (mq_scope r)"
    "sc_operations ?sc = [] \<or> set (sc_operations (mq_scope r)) \<subseteq> set (sc_operations ?sc)"
    "missing_caveats (gt_caveats p) (mq_caveats r) = []"
    using d p by (auto simp: delegation_check_def Let_def list_all_iff split: if_splits)
  have "scope_permits ?sc rq" if "scope_permits (mq_scope r) rq" for rq
    using that sc(1-3) prim assms(3) by (auto simp: scope_permits_def)
  moreover have "\<forall>c\<in>set (gt_caveats p). trim_space c = [] \<or> has_prefix ''time < '' (trim_space c)
      \<or> trim_space c \<in> trim_space ` set (mq_caveats r)"
    using sc(4) by (simp add: missing_caveats_def first_missing_Nil)
  ultimately show ?thesis using p by blast
qed

text \<open>
  C35: delegation that names no operation widens. A child scope without operations passes every check
  against a parent with operations, since there is nothing to compare, and then permits all of them:
  from a parent that may only read a namespace comes a child that may write it.
\<close>

theorem delegation_without_operations_widens:
  assumes "decode_any_base64 (mq_parent r) = Some b"
    and "verify_signature S b (sy_root_key S) always_satisfied = Inr ()" and "parse_grant S b = Inr p"
    and "idn_scope (gt_identifier p) = \<lparr>sc_primitive = ''vault'', sc_namespace = ns, sc_operations = [''read'']\<rparr>"
    and "mq_scope r = \<lparr>sc_primitive = ''vault'', sc_namespace = ns, sc_operations = []\<rparr>"
    and "mq_caveats r = gt_caveats p"
  shows "delegation_check S r = None
    \<and> scope_permits (mq_scope r) (need ''vault'' ns ''write'')
    \<and> \<not> scope_permits (idn_scope (gt_identifier p)) (need ''vault'' ns ''write'')"
proof -
  have "missing_caveats (gt_caveats p) (mq_caveats r) = []"
    by (simp add: missing_caveats_def first_missing_Nil assms(6))
  then show ?thesis
    by (simp add: delegation_check_def assms(1-5) scope_permits_def need_def)
qed

text \<open>Parents with some operations on the notes, and a child that asks for some.\<close>

definition sample_parent :: "string list \<Rightarrow> grant_identifier" where
  "sample_parent ops = \<lparr>idn_grant_id = ''p1'', idn_issued_at = 0, idn_issued_by = ''owner'', idn_keypair = ''pub'',
     idn_parent = [], idn_scope = \<lparr>sc_primitive = ''vault'', sc_namespace = ''notes'',
       sc_operations = ops\<rparr>\<rparr>"

definition sample_parent_macaroon :: "string list \<Rightarrow> bytes" where
  "sample_parent_macaroon ops = sample_macaroon sample_root_key (frames (id_fields (sample_parent ops))) []"

definition sample_child :: "string list \<Rightarrow> string list \<Rightarrow> mint_req" where
  "sample_child pops ops = \<lparr>mq_recipient = ''phone'',
     mq_scope = \<lparr>sc_primitive = ''vault'', sc_namespace = ''notes'', sc_operations = ops\<rparr>,
     mq_caveats = [], mq_expires_at = None, mq_parent = b64_encode std_encoding (sample_parent_macaroon pops)\<rparr>"

definition free_context :: rctx where
  "free_context = sample_context\<lparr>rc_grant := Some (issued_grant\<lparr>gt_caveats := []\<rparr>)\<rparr>"

lemma free_check_auth:
  "check_auth S e free_context rq h = (Allowed (issued_grant\<lparr>gt_caveats := []\<rparr>), h)"
  by (simp add: check_auth_def free_context_def issued_grant_def scope_permits_def issued_identifier_def)

lemma sample_parent_parses:
  "decode_any_base64 (b64_encode std_encoding (sample_parent_macaroon ops)) = Some (sample_parent_macaroon ops)"
  "verify_signature sample_sys (sample_parent_macaroon ops) (sy_root_key sample_sys) always_satisfied = Inr ()"
  "parse_grant sample_sys (sample_parent_macaroon ops) = Inr \<lparr>gt_id = ''p1'', gt_macaroon = sample_parent_macaroon ops,
     gt_identifier = sample_parent ops, gt_caveats = []\<rparr>"
  by (simp_all add: decode_any_base64_def verify_signature_def parse_grant_def sample_sys_def
      sample_parent_macaroon_def sample_macaroon_def read_macaroon_def check_macaroon_def sample_parent_def)

lemma sample_delegation:
  "set ops \<subseteq> set pops \<Longrightarrow> delegation_check sample_sys (sample_child pops ops) = None"
  by (auto simp: delegation_check_def sample_child_def sample_parent_parses sample_parent_def Let_def
      missing_caveats_def list_all_iff)

theorem delegation_narrows_witness:
  "\<exists>x h'. handle_grant_mint sample_sys sample_env free_context (Some (sample_child [''read'', ''write''] [''read''])) empty_hub
      = (Reply 200 x, h')
    \<and> (\<exists>b p. decode_any_base64 (mq_parent (sample_child [''read'', ''write''] [''read''])) = Some b
        \<and> parse_grant sample_sys b = Inr p
        \<and> scope_permits (idn_scope (gt_identifier p)) (need ''vault'' ''notes'' ''read''))"
proof -
  have "\<exists>x h'. handle_grant_mint sample_sys sample_env free_context (Some (sample_child [''read'', ''write''] [''read''])) empty_hub
      = (Reply 200 x, h')"
    using sample_delegation [of "[''read'']" "[''read'', ''write'']"]
    by (simp add: handle_grant_mint_def sample_sys_def [THEN arg_cong, of sy_strict_mint]
      authorised_def free_check_auth need_def mint_def sample_sys_def [THEN arg_cong, of sy_id_marshal]
      sample_sys_def [THEN arg_cong, of sy_mac_new] Let_def) (simp add: sample_child_def)
  then obtain x h' where x: "handle_grant_mint sample_sys sample_env free_context
      (Some (sample_child [''read'', ''write''] [''read''])) empty_hub = (Reply 200 x, h')" by blast
  have "mq_parent (sample_child [''read'', ''write''] [''read'']) \<noteq> []" "sc_operations (mq_scope (sample_child [''read'', ''write''] [''read''])) \<noteq> []"
    "scope_permits (mq_scope (sample_child [''read'', ''write''] [''read''])) (need ''vault'' ''notes'' ''read'')"
    by (simp_all add: sample_child_def sample_parent_macaroon_def sample_macaroon_def frames_def
        scope_permits_def need_def)
  with delegation_narrows [OF x] x show ?thesis by blast
qed

theorem delegation_without_operations_widens_witness:
  "delegation_check sample_sys (sample_child [''read''] []) = None
    \<and> scope_permits (mq_scope (sample_child [''read''] [])) (need ''vault'' ''notes'' ''write'')
    \<and> \<not> scope_permits (idn_scope (sample_parent [''read''])) (need ''vault'' ''notes'' ''write'')"
proof -
  have "decode_any_base64 (mq_parent (sample_child [''read''] [])) = Some (sample_parent_macaroon [''read''])"
    by (simp add: sample_child_def sample_parent_parses)
  from delegation_without_operations_widens [OF this sample_parent_parses(2,3), of "''notes''"]
  show ?thesis by (simp add: sample_child_def sample_parent_def)
qed

section \<open>Grants that other endpoints mint\<close>

lemma discharge_replied:
  assumes "handle_grant_discharge S e rc (Some r) h = (Reply 200 x, h')"
  obtains out where
    "mint S \<lparr>ms_root_key = sy_root_key S, ms_location = dq_verifier_url r,
       ms_identifier = discharge_identifier e (dq_verifier_url r),
       ms_caveats = [time_caveat (en_now e + 24 * hour)]\<rparr> = Inr out"
    "dp_discharge x = b64_encode std_encoding (gt_macaroon out)"
  using assms unfolding handle_grant_discharge_def option.case Let_def
  by (auto split: if_splits sum.splits intro: that dest!: authorised_replied)

text \<open>
  C36: a discharge is a grant for everything. The macaroon that the discharge endpoint issues is minted
  under the Hub's root key with an empty scope. Presented in the grant header instead of the discharge
  header it authenticates, and for 24 hours checkAuth lets every request through, whatever the grant
  that was discharged permits.
\<close>

theorem discharge_is_a_full_grant:
  assumes "mint_laws S" and "handle_grant_discharge S e rc (Some r) h = (Reply 200 x, h')"
    and "in_range (en_now e + 24 * hour)" and "en_now e' < en_now e + 24 * hour"
    and "rh_grant hs = dp_discharge x" "dp_discharge x \<noteq> []" "rh_agent_id hs = []" "rh_discharge hs = []"
    and "revoked_mark (dq_verifier_url r) (hb_store h1) = None"
  shows "\<exists>rc' h2. authenticate S e' hs h1 = (Inr rc', h2)
    \<and> (\<forall>rq h3. \<exists>g. fst (check_auth S e' rc' rq h3) = Allowed g)"
  using assms(2)
proof (rule discharge_replied)
  fix out
  let ?sp = "\<lparr>ms_root_key = sy_root_key S, ms_location = dq_verifier_url r,
       ms_identifier = discharge_identifier e (dq_verifier_url r),
       ms_caveats = [time_caveat (en_now e + 24 * hour)]\<rparr>"
  assume m: "mint S ?sp = Inr out" and x: "dp_discharge x = b64_encode std_encoding (gt_macaroon out)"
  let ?rc = "\<lparr>rc_headers = hs, rc_grant = Some out, rc_discharge_ids = [], rc_idempotency_key = []\<rparr>"
  obtain h2 where a: "authenticate S e' hs h1 = (Inr ?rc, h2)"
    and i: "gt_identifier out = ms_identifier ?sp" "gt_caveats out = ms_caveats ?sp"
    by (rule authenticate_minted [OF assms(1) m, of hs h1 e'])
      (use assms(5-9) x in \<open>auto simp: discharge_identifier_def\<close>)
  have "\<exists>g. fst (check_auth S e' ?rc rq h3) = Allowed g" for rq h3
    using assms(4) i
    by (subst check_auth_iff [of _ out])
      (auto simp: parse_time_caveat [OF assms(3)] caveat_context_of_def discharge_identifier_def scope_permits_def)
  with a show ?thesis by blast
qed

definition sample_discharge_req :: discharge_req where
  "sample_discharge_req = \<lparr>dq_grant_id = ''g1'', dq_verifier_url = ''https://v''\<rparr>"

theorem discharge_is_a_full_grant_witness:
  "\<exists>(x :: discharge_resp) rc' h2.
     authenticate sample_sys sample_env (owner_headers\<lparr>rh_grant := dp_discharge x\<rparr>) empty_hub = (Inr rc', h2)
     \<and> (\<exists>g. fst (check_auth sample_sys sample_env rc' (need ''vault'' ''secrets'' ''write'') h2) = Allowed g)"
proof -
  have "\<exists>x h'. handle_grant_discharge sample_sys sample_env sample_context (Some sample_discharge_req) empty_hub
     = (Reply 200 x, h') \<and> dp_discharge x \<noteq> []"
    by (simp add: handle_grant_discharge_def sample_discharge_req_def authorised_def mint_def
        is_grant_revoked_def empty_unrevoked empty_store_def sample_sys_def [THEN arg_cong, of sy_id_marshal]
        sample_sys_def [THEN arg_cong, of sy_mac_new] sample_macaroon_def frames_def Let_def)
  then obtain x h' where x: "handle_grant_discharge sample_sys sample_env sample_context
      (Some sample_discharge_req) empty_hub = (Reply 200 x, h')" "dp_discharge x \<noteq> []" by blast
  obtain rc' h2 where "authenticate sample_sys sample_env (owner_headers\<lparr>rh_grant := dp_discharge x\<rparr>) empty_hub
      = (Inr rc', h2)" "\<And>rq h3. \<exists>g. fst (check_auth sample_sys sample_env rc' rq h3) = Allowed g"
    using discharge_is_a_full_grant [OF sample_mint_laws x(1), of sample_env
        "owner_headers\<lparr>rh_grant := dp_discharge x\<rparr>" empty_hub] x(2)
    by (auto simp: in_range_first_month owner_headers_def empty_unrevoked durations)
  then show ?thesis by blast
qed

lemma parse_device_caveat:
  assumes "trim_space k = k" and "k \<noteq> []"
  shows "parse_caveat (trim_space (''device-id == '' @ k)) = DeviceIs k"
proof -
  have "\<not> is_space (last k)" using trim_space_cases [of k] assms by auto
  then have "trim_space (''device-id == '' @ k) = ''device-id == '' @ k"
    using assms(2) by (intro trim_space_trimmed) (simp_all add: is_space_def)
  then show ?thesis
    by (simp add: parse_caveat_def has_prefix_def body_of_def assms(1))
qed

lemma parse_read_write_caveat:
  "parse_caveat (trim_space ''operation in [read, write]'') = OperationIn [''read'', ''write'']"
  by code_simp

lemma redeem_replied:
  assumes "handle_crate_redeem S e rc (Some r) h = (Reply 200 x, h')"
  obtains out where "cr_daemon_pubkey r \<noteq> []"
    "mint S (capability_spec S rc (redeemed_identifier S e (new_ulid e 0) (cp_bucket x))
       [time_caveat (en_now e + capability_ttl), ''device-id == '' @ cr_daemon_pubkey r,
        ''operation in [read, write]'']) = Inr out"
    "cp_capability x = b64_encode std_encoding (gt_macaroon out)"
  using assms unfolding handle_crate_redeem_def option.case Let_def
  by (auto split: if_splits sum.splits prod.splits intro: that)


definition sample_redeem_req :: crate_redeem_req where
  "sample_redeem_req = \<lparr>cr_v = 1, cr_secret = ''s'', cr_daemon_pubkey = ''d'', cr_fingerprint = ''f''\<rparr>"

lemma sample_redeem:
  "\<exists>x h'. handle_crate_redeem sample_sys sample_env (bare_context owner_headers) (Some sample_redeem_req)
       hub_with_open_crate = (Reply 200 x, h') \<and> cp_capability x \<noteq> [] \<and> cp_bucket x = ''b''"
proof -
  have t: "lookup_crate_token sample_env ''s'' (hb_store hub_with_open_crate) = Inr (crate_token_of_row open_crate)"
    by (simp add: lookup_crate_token_def hub_with_open_crate_def open_crate_def)
  have o: "ck_cancelled_at (crate_token_of_row open_crate) = None" "ck_redeemed_at (crate_token_of_row open_crate) = None"
    "ck_expires_at (crate_token_of_row open_crate) = 86400000000000" "ck_bucket_id (crate_token_of_row open_crate) = ''b''"
    by (simp_all add: crate_token_of_row_def open_crate_def in_range_first_month)
  have c: "redeem_check 0 (crate_token_of_row open_crate) = None"
    "redeem_update a ''s'' [open_crate] = (Inr (), [redeem_row a open_crate])" for a
    by (simp add: redeem_check_def o)
      (simp add: redeem_update_def rows_matching_def update_where_def open_crate_def crate_open_def)
  have l: "lookup_crate_token sample_env ''s'' (empty_store\<lparr>crate_pairing_tokens := [redeem_row a open_crate]\<rparr>)
      = Inr (crate_token_of_row (redeem_row a open_crate))" for a
    by (simp add: lookup_crate_token_def open_crate_def redeem_row_def)
  have "\<exists>y s1. redeem_crate_token sample_env ''s'' ''d'' ''f'' (''E'' @ dec_digits 0)
      (hb_store hub_with_open_crate) = (Inr y, s1)"
    unfolding redeem_crate_token_def t sum.case sample_env_simps c(1) option.case
    by (simp add: hub_with_open_crate_def c(2) l Let_def case_unit_Unity)
  then obtain y s1 where "redeem_crate_token sample_env ''s'' ''d'' ''f'' (''E'' @ dec_digits 0)
      (hb_store hub_with_open_crate) = (Inr y, s1)" by blast
  then show ?thesis
    by (simp add: handle_crate_redeem_def sample_redeem_req_def t o mint_def capability_spec_def new_ulid_def
        sample_sys_def [THEN arg_cong, of sy_id_marshal] sample_sys_def [THEN arg_cong, of sy_mac_new]
        sample_macaroon_def frames_def Let_def)
qed


end
