(* ===== verification/Time_Order.thy ===== *)
theory Time_Order
  imports Go_Time
begin

text \<open>
  How the text of a timestamp orders: expiry columns are compared as text. To the second the order is
  that of the instants, for the years 0 to 9999; within a second it is not, because the fraction is
  left out when it is 0 and its trailing zeros always are.
\<close>

section \<open>Text of a fixed width\<close>

lemma append_less_first: "length a = length b \<Longrightarrow> a < b \<Longrightarrow> a @ x < b @ (y :: string)"
  by (induction a b rule: list_induct2) auto

lemma append_less_rest: "a @ x < a @ y \<longleftrightarrow> x < (y :: string)"
  by (induction a) auto

lemma digit_char_less: "m < n \<Longrightarrow> n < 10 \<Longrightarrow> digit_char m < digit_char n"
  using char_code_digit_char [of m] char_code_digit_char [of n]
  by (simp add: char_code_def less_char_def)

lemma pad_digits_less: "m < n \<Longrightarrow> n < 10 ^ k \<Longrightarrow> pad_digits k m < pad_digits k n"
proof (induction k arbitrary: m n)
  case (Suc k)
  show ?case
  proof (cases "m div 10 < n div 10")
    case True
    then have "pad_digits k (m div 10) < pad_digits k (n div 10)"
      using Suc by (intro Suc.IH) (simp_all add: less_mult_imp_div_less mult.commute)
    then show ?thesis by (simp add: append_less_first)
  next
    case False
    have "m div 10 = n div 10" using False Suc.prems(1) div_le_mono [of m n 10] by simp
    moreover have "m mod 10 < n mod 10"
      using Suc.prems(1) div_mult_mod_eq [of m 10] div_mult_mod_eq [of n 10] calculation by linarith
    ultimately show ?thesis by (simp add: append_less_rest digit_char_less)
  qed
qed simp

section \<open>The order of dates\<close>

definition days_before :: "nat \<Rightarrow> nat" where
  "days_before y = (y + 399) div 400 * era_days + year_start ((y + 399) mod 400)"

definition month_days :: "nat \<Rightarrow> nat list" where
  "month_days y = month_lengths ((y + 399) mod 400 + 1)"

lemma days_of_date_split:
  "days_of_date y m d = days_before y + (sum_list (take (m - 1) (month_days y)) + (d - 1))"
  by (simp add: days_of_date_def days_before_def month_days_def Let_def)

lemma year_start_era: "year_start 400 = era_days"
  by (simp add: year_start_def era_days_def)

lemma days_before_Suc: "days_before (Suc y) = days_before y + sum_list (month_days y)"
proof (cases "(y + 399) mod 400 = 399")
  case True
  then have "Suc y + 399 = 400 * Suc ((y + 399) div 400)"
    using mult_div_mod_eq [of 400 "y + 399"] by simp
  then have "(Suc y + 399) mod 400 = 0" "(Suc y + 399) div 400 = Suc ((y + 399) div 400)"
    by (metis mod_mult_self1_is_0, metis nonzero_mult_div_cancel_left zero_neq_numeral)
  moreover have "year_start 400 = year_start 399 + days_in_year 400"
    using year_start_Suc [of 399] by simp
  ultimately show ?thesis
    using year_start_era True
    by (simp add: days_before_def month_days_def sum_month_lengths year_start_def [of 0])
next
  case False
  then have "(Suc y + 399) mod 400 = Suc ((y + 399) mod 400)" "(Suc y + 399) div 400 = (y + 399) div 400"
    using mod_Suc [of "y + 399" 400] div_Suc [of "y + 399" 400] by simp_all
  then show ?thesis
    by (simp add: days_before_def month_days_def sum_month_lengths year_start_Suc)
qed

lemma month_days_eq: "month_days y = month_lengths y"
proof -
  have "400 * ((y + 399) div 400) + ((y + 399) mod 400 + 1) = 400 * 1 + y"
    using mult_div_mod_eq [of 400 "y + 399"] by simp
  then have "leap ((y + 399) mod 400 + 1) = leap y" by (metis leap_era)
  then show ?thesis by (simp add: month_days_def month_lengths_def)
qed

lemma days_before_mono: "y < y' \<Longrightarrow> days_before y + sum_list (month_lengths y) \<le> days_before y'"
proof -
  assume "y < y'"
  moreover have "days_before a \<le> days_before b" if "a \<le> b" for a b
    by (rule lift_Suc_mono_le [of days_before, OF _ that]) (simp add: days_before_Suc)
  ultimately have "days_before (Suc y) \<le> days_before y'" by simp
  then show ?thesis by (simp add: days_before_Suc month_days_eq)
qed

text \<open>The day of a date within its year, and before the days of any later month.\<close>

lemma day_in_month:
  assumes "1 \<le> m" "m \<le> m'" "m' \<le> 12" "1 \<le> d" "d \<le> month_lengths y ! (m - 1)"
  shows "sum_list (take (m - 1) (month_lengths y)) + (d - 1) < sum_list (take m' (month_lengths y))"
proof -
  have "take m (month_lengths y) = take (m - 1) (month_lengths y) @ [month_lengths y ! (m - 1)]"
    using take_Suc_conv_app_nth [of "m - 1" "month_lengths y"] assms by (simp add: length_month_lengths)
  moreover have "sum_list (take m (month_lengths y)) \<le> sum_list (take m' (month_lengths y))"
    using take_add [of m "m' - m" "month_lengths y"] assms(2) by simp
  ultimately show ?thesis using assms by simp
qed

lemma days_of_date_year:
  assumes "y < y'" "1 \<le> m" "m \<le> 12" "1 \<le> d" "d \<le> month_lengths y ! (m - 1)"
  shows "days_of_date y m d < days_of_date y' m' d'"
  using days_before_mono [OF assms(1)] day_in_month [of m 12 d y] assms
  by (simp add: days_of_date_split month_days_eq length_month_lengths)

lemma days_of_date_month:
  assumes "m < m'" "1 \<le> m" "m' \<le> 12" "1 \<le> d" "d \<le> month_lengths y ! (m - 1)"
  shows "days_of_date y m d < days_of_date y m' d'"
proof -
  have "sum_list (take (m - 1) (month_lengths y)) + (d - 1) < sum_list (take (m' - 1) (month_lengths y))"
    using assms by (intro day_in_month) auto
  then show ?thesis by (simp only: days_of_date_split month_days_eq)
qed

lemma days_of_date_day: "d < d' \<Longrightarrow> 1 \<le> d \<Longrightarrow> days_of_date y m d < days_of_date y m d'"
  by (simp add: days_of_date_split)

definition secs_of :: "civil \<Rightarrow> nat" where
  "secs_of c = days_of_date (c_year c) (c_month c) (c_day c) * 86400 + c_hour c * 3600 + c_min c * 60 + c_sec c"

lemma secs_of_civil: "in_range t \<Longrightarrow> t + int era_days * day = int (secs_of (civil_of t) * 1000000000 + c_nsec (civil_of t))"
  using time_of_civil_of [of t] by (simp add: time_of_def secs_of_def)

definition date_text :: "civil \<Rightarrow> string" where
  "date_text c =
     pad_digits 4 (c_year c) @ ''-'' @ pad_digits 2 (c_month c) @ ''-'' @ pad_digits 2 (c_day c)
     @ ''T'' @ pad_digits 2 (c_hour c) @ '':'' @ pad_digits 2 (c_min c) @ '':'' @ pad_digits 2 (c_sec c)"

lemma fmt_time_split:
  "in_range t \<Longrightarrow> fmt_time t = date_text (civil_of t)
     @ (if c_nsec (civil_of t) = 0 then [] else ''.'' @ frac_digits (c_nsec (civil_of t))) @ ''Z''"
  using civil_of_ok [of t] by (simp add: fmt_time_def fmt_civil_def year_text_def date_text_def civil_ok_def)

lemma length_date_text [simp]: "length (date_text c) = 19"
  by (simp add: date_text_def)

text \<open>The earlier of two dates has a smaller field where they first differ.\<close>

lemma secs_of_less:
  assumes "civil_ok c" "civil_ok c'" and "secs_of c < secs_of c'"
  obtains "c_year c < c_year c'"
  | "c_year c = c_year c'" "c_month c < c_month c'"
  | "c_year c = c_year c'" "c_month c = c_month c'" "c_day c < c_day c'"
  | "c_year c = c_year c'" "c_month c = c_month c'" "c_day c = c_day c'" "c_hour c < c_hour c'"
  | "c_year c = c_year c'" "c_month c = c_month c'" "c_day c = c_day c'" "c_hour c = c_hour c'"
    "c_min c < c_min c'"
  | "c_year c = c_year c'" "c_month c = c_month c'" "c_day c = c_day c'" "c_hour c = c_hour c'"
    "c_min c = c_min c'" "c_sec c < c_sec c'"
proof -
  let ?d = "\<lambda>c. days_of_date (c_year c) (c_month c) (c_day c)"
  have b: "c_hour c \<le> 23" "c_min c \<le> 59" "c_sec c \<le> 59" "c_hour c' \<le> 23" "c_min c' \<le> 59" "c_sec c' \<le> 59"
    using assms(1,2) by (simp_all add: civil_ok_def)
  have day: "\<not> ?d c' < ?d c" using assms(3) b by (simp add: secs_of_def)
  have y: "\<not> c_year c' < c_year c"
    using days_of_date_year [of "c_year c'" "c_year c"] day assms(2) by (auto simp: civil_ok_def)
  have m: "c_year c = c_year c' \<Longrightarrow> \<not> c_month c' < c_month c"
    using days_of_date_month [of "c_month c'" "c_month c"] day assms(1,2) by (auto simp: civil_ok_def)
  have d: "c_year c = c_year c' \<Longrightarrow> c_month c = c_month c' \<Longrightarrow> \<not> c_day c' < c_day c"
    using days_of_date_day [of "c_day c'" "c_day c"] day assms(1,2) by (auto simp: civil_ok_def)
  have t: "?d c = ?d c' \<Longrightarrow> c_hour c < c_hour c' \<or> c_hour c = c_hour c' \<and>
      (c_min c < c_min c' \<or> c_min c = c_min c' \<and> c_sec c < c_sec c')"
    using assms(3) b by (simp add: secs_of_def) linarith
  show thesis using that y m d t by (metis linorder_neqE_nat)
qed

lemma date_text_less:
  assumes "civil_ok c" "civil_ok c'" and "secs_of c < secs_of c'"
  shows "date_text c @ x < date_text c' @ y"
proof -
  have p: "pad_digits k m @ x < pad_digits k n @ y" if "m < n" "n < 10 ^ k" for k m n x y
    using append_less_first [OF _ pad_digits_less [OF that]] by simp
  note p = p [of _ _ 4, simplified] p [of _ _ 2, simplified]
  have b: "c_year c' < 10000" "c_month c' < 100" "c_day c' < 100" "c_hour c' < 100"
    "c_min c' < 100" "c_sec c' < 100"
    using assms(2) month_length_le [of "c_month c'" "c_year c'"] by (auto simp: civil_ok_def)
  from assms show ?thesis
    by (cases rule: secs_of_less) (simp_all add: date_text_def append_less_rest p b del: pad_digits.simps)
qed

text \<open>Of two instants in different seconds, the earlier one has the smaller text.\<close>

lemma fmt_time_less:
  assumes "in_range t" "in_range u" and "t div second < u div second"
  shows "fmt_time t < fmt_time u"
proof -
  have s: "int (secs_of (civil_of v)) = v div second + int era_days * 86400" if "in_range v" for v
  proof -
    have ns: "c_nsec (civil_of v) < 1000000000" using civil_of_ok [OF that] by (simp add: civil_ok_def)
    have "v + int era_days * day = int (secs_of (civil_of v)) * second + int (c_nsec (civil_of v))"
      using secs_of_civil [OF that] by (simp add: second_def)
    then have "int (secs_of (civil_of v)) = (v + int era_days * 86400 * second) div second"
      using ns by (simp add: durations)
    then show ?thesis by (simp add: second_def)
  qed
  have "int (secs_of (civil_of t)) < int (secs_of (civil_of u))"
    using assms(3) by (simp only: s [OF assms(1)] s [OF assms(2)])
  then have "secs_of (civil_of t) < secs_of (civil_of u)" by simp
  then show ?thesis
    using assms civil_of_ok by (simp only: fmt_time_split) (rule date_text_less)
qed

text \<open>The text of a whole second is greater than that of every later instant of the second.\<close>

lemma fmt_time_whole:
  assumes "in_range t" "in_range (t + ns)" "second dvd t" "0 < ns" "ns < second"
  shows "fmt_time (t + ns) < fmt_time t"
proof -
  obtain q where q: "t + int era_days * day = 1000000000 * q"
    using assms(3) by (auto simp: durations dvd_def distrib_left [symmetric] mult.assoc [symmetric]
        intro: that [of "_ + int era_days * 86400"])
  have "0 \<le> q" using assms(1) q by (simp add: in_range_def durations era_days_def)
  then have n: "nat (t + int era_days * day) = 1000000000 * nat q"
    "nat (t + ns + int era_days * day) = 1000000000 * nat q + nat ns"
    using q assms(4) by (simp_all add: nat_eq_iff)
  have small: "nat ns < 1000000000" using assms(5) by (simp add: second_def)
  have "c_nsec (civil_of t) = 0" "c_nsec (civil_of (t + ns)) = nat ns"
    using small by (simp_all add: civil_of_def n Let_def case_prod_unfold)
  moreover have "date_text (civil_of (t + ns)) = date_text (civil_of t)"
    using small by (simp add: civil_of_def n Let_def case_prod_unfold date_text_def)
  ultimately show ?thesis
    using assms by (simp add: fmt_time_split append_less_rest less_char_def)
qed

end
