(* ===== verification/Go_Query.thy ===== *)
theory Go_Query
  imports Go_Url
begin

text \<open>
  What the encoding of query parameters by net/url guarantees: decoding undoes escaping, and a
  query that was encoded from distinct parameters parses back to them.
\<close>

lemma query_escape_unescape: "unescape True (query_escape s) = Some s"
proof (induction s)
  case (Cons c s)
  have q: "query_escape (c # s) = (if unreserved c then [c] else if c = CHR '' '' then ''+'' else percent_byte c)
      @ query_escape s" by (simp add: query_escape_def)
  show ?case
  proof (cases "unreserved c")
    case True
    then have "c \<noteq> CHR ''%''" "c \<noteq> CHR ''+''" using unreserved_not by auto
    then show ?thesis using Cons True by (simp add: q)
  next
    case False
    then have "query_escape (c # s) = (if c = CHR '' '' then ''+'' else percent_byte c) @ query_escape s"
      by (simp add: q)
    then show ?thesis using Cons by (simp add: unescape_percent)
  qed
qed (simp add: query_escape_def)

lemma set_query_escape:
  assumes "c \<in> set (query_escape s)"
  shows "unreserved c \<or> c = CHR ''+'' \<or> c = CHR ''%''"
proof -
  have "char_code d div 16 < 16" for d using char_code_bound [of d] by simp
  moreover have "char_code d mod 16 < 16" for d by simp
  ultimately show ?thesis
    using assms upper_hex_alpha_num
    by (auto simp: query_escape_def percent_byte_def unreserved_def split: if_splits)
qed

lemma query_escape_plain:
  "CHR ''&'' \<notin> set (query_escape s)" "CHR ''='' \<notin> set (query_escape s)" "CHR '';'' \<notin> set (query_escape s)"
proof -
  have "\<not> unreserved CHR '';''" by (simp add: unreserved_def is_alpha_num_def char_code_def)
  then show "CHR ''&'' \<notin> set (query_escape s)" "CHR ''='' \<notin> set (query_escape s)" "CHR '';'' \<notin> set (query_escape s)"
    using set_query_escape [of _ s] unreserved_not by fastforce+
qed

lemma split_once_first: "c \<notin> set a \<Longrightarrow> split_once [c] (a @ c # b) = Some (a, b)"
  by (induction a) (auto simp: has_prefix_def)

definition encode_pair :: "string \<times> string \<Rightarrow> string" where
  "encode_pair kv = query_escape (fst kv) @ ''='' @ query_escape (snd kv)"

lemma parse_encoded_pairs:
  "distinct (map fst kvs) \<Longrightarrow> \<forall>kv\<in>set kvs. fst kv \<notin> fst ` set q \<Longrightarrow>
     parse_pairs (map encode_pair kvs) q = q @ map (\<lambda>kv. (fst kv, [snd kv])) kvs"
proof (induction kvs arbitrary: q)
  case (Cons kv kvs)
  have e: "encode_pair kv \<noteq> []" "CHR '';'' \<notin> set (encode_pair kv)"
    "split_once ''='' (encode_pair kv) = Some (query_escape (fst kv), query_escape (snd kv))"
    by (simp_all add: encode_pair_def query_escape_plain split_once_first)
  have "parse_pairs (map encode_pair (kv # kvs)) q = parse_pairs (map encode_pair kvs) (add_value (fst kv) (snd kv) q)"
    using e by (simp add: query_escape_unescape)
  also have "add_value (fst kv) (snd kv) q = q @ [(fst kv, [snd kv])]"
    using Cons.prems(2) by (simp add: add_value_def)
  also have "parse_pairs (map encode_pair kvs) \<dots> = (q @ [(fst kv, [snd kv])]) @ map (\<lambda>kv. (fst kv, [snd kv])) kvs"
  proof (rule Cons.IH)
    show "distinct (map fst kvs)" using Cons.prems(1) by simp
    have "fst kv' \<noteq> fst kv" if "kv' \<in> set kvs" for kv'
      using Cons.prems(1) imageI [OF that, of fst] by (metis distinct.simps(2) list.simps(9) set_map)
    then show "\<forall>kv'\<in>set kvs. fst kv' \<notin> fst ` set (q @ [(fst kv, [snd kv])])"
      using Cons.prems(2) by simp
  qed
  finally show ?case by simp
qed simp

end
