(* ===== verification/Service_Guarantees.thy ===== *)
theory Service_Guarantees
  imports Access Store_Guarantees Time_Order Go_Query
begin

text \<open>
  What the other services guarantee: bridge calls and their approval, the sealed credentials of
  buckets, request signing, list queries, subscriptions, the expiry of replayed responses and the
  log of operations.
\<close>

section \<open>Bridge calls\<close>

lemma bridge_call_replied:
  assumes "handle_bridge_call jp S e rc reg (Some r) h = (Reply 200 x, h')"
  obtains g host h1 where "effective_domain reg r = Inr host"
    "fst (check_auth S e rc (bridge_requirement r host) h) = Allowed g"
    "bridge_dispatch reg rc r = Reply 200 x" "hb_store h' = hb_store h"
proof -
  have ne: "rc_idempotency_key rc \<noteq> []"
    using assms by (auto simp: handle_bridge_call_def)
  then obtain host where host: "effective_domain reg r = Inr host"
    using assms by (auto simp: handle_bridge_call_def split: sum.splits)
  show thesis
    using assms ne host
    by (cases rule: check_auth_cases [of S e rc "bridge_requirement r host" h])
      (auto simp: handle_bridge_call_def intro: that split: sum.splits prod.splits)
qed

lemma bridge_context [simp]:
  "cx_is_bridge (caveat_context_of S e rc g (bridge_requirement r host))"
  "cx_bridge_domain (caveat_context_of S e rc g (bridge_requirement r host)) = host"
  "cx_bridge_amount (caveat_context_of S e rc g (bridge_requirement r host)) = bq_amount r"
  "cx_bridge_currency (caveat_context_of S e rc g (bridge_requirement r host)) = bq_currency r"
  by (simp_all add: caveat_context_of_def bridge_requirement_def)


text \<open>
  An approval is never used. A call under a grant with a requires-human-approval caveat is not
  dispatched in any state of the Hub, one in which the same call has been queued and approved
  included: it is only queued again. Approving a pending call so has no effect but its status.
\<close>

theorem approved_bridge_call_never_runs:
  assumes "rc_grant rc = Some g" and "c \<in> set (gt_caveats g)"
    and "parse_caveat (trim_space c) = HumanApproval"
  shows "fst (handle_bridge_call jp S e rc reg q h) \<noteq> Reply 200 x"
proof
  assume "fst (handle_bridge_call jp S e rc reg q h) = Reply 200 x"
  then obtain r h' where "handle_bridge_call jp S e rc reg (Some r) h = (Reply 200 x, h')"
    by (cases q) (auto simp: prod_eq_iff handle_bridge_call_def [of _ _ _ _ _ None])
  then show False
  proof (rule bridge_call_replied)
    fix g' host
    assume "fst (check_auth S e rc (bridge_requirement r host) h) = Allowed g'"
    from check_auth_sound(1) [OF this] check_auth_sound(3) [OF this, of c] show False
      using assms by simp
  qed
qed

definition caveated_context :: "string list \<Rightarrow> rctx" where
  "caveated_context cs = sample_context\<lparr>rc_grant := Some (issued_grant\<lparr>gt_caveats := cs\<rparr>),
     rc_idempotency_key := ''key1''\<rparr>"

definition sample_call :: bridge_call_req where
  "sample_call = \<lparr>bq_adapter = noop_name, bq_operation = ''transfer'', bq_domain = ''api.test'',
     bq_amount = 5, bq_currency = ''EUR'', bq_params = None, bq_credentials = []\<rparr>"

definition sample_bounds :: "string list" where
  "sample_bounds = [''only-domain in [api.test]'', ''max-amount <= 5 EUR'']"

lemma parse_sample_bounds:
  "parse_caveat (trim_space ''only-domain in [api.test]'') = OnlyDomains [''api.test'']"
  "parse_caveat (trim_space ''max-amount <= 5 EUR'') = MaxAmount 5 ''EUR''"
  "parse_caveat (trim_space ''requires-human-approval'') = HumanApproval"
  by code_simp+

lemma sample_call_allowed:
  "fst (check_auth sealed_sys sample_env (caveated_context sample_bounds)
     (bridge_requirement sample_call ''api.test'') empty_hub) = Allowed (issued_grant\<lparr>gt_caveats := sample_bounds\<rparr>)"
proof -
  have f: "equal_fold ''EUR'' ''EUR''" "equal_fold (trim_space ''api.test'') (to_lower (trim_space ''api.test''))"
    by code_simp+
  have "fst (evaluate_caveats sample_env sample_bounds (caveat_context_of sealed_sys sample_env
      (caveated_context sample_bounds) (issued_grant\<lparr>gt_caveats := sample_bounds\<rparr>)
      (bridge_requirement sample_call ''api.test'')) (hb_volatile empty_hub)) = None"
    by (rule evaluate_caveats_complete)
      (simp add: sample_bounds_def parse_sample_bounds f sample_call_def)
  moreover have "scope_permits (idn_scope (gt_identifier issued_grant)) rq" for rq
    by (simp add: issued_grant_def issued_identifier_def scope_permits_def)
  moreover have "rc_grant (caveated_context sample_bounds) = Some (issued_grant\<lparr>gt_caveats := sample_bounds\<rparr>)"
    by (simp add: caveated_context_def)
  ultimately show ?thesis
    by (simp add: check_auth_def case_prod_unfold)
qed


theorem approved_bridge_call_never_runs_witness:
  "fst (handle_bridge_call (\<lambda>p. []) sealed_sys sample_env (caveated_context [''requires-human-approval''])
     (Some [(noop_name, noop_adapter)]) (Some sample_call) empty_hub)
   \<noteq> Reply 200 (BridgeResult noop_name ''transfer'' [])"
  by (rule approved_bridge_call_never_runs [where c = "''requires-human-approval''"
        and g = "issued_grant\<lparr>gt_caveats := [''requires-human-approval'']\<rparr>"])
    (simp_all add: caveated_context_def parse_sample_bounds)

section \<open>Sealed bucket credentials\<close>

lemma register_replied:
  assumes "handle_bucket_register S e rc (Some r) h = (Reply 201 bid, h')"
  obtains g :: grant and provider region endpoint key sealed nonce b s1 where
    "register_target r = Inr (provider, region, endpoint)"
    "derive_bucket_creds_key (sy_aead S) (sy_root_key S) = Inr key"
    "seal_secret (sy_aead S) e 0 key (gq_secret_key r) b = Inr (sealed, nonce)"
    "create_crate_bucket e \<lparr>bk_id = b, bk_provider = provider,
       bk_account_id = gq_account_id r, bk_region = region, bk_bucket_name = gq_bucket_name r,
       bk_endpoint_url = endpoint, bk_access_key_id = gq_access_key r, bk_secret_sealed = sealed,
       bk_nonce = nonce, bk_registered_by = idn_issued_by (gt_identifier g),
       bk_created_at = en_now e, bk_last_used_at = None\<rparr> (hb_store h) = (Inr (), s1)"
    "hb_store h' = s1" "bid = b"
  using assms unfolding handle_bucket_register_def option.case Let_def
  by (auto split: sum.splits prod.splits intro: that dest!: authorised_replied)

text \<open>
  C23: registered credentials come back, and only for their bucket. After a registration answered with
  201, the proxy's lookup of the answered bucket id recovers the secret key of the request byte for
  byte, together with the target that the registration validated; sealed under one bucket id, the
  secret does not open under another.
\<close>

theorem registered_secret_round_trips:
  assumes "aead_laws (sy_aead S)"
    and "handle_bucket_register S e rc (Some r) h = (Reply 201 bid, h')"
    and "in_range (en_now e)" "en_now e \<noteq> 0" and "\<not> en_fault e' ''LookupCrateBucket''"
  shows "\<exists>b. load_and_decrypt S e' bid (hb_store h') = Inr (b, gq_secret_key r)
    \<and> register_target r = Inr (bk_provider b, bk_region b, bk_endpoint_url b)
    \<and> bk_bucket_name b = gq_bucket_name r \<and> bk_access_key_id b = gq_access_key r
    \<and> (\<forall>key bid'. derive_bucket_creds_key (sy_aead S) (sy_root_key S) = Inr key \<and> bid' \<noteq> bid \<and> bid' \<noteq> [] \<longrightarrow>
          open_secret (sy_aead S) key (bk_secret_sealed b) (bk_nonce b) bid' = Inl ErrOpenFailed)"
proof -
  from assms(2) obtain g :: grant and provider region endpoint key sealed nonce b s1
    where t: "register_target r = Inr (provider, region, endpoint)"
    and k: "derive_bucket_creds_key (sy_aead S) (sy_root_key S) = Inr key"
    and s: "seal_secret (sy_aead S) e 0 key (gq_secret_key r) b = Inr (sealed, nonce)"
    and c: "create_crate_bucket e \<lparr>bk_id = b, bk_provider = provider,
         bk_account_id = gq_account_id r, bk_region = region, bk_bucket_name = gq_bucket_name r,
         bk_endpoint_url = endpoint, bk_access_key_id = gq_access_key r, bk_secret_sealed = sealed,
         bk_nonce = nonce, bk_registered_by = idn_issued_by (gt_identifier g),
         bk_created_at = en_now e, bk_last_used_at = None\<rparr> (hb_store h) = (Inr (), s1)"
    and h': "hb_store h' = s1" and b: "bid = b"
    by (rule register_replied)
  have "lookup_crate_bucket e' bid (hb_store h') = Inr \<lparr>bk_id = bid, bk_provider = provider,
         bk_account_id = gq_account_id r, bk_region = region, bk_bucket_name = gq_bucket_name r,
         bk_endpoint_url = endpoint, bk_access_key_id = gq_access_key r, bk_secret_sealed = sealed,
         bk_nonce = nonce, bk_registered_by = idn_issued_by (gt_identifier g),
         bk_created_at = en_now e, bk_last_used_at = None\<rparr>"
    using lookup_after_create [OF c, of e'] assms(3-5) by (simp add: h' b)
  then show ?thesis
    using seal_open_secret(1) [OF assms(1) s] seal_open_secret(2) [OF assms(1) s] k t
    by (simp add: load_and_decrypt_def b)
qed

definition sample_register :: register_req where
  "sample_register = \<lparr>gq_provider = ''b2'', gq_account_id = [], gq_region = ''eu'', gq_bucket_name = ''box'',
     gq_access_key = ''ak'', gq_secret_key = ''sk'', gq_endpoint_url = []\<rparr>"

definition later_env :: env where
  "later_env = sample_env\<lparr>en_now := 1, en_random := (\<lambda>n. replicate 24 (CHR ''n''))\<rparr>"

theorem registered_secret_round_trips_witness:
  "\<exists>h' b. load_and_decrypt sealed_sys sample_env (''bk_E'' @ dec_digits 0) (hb_store (h' :: hub)) = Inr (b, ''sk'')"
proof -
  have t: "register_target sample_register = Inr (''b2'', ''eu'', ''https://box.s3.eu.backblazeb2.com/'')"
    by code_simp
  have q: "gq_account_id sample_register = []" "gq_bucket_name sample_register = ''box''"
    "gq_access_key sample_register = ''ak''" "gq_secret_key sample_register = ''sk''"
    by (simp_all add: sample_register_def)
  have a: "sy_aead sealed_sys = sample_aead" by (simp add: sealed_sys_def sample_sys_def)
  have k: "derive_bucket_creds_key sample_aead sample_root_key = Inr (replicate 32 stop)"
    by (simp add: derive_bucket_creds_key_def sample_root_key_def sample_aead_def)
  have e: "en_ulid later_env n = ''E'' @ dec_digits n" "en_random later_env n = replicate 24 (CHR ''n'')"
    "\<not> en_fault later_env m" "en_now later_env = 1" for n m
    by (simp_all add: later_env_def)
  have sl: "seal_secret sample_aead later_env 0 (replicate 32 stop) ''sk'' (''bk_E'' @ dec_digits 0)
      = Inr (frame (''bk_E'' @ dec_digits 0) @ ''sk'', replicate 24 (CHR ''n''))"
    by (simp add: seal_secret_def crypto_seal_def e sample_aead_def sample_seal_def)
  have i: "idn_issued_by (gt_identifier issued_grant) = ''owner''"
    by (simp add: issued_grant_def issued_identifier_def)
  have ok: "check_auth sealed_sys later_env sample_context (need p ns ac) empty_hub = (Allowed issued_grant, empty_hub)"
    for p ns ac by (simp add: need_def)
  have "\<exists>h'. handle_bucket_register sealed_sys later_env sample_context (Some sample_register) empty_hub
      = (Reply 201 (''bk_E'' @ dec_digits 0), h')"
    by (simp add: handle_bucket_register_def authorised_def Let_def t a k e q sl [simplified append_Cons append_Nil] i ok
        new_ulid_def         create_crate_bucket_def empty_store_def)
  then obtain h' where "handle_bucket_register sealed_sys later_env sample_context (Some sample_register) empty_hub
      = (Reply 201 (''bk_E'' @ dec_digits 0), h')" by blast
  from registered_secret_round_trips [OF _ this, of sample_env] show ?thesis
    by (auto simp: a sample_aead_laws e in_range_first_month sample_register_def)
qed

section \<open>Subscriptions\<close>

lemma load_event_id: "load_event sha rt e s r = Inr x \<Longrightarrow> re_event_id x = ev_id r"
  by (cases "read_blob sha rt e s (ev_namespace r) (ev_id r)") (auto simp: load_event_def)

lemma load_all_ids:
  "load_all (load_event sha rt e s) rs = Inr out \<Longrightarrow> map re_event_id out = map ev_id rs"
proof (induction rs arbitrary: out)
  case (Cons r rs)
  then show ?case
    by (cases "load_event sha rt e s r"; cases "load_all (load_event sha rt e s) rs")
      (auto dest: load_event_id)
qed simp

text \<open>A page that is read holds the events after the position, faults or not.\<close>

lemma read_stream_ids:
  assumes "store_inv s" and "event_position (ro_since opts) (stream_events ns sid s) = Some k"
    and "read_stream sha rt e ns sid opts s = Inr (out, m)"
  shows "map re_event_id out = map ev_id (take (clamp_limit (ro_limit opts)) (drop k (stream_events ns sid s)))"
proof -
  have "since_seq ns sid (ro_since opts) s = Inr k"
    using assms(2) by (auto simp: event_position_def since_seq_def split: if_splits)
  then obtain all where all: "load_all (load_event sha rt e s)
      (read_rows ns sid k (clamp_limit (ro_limit opts) + 1) s) = Inr all"
    and out: "out = take (clamp_limit (ro_limit opts)) all"
    using assms(3)
    by (cases "load_all (load_event sha rt e s) (read_rows ns sid k (clamp_limit (ro_limit opts) + 1) s)")
      (auto simp: read_stream_def Let_def split: if_splits)
  have "map re_event_id all = map ev_id (take (clamp_limit (ro_limit opts) + 1) (drop k (stream_events ns sid s)))"
    using load_all_ids [OF all] by (simp add: read_rows_slice [OF assms(1)])
  then show ?thesis by (simp add: out take_map [symmetric] min_def)
qed

lemma clamp_1000 [simp]: "clamp_limit 1000 = 1000"
  by (simp add: clamp_limit_def)

text \<open>One round: what it delivers, and the position it leaves.\<close>

lemma deliver_new_step:
  assumes inv: "store_inv s" and k: "event_position since (stream_events ns sid s) = Some k"
    and ids: "\<forall>r\<in>set (stream_events ns sid s). ev_id r \<noteq> []"
    and d: "deliver_new S e ns sid since s = (evs, since')"
  shows "\<exists>j\<le>length (stream_events ns sid s) - k.
      map re_event_id evs = map ev_id (take j (drop k (stream_events ns sid s)))
      \<and> event_position since' (stream_events ns sid s) = Some (k + j)"
proof (cases "evs = []")
  case True
  then have "since' = since" using d by (auto simp: deliver_new_def split: sum.splits if_splits)
  then show ?thesis using True k by (intro exI [of _ 0]) simp
next
  case False
  let ?es = "stream_events ns sid s"
  obtain m where r: "read_stream (sy_sha256 S) (sy_blobs_root S) e ns sid
      \<lparr>ro_since = since, ro_limit = 1000\<rparr> s = Inr (evs, m)" and l: "since' = re_event_id (last evs)"
    using d False by (auto simp: deliver_new_def split: sum.splits if_splits)
  have e: "map re_event_id evs = map ev_id (take 1000 (drop k ?es))"
    using read_stream_ids [OF inv _ r] k by simp
  define j where "j = length evs"
  have j: "j = min 1000 (length ?es - k)" using arg_cong [OF e, of length] by (simp add: j_def min_def)
  have pos: "0 < j" using False by (simp add: j_def)
  have t: "take 1000 (drop k ?es) = take j (drop k ?es)" by (simp add: j min_def)
  have "since' = last (map re_event_id evs)" using False by (simp add: l last_map)
  also have "\<dots> = ev_id (last (take j (drop k ?es)))"
    using pos j unfolding e t by (subst last_map) auto
  also have "\<dots> = ev_id (?es ! (k + j - 1))"
  proof -
    have "j \<le> length (drop k ?es)" by (simp add: j)
    then show ?thesis using pos by (subst last_conv_nth) (auto simp: min_absorb2)
  qed
  finally have "since' = ev_id (?es ! (k + j - 1))" .
  moreover have "k + j - 1 < length ?es" using pos j by (auto simp: min_def split: if_splits)
  ultimately have "event_position since' ?es = Some (k + j)"
    using position_of_nth [OF inv, of "k + j - 1"] ids pos by simp
  then show ?thesis using e t j by (intro exI [of _ j]) auto
qed

lemma deliver_new_full:
  assumes "store_inv s" "blobs_inv (sy_sha256 S) (sy_blobs_root S) s"
    and "\<not> en_fault e ''ReadStream''" "\<not> en_fault e ''ReadBlob''"
    and "event_position since (stream_events ns sid s) = Some k"
    and "length (stream_events ns sid s) \<le> k + 1000"
  shows "map re_event_id (fst (deliver_new S e ns sid since s)) = map ev_id (drop k (stream_events ns sid s))"
  using read_stream_page [OF assms(1-4), of "\<lparr>ro_since = since, ro_limit = 1000\<rparr>"] assms(5,6)
  by (auto simp: deliver_new_def event_view_def)

definition grows :: "string \<Rightarrow> string \<Rightarrow> env \<times> store \<Rightarrow> env \<times> store \<Rightarrow> bool" where
  "grows ns sid a b = (\<exists>rs. stream_events ns sid (snd b) = stream_events ns sid (snd a) @ rs)"

lemma deliver_rounds_from:
  assumes "ticks \<noteq> []" and "\<forall>t\<in>set ticks. store_inv (snd t)" and "sorted_wrt (grows ns sid) ticks"
    and "event_position since (stream_events ns sid (snd (hd ticks))) = Some k"
    and "\<forall>r\<in>set (stream_events ns sid (snd (last ticks))). ev_id r \<noteq> []"
  shows "\<exists>m\<le>length (stream_events ns sid (snd (last ticks))) - k.
    map re_event_id (deliver_rounds S ns sid since ticks)
        = map ev_id (take m (drop k (stream_events ns sid (snd (last ticks)))))
    \<and> (\<not> en_fault (fst (last ticks)) ''ReadStream'' \<and> \<not> en_fault (fst (last ticks)) ''ReadBlob''
        \<and> blobs_inv (sy_sha256 S) (sy_blobs_root S) (snd (last ticks))
        \<and> length (stream_events ns sid (snd (last ticks))) \<le> k + 1000
        \<longrightarrow> m = length (stream_events ns sid (snd (last ticks))) - k)"
  using assms
proof (induction ticks arbitrary: since k)
  case (Cons t ticks)
  obtain e s where t: "t = (e, s)" by (cases t)
  obtain evs since' where d: "deliver_new S e ns sid since s = (evs, since')" by (cases "deliver_new S e ns sid since s")
  let ?es = "stream_events ns sid s" and ?fs = "stream_events ns sid (snd (last (t # ticks)))"
  have inv: "store_inv s" and k: "event_position since ?es = Some k" using Cons.prems t by auto
  have "\<exists>rs. ?fs = ?es @ rs"
    using Cons.prems(3) t by (cases ticks) (auto simp: grows_def)
  then obtain rs where fs: "?fs = ?es @ rs" ..
  have ids: "\<forall>r\<in>set ?es. ev_id r \<noteq> []" using Cons.prems(5) unfolding fs by simp
  obtain j where j: "j \<le> length ?es - k" "map re_event_id evs = map ev_id (take j (drop k ?es))"
    "event_position since' ?es = Some (k + j)"
    using deliver_new_step [OF inv k ids d] by blast
  have first: "map re_event_id evs = map ev_id (take j (drop k ?fs))"
    unfolding fs using j(1,2) by simp
  show ?case
  proof (cases "ticks = []")
    case True
    have "j = length ?es - k"
      if "\<not> en_fault e ''ReadStream''" "\<not> en_fault e ''ReadBlob''"
        "blobs_inv (sy_sha256 S) (sy_blobs_root S) s" "length ?es \<le> k + 1000"
      using arg_cong [OF deliver_new_full [OF inv that(3,1,2) k that(4)], of length] arg_cong [OF j(2), of length]
        j(1) by (simp add: d)
    then show ?thesis using True j(1) first by (intro exI [of _ j]) (simp add: t d)
  next
    case False
    have "grows ns sid t (hd ticks)" using Cons.prems(3) False by (cases ticks) auto
    then have "event_position since' (stream_events ns sid (snd (hd ticks))) = Some (k + j)"
      using j(3) by (auto simp: grows_def t event_position_append)
    then obtain m where m: "m \<le> length ?fs - (k + j)"
      "map re_event_id (deliver_rounds S ns sid since' ticks) = map ev_id (take m (drop (k + j) ?fs))"
      "\<not> en_fault (fst (last ticks)) ''ReadStream'' \<and> \<not> en_fault (fst (last ticks)) ''ReadBlob''
        \<and> blobs_inv (sy_sha256 S) (sy_blobs_root S) (snd (last ticks)) \<and> length ?fs \<le> k + j + 1000
        \<Longrightarrow> m = length ?fs - (k + j)"
      using Cons.IH [of since' "k + j"] Cons.prems False by auto
    have "map re_event_id (deliver_rounds S ns sid since (t # ticks)) = map ev_id (take (j + m) (drop k ?fs))"
      using first m(2) by (simp add: t d take_add add.commute)
    moreover have "j + m \<le> length ?fs - k" using j(1) m(1) unfolding fs by simp
    moreover have "j + m = length ?fs - k"
      if "\<not> en_fault (fst (last ticks)) ''ReadStream''" "\<not> en_fault (fst (last ticks)) ''ReadBlob''"
        "blobs_inv (sy_sha256 S) (sy_blobs_root S) (snd (last ticks))" "length ?fs \<le> k + 1000"
      using m(1,3) that j(1) unfolding fs by simp
    ultimately show ?thesis using False by (intro exI [of _ "j + m"]) auto
  qed
qed simp

lemma hub_steps_grow:
  assumes "(hub_step A)\<^sup>*\<^sup>* h h'"
  shows "grows ns sid (e, hb_store h) (e', hb_store h')"
proof -
  have "extends (events (hb_store h)) (hb_store h')"
    by (rule event_log.kept [OF hub_steps_evolve [OF assms]]) (simp add: extends_def)
  then have "events (hb_store h') = events (hb_store h) @ drop (length (events (hb_store h))) (events (hb_store h'))"
    unfolding extends_def by (metis append_take_drop_id)
  then have "stream_events ns sid (hb_store h') = stream_events ns sid (hb_store h)
      @ filter (\<lambda>r. event_key r = (ns, sid)) (drop (length (events (hb_store h))) (events (hb_store h')))"
    unfolding stream_events_def by (metis filter_append)
  then show ?thesis unfolding grows_def by auto
qed

definition seen :: "env \<times> hub \<Rightarrow> env \<times> store" where
  "seen t = (fst t, hb_store (snd t))"


definition sample_subscription :: subscribe_req where
  "sample_subscription = \<lparr>sb_namespace = ''notes'', sb_stream_id = ''s1'', sb_since = []\<rparr>"

lemma sample_stream_ids:
  "map ev_id (stream_events ''notes'' ''s1'' (hb_store sample_hub)) = [''E'' @ dec_digits 0]"
proof -
  have "length (events (hb_store sample_hub)) = 1"
    using arg_cong [OF sample_served(2), of length] by simp
  then obtain ev where ev: "events (hb_store sample_hub) = [ev]" by (auto simp: length_Suc_conv)
  then show ?thesis using sample_served(2,3) by (simp add: stream_events_def)
qed


text \<open>
  C38: no subscription is ever served. The Hub's outermost middleware wraps the connection in a recorder
  that cannot flush, which the subscription handler insists on: a well-formed subscription under a
  grant that permits it is answered with 500.
\<close>

theorem no_subscription_is_served:
  assumes "authenticate (si_sys A) e (in_headers i) h = (Inr rc, h1)"
    and "check_auth (si_sys A) e rc (need ''vault'' (sb_namespace r) ''subscribe'') h1 = (Allowed g, h2)"
    and "sb_namespace r \<noteq> []" "sb_stream_id r \<noteq> []"
  shows "fst (serve A e i (VaultSubscribe (Some r) ticks) h) = RSubscribed (Failure unavailable)"
  using assms
  by (simp add: serve_def authed_def logged_def with_log_def with_auth_def Let_def
      handle_vault_subscribe_def served_writer_def authorised_def)

theorem no_subscription_is_served_witness:
  "fst (serve sample_site sample_env sample_inbound (VaultSubscribe (Some sample_subscription)
     [(sample_env, hb_store empty_hub)]) empty_hub) = RSubscribed (Failure unavailable)"
proof (rule no_subscription_is_served)
  show "authenticate (si_sys sample_site) sample_env (in_headers sample_inbound) empty_hub = (Inr sample_context,
    empty_hub\<lparr>hb_store := remember_authenticated_grant sealed_sys sample_env issued_grant empty_store\<rparr>)"
    using sample_authenticate by (simp add: sample_site_def sample_inbound_def)
qed (simp_all add: sample_subscription_def need_def sample_site_def)

section \<open>The log of operations\<close>

text \<open>
  The log of operations says nothing of who did what. In every state that a Hub reaches, no row of
  the log names a grant or a principal, whoever made the request.
\<close>

theorem operations_are_logged_anonymously:
  assumes "reachable A h" and "row \<in> set (operation_log (hb_store h))"
  shows "ol_grant row = None \<and> ol_principal row = None"
proof -
  have "log_anonymous (hb_store h)"
    by (rule anonymous.kept [OF hub_steps_evolve [OF assms(1) [unfolded reachable_def]]])
      (simp add: log_anonymous_def empty_hub_def empty_store_def)
  then show ?thesis using assms(2) by (simp add: log_anonymous_def)
qed

theorem operations_are_logged_anonymously_witness:
  "map (\<lambda>row. (ol_op_id row, ol_grant row, ol_principal row))
     (operation_log (hb_store (snd (serve sample_site sample_env sample_inbound Discover empty_hub))))
   = [(''op1'', None, None)]"
proof -
  let ?h = "snd (serve sample_site sample_env sample_inbound Discover empty_hub)"
  have "hub_step sample_site empty_hub ?h" by (rule serve_step) (rule prod.collapse [symmetric])
  then have r: "reachable sample_site ?h" unfolding reachable_def by simp
  have "map ol_op_id (operation_log (hb_store ?h)) = [''op1'']"
    by (simp add: serve_def logged_def with_log_def Let_def handle_discover_def log_operation_def
        empty_hub_def empty_store_def sample_inbound_def)
  then obtain row where row: "operation_log (hb_store ?h) = [row]" "ol_op_id row = ''op1''"
    by (auto simp: map_eq_Cons_conv)
  then have "row \<in> set (operation_log (hb_store ?h))" by simp
  from operations_are_logged_anonymously [OF r this] row show ?thesis by simp
qed

section \<open>How long a response is kept for replay\<close>

text \<open>
  C33: the retention of a response ends within the second in which it expires. In every earlier second
  the stored response is found (or the conflict with another body), in every later one the request is
  fresh. Within that second the comparison of the texts decides, and wrongly for an expiry at a whole
  second: the response is still replayed throughout the second after it has expired.
\<close>

theorem retention_ends_with_its_second:
  assumes "put_idempotency e key gid ep p st body ret s = (Inr (), s')"
    and "key \<noteq> []" "gid \<noteq> []" "\<not> en_fault e' ''LookupIdempotency''"
    and "expiry = en_now e + wrap64 ((if ret \<le> 0 then 86400 else ret) * second)"
    and "in_range expiry" "in_range (en_now e')"
  shows "(en_now e' div second < expiry div second \<longrightarrow>
        lookup_idempotency e' key gid p' s' =
          Inr (if p = p' then IdempotencyReplay st (coalesce [] body) else IdempotencyConflict))
    \<and> (expiry div second < en_now e' div second \<longrightarrow>
        lookup_idempotency e' key gid p' s' = Inr IdempotencyFresh)
    \<and> (second dvd expiry \<and> expiry < en_now e' \<and> en_now e' < expiry + second \<longrightarrow>
        lookup_idempotency e' key gid p s' = Inr (IdempotencyReplay st (coalesce [] body)))"
proof -
  have t: "expiry_text e ret = fmt_time expiry" "now_rfc3339 e' = fmt_time (en_now e')"
    by (simp_all add: expiry_text_def now_rfc3339_def assms(5))
  have early: "fmt_time (en_now e') < fmt_time expiry" if "en_now e' div second < expiry div second"
    using fmt_time_less assms(6,7) that by blast
  have late: "\<not> fmt_time (en_now e') < fmt_time expiry" if "expiry div second < en_now e' div second"
    using fmt_time_less [of expiry "en_now e'"] assms(6,7) that by simp
  have within: "fmt_time (en_now e') < fmt_time expiry"
    if "second dvd expiry" "expiry < en_now e'" "en_now e' < expiry + second"
    using fmt_time_whole [of expiry "en_now e' - expiry"] assms(6,7) that by simp
  show ?thesis
    using lookup_after_put [OF assms(1-4)] early late within by (simp add: t)
qed

theorem retention_ends_with_its_second_witness:
  "lookup_idempotency (sample_env\<lparr>en_now := 86400 * second + 1\<rparr>) ''k'' ''g'' ''p''
     (snd (put_idempotency sample_env ''k'' ''g'' ''ep'' ''p'' 200 (Some ''b'') 0 empty_store))
   = Inr (IdempotencyReplay 200 ''b'')"
proof -
  let ?e = "sample_env\<lparr>en_now := 86400 * second + 1\<rparr>"
  have put: "put_idempotency sample_env ''k'' ''g'' ''ep'' ''p'' 200 (Some ''b'') 0 empty_store
      = (Inr (), snd (put_idempotency sample_env ''k'' ''g'' ''ep'' ''p'' 200 (Some ''b'') 0 empty_store))"
    by (simp add: put_idempotency_def)
  have w: "wrap64 (86400 * second) = 86400 * second" by (rule wrap64_id) (simp_all add: second_def)
  have r: "in_range (86400 * second)" "in_range (86400 * second + 1)"
    by (simp_all add: in_range_def durations)
  from retention_ends_with_its_second [OF put, of ?e "86400 * second" "''p''"] w r show ?thesis
    by (simp add: second_def)
qed

section \<open>Requests to a bucket\<close>

text \<open>
  The query of a LIST means what the client asked for. Whatever bytes the prefix, the continuation
  token and the page size hold, the upstream's parser gets back exactly these parameters and
  list-type=2 beside them: nothing a client sends adds or replaces a parameter of the signed request.
\<close>

theorem list_query_round_trips:
  "parse_query (list_query pfx token max_keys) =
     (if token = [] then [] else [(''continuation-token'', [token])]) @ [(''list-type'', [''2''])]
     @ (if max_keys = [] then [] else [(''max-keys'', [max_keys])])
     @ (if pfx = [] then [] else [(''prefix'', [pfx])])"
proof -
  define kvs where "kvs = (if token = [] then [] else [(''continuation-token'', token)])
        @ [(''list-type'', ''2'')] @ (if max_keys = [] then [] else [(''max-keys'', max_keys)])
        @ (if pfx = [] then [] else [(''prefix'', pfx)])"
  have "list_query pfx token max_keys = join_with ''&'' (map encode_pair kvs)"
    by (simp add: list_query_def kvs_def encode_pair_def case_prod_unfold)
  moreover have "CHR ''&'' \<notin> set w" if "w \<in> set (map encode_pair kvs)" for w
    using that by (auto simp: encode_pair_def query_escape_plain)
  ultimately have "parse_query (list_query pfx token max_keys) = parse_pairs (map encode_pair kvs) []"
    by (simp add: parse_query_def split_join kvs_def)
  also have "\<dots> = map (\<lambda>kv. (fst kv, [snd kv])) kvs"
    using parse_encoded_pairs [of kvs "[]"] by (simp add: kvs_def)
  finally show ?thesis by (simp add: kvs_def)
qed

end
