(* ===== verification/Http_Request.thy ===== *)
theory Http_Request
  imports SigV4 Go_Query
begin

text \<open>
  What the clients of this repository use of net/url and net/http: the parts of a URL that
  url.Parse gives, requests and responses, and url.Values. The names of headers are kept in lower
  case. A zone in an IPv6 host is not modelled: such a host is refused.
\<close>

section \<open>URLs\<close>

record web_url =
  wu_scheme :: string
  wu_host :: string
  wu_raw_path :: string
  wu_path :: string
  wu_query :: string

definition is_letter :: "char \<Rightarrow> bool" where
  "is_letter c = (let n = char_code c in 65 \<le> n \<and> n \<le> 90 \<or> 97 \<le> n \<and> n \<le> 122)"

text \<open>\<open>None\<close> is a URL that starts with a colon; without a scheme the whole text is the rest.\<close>

fun scan_scheme :: "string \<Rightarrow> string \<Rightarrow> string \<Rightarrow> (string \<times> string) option" where
  "scan_scheme whole acc [] = Some ([], whole)"
| "scan_scheme whole acc (c # cs) =
     (if is_letter c then scan_scheme whole (acc @ [c]) cs
      else if is_digit c \<or> c \<in> set ''+-.''
      then (if acc = [] then Some ([], whole) else scan_scheme whole (acc @ [c]) cs)
      else if c = CHR '':'' then (if acc = [] then None else Some (to_lower acc, cs))
      else Some ([], whole))"

definition get_scheme :: "string \<Rightarrow> (string \<times> string) option" where
  "get_scheme s = scan_scheme s [] s"

definition valid_port :: "string \<Rightarrow> bool" where
  "valid_port p = (p = [] \<or> (hd p = CHR '':'' \<and> list_all is_digit (tl p)))"

text \<open>In a host only bytes outside ASCII may be percent-encoded.\<close>

fun unescape_host :: "string \<Rightarrow> string option" where
  "unescape_host [] = Some []"
| "unescape_host (c # cs) =
     (if c = CHR ''%'' then
        (case cs of
           a # b # rest \<Rightarrow>
             (case (hex_val a, hex_val b) of
                (Some x, Some y) \<Rightarrow>
                  if x < 8 then None
                  else map_option (\<lambda>r. char_of (16 * x + y) # r) (unescape_host rest)
              | _ \<Rightarrow> None)
         | _ \<Rightarrow> None)
      else if \<not> host_char c then None
      else map_option (\<lambda>r. c # r) (unescape_host cs))"

definition before_last :: "char \<Rightarrow> string \<Rightarrow> string" where
  "before_last c s = rev (tl (dropWhile (\<lambda>x. x \<noteq> c) (rev s)))"

definition after_last :: "char \<Rightarrow> string \<Rightarrow> string" where
  "after_last c s = rev (takeWhile (\<lambda>x. x \<noteq> c) (rev s))"

definition parse_host :: "string \<Rightarrow> string option" where
  "parse_host h =
     (if has_prefix ''['' h
      then if CHR '']'' \<notin> set h \<or> \<not> valid_port (after_last CHR '']'' h) \<or> CHR ''%'' \<in> set h then None
           else unescape_host h
      else if CHR '':'' \<in> set h
      then if CHR '':'' \<in> set (before_last CHR '':'' h) \<or> \<not> list_all is_digit (after_last CHR '':'' h) then None
           else unescape_host h
      else unescape_host h)"

definition userinfo_char :: "char \<Rightarrow> bool" where
  "userinfo_char c = (is_alpha_num c \<or> c \<in> set ''-._:~!$&()*+,;=%@'' \<or> c = CHR 0x27)"

definition parse_authority :: "string \<Rightarrow> string option" where
  "parse_authority a =
     (if CHR ''@'' \<notin> set a then parse_host a
      else case parse_host (after_last CHR ''@'' a) of
             None \<Rightarrow> None
           | Some h \<Rightarrow>
               if list_all userinfo_char (before_last CHR ''@'' a)
                  \<and> unescape False (before_last CHR ''@'' a) \<noteq> None
               then Some h else None)"

definition split_authority :: "string \<Rightarrow> string \<times> string" where
  "split_authority s = (takeWhile (\<lambda>c. c \<noteq> CHR ''/'') s, dropWhile (\<lambda>c. c \<noteq> CHR ''/'') s)"

definition with_path :: "string \<Rightarrow> string \<Rightarrow> string \<Rightarrow> string \<Rightarrow> web_url option" where
  "with_path scheme host p q =
     map_option (\<lambda>d. \<lparr>wu_scheme = scheme, wu_host = host, wu_raw_path = p, wu_path = d, wu_query = q\<rparr>)
       (unescape False p)"

definition parse_rest :: "string \<Rightarrow> string \<Rightarrow> string \<Rightarrow> web_url option" where
  "parse_rest scheme rest q =
     (if \<not> has_prefix ''/'' rest
      then if scheme \<noteq> [] then Some \<lparr>wu_scheme = scheme, wu_host = [], wu_raw_path = [], wu_path = [],
                                  wu_query = q\<rparr>
           else if CHR '':'' \<in> set (takeWhile (\<lambda>c. c \<noteq> CHR ''/'') rest) then None
           else with_path scheme [] rest q
      else if has_prefix ''//'' rest \<and> (scheme \<noteq> [] \<or> \<not> has_prefix ''///'' rest)
      then case parse_authority (fst (split_authority (drop 2 rest))) of
             None \<Rightarrow> None
           | Some host \<Rightarrow> with_path scheme host (snd (split_authority (drop 2 rest))) q
      else with_path scheme [] rest q)"

text \<open>url.Parse. The fragment is only checked, for it is never sent.\<close>

definition parse_web :: "string \<Rightarrow> web_url option" where
  "parse_web s =
     (case cut ''#'' s of
        (u, frag) \<Rightarrow>
          if list_ex (\<lambda>c. char_code c < 32 \<or> char_code c = 127) u \<or> unescape False frag = None then None
          else case get_scheme u of
                 None \<Rightarrow> None
               | Some (scheme, rest) \<Rightarrow> (case cut ''?'' rest of (r, q) \<Rightarrow> parse_rest scheme r q))"

text \<open>URL.Hostname.\<close>

definition hostname :: "web_url \<Rightarrow> string" where
  "hostname u =
     (let h = wu_host u;
          h1 = (if CHR '':'' \<in> set h \<and> list_all is_digit (after_last CHR '':'' h)
                then before_last CHR '':'' h else h)
      in if has_prefix ''['' h1 \<and> h1 \<noteq> [] \<and> last h1 = CHR '']'' then butlast (tl h1) else h1)"

text \<open>URL.EscapedPath: the path as it was written, where that is a valid encoding.\<close>

definition path_char :: "char \<Rightarrow> bool" where
  "path_char c = (unreserved c \<or> c \<in> set ''$&+,/:;=@'')"

definition valid_encoded :: "string \<Rightarrow> bool" where
  "valid_encoded s = list_all (\<lambda>c. path_char c \<or> c \<in> set ''!()*[]%'' \<or> c = CHR 0x27) s"

definition escaped_path :: "web_url \<Rightarrow> string" where
  "escaped_path u =
     (if valid_encoded (wu_raw_path u) then wu_raw_path u else escape_with path_char (wu_path u))"

section \<open>Values\<close>

definition itoa :: "int \<Rightarrow> string" where
  "itoa n = (if n < 0 then ''-'' else []) @ dec_digits (nat \<bar>n\<bar>)"

definition set_value :: "string \<Rightarrow> string \<Rightarrow> url_values \<Rightarrow> url_values" where
  "set_value k v q = filter (\<lambda>p. fst p \<noteq> k) q @ [(k, [v])]"

text \<open>url.Values.Encode, sorted by key.\<close>

definition values_encode :: "url_values \<Rightarrow> string" where
  "values_encode q =
     join_with ''&'' (concat (map (\<lambda>(k, vs). map (\<lambda>v. query_escape k @ ''='' @ query_escape v) vs)
       (sort_key fst q)))"

section \<open>Requests\<close>

record http_req =
  hq_method :: string
  hq_url :: string
  hq_headers :: url_values
  hq_body :: bytes

record http_resp =
  hp_status :: int
  hp_headers :: url_values
  hp_body :: bytes
  hp_broken :: bool

text \<open>
  http.Client.Do with the services behind it: \<open>None\<close> when no response came. \<open>hp_broken\<close> is a body
  whose reading fails.
\<close>

type_synonym net = "http_req \<Rightarrow> http_resp option"

definition get_header :: "string \<Rightarrow> url_values \<Rightarrow> string" where
  "get_header k h =
     (case map_of h k of Some (v # _) \<Rightarrow> v | _ \<Rightarrow> [])"

definition request_host :: "http_req \<Rightarrow> string option" where
  "request_host r = map_option hostname (parse_web (hq_url r))"

section \<open>The host of a URL\<close>

definition plain_host :: "string \<Rightarrow> bool" where
  "plain_host h = (h \<noteq> [] \<and> list_all (\<lambda>c. is_alpha_num c \<or> c \<in> set ''-.'') h)"

lemma plain_host_char:
  assumes "is_alpha_num c \<or> c \<in> set ''-.''"
  shows "host_char c" "c \<notin> set ''%/?#@:[''" "32 \<le> char_code c \<and> char_code c \<noteq> 127"
proof -
  show "host_char c" using assms by (auto simp: host_char_def unreserved_def)
  have "list_all (\<lambda>d. \<not> (is_alpha_num d \<or> d \<in> set ''-.'')) ''%/?#@:[''" by code_simp
  then show "c \<notin> set ''%/?#@:[''" using assms unfolding list_all_iff by blast
  have "char_code CHR ''-'' = 45" "char_code CHR ''.'' = 46" by (simp_all add: char_code_def)
  then show "32 \<le> char_code c \<and> char_code c \<noteq> 127"
    using assms by (auto simp: is_alpha_num_def Let_def)
qed

lemma unescape_plain_host: "list_all (\<lambda>c. is_alpha_num c \<or> c \<in> set ''-.'') h \<Longrightarrow> unescape_host h = Some h"
proof (induction h)
  case (Cons c cs)
  then have "host_char c \<and> c \<noteq> CHR ''%''" using plain_host_char(1,2) [of c] by auto
  then show ?case using Cons by simp
qed simp

lemma parse_authority_plain:
  assumes "plain_host h"
  shows "parse_authority h = Some h"
proof -
  have c: "list_all (\<lambda>c. is_alpha_num c \<or> c \<in> set ''-.'') h" using assms by (simp add: plain_host_def)
  then have n: "c \<notin> set ''%/?#@:[''" if "c \<in> set h" for c
    using that plain_host_char(2) unfolding list_all_iff by blast
  have m: "CHR ''@'' \<in> set ''%/?#@:[''" "CHR '':'' \<in> set ''%/?#@:[''" "CHR ''['' \<in> set ''%/?#@:[''"
    by simp_all
  have e: "CHR ''@'' \<notin> set h" "CHR '':'' \<notin> set h" "CHR ''['' \<notin> set h" using n m by blast+
  have "\<not> has_prefix ''['' h" using e(3) by (cases h) (auto simp: has_prefix_def)
  then show ?thesis using e unescape_plain_host [OF c] by (simp add: parse_authority_def parse_host_def)
qed

lemma cut_append: "x \<notin> set a \<Longrightarrow> cut [x] (a @ s) = (a @ fst (cut [x] s), snd (cut [x] s))"
proof (induction a)
  case Nil
  then show ?case by simp
next
  case (Cons c a)
  then have "c \<noteq> x" "cut [x] (a @ s) = (a @ fst (cut [x] s), snd (cut [x] s))" by auto
  then show ?case by (auto simp: cut_def has_prefix_def split: option.splits)
qed

lemma fst_cut: "fst (cut [x] s) = takeWhile (\<lambda>c. c \<noteq> x) s"
proof (induction s)
  case (Cons c s)
  then show ?case by (auto simp: cut_def has_prefix_def split: option.splits)
qed (simp add: cut_def)

text \<open>A URL that starts with https and a plain host names that host, whatever follows.\<close>

lemma parse_web_host:
  assumes "plain_host h" and "rest = [] \<or> hd rest \<in> set ''/?#''"
    and "parse_web (''https://'' @ h @ rest) = Some u"
  shows "wu_host u = h" "hostname u = h"
proof -
  have c: "list_all (\<lambda>c. is_alpha_num c \<or> c \<in> set ''-.'') h" using assms(1) by (simp add: plain_host_def)
  then have n: "c \<notin> set ''%/?#@:[''" if "c \<in> set h" for c
    using that plain_host_char(2) unfolding list_all_iff by blast
  have m: "CHR ''#'' \<in> set ''%/?#@:[''" "CHR ''?'' \<in> set ''%/?#@:[''" "CHR ''/'' \<in> set ''%/?#@:[''"
    "CHR '':'' \<in> set ''%/?#@:[''" "CHR ''['' \<in> set ''%/?#@:[''"
    by simp_all
  have e: "CHR ''#'' \<notin> set h" "CHR ''?'' \<notin> set h" "CHR ''/'' \<notin> set h" "CHR '':'' \<notin> set h"
    "CHR ''['' \<notin> set h"
    using n m by blast+
  define r1 where "r1 = fst (cut ''#'' rest)"
  define r2 where "r2 = fst (cut ''?'' r1)"
  have "CHR ''#'' \<notin> set (''https://'' @ h)" "CHR ''?'' \<notin> set (''//'' @ h)" using e by auto
  then have cut1: "cut ''#'' (''https://'' @ h @ rest) = (''https://'' @ h @ r1, snd (cut ''#'' rest))"
    and cut2: "cut ''?'' (''//'' @ h @ r1) = (''//'' @ h @ r2, snd (cut ''?'' r1))"
    using cut_append [of "CHR ''#''" "''https://'' @ h" rest] cut_append [of "CHR ''?''" "''//'' @ h" r1]
    unfolding r1_def r2_def by simp_all
  have sch: "get_scheme (''https://'' @ t) = Some (''https'', ''//'' @ t)" for t
  proof -
    have "is_letter CHR ''h''" "is_letter CHR ''t''" "is_letter CHR ''p''" "is_letter CHR ''s''"
      "\<not> is_letter CHR '':''" "\<not> is_digit CHR '':''" "to_lower ''https'' = ''https''"
      by code_simp+
    then show ?thesis by (simp add: get_scheme_def)
  qed
  have "r2 = takeWhile (\<lambda>c. c \<noteq> CHR ''?'') (takeWhile (\<lambda>c. c \<noteq> CHR ''#'') rest)"
    unfolding r1_def r2_def fst_cut ..
  then have r2: "r2 = [] \<or> hd r2 = CHR ''/''" using assms(2) by (cases rest) auto
  have hd: "h \<noteq> []" "\<forall>c\<in>set h. c \<noteq> CHR ''/''" using assms(1) e(3) by (auto simp: plain_host_def)
  then have auth: "fst (split_authority (h @ r2)) = h"
    using r2 by (cases r2) (auto simp: split_authority_def takeWhile_tail)
  have "parse_rest ''https'' (''//'' @ h @ r2) (snd (cut ''?'' r1)) = Some u"
    using assms(3) unfolding parse_web_def cut1 prod.case sch option.case cut2
    by (simp split: if_splits)
  then have "with_path ''https'' h (snd (split_authority (h @ r2))) (snd (cut ''?'' r1)) = Some u"
    by (simp add: parse_rest_def has_prefix_def auth parse_authority_plain [OF assms(1)])
  then show w: "wu_host u = h" by (auto simp: with_path_def)
  have "\<not> has_prefix ''['' h" using e(5) by (cases h) (auto simp: has_prefix_def)
  then show "hostname u = h" using w e(4) by (simp add: hostname_def)
qed

end
