(* ===== verification/Bridge_Adapters.thy ===== *)
theory Bridge_Adapters
  imports Http_Request Bridge_Registry Go_Base64 "HOL-Library.AList" "HOL-Library.List_Lexorder"
begin

text \<open>
  The adapters that the Hub installs (fabric-sdk-go/bridge/adapters): the requests they build and
  what they make of the answers. The HTTP client with the services behind it, the encoding and
  decoding of JSON, the XML tokenizer, SHA-256 and the clock are the fields of \<open>http_lib\<close>. The
  base URLs are those of the constructors. The metrics of a call and the descriptions of
  operations are left out; a JSON number is one that is an integer.
\<close>

datatype xml_token = XStart string | XEnd | XText string

record http_lib =
  hb_net :: net
  hb_marshal :: "json \<Rightarrow> bytes"
  hb_unobject :: "bytes \<Rightarrow> params option"
  hb_unjson :: "bytes \<Rightarrow> json option"
  hb_xml :: "bytes \<Rightarrow> xml_token list \<times> bool"
  hb_sha :: "bytes \<Rightarrow> bytes"
  hb_now :: time

section \<open>Common to the adapters\<close>

definition as_string :: "json \<Rightarrow> string option" where
  "as_string j = (case j of JStr s \<Rightarrow> Some s | _ \<Rightarrow> None)"

definition as_number :: "json \<Rightarrow> int option" where
  "as_number j = (case j of JInt n \<Rightarrow> Some n | _ \<Rightarrow> None)"

text \<open>A parameter whose error is ignored: the default.\<close>

definition param_or :: "(json \<Rightarrow> 'a option) \<Rightarrow> params \<Rightarrow> string \<Rightarrow> 'a \<Rightarrow> 'a" where
  "param_or as_type ps key d = (case resolve_param as_type ps key False d of Inl _ \<Rightarrow> d | Inr x \<Rightarrow> x)"

definition credential :: "string \<Rightarrow> (string \<times> string) list \<Rightarrow> string" where
  "credential key cs = (case map_of cs key of None \<Rightarrow> [] | Some v \<Rightarrow> v)"

definition param_spec_of :: "string \<Rightarrow> string \<Rightarrow> bool \<Rightarrow> param_spec" where
  "param_spec_of name type required = \<lparr>ps_name = name, ps_type = type, ps_required = required\<rparr>"

definition default_response_limit :: int where
  "default_response_limit = 4194304"

text \<open>What all adapters do with an answer before they look at its body.\<close>

definition answered :: "http_lib \<Rightarrow> http_req \<Rightarrow> (http_resp \<Rightarrow> bytes \<Rightarrow> bridge_error + params)
    \<Rightarrow> bridge_error + params" where
  "answered L r k =
     (case hb_net L r of
        None \<Rightarrow> Inl ErrUpstreamUnavailable
      | Some resp \<Rightarrow>
          (case read_body_capped (hp_body resp) default_response_limit of
             (raw, all) \<Rightarrow>
               if hp_broken resp \<or> \<not> all then Inl ErrUpstreamUnavailable
               else if 400 \<le> hp_status resp then Inl ErrUpstreamUnavailable
               else k resp raw))"

text \<open>The body as a JSON object, refused or dropped when it is none.\<close>

definition strict_object :: "http_lib \<Rightarrow> http_resp \<Rightarrow> bytes \<Rightarrow> bridge_error + params" where
  "strict_object L resp raw =
     (if raw = [] then Inr []
      else case hb_unobject L raw of None \<Rightarrow> Inl ErrUpstreamUnavailable | Some ps \<Rightarrow> Inr ps)"

definition lax_object :: "http_lib \<Rightarrow> http_resp \<Rightarrow> bytes \<Rightarrow> bridge_error + params" where
  "lax_object L resp raw = Inr (if raw = [] then [] else coalesce [] (hb_unobject L raw))"

definition get_request :: "string \<Rightarrow> url_values \<Rightarrow> http_req" where
  "get_request u headers = \<lparr>hq_method = ''GET'', hq_url = u, hq_headers = headers, hq_body = []\<rparr>"

definition post_request :: "string \<Rightarrow> url_values \<Rightarrow> bytes \<Rightarrow> http_req" where
  "post_request u headers body =
     \<lparr>hq_method = ''POST'', hq_url = u, hq_headers = headers, hq_body = body\<rparr>"

definition with_query :: "string \<Rightarrow> url_values \<Rightarrow> string" where
  "with_query u q = u @ ''?'' @ values_encode q"

definition accept_json :: url_values where
  "accept_json = set_header ''accept'' ''application/json'' []"

definition idempotency_header :: "call_request \<Rightarrow> url_values \<Rightarrow> url_values" where
  "idempotency_header q hs =
     (if rq_idempotency_key q = [] then hs
      else set_header ''idempotency-key'' (rq_idempotency_key q) hs)"

text \<open>The parameters of a call that are named, in that order.\<close>

definition pick_params :: "string list \<Rightarrow> params \<Rightarrow> params" where
  "pick_params ks ps = concat (map (\<lambda>k. case map_of ps k of None \<Rightarrow> [] | Some v \<Rightarrow> [(k, v)]) ks)"

definition absent :: "string \<Rightarrow> params \<Rightarrow> bool" where
  "absent k ps = (map_of ps k = None \<or> map_of ps k = Some JNull)"

definition run_adapter ::
  "http_lib \<Rightarrow> (http_lib \<Rightarrow> http_resp \<Rightarrow> bytes \<Rightarrow> bridge_error + params)
     \<Rightarrow> (call_request \<Rightarrow> bridge_error + http_req) \<Rightarrow> call_request \<Rightarrow> bridge_error + params" where
  "run_adapter L k build q =
     (case build q of Inl er \<Rightarrow> Inl er | Inr r \<Rightarrow> answered L r (k L))"

section \<open>courtlistener\<close>

definition courtlistener_base :: string where
  "courtlistener_base = ''https://www.courtlistener.com''"

definition courtlistener_operations :: "operation_spec list" where
  "courtlistener_operations =
     [\<lparr>os_name = ''search'',
       os_params = [param_spec_of ''q'' ''string'' True, param_spec_of ''limit'' ''integer'' False,
         param_spec_of ''type'' ''string'' False], os_side_effects = False\<rparr>,
      \<lparr>os_name = ''get-opinion'', os_params = [param_spec_of ''id'' ''integer'' True],
       os_side_effects = False\<rparr>,
      \<lparr>os_name = ''get-docket'', os_params = [param_spec_of ''id'' ''integer'' True],
       os_side_effects = False\<rparr>]"

definition courtlistener_headers :: "call_request \<Rightarrow> url_values" where
  "courtlistener_headers q =
     (let tok = credential ''api_key'' (rq_credentials q)
      in if tok = [] then accept_json else set_header ''authorization'' (''Token '' @ tok) accept_json)"

definition courtlistener_search :: "call_request \<Rightarrow> bridge_error + http_req" where
  "courtlistener_search q =
     (case resolve_param as_string (rq_params q) ''q'' True [] of
        Inl er \<Rightarrow> Inl er
      | Inr text \<Rightarrow>
          let n = param_or as_number (rq_params q) ''limit'' 20;
              limit = (if n \<le> 0 then 20 else n);
              t = param_or as_string (rq_params q) ''type'' ''o'';
              type = (if t = [] then ''o'' else t)
          in Inr (get_request (with_query (courtlistener_base @ ''/api/rest/v3/search/'')
               (set_value ''page_size'' (itoa limit) (set_value ''type'' type
                 (set_value ''q'' text [])))) (courtlistener_headers q)))"

definition courtlistener_get :: "string \<Rightarrow> call_request \<Rightarrow> bridge_error + http_req" where
  "courtlistener_get kind q =
     (case resolve_param as_number (rq_params q) ''id'' True 0 of
        Inl er \<Rightarrow> Inl er
      | Inr n \<Rightarrow>
          Inr (get_request (courtlistener_base @ ''/api/rest/v3/'' @ kind @ ''/'' @ itoa n @ ''/'')
            (courtlistener_headers q)))"

definition courtlistener_request :: "call_request \<Rightarrow> bridge_error + http_req" where
  "courtlistener_request q =
     (if rq_op q = ''search'' then courtlistener_search q
      else if rq_op q = ''get-opinion'' then courtlistener_get ''opinions'' q
      else if rq_op q = ''get-docket'' then courtlistener_get ''dockets'' q
      else Inl ErrUnknownOperation)"

definition courtlistener :: "http_lib \<Rightarrow> adapter" where
  "courtlistener L =
     \<lparr>ad_name = ''courtlistener'', ad_version = ''1.0.0'', ad_operations = courtlistener_operations,
      ad_effective_host = None, ad_init = Some True,
      ad_call = run_adapter L strict_object courtlistener_request\<rparr>"

section \<open>archive-org\<close>

definition archiveorg_base :: string where
  "archiveorg_base = ''https://archive.org''"

definition archiveorg_operations :: "operation_spec list" where
  "archiveorg_operations =
     [\<lparr>os_name = ''wayback-get'',
       os_params = [param_spec_of ''url'' ''string'' True, param_spec_of ''timestamp'' ''string'' False],
       os_side_effects = False\<rparr>,
      \<lparr>os_name = ''search'',
       os_params = [param_spec_of ''q'' ''string'' True, param_spec_of ''rows'' ''integer'' False,
         param_spec_of ''page'' ''integer'' False], os_side_effects = False\<rparr>,
      \<lparr>os_name = ''get-item'', os_params = [param_spec_of ''identifier'' ''string'' True],
       os_side_effects = False\<rparr>]"

definition wayback_get :: "call_request \<Rightarrow> bridge_error + http_req" where
  "wayback_get q =
     (case resolve_param as_string (rq_params q) ''url'' True [] of
        Inl er \<Rightarrow> Inl er
      | Inr target \<Rightarrow>
          let ts = param_or as_string (rq_params q) ''timestamp'' [];
              qs = set_value ''url'' target []
          in Inr (get_request (with_query (archiveorg_base @ ''/wayback/available'')
               (if ts = [] then qs else set_value ''timestamp'' ts qs)) accept_json))"

definition archiveorg_search :: "call_request \<Rightarrow> bridge_error + http_req" where
  "archiveorg_search q =
     (case resolve_param as_string (rq_params q) ''q'' True [] of
        Inl er \<Rightarrow> Inl er
      | Inr text \<Rightarrow>
          let r = param_or as_number (rq_params q) ''rows'' 20; rows = (if r \<le> 0 then 20 else r);
              p = param_or as_number (rq_params q) ''page'' 1; page = (if p \<le> 0 then 1 else p)
          in Inr (get_request (with_query (archiveorg_base @ ''/advancedsearch.php'')
               (set_value ''output'' ''json'' (set_value ''page'' (itoa page)
                 (set_value ''rows'' (itoa rows) (set_value ''q'' text []))))) accept_json))"

definition archiveorg_item :: "call_request \<Rightarrow> bridge_error + http_req" where
  "archiveorg_item q =
     (case resolve_param as_string (rq_params q) ''identifier'' True [] of
        Inl er \<Rightarrow> Inl er
      | Inr k \<Rightarrow> Inr (get_request (archiveorg_base @ ''/metadata/'' @ path_escape k) accept_json))"

definition archiveorg_request :: "call_request \<Rightarrow> bridge_error + http_req" where
  "archiveorg_request q =
     (if rq_op q = ''wayback-get'' then wayback_get q
      else if rq_op q = ''search'' then archiveorg_search q
      else if rq_op q = ''get-item'' then archiveorg_item q
      else Inl ErrUnknownOperation)"

definition archiveorg :: "http_lib \<Rightarrow> adapter" where
  "archiveorg L =
     \<lparr>ad_name = ''archive-org'', ad_version = ''1.0.0'', ad_operations = archiveorg_operations,
      ad_effective_host = None, ad_init = Some True,
      ad_call = run_adapter L strict_object archiveorg_request\<rparr>"

section \<open>nasa-images\<close>

definition nasa_mars_base :: string where
  "nasa_mars_base = ''https://api.nasa.gov''"

definition nasa_images_base :: string where
  "nasa_images_base = ''https://images-api.nasa.gov''"

definition nasa_operations :: "operation_spec list" where
  "nasa_operations =
     [\<lparr>os_name = ''mars-photos'',
       os_params = [param_spec_of ''rover'' ''string'' True, param_spec_of ''sol'' ''integer'' False,
         param_spec_of ''earth_date'' ''string'' False, param_spec_of ''page'' ''integer'' False],
       os_side_effects = False\<rparr>,
      \<lparr>os_name = ''search-images'',
       os_params = [param_spec_of ''q'' ''string'' True, param_spec_of ''page'' ''integer'' False,
         param_spec_of ''media_type'' ''string'' False], os_side_effects = False\<rparr>]"

definition set_if :: "bool \<Rightarrow> string \<Rightarrow> string \<Rightarrow> url_values \<Rightarrow> url_values" where
  "set_if b k v q = (if b then set_value k v q else q)"

definition mars_photos :: "call_request \<Rightarrow> bridge_error + http_req" where
  "mars_photos q =
     (let ps = rq_params q
      in case resolve_param as_string ps ''rover'' True [] of
        Inl er \<Rightarrow> Inl er
      | Inr rover \<Rightarrow>
          let k = credential ''api_key'' (rq_credentials q);
              sol = Option.bind (map_of ps ''sol'') as_number;
              ed = coalesce [] (Option.bind (map_of ps ''earth_date'') as_string);
              page = param_or as_number ps ''page'' 0
          in Inr (get_request
               (with_query (nasa_mars_base @ ''/mars-photos/api/v1/rovers/'' @ path_escape rover @ ''/photos'')
                 (set_if (0 < page) ''page'' (itoa page) (set_if (ed \<noteq> []) ''earth_date'' ed
                   (set_if (sol \<noteq> None) ''sol'' (itoa (the sol))
                     (set_value ''api_key'' (if k = [] then ''DEMO_KEY'' else k) []))))) accept_json))"

definition search_images :: "call_request \<Rightarrow> bridge_error + http_req" where
  "search_images q =
     (let ps = rq_params q
      in case resolve_param as_string ps ''q'' True [] of
        Inl er \<Rightarrow> Inl er
      | Inr text \<Rightarrow>
          let mt = param_or as_string ps ''media_type'' []; page = param_or as_number ps ''page'' 0
          in Inr (get_request (with_query (nasa_images_base @ ''/search'')
               (set_if (0 < page) ''page'' (itoa page) (set_if (mt \<noteq> []) ''media_type'' mt
                 (set_value ''q'' text [])))) accept_json))"

definition nasa_request :: "call_request \<Rightarrow> bridge_error + http_req" where
  "nasa_request q =
     (if rq_op q = ''mars-photos'' then mars_photos q
      else if rq_op q = ''search-images'' then search_images q
      else Inl ErrUnknownOperation)"

definition nasaimages :: "http_lib \<Rightarrow> adapter" where
  "nasaimages L =
     \<lparr>ad_name = ''nasa-images'', ad_version = ''1.0.0'', ad_operations = nasa_operations,
      ad_effective_host = None, ad_init = Some True,
      ad_call = run_adapter L strict_object nasa_request\<rparr>"

section \<open>webhook-post\<close>

definition webhook_operations :: "operation_spec list" where
  "webhook_operations =
     [\<lparr>os_name = ''post'',
       os_params = [param_spec_of ''url'' ''string'' True, param_spec_of ''headers'' ''object'' False,
         param_spec_of ''body'' ''object'' False], os_side_effects = True\<rparr>]"

text \<open>\<open>None\<close> is an error of EffectiveHost.\<close>

definition url_host :: "string \<Rightarrow> string option" where
  "url_host s =
     (case parse_web s of
        None \<Rightarrow> None
      | Some u \<Rightarrow> if wu_host u = [] then None else Some (hostname u))"

definition webhook_effective_host :: "params \<Rightarrow> string option" where
  "webhook_effective_host ps =
     (case resolve_param as_string ps ''url'' True [] of
        Inl _ \<Rightarrow> None
      | Inr target \<Rightarrow> url_host target)"

definition extra_headers :: "params \<Rightarrow> url_values \<Rightarrow> url_values" where
  "extra_headers ps hs =
     (case map_of ps ''headers'' of
        Some (JObj es) \<Rightarrow>
          fold (\<lambda>(k, v) hs. case v of JStr s \<Rightarrow> set_header (to_lower k) s hs | _ \<Rightarrow> hs) es hs
      | _ \<Rightarrow> hs)"

definition webhook_request :: "http_lib \<Rightarrow> call_request \<Rightarrow> bridge_error + http_req" where
  "webhook_request L q =
     (if rq_op q \<noteq> ''post'' then Inl ErrUnknownOperation
      else case resolve_param as_string (rq_params q) ''url'' True [] of
        Inl er \<Rightarrow> Inl er
      | Inr target \<Rightarrow>
          let body = (if absent ''body'' (rq_params q) then ''{}''
                      else hb_marshal L (the (map_of (rq_params q) ''body'')))
          in if parse_web target = None then Inl ErrAdapterOther
             else Inr (post_request target
                    (extra_headers (rq_params q) (idempotency_header q
                      (set_header ''content-type'' ''application/json'' []))) body))"

definition flatten_headers :: "url_values \<Rightarrow> json" where
  "flatten_headers h = JObj (concat (map (\<lambda>(k, vs). case vs of [] \<Rightarrow> [] | v # _ \<Rightarrow> [(k, JStr v)]) h))"

definition webhook_result :: "http_lib \<Rightarrow> http_resp \<Rightarrow> bytes \<Rightarrow> bridge_error + params" where
  "webhook_result L resp raw =
     Inr ([(''status'', JInt (hp_status resp)), (''headers'', flatten_headers (hp_headers resp))]
       @ (case hb_unjson L raw of
            Some j \<Rightarrow> [(''body'', j)]
          | None \<Rightarrow> if raw = [] then [] else [(''body_text'', JStr raw)]))"

definition webhookpost :: "http_lib \<Rightarrow> adapter" where
  "webhookpost L =
     \<lparr>ad_name = ''webhook-post'', ad_version = ''1.0.0'', ad_operations = webhook_operations,
      ad_effective_host = Some webhook_effective_host, ad_init = Some True,
      ad_call = run_adapter L webhook_result (webhook_request L)\<rparr>"

section \<open>email-resend\<close>

definition resend_operations :: "operation_spec list" where
  "resend_operations =
     [\<lparr>os_name = ''send'',
       os_params = [param_spec_of ''from'' ''string'' True, param_spec_of ''to'' ''array'' True,
         param_spec_of ''subject'' ''string'' True, param_spec_of ''html'' ''string'' False,
         param_spec_of ''text'' ''string'' False, param_spec_of ''reply_to'' ''string'' False],
       os_side_effects = True\<rparr>]"

definition resend_request :: "http_lib \<Rightarrow> call_request \<Rightarrow> bridge_error + http_req" where
  "resend_request L q =
     (if rq_op q \<noteq> ''send'' then Inl ErrUnknownOperation
      else case resolve_credential (rq_credentials q) ''api_key'' of
        Inl er \<Rightarrow> Inl er
      | Inr key \<Rightarrow>
          let body = pick_params [''from'', ''to'', ''subject'', ''html'', ''text'', ''reply_to''] (rq_params q)
          in if absent ''from'' body \<or> absent ''to'' body \<or> absent ''subject'' body then Inl ErrMissingParam
             else Inr (post_request ''https://api.resend.com/emails''
                    (idempotency_header q (set_header ''content-type'' ''application/json''
                      (set_header ''authorization'' (''Bearer '' @ key) []))) (hb_marshal L (JObj body))))"

definition emailresend :: "http_lib \<Rightarrow> adapter" where
  "emailresend L =
     \<lparr>ad_name = ''email-resend'', ad_version = ''1.0.0'', ad_operations = resend_operations,
      ad_effective_host = None, ad_init = Some True,
      ad_call = run_adapter L lax_object (resend_request L)\<rparr>"

section \<open>anthropic-claude\<close>

definition claude_operations :: "operation_spec list" where
  "claude_operations =
     [\<lparr>os_name = ''messages'',
       os_params = [param_spec_of ''model'' ''string'' True, param_spec_of ''messages'' ''array'' True,
         param_spec_of ''max_tokens'' ''integer'' True, param_spec_of ''system'' ''string'' False,
         param_spec_of ''temperature'' ''number'' False, param_spec_of ''stream'' ''boolean'' False],
       os_side_effects = False\<rparr>]"

definition claude_request :: "http_lib \<Rightarrow> call_request \<Rightarrow> bridge_error + http_req" where
  "claude_request L q =
     (if rq_op q \<noteq> ''messages'' then Inl ErrUnknownOperation
      else case resolve_credential (rq_credentials q) ''api_key'' of
        Inl er \<Rightarrow> Inl er
      | Inr key \<Rightarrow>
          let body = pick_params [''model'', ''messages'', ''max_tokens'', ''system'', ''temperature'',
                ''stream'', ''tools'', ''tool_choice''] (rq_params q)
          in if absent ''model'' body \<or> absent ''messages'' body \<or> absent ''max_tokens'' body
             then Inl ErrMissingParam
             else Inr (post_request ''https://api.anthropic.com/v1/messages''
                    (idempotency_header q (set_header ''content-type'' ''application/json''
                      (set_header ''anthropic-version'' ''2023-06-01''
                        (set_header ''x-api-key'' key [])))) (hb_marshal L (JObj body))))"

definition anthropicclaude :: "http_lib \<Rightarrow> adapter" where
  "anthropicclaude L =
     \<lparr>ad_name = ''anthropic-claude'', ad_version = ''1.0.0'', ad_operations = claude_operations,
      ad_effective_host = None, ad_init = Some True,
      ad_call = run_adapter L lax_object (claude_request L)\<rparr>"

section \<open>openai-compatible\<close>

definition openai_operations :: "operation_spec list" where
  "openai_operations =
     (let auth = [param_spec_of ''base_url'' ''string'' False, param_spec_of ''model'' ''string'' True]
      in [\<lparr>os_name = ''chat-completions'',
           os_params = auth @ [param_spec_of ''messages'' ''array'' True,
             param_spec_of ''max_tokens'' ''integer'' False, param_spec_of ''temperature'' ''number'' False,
             param_spec_of ''stream'' ''boolean'' False], os_side_effects = False\<rparr>,
          \<lparr>os_name = ''completions'',
           os_params = auth @ [param_spec_of ''prompt'' ''string'' True,
             param_spec_of ''max_tokens'' ''integer'' False], os_side_effects = False\<rparr>,
          \<lparr>os_name = ''embeddings'', os_params = auth @ [param_spec_of ''input'' ''array'' True],
           os_side_effects = False\<rparr>])"

definition openai_base :: "params \<Rightarrow> string" where
  "openai_base ps =
     (case map_of ps ''base_url'' of
        Some (JStr v) \<Rightarrow> if v = [] then ''https://api.openai.com'' else v
      | _ \<Rightarrow> ''https://api.openai.com'')"

definition openai_effective_host :: "params \<Rightarrow> string option" where
  "openai_effective_host ps = url_host (openai_base ps)"

definition trim_right_slashes :: "string \<Rightarrow> string" where
  "trim_right_slashes s = rev (dropWhile (\<lambda>c. c = CHR ''/'') (rev s))"

definition openai_endpoint :: "string \<Rightarrow> string option" where
  "openai_endpoint op =
     (if op = ''chat-completions'' then Some ''/v1/chat/completions''
      else if op = ''completions'' then Some ''/v1/completions''
      else if op = ''embeddings'' then Some ''/v1/embeddings''
      else None)"

text \<open>A URL that cannot be parsed is a panic here, for the error of NewRequest is ignored.\<close>

definition openai_request :: "http_lib \<Rightarrow> call_request \<Rightarrow> bridge_error + http_req" where
  "openai_request L q =
     (case openai_endpoint (rq_op q) of
        None \<Rightarrow> Inl ErrUnknownOperation
      | Some endpoint \<Rightarrow>
          (case resolve_credential (rq_credentials q) ''api_key'' of
             Inl er \<Rightarrow> Inl er
           | Inr key \<Rightarrow>
               let u = trim_right_slashes (openai_base (rq_params q)) @ endpoint;
                   body = filter (\<lambda>p. fst p \<noteq> ''base_url'') (rq_params q)
               in if parse_web u = None then Inl ErrAdapterOther
                  else Inr (post_request u
                    (idempotency_header q (set_header ''content-type'' ''application/json''
                      (set_header ''authorization'' (''Bearer '' @ key) []))) (hb_marshal L (JObj body)))))"

definition openaicompatible :: "http_lib \<Rightarrow> adapter" where
  "openaicompatible L =
     \<lparr>ad_name = ''openai-compatible'', ad_version = ''1.0.0'', ad_operations = openai_operations,
      ad_effective_host = Some openai_effective_host, ad_init = Some True,
      ad_call = run_adapter L lax_object (openai_request L)\<rparr>"

end
