(* ===== verification/R2_Adapter.thy ===== *)
theory R2_Adapter
  imports Bridge_Adapters
begin

text \<open>
  The adapter for Cloudflare R2 with its own request signing and XML reader
  (fabric-sdk-go/bridge/adapters/cloudflarer2), and the registry that the Hub's binary fills
  (nakli-hub/cmd/nakli-hub/main.go).
\<close>

section \<open>Signing\<close>

definition r2_canonical_uri :: "web_url \<Rightarrow> string" where
  "r2_canonical_uri u = (if wu_path u = [] then ''/'' else escaped_path u)"

definition r2_canonical_query :: "string \<Rightarrow> string" where
  "r2_canonical_query raw =
     (if raw = [] then []
      else join_with ''&'' (concat (map (\<lambda>(k, vs). map (\<lambda>v. query_escape k @ ''='' @ query_escape v) (sort vs))
        (sort_key fst (parse_query raw)))))"

definition r2_signed_pairs :: "string \<Rightarrow> url_values \<Rightarrow> (string \<times> string) list" where
  "r2_signed_pairs host hs =
     sort_key fst
       (fold (\<lambda>(k, vs) ps.
          if k = ''host'' \<or> has_prefix ''x-amz-'' k \<or> k = ''content-type''
          then AList.update k (trim_space (hd vs)) ps else ps) hs [(''host'', host)])"

definition r2_canonical_headers :: "string \<Rightarrow> url_values \<Rightarrow> string \<times> string" where
  "r2_canonical_headers host hs =
     (let ps = r2_signed_pairs host hs
      in (join_with '';'' (map fst ps), concat (map (\<lambda>(k, v). k @ '':'' @ v @ [CHR 0x0A]) ps)))"

definition r2_string_to_sign ::
  "(bytes \<Rightarrow> bytes) \<Rightarrow> string \<Rightarrow> web_url \<Rightarrow> url_values \<Rightarrow> string \<Rightarrow> string \<Rightarrow> string" where
  "r2_string_to_sign sha verb u hs payload date =
     (case r2_canonical_headers (wu_host u) hs of
        (names, canonical) \<Rightarrow>
          join_with [CHR 0x0A] [''AWS4-HMAC-SHA256'', date, take 8 date @ ''/auto/s3/aws4_request'',
            sha256_hex sha (join_with [CHR 0x0A] [verb, r2_canonical_uri u,
              r2_canonical_query (wu_query u), canonical, names, payload])])"

definition r2_sign_v4 ::
  "(bytes \<Rightarrow> bytes) \<Rightarrow> string \<Rightarrow> string \<Rightarrow> string \<Rightarrow> string \<Rightarrow> web_url \<Rightarrow> http_req \<Rightarrow> http_req" where
  "r2_sign_v4 sha access secret payload date u r =
     (let h0 = hq_headers r;
          h1 = (if get_header ''host'' h0 = [] then set_header ''host'' (wu_host u) h0 else h0);
          hs = set_header ''x-amz-date'' date (set_header ''x-amz-content-sha256'' payload h1);
          signature = hex_encode (hmac_bytes sha (signing_key sha secret (take 8 date) ''auto'' ''s3'')
            (r2_string_to_sign sha (hq_method r) u hs payload date))
      in r\<lparr>hq_headers := set_header ''authorization''
            (''AWS4-HMAC-SHA256 Credential='' @ access @ ''/'' @ take 8 date @ ''/auto/s3/aws4_request, ''
             @ ''SignedHeaders='' @ fst (r2_canonical_headers (wu_host u) hs)
             @ '', Signature='' @ signature) hs\<rparr>)"

section \<open>XML answers\<close>

datatype xml_node = XNode (xn_name: string) (xn_text: string) (xn_children: "xml_node list")

text \<open>
  decodeElement on the tokens after a start tag; with more fuel than there are tokens the fuel
  does not run out, and tokens that end early leave the elements open so far.
\<close>

fun decode_element :: "nat \<Rightarrow> xml_node \<Rightarrow> xml_token list \<Rightarrow> xml_node \<times> xml_token list" where
  "decode_element 0 n ts = (n, ts)"
| "decode_element (Suc k) n [] = (n, [])"
| "decode_element (Suc k) n (XEnd # ts) = (n, ts)"
| "decode_element (Suc k) (XNode nm tx cs) (XText s # ts) =
     decode_element k (XNode nm (tx @ trim_space s) cs) ts"
| "decode_element (Suc k) (XNode nm tx cs) (XStart c # ts) =
     (case decode_element k (XNode c [] []) ts of
        (child, rest) \<Rightarrow> decode_element k (XNode nm tx (cs @ [child])) rest)"

fun decode_node :: "xml_token list \<Rightarrow> xml_node option" where
  "decode_node [] = None"
| "decode_node (XStart c # ts) = Some (fst (decode_element (Suc (length ts)) (XNode c [] []) ts))"
| "decode_node (t # ts) = decode_node ts"

text \<open>A name that comes again turns its value into the list of the values.\<close>

definition add_child :: "string \<Rightarrow> json \<Rightarrow> (string \<times> json) list \<Rightarrow> (string \<times> json) list" where
  "add_child name v out =
     (case map_of out name of
        None \<Rightarrow> out @ [(name, v)]
      | Some (JArr vs) \<Rightarrow> AList.update name (JArr (vs @ [v])) out
      | Some w \<Rightarrow> AList.update name (JArr [w, v]) out)"

fun node_to_value :: "xml_node \<Rightarrow> json" where
  "node_to_value (XNode nm tx cs) =
     (if cs = [] then JStr tx
      else JObj (fold (\<lambda>(c, v) out. add_child c v out) (map (\<lambda>c. (xn_name c, node_to_value c)) cs) []))"

definition parse_xml_to_map :: "xml_token list \<times> bool \<Rightarrow> params option" where
  "parse_xml_to_map r =
     (if snd r then None
      else case decode_node (fst r) of
             None \<Rightarrow> Some []
           | Some n \<Rightarrow> Some [(xn_name n, node_to_value n)])"

section \<open>Requests\<close>

definition r2_operations :: "operation_spec list" where
  "r2_operations =
     [\<lparr>os_name = ''put-object'',
       os_params = [param_spec_of ''bucket'' ''string'' True, param_spec_of ''key'' ''string'' True,
         param_spec_of ''body_b64'' ''string'' True, param_spec_of ''content_type'' ''string'' False],
       os_side_effects = True\<rparr>,
      \<lparr>os_name = ''get-object'',
       os_params = [param_spec_of ''bucket'' ''string'' True, param_spec_of ''key'' ''string'' True],
       os_side_effects = False\<rparr>,
      \<lparr>os_name = ''list-objects'',
       os_params = [param_spec_of ''bucket'' ''string'' True, param_spec_of ''prefix'' ''string'' False,
         param_spec_of ''max_keys'' ''integer'' False], os_side_effects = False\<rparr>,
      \<lparr>os_name = ''delete-object'',
       os_params = [param_spec_of ''bucket'' ''string'' True, param_spec_of ''key'' ''string'' True],
       os_side_effects = True\<rparr>]"

definition r2_endpoint :: "(string \<times> string) list \<Rightarrow> bridge_error + string" where
  "r2_endpoint creds =
     (case resolve_credential creds ''account_id'' of
        Inl er \<Rightarrow> Inl er
      | Inr acct \<Rightarrow> Inr (''https://'' @ acct @ ''.r2.cloudflarestorage.com''))"

definition r2_url :: "string \<Rightarrow> string \<Rightarrow> string \<Rightarrow> string \<Rightarrow> string" where
  "r2_url ep bucket key raw_query =
     ep @ ''/'' @ bucket @ (if key = [] then [] else ''/'' @ key)
       @ (if raw_query = [] then [] else ''?'' @ raw_query)"

definition r2_new_request ::
  "http_lib \<Rightarrow> string \<Rightarrow> string \<Rightarrow> string \<Rightarrow> string \<Rightarrow> bytes \<Rightarrow> (string \<times> string) list
     \<Rightarrow> bridge_error + http_req" where
  "r2_new_request L verb bucket key raw_query body creds =
     (case resolve_credential creds ''access_key_id'' of
        Inl er \<Rightarrow> Inl er
      | Inr ak \<Rightarrow>
          (case resolve_credential creds ''secret_access_key'' of
             Inl er \<Rightarrow> Inl er
           | Inr sk \<Rightarrow>
               (case r2_endpoint creds of
                  Inl er \<Rightarrow> Inl er
                | Inr ep \<Rightarrow>
                    (case parse_web (r2_url ep bucket key raw_query) of
                       None \<Rightarrow> Inl ErrAdapterOther
                     | Some u \<Rightarrow>
                         Inr (r2_sign_v4 (hb_sha L) ak sk (sha256_hex (hb_sha L) body) (amz_date (hb_now L)) u
                           \<lparr>hq_method = verb, hq_url = r2_url ep bucket key raw_query,
                            hq_headers = [], hq_body = body\<rparr>)))))"

definition r2_put_object :: "http_lib \<Rightarrow> call_request \<Rightarrow> bridge_error + http_req" where
  "r2_put_object L q =
     (let ps = rq_params q; bucket = param_or as_string ps ''bucket'' [];
          key = param_or as_string ps ''key'' []; b64 = param_or as_string ps ''body_b64'' []
      in if bucket = [] \<or> key = [] \<or> b64 = [] then Inl ErrMissingParam
         else case b64_decode std_encoding b64 of
           None \<Rightarrow> Inl ErrInvalidParam
         | Some body \<Rightarrow>
             (case r2_new_request L ''PUT'' bucket key [] body (rq_credentials q) of
                Inl er \<Rightarrow> Inl er
              | Inr r \<Rightarrow>
                  Inr (r\<lparr>hq_headers := set_header ''content-type''
                    (param_or as_string ps ''content_type'' ''application/octet-stream'') (hq_headers r)\<rparr>)))"

text \<open>get-object and delete-object.\<close>

definition r2_on_object :: "http_lib \<Rightarrow> string \<Rightarrow> call_request \<Rightarrow> bridge_error + http_req" where
  "r2_on_object L verb q =
     (let ps = rq_params q; bucket = param_or as_string ps ''bucket'' [];
          key = param_or as_string ps ''key'' []
      in if bucket = [] \<or> key = [] then Inl ErrMissingParam
         else r2_new_request L verb bucket key [] [] (rq_credentials q))"

definition r2_list_objects :: "http_lib \<Rightarrow> call_request \<Rightarrow> bridge_error + http_req" where
  "r2_list_objects L q =
     (let ps = rq_params q; bucket = param_or as_string ps ''bucket'' [];
          pre = param_or as_string ps ''prefix'' []; n = param_or as_number ps ''max_keys'' 1000;
          v = set_value ''list-type'' ''2'' [];
          w = (if pre = [] then v else set_value ''prefix'' pre v)
      in if bucket = [] then Inl ErrMissingParam
         else r2_new_request L ''GET'' bucket [] (values_encode (set_value ''max-keys'' (itoa n) w)) []
                (rq_credentials q))"

definition r2_request :: "http_lib \<Rightarrow> call_request \<Rightarrow> bridge_error + http_req" where
  "r2_request L q =
     (if rq_op q = ''put-object'' then r2_put_object L q
      else if rq_op q = ''get-object'' then r2_on_object L ''GET'' q
      else if rq_op q = ''list-objects'' then r2_list_objects L q
      else if rq_op q = ''delete-object'' then r2_on_object L ''DELETE'' q
      else Inl ErrUnknownOperation)"

definition r2_result :: "http_lib \<Rightarrow> http_resp \<Rightarrow> bytes \<Rightarrow> bridge_error + params" where
  "r2_result L resp raw =
     Inr ([(''status'', JInt (hp_status resp)), (''headers'', flatten_headers (hp_headers resp))]
       @ (if raw = [] then []
          else if has_prefix ''<'' (trim_space raw)
          then [(''xml'', case parse_xml_to_map (hb_xml L raw) of None \<Rightarrow> JNull | Some m \<Rightarrow> JObj m),
                (''xml_raw'', JStr raw)]
          else [(''body_b64'', JStr (b64_encode std_encoding raw))]))"

definition cloudflarer2 :: "http_lib \<Rightarrow> adapter" where
  "cloudflarer2 L =
     \<lparr>ad_name = ''cloudflare-r2'', ad_version = ''1.0.0'', ad_operations = r2_operations,
      ad_effective_host = None, ad_init = Some True,
      ad_call = run_adapter L r2_result (r2_request L)\<rparr>"

section \<open>The adapters of the Hub\<close>

definition hub_adapters :: "http_lib \<Rightarrow> adapter list" where
  "hub_adapters L =
     [courtlistener L, archiveorg L, nasaimages L, webhookpost L, emailresend L, cloudflarer2 L,
      anthropicclaude L, openaicompatible L, noop_adapter]"

text \<open>MustRegister panics on an error.\<close>

definition must_register :: "adapter \<Rightarrow> registry option \<Rightarrow> registry option" where
  "must_register a r =
     (case r of
        None \<Rightarrow> None
      | Some rg \<Rightarrow> (case register (Some a) rg of (None, rg1) \<Rightarrow> Some rg1 | (Some _, _) \<Rightarrow> None))"

definition new_bridge_registry :: "http_lib \<Rightarrow> registry option" where
  "new_bridge_registry L = fold must_register (hub_adapters L) (Some new_registry)"

end
