(* ===== verification/Adapter_Guarantees.thy ===== *)
theory Adapter_Guarantees
  imports R2_Adapter Bridge_Handlers
begin

text \<open>
  Where the adapters send their requests, and what the Hub judges before it lets them: the hosts
  of the adapters with a fixed service, the hosts that follow the parameters, and the R2 adapter,
  whose host follows a credential that nobody judges.
\<close>

section \<open>The registry of the Hub\<close>

lemma new_bridge_registry_is:
  "new_bridge_registry L = Some (rev (map (\<lambda>a. (ad_name a, a)) (hub_adapters L)))"
  by (simp add: new_bridge_registry_def hub_adapters_def must_register_def register_def courtlistener_def
      archiveorg_def nasaimages_def webhookpost_def emailresend_def cloudflarer2_def anthropicclaude_def
      openaicompatible_def noop_adapter_def noop_name_def put_adapter_def new_registry_def)

definition hub_registry :: "http_lib \<Rightarrow> registry" where
  "hub_registry L = rev (map (\<lambda>a. (ad_name a, a)) (hub_adapters L))"

lemma hub_registry_get:
  "get_adapter ''courtlistener'' (hub_registry L) = Some (courtlistener L)"
  "get_adapter ''archive-org'' (hub_registry L) = Some (archiveorg L)"
  "get_adapter ''nasa-images'' (hub_registry L) = Some (nasaimages L)"
  "get_adapter ''webhook-post'' (hub_registry L) = Some (webhookpost L)"
  "get_adapter ''email-resend'' (hub_registry L) = Some (emailresend L)"
  "get_adapter ''cloudflare-r2'' (hub_registry L) = Some (cloudflarer2 L)"
  "get_adapter ''anthropic-claude'' (hub_registry L) = Some (anthropicclaude L)"
  "get_adapter ''openai-compatible'' (hub_registry L) = Some (openaicompatible L)"
  "get_adapter ''conformance-test'' (hub_registry L) = Some noop_adapter"
  by (simp_all add: hub_registry_def hub_adapters_def get_adapter_def courtlistener_def archiveorg_def
      nasaimages_def webhookpost_def emailresend_def cloudflarer2_def anthropicclaude_def
      openaicompatible_def noop_adapter_def noop_name_def)

text \<open>The request an installed adapter builds; the inert one builds none.\<close>

definition adapter_request :: "http_lib \<Rightarrow> string \<Rightarrow> call_request \<Rightarrow> bridge_error + http_req" where
  "adapter_request L name q =
     (if name = ''courtlistener'' then courtlistener_request q
      else if name = ''archive-org'' then archiveorg_request q
      else if name = ''nasa-images'' then nasa_request q
      else if name = ''webhook-post'' then webhook_request L q
      else if name = ''email-resend'' then resend_request L q
      else if name = ''cloudflare-r2'' then r2_request L q
      else if name = ''anthropic-claude'' then claude_request L q
      else if name = ''openai-compatible'' then openai_request L q
      else Inl ErrAdapterNotFound)"

text \<open>The hosts an adapter may be expected to call for a request.\<close>

definition declared_host :: "string \<Rightarrow> call_request \<Rightarrow> string \<Rightarrow> bool" where
  "declared_host name q h =
     (if name = ''courtlistener'' then h = ''www.courtlistener.com''
      else if name = ''archive-org'' then h = ''archive.org''
      else if name = ''nasa-images'' then h \<in> {''api.nasa.gov'', ''images-api.nasa.gov''}
      else if name = ''webhook-post'' then webhook_effective_host (rq_params q) = Some h
      else if name = ''email-resend'' then h = ''api.resend.com''
      else if name = ''cloudflare-r2''
      then h = credential ''account_id'' (rq_credentials q) @ ''.r2.cloudflarestorage.com''
      else if name = ''anthropic-claude'' then h = ''api.anthropic.com''
      else if name = ''openai-compatible'' then openai_effective_host (rq_params q) = Some h
      else False)"

section \<open>Hosts\<close>

lemma plain_hosts:
  "plain_host ''www.courtlistener.com''" "plain_host ''archive.org''" "plain_host ''api.nasa.gov''"
  "plain_host ''images-api.nasa.gov''" "plain_host ''api.resend.com''" "plain_host ''api.anthropic.com''"
  by code_simp+

lemma fixed_host:
  assumes "plain_host h" and "hq_url r = ''https://'' @ h @ rest" and "rest = [] \<or> hd rest \<in> set ''/?#''"
    and "request_host r = Some h'"
  shows "h' = h"
  using parse_web_host [OF assms(1,3)] assms(2,4) by (auto simp: request_host_def)

lemma param_urls:
  "courtlistener_request q = Inr r \<Longrightarrow> \<exists>rest. hq_url r = ''https://'' @ ''www.courtlistener.com'' @ ''/'' @ rest"
  "archiveorg_request q = Inr r \<Longrightarrow> \<exists>rest. hq_url r = ''https://'' @ ''archive.org'' @ ''/'' @ rest"
  "nasa_request q = Inr r \<Longrightarrow> (\<exists>rest. hq_url r = ''https://'' @ ''api.nasa.gov'' @ ''/'' @ rest)
      \<or> (\<exists>rest. hq_url r = ''https://'' @ ''images-api.nasa.gov'' @ ''/'' @ rest)"
  "resend_request L q = Inr r \<Longrightarrow> \<exists>rest. hq_url r = ''https://'' @ ''api.resend.com'' @ ''/'' @ rest"
  "claude_request L q = Inr r \<Longrightarrow> \<exists>rest. hq_url r = ''https://'' @ ''api.anthropic.com'' @ ''/'' @ rest"
proof -
  show "courtlistener_request q = Inr r \<Longrightarrow> \<exists>rest. hq_url r = ''https://'' @ ''www.courtlistener.com'' @ ''/'' @ rest"
    by (auto simp: courtlistener_request_def courtlistener_search_def courtlistener_get_def Let_def
        get_request_def with_query_def courtlistener_base_def split: if_splits sum.splits)
  show "archiveorg_request q = Inr r \<Longrightarrow> \<exists>rest. hq_url r = ''https://'' @ ''archive.org'' @ ''/'' @ rest"
    by (auto simp: archiveorg_request_def archiveorg_search_def wayback_get_def archiveorg_item_def Let_def
        get_request_def with_query_def archiveorg_base_def split: if_splits sum.splits)
  show "nasa_request q = Inr r \<Longrightarrow> (\<exists>rest. hq_url r = ''https://'' @ ''api.nasa.gov'' @ ''/'' @ rest)
      \<or> (\<exists>rest. hq_url r = ''https://'' @ ''images-api.nasa.gov'' @ ''/'' @ rest)"
    by (auto simp: nasa_request_def mars_photos_def search_images_def Let_def get_request_def with_query_def
        nasa_mars_base_def nasa_images_base_def split: if_splits sum.splits)
  show "resend_request L q = Inr r \<Longrightarrow> \<exists>rest. hq_url r = ''https://'' @ ''api.resend.com'' @ ''/'' @ rest"
    by (auto simp: resend_request_def Let_def post_request_def split: if_splits sum.splits)
  show "claude_request L q = Inr r \<Longrightarrow> \<exists>rest. hq_url r = ''https://'' @ ''api.anthropic.com'' @ ''/'' @ rest"
    by (auto simp: claude_request_def Let_def post_request_def split: if_splits sum.splits)
qed

lemma r2_sign_url [simp]: "hq_url (r2_sign_v4 sha ak sk pl date u r) = hq_url r"
  by (simp add: r2_sign_v4_def Let_def)

lemma r2_request_new:
  assumes "r2_request L q = Inr r"
  obtains verb bucket key raw body r1 where
    "r2_new_request L verb bucket key raw body (rq_credentials q) = Inr r1" "hq_url r = hq_url r1"
  using assms
  by (auto simp: r2_request_def r2_put_object_def r2_on_object_def r2_list_objects_def Let_def
      split: if_splits sum.splits option.splits)

lemma lookup_by_map_of: "lookup_by fst k ps = map_option (\<lambda>v. (k, v)) (map_of ps k)"
  by (induction ps) auto

lemma r2_new_request_url:
  assumes "r2_new_request L verb bucket key raw body creds = Inr r"
  shows "\<exists>rest. hq_url r = ''https://'' @ (credential ''account_id'' creds @ ''.r2.cloudflarestorage.com'')
      @ ''/'' @ rest"
proof -
  obtain acct where a: "resolve_credential creds ''account_id'' = Inr acct"
    "hq_url r = r2_url (''https://'' @ acct @ ''.r2.cloudflarestorage.com'') bucket key raw"
    using assms by (auto simp: r2_new_request_def r2_endpoint_def split: sum.splits option.splits)
  have "acct = credential ''account_id'' creds"
    using a(1) by (auto simp: resolve_credential_def credential_def lookup_by_map_of split: option.splits if_splits)
  then show ?thesis using a(2) by (auto simp: r2_url_def)
qed

section \<open>URLs with a host\<close>

lemma scan_scheme_found:
  assumes "scan_scheme w acc cs = Some (sc, rest)" and "sc \<noteq> []"
  shows "\<exists>p. cs = p @ rest \<and> (\<forall>w t. scan_scheme w acc (p @ t) = Some (sc, t)) \<and> CHR ''#'' \<notin> set p \<and> CHR ''?'' \<notin> set p"
  using assms
proof (induction w acc cs rule: scan_scheme.induct)
  case (1 w acc)
  then show ?case by simp
next
  case (2 w acc c cs)
  have n: "\<not> is_letter CHR ''#''" "\<not> is_letter CHR ''?''" "\<not> is_digit CHR ''#''" "\<not> is_digit CHR ''?''"
    "CHR ''#'' \<notin> set ''+-.''" "CHR ''?'' \<notin> set ''+-.''" "\<not> is_letter CHR '':''" "\<not> is_digit CHR '':''"
    "CHR '':'' \<notin> set ''+-.''"
    by code_simp+
  consider (go) "is_letter c \<or> (is_digit c \<or> c \<in> set ''+-.'') \<and> acc \<noteq> []"
    | (colon) "c = CHR '':''" "acc \<noteq> []"
    using 2(3,4) by (auto split: if_splits)
  then show ?case
  proof cases
    case go
    have step: "scan_scheme w' acc (c # t) = scan_scheme w' (acc @ [c]) t" for w' t
      using go by (auto simp del: set_simps)
    have "\<exists>p. cs = p @ rest \<and> (\<forall>w t. scan_scheme w (acc @ [c]) (p @ t) = Some (sc, t)) \<and> CHR ''#'' \<notin> set p \<and> CHR ''?'' \<notin> set p"
      using 2 go step by (metis (no_types, lifting))
    then obtain p where p: "cs = p @ rest" "\<forall>w t. scan_scheme w (acc @ [c]) (p @ t) = Some (sc, t)"
      "CHR ''#'' \<notin> set p" "CHR ''?'' \<notin> set p" by blast
    have "c \<noteq> CHR ''#''" "c \<noteq> CHR ''?''" using go n by blast+
    then have "c # cs = (c # p) @ rest" "\<forall>w t. scan_scheme w acc ((c # p) @ t) = Some (sc, t)"
      "CHR ''#'' \<notin> set (c # p)" "CHR ''?'' \<notin> set (c # p)"
      using p step by auto
    then show ?thesis by blast
  next
    case colon
    have "scan_scheme w' acc ([c] @ t) = Some (to_lower acc, t)" for w' t
      using colon n by (simp del: set_simps)
    moreover have "sc = to_lower acc" "rest = cs"
      using 2(3) colon n by (simp_all del: set_simps)
    ultimately show ?thesis using colon by (intro exI [of _ "[c]"]) simp
  qed
qed

text \<open>A text in the shape of a URL with a host.\<close>

definition authority_at :: "string \<Rightarrow> string \<Rightarrow> string \<Rightarrow> bool" where
  "authority_at pre a rest =
     ((\<exists>sc. \<forall>t. get_scheme (pre @ ''//'' @ t) = Some (sc, ''//'' @ t)) \<and> CHR ''#'' \<notin> set pre
      \<and> CHR ''?'' \<notin> set pre \<and> a \<noteq> [] \<and> CHR ''/'' \<notin> set a \<and> CHR ''?'' \<notin> set a \<and> CHR ''#'' \<notin> set a
      \<and> (rest = [] \<or> hd rest \<in> set ''/?#''))"

lemma parse_web_at:
  assumes at: "authority_at pre a rest" and u: "parse_web (pre @ ''//'' @ a @ rest) = Some u"
  shows "parse_authority a = Some (wu_host u)"
proof -
  define r1 where "r1 = fst (cut ''#'' rest)"
  define r2 where "r2 = fst (cut ''?'' r1)"
  obtain sc where sc: "get_scheme (pre @ ''//'' @ t) = Some (sc, ''//'' @ t)" for t
    using at by (auto simp: authority_at_def)
  have "CHR ''#'' \<notin> set (pre @ ''//'' @ a)" "CHR ''?'' \<notin> set (''//'' @ a)"
    using at by (auto simp: authority_at_def)
  then have cut1: "cut ''#'' (pre @ ''//'' @ a @ rest) = (pre @ ''//'' @ a @ r1, snd (cut ''#'' rest))"
    and cut2: "cut ''?'' (''//'' @ a @ r1) = (''//'' @ a @ r2, snd (cut ''?'' r1))"
    using cut_append [of "CHR ''#''" "pre @ ''//'' @ a" rest] cut_append [of "CHR ''?''" "''//'' @ a" r1]
    unfolding r1_def r2_def by simp_all
  have "r2 = takeWhile (\<lambda>c. c \<noteq> CHR ''?'') (takeWhile (\<lambda>c. c \<noteq> CHR ''#'') rest)"
    unfolding r1_def r2_def fst_cut ..
  then have r2: "r2 = [] \<or> hd r2 = CHR ''/''"
    using at by (cases rest) (auto simp: authority_at_def)
  have a: "a \<noteq> []" "\<forall>c\<in>set a. c \<noteq> CHR ''/''" using at by (auto simp: authority_at_def)
  then have auth: "fst (split_authority (a @ r2)) = a"
    using r2 by (cases r2) (auto simp: split_authority_def takeWhile_tail)
  have "\<not> has_prefix ''///'' (''//'' @ a @ r2)" using a by (cases a) (auto simp: has_prefix_def)
  moreover have "parse_rest sc (''//'' @ a @ r2) (snd (cut ''?'' r1)) = Some u"
    using u unfolding parse_web_def cut1 prod.case sc option.case cut2
    by (simp split: if_splits)
  ultimately show ?thesis
    by (auto simp: parse_rest_def has_prefix_def auth with_path_def split: option.splits)
qed

lemma parse_web_authority:
  assumes u: "parse_web s = Some u" and "wu_host u \<noteq> []"
  obtains pre a rest where "s = pre @ ''//'' @ a @ rest" "authority_at pre a rest"
proof -
  define s1 where "s1 = fst (cut ''#'' s)"
  obtain sc r where sch: "get_scheme s1 = Some (sc, r)"
    and r: "parse_rest sc (fst (cut ''?'' r)) (snd (cut ''?'' r)) = Some u"
    using u by (auto simp: parse_web_def s1_def split: prod.splits option.splits if_splits)
  define r1 where "r1 = fst (cut ''?'' r)"
  have two: "has_prefix ''//'' r1" and a: "parse_authority (fst (split_authority (drop 2 r1))) = Some (wu_host u)"
    using r assms(2) unfolding r1_def [symmetric]
    by (auto simp: parse_rest_def with_path_def split: if_splits option.splits)
  define a where "a = fst (split_authority (drop 2 r1))"
  define t where "t = drop 2 r1"
  have "take 2 r1 = ''//''" using two by (simp add: has_prefix_def numeral_2_eq_2)
  then have r1: "r1 = ''//'' @ t" using append_take_drop_id [of 2 r1] by (simp add: t_def)
  have s1: "s1 = takeWhile (\<lambda>c. c \<noteq> CHR ''#'') s" and r1': "r1 = takeWhile (\<lambda>c. c \<noteq> CHR ''?'') r"
    unfolding s1_def r1_def fst_cut by simp_all
  have at: "a = takeWhile (\<lambda>c. c \<noteq> CHR ''/'') t" by (simp add: a_def t_def split_authority_def)
  obtain r2 where r2: "r = ''//'' @ t @ r2" "r2 = [] \<or> hd r2 = CHR ''?''" "CHR ''?'' \<notin> set t"
  proof
    show "r = ''//'' @ t @ dropWhile (\<lambda>c. c \<noteq> CHR ''?'') r"
      using r1 r1' takeWhile_dropWhile_id [of "\<lambda>c. c \<noteq> CHR ''?''" r] by simp
    show "dropWhile (\<lambda>c. c \<noteq> CHR ''?'') r = [] \<or> hd (dropWhile (\<lambda>c. c \<noteq> CHR ''?'') r) = CHR ''?''"
      using hd_dropWhile [of "\<lambda>c. c \<noteq> CHR ''?''" r] by blast
    have "CHR ''?'' \<notin> set r1" unfolding r1' using set_takeWhileD by fastforce
    then show "CHR ''?'' \<notin> set t" by (simp add: r1)
  qed
  obtain pre where pre: "s1 = pre @ r" "\<exists>sc. \<forall>t. get_scheme (pre @ ''//'' @ t) = Some (sc, ''//'' @ t)"
    "CHR ''#'' \<notin> set pre" "CHR ''?'' \<notin> set pre"
  proof (cases "sc = []")
    case True
    have l: "\<not> is_letter CHR ''/''" "\<not> is_digit CHR ''/''" "CHR ''/'' \<notin> set ''+-.''" by code_simp+
    have e: "to_lower acc \<noteq> []" if "acc \<noteq> []" for acc using that by (simp add: to_lower_def)
    have "rest = w" if "scan_scheme w acc cs = Some ([], rest)" for w acc cs rest
      using that by (induction w acc cs rule: scan_scheme.induct) (auto simp: e split: if_splits simp del: set_simps)
    then have "r = s1" using sch True unfolding get_scheme_def by blast
    then have "s1 = [] @ r" by simp
    moreover have "get_scheme ([] @ ''//'' @ t) = Some ([], ''//'' @ t)" for t
      using l by (simp add: get_scheme_def)
    ultimately show ?thesis using that [of "[]"] by fastforce
  next
    case False
    then show ?thesis
      using scan_scheme_found [of s1 "[]" s1 sc r] sch that unfolding get_scheme_def by blast
  qed
  obtain s2 where s2: "s = s1 @ s2" "s2 = [] \<or> hd s2 = CHR ''#''"
    using takeWhile_dropWhile_id [of "\<lambda>c. c \<noteq> CHR ''#''" s] hd_dropWhile [of "\<lambda>c. c \<noteq> CHR ''#''" s]
    unfolding s1 by metis
  obtain t2 where t2: "t = a @ t2" "t2 = [] \<or> hd t2 = CHR ''/''"
    using takeWhile_dropWhile_id [of "\<lambda>c. c \<noteq> CHR ''/''" t] hd_dropWhile [of "\<lambda>c. c \<noteq> CHR ''/''" t]
    unfolding at by metis
  have "CHR ''#'' \<notin> set s1" unfolding s1 using set_takeWhileD by fastforce
  then have "CHR ''#'' \<notin> set a" by (simp add: pre(1) r2(1) t2(1))
  moreover have "CHR ''?'' \<notin> set a" using r2(3) by (simp add: t2(1))
  moreover have "CHR ''/'' \<notin> set a" unfolding at using set_takeWhileD by fastforce
  ultimately have chars: "CHR ''#'' \<notin> set a" "CHR ''?'' \<notin> set a" "CHR ''/'' \<notin> set a" by simp_all
  have "a \<noteq> []" using a assms(2) unfolding a_def [symmetric] by (auto simp: parse_authority_def parse_host_def has_prefix_def)
  moreover have chars3: "CHR ''/'' \<in> set ''/?#''" "CHR ''?'' \<in> set ''/?#''" "CHR ''#'' \<in> set ''/?#''"
    by simp_all
  moreover have "t2 @ r2 @ s2 = [] \<or> hd (t2 @ r2 @ s2) \<in> set ''/?#''"
    using t2(2) r2(2) s2(2) chars3 by (cases t2; cases r2; cases s2) (simp_all del: set_simps)
  ultimately have "authority_at pre a (t2 @ r2 @ s2)" using pre(2-4) chars by (simp add: authority_at_def)
  moreover have "s = pre @ ''//'' @ a @ t2 @ r2 @ s2" using s2(1) pre(1) r2(1) t2(1) by simp
  ultimately show ?thesis using that by blast
qed

text \<open>What follows a base URL without its last slashes does not change its host.\<close>

lemma trim_right_slashes_append:
  assumes "x \<noteq> []" and "CHR ''/'' \<notin> set x"
  shows "trim_right_slashes (p @ x @ y) = p @ x @ trim_right_slashes y"
proof -
  have d: "dropWhile (\<lambda>c. c = CHR ''/'') (rev x @ rev p) = rev x @ rev p"
    using assms by (cases x rule: rev_cases) auto
  have "dropWhile (\<lambda>c. c = CHR ''/'') (z @ w) = dropWhile (\<lambda>c. c = CHR ''/'') z @ w"
    if "dropWhile (\<lambda>c. c = CHR ''/'') w = w" for z w
    using that by (induction z) simp_all
  from this [OF d] show ?thesis by (simp add: trim_right_slashes_def)
qed

lemma trim_right_slashes_prefix: "\<exists>n. s = trim_right_slashes s @ n"
proof -
  have "rev s = takeWhile (\<lambda>c. c = CHR ''/'') (rev s) @ dropWhile (\<lambda>c. c = CHR ''/'') (rev s)" by simp
  then show ?thesis unfolding trim_right_slashes_def by (metis rev_append rev_rev_ident)
qed

lemma appended_path_keeps_host:
  assumes "parse_web s = Some u" and "wu_host u \<noteq> []"
    and "parse_web (trim_right_slashes s @ CHR ''/'' # ep) = Some v"
  shows "wu_host v = wu_host u"
proof -
  obtain pre a rest where s: "s = pre @ ''//'' @ a @ rest" and at: "authority_at pre a rest"
    using parse_web_authority [OF assms(1,2)] .
  have "a \<noteq> []" "CHR ''/'' \<notin> set a" using at by (simp_all add: authority_at_def)
  then have t: "trim_right_slashes s @ CHR ''/'' # ep = pre @ ''//'' @ a @ trim_right_slashes rest @ CHR ''/'' # ep"
    using trim_right_slashes_append [of a "pre @ ''//''" rest] by (simp add: s)
  have slash: "CHR ''/'' \<in> set ''/?#''" by simp
  have "trim_right_slashes rest = [] \<or> hd (trim_right_slashes rest) = hd rest"
    using trim_right_slashes_prefix [of rest] by (metis hd_append2)
  then have "hd (trim_right_slashes rest @ CHR ''/'' # ep) \<in> set ''/?#''"
    using at trim_right_slashes_prefix [of rest] slash
    by (cases "trim_right_slashes rest = []") (auto simp: authority_at_def hd_append2 simp del: set_simps)
  then have at2: "authority_at pre a (trim_right_slashes rest @ CHR ''/'' # ep)"
    using at unfolding authority_at_def by blast
  have "parse_authority a = Some (wu_host v)" using parse_web_at [OF at2] assms(3) unfolding t by blast
  moreover have "parse_authority a = Some (wu_host u)" using parse_web_at [OF at] assms(1) unfolding s by blast
  ultimately show ?thesis by simp
qed

section \<open>Where a call goes\<close>

lemma effective_request_host:
  "webhook_request L q = Inr rq \<Longrightarrow> request_host rq = Some h \<Longrightarrow> webhook_effective_host (rq_params q) \<noteq> None \<Longrightarrow>
     webhook_effective_host (rq_params q) = Some h"
  by (auto simp: webhook_request_def webhook_effective_host_def url_host_def Let_def post_request_def
      request_host_def split: if_splits sum.splits option.splits)

lemma openai_endpoint_path: "openai_endpoint op = Some e \<Longrightarrow> \<exists>ep. e = CHR ''/'' # ep"
  by (auto simp: openai_endpoint_def split: if_splits)

lemma hostname_cong: "wu_host u = wu_host v \<Longrightarrow> hostname u = hostname v"
  by (simp add: hostname_def)

lemma openai_request_host:
  assumes "openai_request L q = Inr rq" and "request_host rq = Some h"
    and "openai_effective_host (rq_params q) = Some h'"
  shows "h' = h"
proof -
  obtain e where e: "openai_endpoint (rq_op q) = Some e"
    and u: "hq_url rq = trim_right_slashes (openai_base (rq_params q)) @ e"
    using assms(1) by (auto simp: openai_request_def Let_def post_request_def split: option.splits sum.splits if_splits)
  obtain ep where ep: "e = CHR ''/'' # ep" using openai_endpoint_path [OF e] by blast
  obtain b where b: "parse_web (openai_base (rq_params q)) = Some b" "wu_host b \<noteq> []" "h' = hostname b"
    using assms(3) by (auto simp: openai_effective_host_def url_host_def split: option.splits if_splits)
  obtain v where v: "parse_web (hq_url rq) = Some v" "h = hostname v"
    using assms(2) by (auto simp: request_host_def)
  show ?thesis using appended_path_keeps_host [OF b(1,2)] v b(3) hostname_cong unfolding u ep by metis
qed

lemma plain_host_append: "plain_host a \<Longrightarrow> plain_host b \<Longrightarrow> plain_host (a @ b)"
  by (simp add: plain_host_def)

lemma plain_r2: "plain_host ''.r2.cloudflarestorage.com''"
  by code_simp

lemma adapter_request_host:
  assumes rq: "adapter_request L name q = Inr rq" and h: "request_host rq = Some h"
    and r2: "name = ''cloudflare-r2'' \<Longrightarrow> plain_host (credential ''account_id'' (rq_credentials q))"
    and eff: "name = ''webhook-post'' \<Longrightarrow> webhook_effective_host (rq_params q) \<noteq> None"
      "name = ''openai-compatible'' \<Longrightarrow> openai_effective_host (rq_params q) \<noteq> None"
  shows "declared_host name q h"
proof -
  have slash: "c \<in> set ''/?#'' \<Longrightarrow> [] @ [c] @ rest = [] \<or> hd ([] @ [c] @ rest) \<in> set ''/?#''" for c rest by simp
  have s: "CHR ''/'' \<in> set ''/?#''" by simp
  note fixed = fixed_host [OF _ _ slash [OF s, unfolded append_Nil] h]
  consider (c) "name = ''courtlistener''" "courtlistener_request q = Inr rq"
    | (a) "name = ''archive-org''" "archiveorg_request q = Inr rq"
    | (n) "name = ''nasa-images''" "nasa_request q = Inr rq"
    | (w) "name = ''webhook-post''" "webhook_request L q = Inr rq"
    | (e) "name = ''email-resend''" "resend_request L q = Inr rq"
    | (r) "name = ''cloudflare-r2''" "r2_request L q = Inr rq"
    | (l) "name = ''anthropic-claude''" "claude_request L q = Inr rq"
    | (o) "name = ''openai-compatible''" "openai_request L q = Inr rq"
    using rq unfolding adapter_request_def by (simp split: if_splits)
  then show ?thesis
  proof cases
    case c
    then show ?thesis using param_urls(1) [of q rq] fixed [OF plain_hosts(1)] by (auto simp: declared_host_def)
  next
    case a
    then show ?thesis using param_urls(2) [of q rq] fixed [OF plain_hosts(2)] by (auto simp: declared_host_def)
  next
    case n
    then show ?thesis using param_urls(3) [of q rq] fixed [OF plain_hosts(3)] fixed [OF plain_hosts(4)]
      by (auto simp: declared_host_def)
  next
    case w
    then show ?thesis using effective_request_host [OF w(2) h] eff(1) by (simp add: declared_host_def)
  next
    case e
    then show ?thesis using param_urls(4) [of L q rq] fixed [OF plain_hosts(5)] by (auto simp: declared_host_def)
  next
    case r
    obtain verb bucket key raw body r1 where
      n: "r2_new_request L verb bucket key raw body (rq_credentials q) = Inr r1" "hq_url rq = hq_url r1"
      using r2_request_new [OF r(2)] .
    have "plain_host (credential ''account_id'' (rq_credentials q) @ ''.r2.cloudflarestorage.com'')"
      by (rule plain_host_append [OF r2 [OF r(1)] plain_r2])
    then have "h = credential ''account_id'' (rq_credentials q) @ ''.r2.cloudflarestorage.com''"
      using r2_new_request_url [OF n(1)] fixed unfolding n(2) [symmetric] by blast
    then show ?thesis by (simp add: declared_host_def r(1))
  next
    case l
    then show ?thesis using param_urls(5) [of L q rq] fixed [OF plain_hosts(6)] by (auto simp: declared_host_def)
  next
    case o
    then show ?thesis using openai_request_host [OF o(2) h] eff(2) by (auto simp: declared_host_def)
  qed
qed

definition adapter_result ::
  "http_lib \<Rightarrow> string \<Rightarrow> http_resp \<Rightarrow> bytes \<Rightarrow> bridge_error + params" where
  "adapter_result L name =
     (if name = ''webhook-post'' then webhook_result L
      else if name = ''cloudflare-r2'' then r2_result L
      else if name \<in> {''email-resend'', ''anthropic-claude'', ''openai-compatible''} then lax_object L
      else strict_object L)"

lemma hub_registry_other:
  assumes "name \<notin> {''courtlistener'', ''archive-org'', ''nasa-images'', ''webhook-post'', ''email-resend'',
    ''cloudflare-r2'', ''anthropic-claude'', ''openai-compatible'', ''conformance-test''}"
  shows "get_adapter name (hub_registry L) = None"
  using assms
  by (auto simp: hub_registry_def hub_adapters_def get_adapter_def courtlistener_def archiveorg_def
      nasaimages_def webhookpost_def emailresend_def cloudflarer2_def anthropicclaude_def
      openaicompatible_def noop_adapter_def noop_name_def)

text \<open>A call of an installed adapter is its request and what it makes of the answer.\<close>

lemma registry_call_is:
  "registry_call name q (hub_registry L) =
     (if name = ''conformance-test'' then noop_call q
      else case adapter_request L name q of
             Inl er \<Rightarrow> Inl er
           | Inr rq \<Rightarrow> answered L rq (adapter_result L name))"
proof (cases "get_adapter name (hub_registry L)")
  case None
  then have "name \<notin> {''courtlistener'', ''archive-org'', ''nasa-images'', ''webhook-post'', ''email-resend'',
    ''cloudflare-r2'', ''anthropic-claude'', ''openai-compatible'', ''conformance-test''}"
    using hub_registry_get [of L] by (metis empty_iff insert_iff option.distinct(1))
  then show ?thesis using None by (simp add: registry_call_def adapter_request_def)
next
  case (Some a)
  then have "name \<in> {''courtlistener'', ''archive-org'', ''nasa-images'', ''webhook-post'', ''email-resend'',
    ''cloudflare-r2'', ''anthropic-claude'', ''openai-compatible'', ''conformance-test''}"
    using hub_registry_other [of name L] by auto
  then show ?thesis
    by (elim insertE emptyE)
      (simp_all add: registry_call_def hub_registry_get adapter_request_def adapter_result_def run_adapter_def
        courtlistener_def archiveorg_def nasaimages_def webhookpost_def emailresend_def cloudflarer2_def
        anthropicclaude_def openaicompatible_def noop_adapter_def split: sum.splits)
qed

text \<open>The network is used for the request of the adapter and for nothing else.\<close>

lemma net_frame:
  "hb_sha (L\<lparr>hb_net := N\<rparr>) = hb_sha L" "hb_now (L\<lparr>hb_net := N\<rparr>) = hb_now L"
  "hb_marshal (L\<lparr>hb_net := N\<rparr>) = hb_marshal L"
  by simp_all

lemma r2_request_net: "r2_request (L\<lparr>hb_net := N\<rparr>) q = r2_request L q"
proof -
  have eq: "r2_new_request (L\<lparr>hb_net := N\<rparr>) = r2_new_request L"
    unfolding r2_new_request_def net_frame ..
  show ?thesis unfolding r2_request_def r2_put_object_def r2_on_object_def r2_list_objects_def eq ..
qed

lemma adapter_request_net: "adapter_request (L\<lparr>hb_net := N\<rparr>) name q = adapter_request L name q"
proof -
  have "webhook_request (L\<lparr>hb_net := N\<rparr>) q = webhook_request L q"
    "resend_request (L\<lparr>hb_net := N\<rparr>) q = resend_request L q"
    "claude_request (L\<lparr>hb_net := N\<rparr>) q = claude_request L q"
    "openai_request (L\<lparr>hb_net := N\<rparr>) q = openai_request L q"
    unfolding webhook_request_def resend_request_def claude_request_def openai_request_def net_frame
    by (rule refl)+
  then show ?thesis unfolding adapter_request_def r2_request_net by simp
qed

lemma adapter_result_net: "adapter_result (L\<lparr>hb_net := N\<rparr>) name = adapter_result L name"
  by (rule ext)+ (simp add: adapter_result_def webhook_result_def r2_result_def lax_object_def strict_object_def)

lemma registry_call_net:
  assumes "\<And>rq. adapter_request L name q = Inr rq \<Longrightarrow> N rq = hb_net L rq"
  shows "registry_call name q (hub_registry (L\<lparr>hb_net := N\<rparr>)) = registry_call name q (hub_registry L)"
  using assms
  by (simp add: registry_call_is adapter_request_net adapter_result_net answered_def split: sum.splits)

lemma effective_domain_net:
  "effective_domain (Some (hub_registry (L\<lparr>hb_net := N\<rparr>))) r = effective_domain (Some (hub_registry L)) r"
proof -
  have "map_option ad_effective_host (get_adapter n (hub_registry (L\<lparr>hb_net := N\<rparr>)))
      = map_option ad_effective_host (get_adapter n (hub_registry L))" for n
    by (simp add: hub_registry_def hub_adapters_def get_adapter_def courtlistener_def archiveorg_def
      nasaimages_def webhookpost_def emailresend_def cloudflarer2_def anthropicclaude_def
      openaicompatible_def noop_adapter_def noop_name_def)
  from this [of "bq_adapter r"] show ?thesis
    by (cases "get_adapter (bq_adapter r) (hub_registry L)";
        cases "get_adapter (bq_adapter r) (hub_registry (L\<lparr>hb_net := N\<rparr>))")
      (simp_all add: effective_domain_def)
qed

definition bridge_request :: "rctx \<Rightarrow> bridge_call_req \<Rightarrow> call_request" where
  "bridge_request rc r =
     \<lparr>rq_op = bq_operation r, rq_params = coalesce [] (bq_params r), rq_credentials = bq_credentials r,
      rq_idempotency_key = rc_idempotency_key rc\<rparr>"

lemma effective_domain_known:
  assumes "effective_domain (Some (hub_registry L)) r = Inr d"
  shows "bq_adapter r = ''webhook-post'' \<Longrightarrow> webhook_effective_host (coalesce [] (bq_params r)) \<noteq> None"
    and "bq_adapter r = ''openai-compatible'' \<Longrightarrow> openai_effective_host (coalesce [] (bq_params r)) \<noteq> None"
  using assms
  by (auto simp: effective_domain_def hub_registry_get webhookpost_def openaicompatible_def
      split: option.splits)

end
