(* ===== verification/Bridge_Guarantees.thy ===== *)
theory Bridge_Guarantees
  imports Adapter_Guarantees Service_Guarantees
begin

text \<open>
  The guarantees of bridge calls over the installed adapters: where their requests go, where that
  differs from what the Hub judged, and what the R2 adapter signs.
\<close>

section \<open>Sample services\<close>

definition sample_http :: http_lib where
  "sample_http =
     \<lparr>hb_net = (\<lambda>rq. Some \<lparr>hp_status = 200, hp_headers = [], hp_body = ''{}'', hp_broken = False\<rparr>),
      hb_marshal = (\<lambda>j. ''{}''), hb_unobject = (\<lambda>b. if b = ''{}'' then Some [] else None),
      hb_unjson = (\<lambda>b. None), hb_xml = (\<lambda>b. ([], True)), hb_sha = sample_sha,
      hb_now = en_now sample_env\<rparr>"

definition intercepted :: net where
  "intercepted rq = (if request_host rq = Some ''other.test'' then None else hb_net sample_http rq)"

definition webhook_call :: bridge_call_req where
  "webhook_call = \<lparr>bq_adapter = ''webhook-post'', bq_operation = ''post'', bq_domain = [],
     bq_amount = 5, bq_currency = ''EUR'',
     bq_params = Some [(''url'', JStr ''https://api.test/in'')], bq_credentials = []\<rparr>"

section \<open>Where requests go\<close>



text \<open>
  C40: The account id of cloudflare-r2 is written into the URL as it is, and the adapter has no
  effective host: with an account id that goes on after a slash the signed request is sent to the
  host before the slash, while the Hub judges whatever domain the caller names.
\<close>

theorem r2_account_id_names_the_host:
  assumes "bq_adapter r = ''cloudflare-r2''" and "credential ''account_id'' (bq_credentials r) = evil @ ''/'' @ x"
    and "plain_host evil" and "adapter_request L (bq_adapter r) (bridge_request rc r) = Inr rq"
  shows "request_host rq = Some evil \<and> effective_domain (new_bridge_registry L) r = Inr (bq_domain r)"
proof
  have r2: "r2_request L (bridge_request rc r) = Inr rq" using assms(1,4) by (simp add: adapter_request_def)
  obtain verb bucket key raw body r1 where
    n: "r2_new_request L verb bucket key raw body (bq_credentials r) = Inr r1" "hq_url rq = hq_url r1"
    by (rule r2_request_new [OF r2, unfolded bridge_request_def call_request.select_convs])
  obtain rest where rest: "hq_url rq = ''https://'' @ evil @ ''/'' @ rest"
    using r2_new_request_url [OF n(1)] unfolding n(2) assms(2) by auto
  obtain u where u: "parse_web (hq_url rq) = Some u"
    using n by (auto simp: r2_new_request_def split: sum.splits option.splits)
  have "hostname u = evil" using parse_web_host(2) [OF assms(3) _ u [unfolded rest]] by simp
  then show "request_host rq = Some evil" using u by (simp add: request_host_def)
  have "new_bridge_registry L = Some (hub_registry L)" by (simp add: new_bridge_registry_is hub_registry_def)
  then show "effective_domain (new_bridge_registry L) r = Inr (bq_domain r)"
    using hub_registry_get(6) [of L] by (simp add: effective_domain_def assms(1) cloudflarer2_def)
qed

definition r2_call :: bridge_call_req where
  "r2_call = \<lparr>bq_adapter = ''cloudflare-r2'', bq_operation = ''get-object'', bq_domain = ''api.test'',
     bq_amount = 0, bq_currency = [],
     bq_params = Some [(''bucket'', JStr ''b''), (''key'', JStr ''k'')],
     bq_credentials = [(''account_id'', ''evil.test/x''), (''access_key_id'', ''a''),
       (''secret_access_key'', ''s'')]\<rparr>"

theorem r2_account_id_names_the_host_witness:
  "\<exists>rq. adapter_request sample_http (bq_adapter r2_call) (bridge_request (caveated_context sample_bounds) r2_call)
      = Inr rq \<and> request_host rq = Some ''evil.test''"
proof -
  obtain u where u: "parse_web (r2_url ''https://evil.test/x.r2.cloudflarestorage.com'' ''b'' ''k'' []) = Some u"
    by (cases "parse_web (r2_url ''https://evil.test/x.r2.cloudflarestorage.com'' ''b'' ''k'' [])") (code_simp, blast)
  have b: "param_or as_string [(''bucket'', JStr ''b''), (''key'', JStr ''k'')] ''bucket'' [] = ''b''"
    "param_or as_string [(''bucket'', JStr ''b''), (''key'', JStr ''k'')] ''key'' [] = ''k''"
    by (simp_all add: param_or_def resolve_param_def as_string_def)
  obtain rq where rq: "adapter_request sample_http (bq_adapter r2_call)
      (bridge_request (caveated_context sample_bounds) r2_call) = Inr rq"
    using u by (simp add: adapter_request_def r2_call_def bridge_request_def r2_request_def r2_on_object_def b
        r2_new_request_def resolve_credential_def r2_endpoint_def)
  have h: "plain_host ''evil.test''" by code_simp
  have a: "bq_adapter r2_call = ''cloudflare-r2''"
    "credential ''account_id'' (bq_credentials r2_call) = ''evil.test'' @ ''/'' @ ''x''"
    by (simp_all add: r2_call_def credential_def)
  from r2_account_id_names_the_host [OF a h rq] have "request_host rq = Some ''evil.test''" by (rule conjunct1)
  with rq show ?thesis by blast
qed

text \<open>
  A webhook URL that names a port and no host passes EffectiveHost, which then gives the empty
  host: the Hub judges the domain that the caller names, and the request goes to that port with an
  empty host, which a Go client takes for the local machine.
\<close>

theorem hostless_webhook_is_judged_by_the_caller:
  assumes "bq_adapter r = ''webhook-post''"
    and "map_of (coalesce [] (bq_params r)) ''url'' = Some (JStr (''http://:'' @ port @ ''/'' @ path))"
    and "list_all is_digit port"
    and "adapter_request L (bq_adapter r) (bridge_request rc r) = Inr rq"
  shows "effective_domain (new_bridge_registry L) r = Inr (bq_domain r)
    \<and> (\<exists>u. parse_web (hq_url rq) = Some u \<and> wu_host u = CHR '':'' # port)"
proof -
  define t where "t = ''http://:'' @ port @ ''/'' @ path"
  have p: "resolve_param as_string (coalesce [] (bq_params r)) ''url'' True [] = Inr t"
    using assms(2) by (simp add: resolve_param_def lookup_by_map_of as_string_def t_def)
  then obtain u where u: "parse_web t = Some u" and url: "hq_url rq = t"
    using assms(1,4)
    by (auto simp: adapter_request_def webhook_request_def bridge_request_def Let_def post_request_def split: if_splits)
  have d: "list_all (\<lambda>c. is_digit c \<longrightarrow> host_char c \<and> c \<noteq> CHR ''%'' \<and> c \<noteq> CHR '':'' \<and> c \<noteq> CHR ''@'' \<and> c \<noteq> CHR ''/''
      \<and> c \<noteq> CHR ''?'' \<and> c \<noteq> CHR ''#'') port"
    by (auto simp: list_all_iff is_digit_def host_char_def unreserved_def is_alpha_num_def Let_def char_code_def)
  then have c: "host_char x" "x \<noteq> CHR ''%''" "x \<noteq> CHR '':''" "x \<noteq> CHR ''@''" "x \<noteq> CHR ''/''" "x \<noteq> CHR ''?''" "x \<noteq> CHR ''#''"
    if "x \<in> set port" for x
    using assms(3) that by (auto simp: list_all_iff)
  have n: "CHR '':'' \<notin> set port" "CHR ''@'' \<notin> set port" "CHR ''/'' \<notin> set port" "CHR ''?'' \<notin> set port" "CHR ''#'' \<notin> set port"
    using c by blast+
  have "host_char CHR '':''" by code_simp
  moreover have "unescape_host port = Some port" using c(1,2) by (induction port) auto
  ultimately have e: "unescape_host (CHR '':'' # port) = Some (CHR '':'' # port)" by simp
  have w: "takeWhile (\<lambda>x. x \<noteq> CHR '':'') (rev port) = rev port" "dropWhile (\<lambda>x. x \<noteq> CHR '':'') (rev port) = []"
    using n(1) by (auto simp: takeWhile_eq_all_conv dropWhile_eq_Nil_conv)
  have parts: "after_last CHR '':'' (CHR '':'' # port) = port" "before_last CHR '':'' (CHR '':'' # port) = []"
    unfolding after_last_def before_last_def by (simp_all add: w takeWhile_tail dropWhile_append)
  have "get_scheme (''http:'' @ y) = Some (''http'', y)" for y
  proof -
    have "is_letter CHR ''h''" "is_letter CHR ''t''" "is_letter CHR ''p''" "\<not> is_letter CHR '':''"
      "\<not> is_digit CHR '':''" "to_lower ''http'' = ''http''"
      by code_simp+
    then show ?thesis by (simp add: get_scheme_def)
  qed
  then have "authority_at ''http:'' (CHR '':'' # port) (CHR ''/'' # path)"
    unfolding authority_at_def using n by simp
  from parse_web_at [OF this, of u] have "parse_authority (CHR '':'' # port) = Some (wu_host u)"
    using u by (simp add: t_def)
  then have host: "wu_host u = CHR '':'' # port"
    using e parts n(2) assms(3) by (simp add: parse_authority_def parse_host_def has_prefix_def)
  then have "hostname u = []" using parts assms(3) by (simp add: hostname_def has_prefix_def)
  then have "webhook_effective_host (coalesce [] (bq_params r)) = Some []"
    using p u host by (simp add: webhook_effective_host_def url_host_def)
  moreover have "new_bridge_registry L = Some (hub_registry L)" by (simp add: new_bridge_registry_is hub_registry_def)
  ultimately have "effective_domain (new_bridge_registry L) r = Inr (bq_domain r)"
    using hub_registry_get(4) [of L] by (simp add: effective_domain_def assms(1) webhookpost_def)
  with u url host show ?thesis by auto
qed

definition local_call :: bridge_call_req where
  "local_call = webhook_call\<lparr>bq_domain := ''api.test'',
     bq_params := Some [(''url'', JStr ''http://:8080/admin'')]\<rparr>"

theorem hostless_webhook_is_judged_by_the_caller_witness:
  "effective_domain (new_bridge_registry sample_http) local_call = Inr ''api.test''"
proof -
  have "parse_web ''http://:8080/admin'' \<noteq> None" by code_simp
  then obtain rq where rq: "adapter_request sample_http (bq_adapter local_call)
      (bridge_request (caveated_context sample_bounds) local_call) = Inr rq"
    by (simp add: adapter_request_def local_call_def webhook_call_def bridge_request_def webhook_request_def
        resolve_param_def as_string_def Let_def)
  have "list_all is_digit ''8080''" by code_simp
  then show ?thesis
    using hostless_webhook_is_judged_by_the_caller [of local_call "''8080''" "''admin''" sample_http
        "caveated_context sample_bounds" rq] rq
    by (simp add: local_call_def webhook_call_def)
qed

lemma parse_web_fragment:
  assumes "CHR ''#'' \<notin> set s" and "parse_web (s @ ''#'' @ x) = Some u"
  shows "parse_web s = Some u"
proof -
  have "cut ''#'' (s @ ''#'' @ x) = (s, x)" "cut ''#'' s = (s, [])"
    using cut_append [OF assms(1), of "''#'' @ x"] cut_append [OF assms(1), of "[]"]
    by (simp_all add: cut_def has_prefix_def)
  then show ?thesis using assms(2) unfolding parse_web_def by (simp split: if_splits)
qed

text \<open>
  Object keys are not escaped. From the character # on the key of a deletion is a fragment,
  which is not sent: the request is the one that deletes the object named by the text before it,
  with the same signature.
\<close>

theorem object_keys_are_cut:
  assumes "CHR ''#'' \<notin> set (credential ''account_id'' creds @ b @ k)" and "k \<noteq> []"
    and "r2_request L \<lparr>rq_op = ''delete-object'',
      rq_params = [(''bucket'', JStr b), (''key'', JStr (k @ ''#'' @ x))], rq_credentials = creds,
      rq_idempotency_key = ik\<rparr> = Inr rq"
  shows "\<exists>rq'. r2_request L \<lparr>rq_op = ''delete-object'',
      rq_params = [(''bucket'', JStr b), (''key'', JStr k)], rq_credentials = creds,
      rq_idempotency_key = ik\<rparr> = Inr rq'
    \<and> parse_web (hq_url rq') = parse_web (hq_url rq) \<and> hq_headers rq' = hq_headers rq"
proof -
  have p: "param_or as_string [(''bucket'', JStr b), (''key'', JStr k')] ''bucket'' [] = b"
    "param_or as_string [(''bucket'', JStr b), (''key'', JStr k')] ''key'' [] = k'" for k'
    by (simp_all add: param_or_def resolve_param_def as_string_def)
  have new: "r2_request L \<lparr>rq_op = ''delete-object'', rq_params = [(''bucket'', JStr b), (''key'', JStr k')],
      rq_credentials = creds, rq_idempotency_key = ik\<rparr>
    = (if b = [] \<or> k' = [] then Inl ErrMissingParam else r2_new_request L ''DELETE'' b k' [] [] creds)" for k'
    by (simp add: r2_request_def r2_on_object_def p)
  have b: "b \<noteq> []" and r: "r2_new_request L ''DELETE'' b (k @ ''#'' @ x) [] [] creds = Inr rq"
    using assms(3) by (simp_all add: new split: if_splits)
  obtain ak where c1: "resolve_credential creds ''access_key_id'' = Inr ak"
    using r by (cases "resolve_credential creds ''access_key_id''") (simp_all add: r2_new_request_def)
  obtain sk where c2: "resolve_credential creds ''secret_access_key'' = Inr sk"
    using r c1 by (cases "resolve_credential creds ''secret_access_key''") (simp_all add: r2_new_request_def)
  obtain ep where c3: "r2_endpoint creds = Inr ep"
    using r c1 c2 by (cases "r2_endpoint creds") (simp_all add: r2_new_request_def)
  note c = c1 c2 c3
  obtain u where u: "parse_web (r2_url ep b (k @ ''#'' @ x) []) = Some u"
    using r unfolding r2_new_request_def c sum.case
    by (cases "parse_web (r2_url ep b (k @ ''#'' @ x) [])") simp_all
  have rq: "rq = r2_sign_v4 (hb_sha L) ak sk (sha256_hex (hb_sha L) []) (amz_date (hb_now L)) u
       \<lparr>hq_method = ''DELETE'', hq_url = r2_url ep b (k @ ''#'' @ x) [], hq_headers = [], hq_body = []\<rparr>"
    using r unfolding r2_new_request_def c sum.case u option.case by (rule Inr_inject [symmetric])
  have "ep = ''https://'' @ credential ''account_id'' creds @ ''.r2.cloudflarestorage.com''"
    using c(3) by (auto simp: r2_endpoint_def resolve_credential_def credential_def lookup_by_map_of
        split: sum.splits option.splits if_splits)
  then have n: "CHR ''#'' \<notin> set (r2_url ep b k [])" using assms(1,2) by (auto simp: r2_url_def)
  have url: "r2_url ep b (k @ ''#'' @ x) [] = r2_url ep b k [] @ ''#'' @ x" using assms(2) by (simp add: r2_url_def)
  have eq: "parse_web (r2_url ep b k []) = Some u" by (rule parse_web_fragment [OF n u [unfolded url]])
  let ?rq' = "r2_sign_v4 (hb_sha L) ak sk (sha256_hex (hb_sha L) []) (amz_date (hb_now L)) u
       \<lparr>hq_method = ''DELETE'', hq_url = r2_url ep b k [], hq_headers = [], hq_body = []\<rparr>"
  have "r2_new_request L ''DELETE'' b k [] [] creds = Inr ?rq'"
    unfolding r2_new_request_def c sum.case eq option.case ..
  moreover have "hq_headers ?rq' = hq_headers rq" by (simp add: rq r2_sign_v4_def Let_def)
  moreover have "parse_web (hq_url ?rq') = parse_web (hq_url rq)" by (simp add: rq eq u [simplified])
  ultimately show ?thesis using assms(2) b unfolding new by auto
qed

theorem object_keys_are_cut_witness:
  "\<exists>rq. r2_request sample_http \<lparr>rq_op = ''delete-object'',
      rq_params = [(''bucket'', JStr ''b''), (''key'', JStr ''notes'')],
      rq_credentials = [(''account_id'', ''acct''), (''access_key_id'', ''a''), (''secret_access_key'', ''s'')],
      rq_idempotency_key = []\<rparr> = Inr rq"
proof -
  define creds where "creds = [(''account_id'', ''acct''), (''access_key_id'', ''a''), (''secret_access_key'', ''s'')]"
  have "parse_web (r2_url (''https://acct.r2.cloudflarestorage.com'') ''b'' ''notes#1'' []) \<noteq> None" by code_simp
  then obtain rq where "r2_request sample_http \<lparr>rq_op = ''delete-object'',
      rq_params = [(''bucket'', JStr ''b''), (''key'', JStr (''notes'' @ ''#'' @ ''1''))],
      rq_credentials = creds, rq_idempotency_key = []\<rparr> = Inr rq"
    by (auto simp: r2_request_def r2_on_object_def param_or_def resolve_param_def as_string_def
        r2_new_request_def resolve_credential_def r2_endpoint_def creds_def)
  from object_keys_are_cut [OF _ _ this] show ?thesis by (auto simp: creds_def credential_def)
qed

section \<open>The catalogue\<close>

lemma answered_known: "answered L rq (adapter_result L name) \<noteq> Inl ErrUnknownOperation"
  by (auto simp: answered_def adapter_result_def webhook_result_def r2_result_def lax_object_def strict_object_def
      split: option.splits prod.splits if_splits)

lemma resolve_known:
  "resolve_param f ps k b d \<noteq> Inl ErrUnknownOperation" "resolve_credential cs k \<noteq> Inl ErrUnknownOperation"
  by (auto simp: resolve_param_def resolve_credential_def split: option.splits)

lemma r2_new_known: "r2_new_request L verb bucket key raw body creds \<noteq> Inl ErrUnknownOperation"
  using resolve_known(2)
  by (auto simp: r2_new_request_def r2_endpoint_def split: option.splits sum.splits)

lemma unknown_operation:
  "courtlistener_request q = Inl ErrUnknownOperation \<longleftrightarrow> rq_op q \<notin> {''search'', ''get-opinion'', ''get-docket''}"
  "archiveorg_request q = Inl ErrUnknownOperation \<longleftrightarrow> rq_op q \<notin> {''wayback-get'', ''search'', ''get-item''}"
  "nasa_request q = Inl ErrUnknownOperation \<longleftrightarrow> rq_op q \<notin> {''mars-photos'', ''search-images''}"
  "webhook_request L q = Inl ErrUnknownOperation \<longleftrightarrow> rq_op q \<notin> {''post''}"
  "resend_request L q = Inl ErrUnknownOperation \<longleftrightarrow> rq_op q \<notin> {''send''}"
  "claude_request L q = Inl ErrUnknownOperation \<longleftrightarrow> rq_op q \<notin> {''messages''}"
  "openai_request L q = Inl ErrUnknownOperation \<longleftrightarrow> rq_op q \<notin> {''chat-completions'', ''completions'', ''embeddings''}"
  "r2_request L q = Inl ErrUnknownOperation \<longleftrightarrow>
     rq_op q \<notin> {''put-object'', ''get-object'', ''list-objects'', ''delete-object''}"
proof -
  note k = resolve_known(1) [THEN notE] resolve_known(2) [THEN notE]
  show "courtlistener_request q = Inl ErrUnknownOperation \<longleftrightarrow> rq_op q \<notin> {''search'', ''get-opinion'', ''get-docket''}"
    by (auto simp: courtlistener_request_def courtlistener_search_def courtlistener_get_def Let_def
        split: sum.splits elim: k)
  show "archiveorg_request q = Inl ErrUnknownOperation \<longleftrightarrow> rq_op q \<notin> {''wayback-get'', ''search'', ''get-item''}"
    by (auto simp: archiveorg_request_def wayback_get_def archiveorg_search_def archiveorg_item_def Let_def
        split: sum.splits elim: k)
  show "nasa_request q = Inl ErrUnknownOperation \<longleftrightarrow> rq_op q \<notin> {''mars-photos'', ''search-images''}"
    by (auto simp: nasa_request_def mars_photos_def search_images_def Let_def split: sum.splits elim: k)
  show "webhook_request L q = Inl ErrUnknownOperation \<longleftrightarrow> rq_op q \<notin> {''post''}"
    by (auto simp: webhook_request_def Let_def split: sum.splits elim: k)
  show "resend_request L q = Inl ErrUnknownOperation \<longleftrightarrow> rq_op q \<notin> {''send''}"
    by (auto simp: resend_request_def Let_def split: sum.splits elim: k)
  show "claude_request L q = Inl ErrUnknownOperation \<longleftrightarrow> rq_op q \<notin> {''messages''}"
    by (auto simp: claude_request_def Let_def split: sum.splits elim: k)
  show "openai_request L q = Inl ErrUnknownOperation \<longleftrightarrow> rq_op q \<notin> {''chat-completions'', ''completions'', ''embeddings''}"
    by (auto simp: openai_request_def openai_endpoint_def Let_def split: sum.splits elim: k)
  show "r2_request L q = Inl ErrUnknownOperation \<longleftrightarrow>
     rq_op q \<notin> {''put-object'', ''get-object'', ''list-objects'', ''delete-object''}"
    by (auto simp: r2_request_def r2_put_object_def r2_on_object_def r2_list_objects_def Let_def
        split: sum.splits option.splits elim: r2_new_known [THEN notE])
qed

lemma call_unknown:
  assumes "name \<noteq> ''conformance-test''"
  shows "registry_call name q (hub_registry L) = Inl ErrUnknownOperation
    \<longleftrightarrow> adapter_request L name q = Inl ErrUnknownOperation"
  using assms answered_known by (auto simp: registry_call_is split: sum.splits)

text \<open>
  C19: The Hub's registry can be built (no two adapters share a name), and its catalogue types the
  calls: an adapter answers that an operation is unknown exactly if it is none of the operations
  that the adapter's catalogue entry names.
\<close>

theorem catalogue_names_the_operations:
  "\<exists>reg. new_bridge_registry L = Some reg
    \<and> list_all (\<lambda>(name, a). name = ad_name a
        \<and> (\<forall>q. registry_call name q reg = Inl ErrUnknownOperation
              \<longleftrightarrow> rq_op q \<notin> set (map os_name (ad_operations a)))) reg"
proof -
  have call: "registry_call name q (hub_registry L) = Inl ErrUnknownOperation
      \<longleftrightarrow> (if name = ''conformance-test'' then rq_op q \<notin> {''echo'', ''transfer'', ''fetch''}
           else adapter_request L name q = Inl ErrUnknownOperation)" for name q
    using call_unknown [of name q L] by (auto simp: registry_call_is noop_call_def)
  have "list_all (\<lambda>(name, a). name = ad_name a
        \<and> (\<forall>q. registry_call name q (hub_registry L) = Inl ErrUnknownOperation
              \<longleftrightarrow> rq_op q \<notin> set (map os_name (ad_operations a)))) (hub_registry L)"
    unfolding call
    by (simp add: hub_registry_def hub_adapters_def adapter_request_def unknown_operation
        courtlistener_def archiveorg_def nasaimages_def webhookpost_def emailresend_def cloudflarer2_def
        anthropicclaude_def openaicompatible_def noop_adapter_def noop_name_def noop_operations_def
        courtlistener_operations_def archiveorg_operations_def nasa_operations_def webhook_operations_def
        resend_operations_def claude_operations_def openai_operations_def r2_operations_def Let_def)
  then show ?thesis by (auto simp: new_bridge_registry_is hub_registry_def)
qed

section \<open>What the R2 adapter signs\<close>

lemma split_three:
  assumes "CHR ''&'' \<notin> set a" "CHR ''&'' \<notin> set b" "CHR ''&'' \<notin> set c"
  shows "split_char CHR ''&'' (join_with ''&'' [a, b, c]) = [a, b, c]"
  using assms by (intro split_join) auto

lemma escapes_differ_in_spaces: "query_escape s = uri_encode_segment s \<longleftrightarrow> CHR '' '' \<notin> set s"
proof (induction s)
  case (Cons c s)
  have q: "query_escape (c # s) = (if unreserved c then [c] else if c = CHR '' '' then ''+'' else percent_byte c)
      @ query_escape s"
    and e: "uri_encode_segment (c # s) = (if unreserved c then [c] else percent_byte c) @ uri_encode_segment s"
    by (simp_all add: query_escape_def uri_encode_segment_def escape_with_def)
  have n: "\<not> unreserved CHR '' ''" "percent_byte CHR '' '' = ''%20''" by code_simp+
  show ?case using Cons n unfolding q e by auto
qed (simp add: query_escape_def uri_encode_segment_def escape_with_def)

lemma itoa_no_space: "CHR '' '' \<notin> set (itoa n)"
proof -
  have "is_digit c \<Longrightarrow> c \<noteq> CHR '' ''" for c by (auto simp: is_digit_def char_code_def)
  then show ?thesis by (auto simp: itoa_def dest!: dec_digits_is_digit)
qed

text \<open>
  C39: What the R2 adapter signs as the query of a listing is the query in the canonical form of
  the signature scheme if and only if the prefix has no space: url.Values.Encode writes a space
  as a plus sign, the canonical form as %20. With a space in the prefix the signature is one that
  the service does not compute.
\<close>

theorem listing_is_signed_canonically:
  assumes "pre \<noteq> []"
  shows "r2_canonical_query (values_encode
      [(''list-type'', [''2'']), (''prefix'', [pre]), (''max-keys'', [itoa n])])
    = canonical_query [(''list-type'', [''2'']), (''prefix'', [pre]), (''max-keys'', [itoa n])]
    \<longleftrightarrow> CHR '' '' \<notin> set pre"
proof -
  let ?kvs = "[(''list-type'', ''2''), (''max-keys'', itoa n), (''prefix'', pre)]"
  have o: "''list-type'' \<le> ''max-keys''" "''list-type'' \<le> ''prefix''" "''max-keys'' \<le> ''prefix''"
    "\<not> ''prefix'' \<le> ''max-keys''" "''list-type'' < ''max-keys''" "''list-type'' < ''prefix''" "''max-keys'' < ''prefix''"
    by code_simp+
  have k: "query_escape ''list-type'' = ''list-type''" "query_escape ''max-keys'' = ''max-keys''"
    "query_escape ''prefix'' = ''prefix''" "uri_encode_segment ''list-type'' = ''list-type''"
    "uri_encode_segment ''max-keys'' = ''max-keys''" "uri_encode_segment ''prefix'' = ''prefix''"
    "query_escape ''2'' = ''2''" "uri_encode_segment ''2'' = ''2''"
    by code_simp+
  have i: "query_escape (itoa n) = uri_encode_segment (itoa n)"
    using escapes_differ_in_spaces itoa_no_space by blast
  have s1: "sort_key fst [(''list-type'', a), (''prefix'', b), (''max-keys'', c)]
      = [(''list-type'', a), (''max-keys'', c), (''prefix'', b)]" for a b c :: "string list"
    using o by simp
  have s2: "sort_key fst [(''list-type'', a), (''max-keys'', c), (''prefix'', b)]
      = [(''list-type'', a), (''max-keys'', c), (''prefix'', b)]" for a b c :: "string list"
    using o by simp
  have s3: "sort [(''list-type'', a), (''prefix'', b), (''max-keys'', c)]
      = [(''list-type'', a), (''max-keys'', c), (''prefix'', b)]" for a b c :: string
    using o by (simp add: less_eq_prod_def)
  have enc: "values_encode [(''list-type'', [''2'']), (''prefix'', [pre]), (''max-keys'', [itoa n])]
      = join_with ''&'' (map encode_pair ?kvs)"
    unfolding values_encode_def s1 by (simp add: encode_pair_def)
  have "parse_query (join_with ''&'' (map encode_pair ?kvs)) = parse_pairs (map encode_pair ?kvs) []"
    unfolding parse_query_def list.map
    by (subst split_three) (simp_all add: encode_pair_def query_escape_plain)
  also have "\<dots> = map (\<lambda>kv. (fst kv, [snd kv])) ?kvs" using parse_encoded_pairs [of ?kvs "[]"] by simp
  finally have parsed: "parse_query (join_with ''&'' (map encode_pair ?kvs))
      = [(''list-type'', [''2'']), (''max-keys'', [itoa n]), (''prefix'', [pre])]" by simp
  have ne: "join_with ''&'' (map encode_pair ?kvs) \<noteq> []" by (simp add: encode_pair_def)
  have "r2_canonical_query (join_with ''&'' (map encode_pair ?kvs))
      = ''list-type=2&max-keys='' @ uri_encode_segment (itoa n) @ ''&prefix='' @ query_escape pre"
    unfolding r2_canonical_query_def parsed s2 using ne by (simp add: k i)
  moreover have "canonical_query [(''list-type'', [''2'']), (''prefix'', [pre]), (''max-keys'', [itoa n])]
      = ''list-type=2&max-keys='' @ uri_encode_segment (itoa n) @ ''&prefix='' @ uri_encode_segment pre"
    unfolding canonical_query_def by (simp add: query_pairs_def k s3)
  ultimately show ?thesis unfolding enc by (simp add: escapes_differ_in_spaces)
qed

theorem listing_is_signed_canonically_witness:
  "r2_canonical_query (values_encode [(''list-type'', [''2'']), (''prefix'', [''my notes'']), (''max-keys'', [itoa 5])])
    \<noteq> canonical_query [(''list-type'', [''2'']), (''prefix'', [''my notes'']), (''max-keys'', [itoa 5])]"
  using listing_is_signed_canonically [of "''my notes''" 5] by simp

end
