(* ===== verification/Host_Files.thy ===== *)
theory Host_Files
  imports Go_Path "HOL-Library.AList" "HOL-Library.Sublist"
begin

text \<open>
  The files of a machine and the calls of package os on them: Stat, ReadFile, MkdirAll, OpenFile
  for writing, Write, Rename, Remove, WriteFile. A path is resolved against the working
  directory to the list of its elements, the way Clean does it; a file is kept under that list
  with its bytes and its permission bits, a directory is a list of elements. There are no
  symbolic links, and the umask leaves the modes the code asks for as they are.

  Any call may fail: \<open>of_fails\<close> names the calls that do, by the call and its path, and
  \<open>of_short\<close> how many bytes a failing write leaves in the file.
\<close>

type_synonym path = "string list"

record os_file =
  fl_data :: bytes
  fl_mode :: nat

record host =
  ho_cwd :: string
  ho_home :: string
  ho_files :: "(path \<times> os_file) list"
  ho_dirs :: "path list"

record os_faults =
  of_fails :: "string \<Rightarrow> string \<Rightarrow> bool"
  of_short :: "string \<Rightarrow> nat"

definition no_faults :: os_faults where
  "no_faults = \<lparr>of_fails = (\<lambda>_ _. False), of_short = (\<lambda>_. 0)\<rparr>"

datatype os_error = NotExist | OsFailed

type_synonym 'a host_op = "host \<Rightarrow> (os_error + 'a) \<times> host"

section \<open>Paths\<close>

definition elems :: "string \<Rightarrow> path" where
  "elems p = clean_elems True (split_char CHR ''/'' p)"

definition rooted :: "host \<Rightarrow> string \<Rightarrow> string" where
  "rooted h p = (if is_abs p then p else ho_cwd h @ ''/'' @ p)"

definition resolve :: "host \<Rightarrow> string \<Rightarrow> path" where
  "resolve h p = elems (rooted h p)"

text \<open>filepath.Abs.\<close>

definition path_abs :: "host \<Rightarrow> string \<Rightarrow> string" where
  "path_abs h p = (if is_abs p then path_clean p else path_join [ho_cwd h, p])"

definition path_of :: "path \<Rightarrow> string" where
  "path_of es = ''/'' @ join_with ''/'' es"

definition file_at :: "host \<Rightarrow> path \<Rightarrow> os_file option" where
  "file_at h es = map_of (ho_files h) es"

definition dir_at :: "host \<Rightarrow> path \<Rightarrow> bool" where
  "dir_at h es = (es = [] \<or> es \<in> set (ho_dirs h))"

definition put_file :: "path \<Rightarrow> os_file \<Rightarrow> host \<Rightarrow> host" where
  "put_file es f h = h\<lparr>ho_files := AList.update es f (ho_files h)\<rparr>"

definition drop_file :: "path \<Rightarrow> host \<Rightarrow> host" where
  "drop_file es h = h\<lparr>ho_files := AList.delete es (ho_files h)\<rparr>"

section \<open>Calls\<close>

definition os_stat :: "os_faults \<Rightarrow> string \<Rightarrow> host \<Rightarrow> os_error + (bool \<times> nat \<times> nat)" where
  "os_stat F p h =
     (if p = [] then Inl NotExist
      else if of_fails F ''Stat'' p then Inl OsFailed
      else if dir_at h (resolve h p) then Inr (True, 0, 0)
      else case file_at h (resolve h p) of
             None \<Rightarrow> Inl NotExist
           | Some f \<Rightarrow> Inr (False, fl_mode f, length (fl_data f)))"

definition os_read_file :: "os_faults \<Rightarrow> string \<Rightarrow> host \<Rightarrow> os_error + bytes" where
  "os_read_file F p h =
     (if p = [] then Inl NotExist
      else if of_fails F ''ReadFile'' p \<or> dir_at h (resolve h p) then Inl OsFailed
      else case file_at h (resolve h p) of None \<Rightarrow> Inl NotExist | Some f \<Rightarrow> Inr (fl_data f))"

definition os_mkdir_all :: "os_faults \<Rightarrow> string \<Rightarrow> unit host_op" where
  "os_mkdir_all F p h =
     (if of_fails F ''MkdirAll'' p then (Inl OsFailed, h)
      else if \<exists>es\<in>set (prefixes (resolve h p)). file_at h es \<noteq> None then (Inl OsFailed, h)
      else (Inr (), h\<lparr>ho_dirs := prefixes (resolve h p) @ ho_dirs h\<rparr>))"

text \<open>OpenFile with O_WRONLY, O_CREATE and O_TRUNC: the mode counts for a new file only.\<close>

definition os_create :: "os_faults \<Rightarrow> string \<Rightarrow> nat \<Rightarrow> unit host_op" where
  "os_create F p m h =
     (if p = [] then (Inl NotExist, h)
      else if of_fails F ''OpenFile'' p \<or> dir_at h (resolve h p) then (Inl OsFailed, h)
      else if \<not> dir_at h (butlast (resolve h p)) then (Inl NotExist, h)
      else case file_at h (resolve h p) of
             None \<Rightarrow> (Inr (), put_file (resolve h p) \<lparr>fl_data = [], fl_mode = m\<rparr> h)
           | Some f \<Rightarrow> (Inr (), put_file (resolve h p) (f\<lparr>fl_data := []\<rparr>) h))"

definition append_data :: "string \<Rightarrow> bytes \<Rightarrow> host \<Rightarrow> host" where
  "append_data p b h =
     (case file_at h (resolve h p) of
        None \<Rightarrow> h
      | Some f \<Rightarrow> put_file (resolve h p) (f\<lparr>fl_data := fl_data f @ b\<rparr>) h)"

text \<open>Write on the descriptor of an open file; \<open>k\<close> tells the calls on one file apart.\<close>

definition os_write :: "os_faults \<Rightarrow> string \<Rightarrow> string \<Rightarrow> bytes \<Rightarrow> unit host_op" where
  "os_write F k p b h =
     (if of_fails F k p then (Inl OsFailed, append_data p (take (of_short F p) b) h)
      else (Inr (), append_data p b h))"

definition os_close :: "os_faults \<Rightarrow> string \<Rightarrow> os_error + unit" where
  "os_close F p = (if of_fails F ''Close'' p then Inl OsFailed else Inr ())"

definition os_remove :: "os_faults \<Rightarrow> string \<Rightarrow> unit host_op" where
  "os_remove F p h =
     (if of_fails F ''Remove'' p then (Inl OsFailed, h)
      else if file_at h (resolve h p) = None then (Inl NotExist, h)
      else (Inr (), drop_file (resolve h p) h))"

definition os_rename :: "os_faults \<Rightarrow> string \<Rightarrow> string \<Rightarrow> unit host_op" where
  "os_rename F a b h =
     (if of_fails F ''Rename'' a \<or> dir_at h (resolve h b) then (Inl OsFailed, h)
      else if \<not> dir_at h (butlast (resolve h b)) then (Inl NotExist, h)
      else case file_at h (resolve h a) of
             None \<Rightarrow> (Inl NotExist, h)
           | Some f \<Rightarrow> (Inr (), put_file (resolve h b) f (drop_file (resolve h a) h)))"

text \<open>WriteFile opens, writes and closes; a failed close is its error too.\<close>

definition os_write_file :: "os_faults \<Rightarrow> string \<Rightarrow> bytes \<Rightarrow> nat \<Rightarrow> unit host_op" where
  "os_write_file F p b m h =
     (case os_create F p m h of
        (Inl e, h1) \<Rightarrow> (Inl e, h1)
      | (Inr _, h1) \<Rightarrow>
          (case os_write F ''Write'' p b h1 of
             (Inl e, h2) \<Rightarrow> (Inl e, h2)
           | (Inr _, h2) \<Rightarrow> (os_close F p, h2)))"

section \<open>Lemmas on paths\<close>

lemma clean_elems_shape:
  assumes "\<forall>w\<in>set ws. CHR ''/'' \<notin> set w" and "\<forall>w\<in>set acc. plain_elem w"
  shows "\<forall>w\<in>set (foldl (clean_step True) acc ws). plain_elem w"
  using assms
proof (induction ws arbitrary: acc)
  case (Cons w ws)
  have "\<forall>v\<in>set (clean_step True acc w). plain_elem v"
    using Cons.prems by (auto simp: clean_step_def plain_elem_def dest: in_set_butlastD)
  then show ?case using Cons by simp
qed simp

lemma elems_plain: "w \<in> set (elems p) \<Longrightarrow> plain_elem w"
  using clean_elems_shape [of "split_char CHR ''/'' p" "[]"] split_on_parts
  by (fastforce simp: elems_def clean_elems_def split_char_def)

lemma clean_elems_append:
  "clean_elems r (us @ vs) = foldl (clean_step r) (clean_elems r us) vs"
  by (simp add: clean_elems_def)

lemma elems_append: "elems (a @ ''/'' @ b) = foldl (clean_step True) (elems a) (split_char CHR ''/'' b)"
  using split_char_append [of "CHR ''/''" a b] by (simp add: elems_def clean_elems_append)

lemma split_join_plain:
  assumes "ws \<noteq> []" and "\<forall>w\<in>set ws. plain_elem w"
  shows "split_char CHR ''/'' (join_with ''/'' ws) = ws"
  using split_join [of ws "CHR ''/''"] assms by (auto simp: plain_elem_def)

lemma elems_append_plain:
  assumes "ws \<noteq> []" and "\<forall>w\<in>set ws. plain_elem w"
  shows "elems (a @ ''/'' @ join_with ''/'' ws) = elems a @ ws"
  unfolding elems_append split_join_plain [OF assms] using clean_elems_plain [OF assms(2)] by simp

lemma elems_Nil [simp]: "elems [] = []"
  by (simp add: elems_def clean_elems_def split_char_def clean_step_def)

lemma elems_path_of: "\<forall>w\<in>set es. plain_elem w \<Longrightarrow> elems (path_of es) = es"
proof (cases "es = []")
  case True
  then show ?thesis by (simp add: path_of_def elems_def clean_elems_def split_char_def clean_step_def)
next
  case False
  assume "\<forall>w\<in>set es. plain_elem w"
  with False show ?thesis using elems_append_plain [of es "[]"] by (simp add: path_of_def)
qed

lemma elems_slash: "elems (CHR ''/'' # p) = elems p"
  by (simp add: elems_def clean_elems_def split_char_def clean_step_def)

lemma is_abs_Cons [simp]: "is_abs (CHR ''/'' # p)"
  by (simp add: is_abs_def has_prefix_def)

lemma resolve_abs: "is_abs p \<Longrightarrow> resolve h p = elems p"
  by (simp add: resolve_def rooted_def)

lemma path_of_abs [simp]: "is_abs (path_of es)"
  by (simp add: path_of_def)

lemma resolve_path_of [simp]: "\<forall>w\<in>set es. plain_elem w \<Longrightarrow> resolve h (path_of es) = es"
  by (simp add: resolve_abs elems_path_of)

lemma path_of_snoc: "es \<noteq> [] \<Longrightarrow> path_of (es @ ws) = path_of es @ (if ws = [] then [] else ''/'' @ join_with ''/'' ws)"
  using join_with_append_ne [of es ws "''/''"] by (auto simp: path_of_def)

lemma resolve_under:
  assumes "ws \<noteq> []" and "\<forall>w\<in>set ws. plain_elem w" and "is_abs a"
  shows "resolve h (a @ ''/'' @ join_with ''/'' ws) = resolve h a @ ws"
proof -
  have "is_abs (a @ ''/'' @ join_with ''/'' ws)"
    using assms(3) by (auto simp: is_abs_def has_prefix_iff)
  then show ?thesis using assms(3) elems_append_plain [OF assms(1,2), of a] by (simp add: resolve_abs)
qed

section \<open>Lemmas on the files\<close>

lemma file_at_put [simp]: "file_at (put_file es f h) ds = (if ds = es then Some f else file_at h ds)"
  by (simp add: file_at_def put_file_def update_conv')

lemma file_at_drop [simp]: "file_at (drop_file es h) ds = (if ds = es then None else file_at h ds)"
  by (auto simp: file_at_def drop_file_def delete_conv' restrict_map_def)

lemma resolve_cong: "ho_cwd h' = ho_cwd h \<Longrightarrow> resolve h' p = resolve h p"
  by (simp add: resolve_def rooted_def)

lemma put_file_frame [simp]:
  "ho_cwd (put_file es f h) = ho_cwd h" "ho_home (put_file es f h) = ho_home h"
  "ho_dirs (put_file es f h) = ho_dirs h" "ho_cwd (drop_file es h) = ho_cwd h"
  "ho_home (drop_file es h) = ho_home h" "ho_dirs (drop_file es h) = ho_dirs h"
  "dir_at (put_file es f h) = dir_at h" "dir_at (drop_file es h) = dir_at h"
  "resolve (put_file es f h) = resolve h" "resolve (drop_file es h) = resolve h"
  by (auto simp: put_file_def drop_file_def dir_at_def resolve_def rooted_def fun_eq_iff)

lemma append_data_frame [simp]:
  "ho_cwd (append_data p b h) = ho_cwd h" "ho_home (append_data p b h) = ho_home h"
  "ho_dirs (append_data p b h) = ho_dirs h" "dir_at (append_data p b h) = dir_at h"
  "resolve (append_data p b h) = resolve h"
  by (simp_all add: append_data_def split: option.splits)

lemma file_at_append [simp]:
  "file_at (append_data p b h) ds =
     (if ds = resolve h p then map_option (\<lambda>f. f\<lparr>fl_data := fl_data f @ b\<rparr>) (file_at h ds)
      else file_at h ds)"
  by (auto simp: append_data_def split: option.splits)

lemma dirs_update [simp]:
  "file_at (h\<lparr>ho_dirs := ds\<rparr>) = file_at h" "resolve (h\<lparr>ho_dirs := ds\<rparr>) = resolve h"
  by (simp_all add: file_at_def resolve_def rooted_def fun_eq_iff)

text \<open>What a call leaves as it was: the working directory always, and every file but its own.\<close>

lemma os_mkdir_all_frame:
  assumes "os_mkdir_all F p h = (r, h')"
  shows "file_at h' = file_at h" "resolve h' = resolve h" "dir_at h es \<Longrightarrow> dir_at h' es"
    "dir_at h' es \<Longrightarrow> dir_at h es \<or> prefix es (resolve h p)"
    "r = Inr () \<Longrightarrow> prefix es (resolve h p) \<Longrightarrow> dir_at h' es"
    "ho_home h' = ho_home h" "ho_cwd h' = ho_cwd h"
  using assms by (auto simp: os_mkdir_all_def dir_at_def split: if_splits)

lemma os_create_frame:
  assumes "os_create F p m h = (r, h')"
  shows "es \<noteq> resolve h p \<Longrightarrow> file_at h' es = file_at h es" "resolve h' = resolve h"
    "dir_at h' = dir_at h" "r = Inl e \<Longrightarrow> h' = h" "ho_home h' = ho_home h" "ho_cwd h' = ho_cwd h"
    "r = Inr u \<Longrightarrow> file_at h' (resolve h p) =
       Some \<lparr>fl_data = [], fl_mode = (case file_at h (resolve h p) of None \<Rightarrow> m | Some f \<Rightarrow> fl_mode f)\<rparr>"
  using assms by (auto simp: os_create_def split: if_splits option.splits)

lemma os_write_frame:
  assumes "os_write F k p b h = (r, h')"
  shows "es \<noteq> resolve h p \<Longrightarrow> file_at h' es = file_at h es" "resolve h' = resolve h"
    "dir_at h' = dir_at h" "ho_home h' = ho_home h" "ho_cwd h' = ho_cwd h"
    "r = Inr u \<Longrightarrow> file_at h' (resolve h p) =
       map_option (\<lambda>f. f\<lparr>fl_data := fl_data f @ b\<rparr>) (file_at h (resolve h p))"
    "file_at h (resolve h p) = Some f \<Longrightarrow>
       \<exists>d. file_at h' (resolve h p) = Some (f\<lparr>fl_data := fl_data f @ d\<rparr>)"
  using assms by (auto simp: os_write_def split: if_splits)

lemma os_remove_frame:
  assumes "os_remove F p h = (r, h')"
  shows "es \<noteq> resolve h p \<Longrightarrow> file_at h' es = file_at h es" "resolve h' = resolve h"
    "dir_at h' = dir_at h" "r = Inl e \<Longrightarrow> h' = h"
  using assms by (auto simp: os_remove_def split: if_splits)

lemma os_write_file_frame:
  assumes "os_write_file F p b m h = (r, h')"
  shows "es \<noteq> resolve h p \<Longrightarrow> file_at h' es = file_at h es" "resolve h' = resolve h"
    "dir_at h' = dir_at h" "ho_home h' = ho_home h" "ho_cwd h' = ho_cwd h"
    "r = Inr u \<Longrightarrow> file_at h' (resolve h p) =
       Some \<lparr>fl_data = b, fl_mode = (case file_at h (resolve h p) of None \<Rightarrow> m | Some f \<Rightarrow> fl_mode f)\<rparr>"
  using assms
  by (auto simp: os_write_file_def os_close_def os_create_def os_write_def
      split: prod.splits sum.splits if_splits option.splits)

end
