(* ===== verification/Identity_Files.thy ===== *)
theory Identity_Files
  imports Store_Buckets Go_Base64 Host_Files
begin

text \<open>
  The Fabric Identity File: fabric-sdk-go/identity/fif.go, inner.go and errors.go with the key
  derivation of fabric-sdk-go/crypto/kdf.go. A file is a four-byte length, the JSON header of
  that length and the sealed JSON of the identity; the length and the header are the additional
  data of the seal. \<open>header_json\<close> writes the header as encoding/json does; reading JSON, writing
  the JSON of the identity, Argon2id and the AEAD are parameters. \<open>fc_argon2id\<close> gives no key
  where the library panics.
\<close>

section \<open>The identity inside\<close>

record fif_principal =
  fp_type :: string
  fp_id :: string
  fp_display_name :: string
  fp_created_at :: time

record key_pair =
  kp_algorithm :: string
  kp_public :: bytes
  kp_private :: bytes

record device_subkey =
  ds_device_id :: string
  ds_device_name :: string
  ds_algorithm :: string
  ds_public :: bytes
  ds_private :: bytes
  ds_enrolled_at :: time

record agent_identity =
  ai_agent_id :: string
  ai_agent_name :: string
  ai_vendor :: string
  ai_algorithm :: string
  ai_public :: bytes
  ai_private :: bytes
  ai_provisioned_at :: time
  ai_expires_at :: time

record transport_config =
  tr_id :: string
  tr_type :: string
  tr_url :: string
  tr_service_name :: string
  tr_public_key :: bytes
  tr_preference :: int

record held_grant =
  hg_grant_id :: string
  hg_macaroon :: bytes
  hg_issued_at :: time
  hg_expires_at :: time
  hg_issued_by :: string
  hg_scope_summary :: string

record bridge_credential =
  bc_service :: string
  bc_type :: string
  bc_value :: string
  bc_scope_summary :: string

record state_cache =
  sc_vault_heads :: "(string \<times> string) list"
  sc_history_heads :: "(string \<times> string) list"

record inner_fif =
  if_format :: string
  if_principal :: fif_principal
  if_root :: key_pair
  if_devices :: "device_subkey list"
  if_agents :: "agent_identity list"
  if_transports :: "transport_config list"
  if_grants :: "held_grant list"
  if_credentials :: "bridge_credential list"
  if_state :: state_cache

definition inner_fif_format :: string where
  "inner_fif_format = ''fif-inner/1.0''"

definition new_inner_fif :: "fif_principal \<Rightarrow> key_pair \<Rightarrow> inner_fif" where
  "new_inner_fif p root =
     \<lparr>if_format = inner_fif_format, if_principal = p, if_root = root, if_devices = [],
      if_agents = [], if_transports = [], if_grants = [], if_credentials = [],
      if_state = \<lparr>sc_vault_heads = [], sc_history_heads = []\<rparr>\<rparr>"

section \<open>Errors\<close>

datatype fif_error = FifFormat | FifAuth | FifEnvelopeUnsupported | IdentityLocked | FifOther
  | FifPanic

text \<open>AsCode: the protocol code of the errors of the package, none for the others.\<close>

fun as_code :: "fif_error \<Rightarrow> string" where
  "as_code FifFormat = ''fif_format''"
| "as_code FifAuth = ''fif_auth''"
| "as_code FifEnvelopeUnsupported = ''fif_envelope_unsupported''"
| "as_code IdentityLocked = ''identity_locked''"
| "as_code FifOther = []"
| "as_code FifPanic = []"

section \<open>The envelope header\<close>

record argon_json =
  aj_mcost :: "32 word"
  aj_tcost :: "32 word"
  aj_parallelism :: "8 word"

record argon2id_params =
  ap_time :: "32 word"
  ap_memory :: "32 word"
  ap_threads :: "8 word"
  ap_key_len :: "32 word"

record env_params =
  ep_kdf :: string
  ep_kdf_params :: argon_json
  ep_salt :: bytes
  ep_nonce :: bytes

record env_header =
  eh_format :: string
  eh_type :: string
  eh_params :: env_params

definition fif_format :: string where
  "fif_format = ''fif/1.0''"

definition reserved_envelope_types :: "string list" where
  "reserved_envelope_types = [''shamir-shares'', ''device-quorum'', ''social-recovery'']"

definition to_crypto :: "argon_json \<Rightarrow> argon2id_params" where
  "to_crypto p = \<lparr>ap_time = aj_tcost p, ap_memory = aj_mcost p, ap_threads = aj_parallelism p,
     ap_key_len = 32\<rparr>"

definition argon_params_from :: "argon2id_params \<Rightarrow> argon_json" where
  "argon_params_from p = \<lparr>aj_mcost = ap_memory p, aj_tcost = ap_time p,
     aj_parallelism = ap_threads p\<rparr>"

definition default_argon2id_params :: argon2id_params where
  "default_argon2id_params = \<lparr>ap_time = 3, ap_memory = 65536, ap_threads = 4, ap_key_len = 32\<rparr>"

text \<open>A JSON string as encoding/json writes it, for ASCII text.\<close>

definition json_char :: "char \<Rightarrow> string" where
  "json_char c =
     (if c = CHR 0x22 \<or> c = CHR 0x5C then [CHR 0x5C, c]
      else if c = CHR 0x0A then [CHR 0x5C, CHR ''n'']
      else if c = CHR 0x0D then [CHR 0x5C, CHR ''r'']
      else if c = CHR 0x09 then [CHR 0x5C, CHR ''t'']
      else if c = CHR 0x08 then [CHR 0x5C, CHR ''b'']
      else if c = CHR 0x0C then [CHR 0x5C, CHR ''f'']
      else if char_code c < 32 \<or> c \<in> set ''<>&''
      then CHR 0x5C # ''u00'' @ hex_encode [c]
      else [c])"

definition json_quote :: "string \<Rightarrow> string" where
  "json_quote s = CHR 0x22 # concat (map json_char s) @ [CHR 0x22]"

definition json_bytes :: "bytes \<Rightarrow> string" where
  "json_bytes b = CHR 0x22 # b64_encode std_encoding b @ [CHR 0x22]"

definition json_field :: "string \<Rightarrow> string \<Rightarrow> string" where
  "json_field k v = json_quote k @ '':'' @ v"

definition json_object :: "string list \<Rightarrow> string" where
  "json_object fs = ''{'' @ join_with '','' fs @ ''}''"

definition header_json :: "env_header \<Rightarrow> bytes" where
  "header_json h =
     json_object
       [json_field ''format'' (json_quote (eh_format h)),
        json_field ''envelope_type'' (json_quote (eh_type h)),
        json_field ''envelope_params'' (json_object
          [json_field ''kdf'' (json_quote (ep_kdf (eh_params h))),
           json_field ''kdf_params'' (json_object
             [json_field ''m_cost'' (dec_digits (unat (aj_mcost (ep_kdf_params (eh_params h))))),
              json_field ''t_cost'' (dec_digits (unat (aj_tcost (ep_kdf_params (eh_params h))))),
              json_field ''parallelism''
                (dec_digits (unat (aj_parallelism (ep_kdf_params (eh_params h)))))]),
           json_field ''salt'' (json_bytes (ep_salt (eh_params h))),
           json_field ''nonce'' (json_bytes (ep_nonce (eh_params h)))])]"

text \<open>binary.BigEndian: a 32-bit number as four bytes.\<close>

definition put_uint32 :: "32 word \<Rightarrow> bytes" where
  "put_uint32 w =
     map (\<lambda>k. byte_chr (unat w div 256 ^ k mod 256)) [3, 2, 1, 0]"

definition get_uint32 :: "bytes \<Rightarrow> 32 word" where
  "get_uint32 b = word_of_nat (foldl (\<lambda>n c. 256 * n + char_code c) 0 b)"

section \<open>The file\<close>

record fif_lib =
  fc_aead :: aead
  fc_argon2id :: "string \<Rightarrow> bytes \<Rightarrow> argon2id_params \<Rightarrow> bytes option"
  fc_unheader :: "bytes \<Rightarrow> env_header option"
  fc_inner :: "inner_fif \<Rightarrow> bytes option"
  fc_uninner :: "bytes \<Rightarrow> inner_fif option"
  fc_keygen :: "bytes \<Rightarrow> bytes \<times> bytes"

record fif =
  fi_header :: env_header
  fi_header_bytes :: bytes
  fi_body :: bytes
  fi_key :: bytes
  fi_inner :: "inner_fif option"

definition is_unlocked :: "fif \<Rightarrow> bool" where
  "is_unlocked f = (fi_inner f \<noteq> None \<and> length (fi_key f) = 32)"

text \<open>RandomBytes: the n-th read of the randomness, of exactly the length asked for.\<close>

definition random_bytes :: "env \<Rightarrow> nat \<Rightarrow> nat \<Rightarrow> crypto_error + bytes" where
  "random_bytes e n len =
     (if en_fault e ''crypto/rand'' then Inl ErrRandom
      else Inr (take len (en_random e n @ replicate len (CHR 0x00))))"

definition derive_key_argon2id ::
  "fif_lib \<Rightarrow> string \<Rightarrow> bytes \<Rightarrow> argon2id_params \<Rightarrow> bytes option" where
  "derive_key_argon2id L pass salt p = fc_argon2id L pass salt p"

definition new_fif ::
  "fif_lib \<Rightarrow> env \<Rightarrow> nat \<Rightarrow> string \<Rightarrow> inner_fif option \<Rightarrow> fif_error + fif" where
  "new_fif L e n pass inner =
     (case inner of
        None \<Rightarrow> Inl FifOther
      | Some i \<Rightarrow>
          (case random_bytes e n 16 of
             Inl _ \<Rightarrow> Inl FifOther
           | Inr salt \<Rightarrow>
               (case random_bytes e (n + 1) 24 of
                  Inl _ \<Rightarrow> Inl FifOther
                | Inr nonce \<Rightarrow>
                    (case derive_key_argon2id L pass salt default_argon2id_params of
                       None \<Rightarrow> Inl FifPanic
                     | Some key \<Rightarrow>
                         Inr \<lparr>fi_header = \<lparr>eh_format = fif_format, eh_type = ''passphrase-only'',
                                eh_params = \<lparr>ep_kdf = ''argon2id'',
                                  ep_kdf_params = argon_params_from default_argon2id_params,
                                  ep_salt = salt, ep_nonce = nonce\<rparr>\<rparr>,
                              fi_header_bytes = [], fi_body = [], fi_key = key,
                              fi_inner = Some i\<rparr>))))"

text \<open>An io.Reader: the bytes it delivers, and whether it then fails instead of ending.\<close>

record reader =
  rd_data :: bytes
  rd_fails :: bool

definition check_header :: "env_header \<Rightarrow> fif_error option" where
  "check_header h =
     (if eh_format h \<noteq> fif_format then Some FifFormat
      else if eh_type h \<in> set reserved_envelope_types then Some FifEnvelopeUnsupported
      else if eh_type h \<noteq> ''passphrase-only'' then Some FifEnvelopeUnsupported
      else if ep_kdf (eh_params h) \<noteq> ''argon2id'' then Some FifFormat
      else if length (ep_salt (eh_params h)) \<noteq> 16 then Some FifFormat
      else if length (ep_nonce (eh_params h)) \<noteq> 24 then Some FifFormat
      else None)"

definition parse_fif :: "fif_lib \<Rightarrow> reader \<Rightarrow> fif_error + fif" where
  "parse_fif L r =
     (let s = rd_data r; n = get_uint32 (take 4 s)
      in if length s < 4 then Inl FifFormat
         else if n = 0 \<or> 1048576 < n then Inl FifFormat
         else if length s < 4 + unat n then Inl FifFormat
         else if rd_fails r then Inl FifFormat
         else let json = take (unat n) (drop 4 s); body = drop (4 + unat n) s
              in if length body < 16 then Inl FifFormat
                 else case fc_unheader L json of
                        None \<Rightarrow> Inl FifFormat
                      | Some h \<Rightarrow>
                          (case check_header h of
                             Some er \<Rightarrow> Inl er
                           | None \<Rightarrow>
                               Inr \<lparr>fi_header = h, fi_header_bytes = put_uint32 n @ json,
                                    fi_body = body, fi_key = [], fi_inner = None\<rparr>))"

definition unlock :: "fif_lib \<Rightarrow> string \<Rightarrow> fif \<Rightarrow> (fif_error + unit) \<times> fif" where
  "unlock L pass f =
     (if fi_inner f \<noteq> None \<and> is_unlocked f then (Inr (), f)
      else let p = eh_params (fi_header f)
           in case derive_key_argon2id L pass (ep_salt p) (to_crypto (ep_kdf_params p)) of
                None \<Rightarrow> (Inl FifPanic, f)
              | Some key \<Rightarrow>
                  (case crypto_open (fc_aead L) key (ep_nonce p) (fi_body f) (fi_header_bytes f) of
                     Inl _ \<Rightarrow> (Inl FifAuth, f)
                   | Inr plain \<Rightarrow>
                       (case fc_uninner L plain of
                          None \<Rightarrow> (Inl FifFormat, f)
                        | Some i \<Rightarrow>
                            if if_format i \<noteq> inner_fif_format then (Inl FifFormat, f)
                            else (Inr (), f\<lparr>fi_key := key, fi_inner := Some i\<rparr>))))"

text \<open>An io.Writer: what a call of Write, named by its place, does to the state it writes to.\<close>

type_synonym 's writer = "string \<Rightarrow> bytes \<Rightarrow> 's \<Rightarrow> (os_error + unit) \<times> 's"

definition with_nonce :: "bytes \<Rightarrow> env_header \<Rightarrow> env_header" where
  "with_nonce nonce h = h\<lparr>eh_params := (eh_params h)\<lparr>ep_nonce := nonce\<rparr>\<rparr>"

definition wire_header :: "env_header \<Rightarrow> bytes" where
  "wire_header h = put_uint32 (word_of_nat (length (header_json h))) @ header_json h"

definition serialize ::
  "fif_lib \<Rightarrow> env \<Rightarrow> nat \<Rightarrow> 's writer \<Rightarrow> fif \<Rightarrow> 's \<Rightarrow> (fif_error + unit) \<times> fif \<times> 's" where
  "serialize L e n w f s =
     (if \<not> is_unlocked f then (Inl IdentityLocked, f, s)
      else case fc_inner L (the (fi_inner f)) of
             None \<Rightarrow> (Inl FifOther, f, s)
           | Some json \<Rightarrow>
               (case random_bytes e n 24 of
                  Inl _ \<Rightarrow> (Inl FifOther, f, s)
                | Inr nonce \<Rightarrow>
                    let f1 = f\<lparr>fi_header := with_nonce nonce (fi_header f)\<rparr>;
                        hb = wire_header (fi_header f1)
                    in case crypto_seal (fc_aead L) (fi_key f) nonce json hb of
                         Inl _ \<Rightarrow> (Inl FifOther, f1, s)
                       | Inr ct \<Rightarrow>
                           (case w ''Write header'' hb s of
                              (Inl _, s1) \<Rightarrow> (Inl FifOther, f1, s1)
                            | (Inr _, s1) \<Rightarrow>
                                (case w ''Write body'' ct s1 of
                                   (Inl _, s2) \<Rightarrow> (Inl FifOther, f1, s2)
                                 | (Inr _, s2) \<Rightarrow>
                                     (Inr (), f1\<lparr>fi_header_bytes := hb, fi_body := ct\<rparr>, s2)))))"

definition lock :: "fif \<Rightarrow> fif" where
  "lock f = f\<lparr>fi_key := [], fi_inner := None\<rparr>"

text \<open>A bytes.Buffer as a writer.\<close>

definition buffer :: "bytes writer" where
  "buffer k b s = (Inr (), s @ b)"

end
