(* ===== verification/Identity_Store.thy ===== *)
theory Identity_Store
  imports Identity_Files
begin

text \<open>
  Identity files on disk, as the command line keeps them: nakli-cli/internal/fifio/fifio.go.
  Loading, saving through a temporary file that is renamed, creating a root identity in place,
  and asking for the passphrase. The faults of the machine (\<open>Host_Files\<close>) decide which calls
  fail and how much of a failing write reaches the file.
\<close>

datatype fifio_error = PassphraseMissing | FifNotFound | FifioOs os_error | FifioFif fif_error
  | FifioOther

text \<open>os.Open for reading: a directory opens and fails to be read.\<close>

definition os_open :: "os_faults \<Rightarrow> string \<Rightarrow> host \<Rightarrow> os_error + reader" where
  "os_open F p h =
     (if p = [] then Inl NotExist
      else if of_fails F ''Open'' p then Inl OsFailed
      else if dir_at h (resolve h p) then Inr \<lparr>rd_data = [], rd_fails = True\<rparr>
      else case file_at h (resolve h p) of
             None \<Rightarrow> Inl NotExist
           | Some f \<Rightarrow>
               Inr \<lparr>rd_data = (if of_fails F ''Read'' p then take (of_short F p) (fl_data f)
                              else fl_data f),
                    rd_fails = of_fails F ''Read'' p\<rparr>)"

definition file_writer :: "os_faults \<Rightarrow> string \<Rightarrow> host writer" where
  "file_writer F p k b h = os_write F k p b h"

definition root_inner :: "fif_lib \<Rightarrow> env \<Rightarrow> string \<Rightarrow> bytes \<Rightarrow> inner_fif" where
  "root_inner L e display seed =
     new_inner_fif
       \<lparr>fp_type = ''human'', fp_id = en_ulid e 0, fp_display_name = display,
        fp_created_at = en_now e\<rparr>
       \<lparr>kp_algorithm = ''ed25519'', kp_public = fst (fc_keygen L seed),
        kp_private = snd (fc_keygen L seed)\<rparr>"

definition create_root ::
  "fif_lib \<Rightarrow> env \<Rightarrow> os_faults \<Rightarrow> string \<Rightarrow> string \<Rightarrow> string \<Rightarrow> host
     \<Rightarrow> (fifio_error + string) \<times> host" where
  "create_root L e F p display pass h =
     (if display = [] then (Inl FifioOther, h)
      else if pass = [] then (Inl PassphraseMissing, h)
      else case random_bytes e 0 32 of
             Inl _ \<Rightarrow> (Inl FifioOther, h)
           | Inr seed \<Rightarrow>
               case new_fif L e 1 pass (Some (root_inner L e display seed)) of
                   Inl er \<Rightarrow> (Inl (FifioFif er), h)
               | Inr f \<Rightarrow>
                      (case os_mkdir_all F (path_dir p) h of
                         (Inl er, h1) \<Rightarrow> (Inl (FifioOs er), h1)
                       | (Inr _, h1) \<Rightarrow>
                           (case os_create F p 384 h1 of
                              (Inl er, h2) \<Rightarrow> (Inl (FifioOs er), h2)
                            | (Inr _, h2) \<Rightarrow>
                                (case serialize L e 3 (file_writer F p) f h2 of
                                   (Inl er, _, h3) \<Rightarrow> (Inl (FifioFif er), h3)
                                 | (Inr _, _, h3) \<Rightarrow> (Inr (en_ulid e 0), h3)))))"

definition load_and_unlock ::
  "fif_lib \<Rightarrow> os_faults \<Rightarrow> string \<Rightarrow> string \<Rightarrow> host \<Rightarrow> fifio_error + fif" where
  "load_and_unlock L F p pass h =
     (if os_stat F p h = Inl NotExist then Inl FifNotFound
      else case os_open F p h of
             Inl er \<Rightarrow> Inl (FifioOs er)
           | Inr r \<Rightarrow>
               (case parse_fif L r of
                  Inl er \<Rightarrow> Inl (FifioFif er)
                | Inr f \<Rightarrow>
                    (case unlock L pass f of
                       (Inl er, _) \<Rightarrow> Inl (FifioFif er)
                     | (Inr _, f1) \<Rightarrow> Inr f1)))"

definition tmp_path :: "string \<Rightarrow> string" where
  "tmp_path p = p @ ''.tmp''"

definition remove_tmp :: "os_faults \<Rightarrow> string \<Rightarrow> host \<Rightarrow> host" where
  "remove_tmp F p h = snd (os_remove F (tmp_path p) h)"

definition save_unlocked ::
  "fif_lib \<Rightarrow> env \<Rightarrow> nat \<Rightarrow> os_faults \<Rightarrow> fif \<Rightarrow> string \<Rightarrow> host
     \<Rightarrow> (fifio_error + unit) \<times> fif \<times> host" where
  "save_unlocked L e n F f p h =
     (case os_mkdir_all F (path_dir p) h of
        (Inl er, h1) \<Rightarrow> (Inl (FifioOs er), f, h1)
      | (Inr _, h1) \<Rightarrow>
          (case os_create F (tmp_path p) 384 h1 of
             (Inl er, h2) \<Rightarrow> (Inl (FifioOs er), f, h2)
           | (Inr _, h2) \<Rightarrow>
               (case serialize L e n (file_writer F (tmp_path p)) f h2 of
                  (Inl er, f1, h3) \<Rightarrow> (Inl (FifioFif er), f1, remove_tmp F p h3)
                | (Inr _, f1, h3) \<Rightarrow>
                    (case os_close F (tmp_path p) of
                       Inl er \<Rightarrow> (Inl (FifioOs er), f1, remove_tmp F p h3)
                     | Inr _ \<Rightarrow>
                         (case os_rename F (tmp_path p) p h3 of
                            (Inl er, h4) \<Rightarrow> (Inl (FifioOs er), f1, remove_tmp F p h4)
                          | (Inr _, h4) \<Rightarrow> (Inr (), f1, h4))))))"

text \<open>
  The terminal: standard input, whether it is one, and what the successive calls of
  term.ReadPassword give.
\<close>

record terminal =
  tm_stdin :: reader
  tm_is_terminal :: bool
  tm_passwords :: "(os_error + string) list"

definition read_password :: "nat \<Rightarrow> terminal \<Rightarrow> os_error + string" where
  "read_password k t = (if k < length (tm_passwords t) then tm_passwords t ! k else Inl OsFailed)"

definition trim_right_newlines :: "string \<Rightarrow> string" where
  "trim_right_newlines s = rev (dropWhile (\<lambda>c. c = CHR 0x0D \<or> c = CHR 0x0A) (rev s))"

definition prompt_passphrase :: "bool \<Rightarrow> bool \<Rightarrow> terminal \<Rightarrow> fifio_error + string" where
  "prompt_passphrase stdin_mode confirm t =
     (if stdin_mode
      then let s = rd_data (tm_stdin t);
               line = trim_right_newlines (takeWhile (\<lambda>c. c \<noteq> CHR 0x0A) s)
           in if CHR 0x0A \<notin> set s \<and> rd_fails (tm_stdin t) then Inl (FifioOs OsFailed)
              else if line = [] then Inl PassphraseMissing
              else Inr line
      else if \<not> tm_is_terminal t then Inl FifioOther
      else case read_password 0 t of
             Inl er \<Rightarrow> Inl (FifioOs er)
           | Inr pw \<Rightarrow>
               if pw = [] then Inl PassphraseMissing
               else if confirm
               then case read_password 1 t of
                      Inl er \<Rightarrow> Inl (FifioOs er)
                    | Inr pw2 \<Rightarrow> if pw \<noteq> pw2 then Inl FifioOther else Inr pw
               else Inr pw)"

section \<open>Lemmas\<close>

lemma length_b64_encode: "b64_padded E \<Longrightarrow> length (b64_encode E s) = 4 * ((length s + 2) div 3)"
proof (induction E s rule: b64_encode.induct)
  case (4 E a b c rest)
  have "(length rest + 5) div 3 = (length rest + 2) div 3 + 1" by presburger
  then show ?case using 4 by (simp add: quad_def add.commute)
qed (simp_all add: quad_def)

lemma length_dec_digits: "n < 10 ^ Suc k \<Longrightarrow> length (dec_digits n) \<le> Suc k"
proof (induction k arbitrary: n)
  case 0
  then show ?case by (simp add: dec_digits.simps [of n])
next
  case (Suc k)
  have "n div 10 < 10 ^ Suc k" using Suc.prems by (auto simp: less_mult_imp_div_less mult.commute)
  then show ?case using Suc.IH [of "n div 10"] by (simp add: dec_digits.simps [of n])
qed

lemma length_dec_word32: "length (dec_digits (unat (w :: 32 word))) \<le> 10"
  using unsigned_less [where 'a = nat, of w] length_dec_digits [of "unat w" 9] by simp

lemma length_dec_word8: "length (dec_digits (unat (w :: 8 word))) \<le> 3"
  using unsigned_less [where 'a = nat, of w] length_dec_digits [of "unat w" 2] by simp

lemma header_json_length:
  assumes "check_header h = None"
  shows "0 < length (header_json h)" "length (header_json h) \<le> 1048576"
    "length (header_json h) \<le> 1000"
proof -
  have fixed: "eh_format h = ''fif/1.0''" "eh_type h = ''passphrase-only''"
    "ep_kdf (eh_params h) = ''argon2id''" "length (ep_salt (eh_params h)) = 16"
    "length (ep_nonce (eh_params h)) = 24"
    using assms by (auto simp: check_header_def fif_format_def split: if_splits)
  show "0 < length (header_json h)" by (simp add: header_json_def json_object_def)
  have b: "length (json_bytes (ep_salt (eh_params h))) = 26"
    "length (json_bytes (ep_nonce (eh_params h))) = 34"
    using fixed by (simp_all add: json_bytes_def length_b64_encode std_encoding_def)
  have q: "length (json_quote ''fif/1.0'') = 9" "length (json_quote ''passphrase-only'') = 17"
    "length (json_quote ''argon2id'') = 10" "length (json_quote ''format'') = 8"
    "length (json_quote ''envelope_type'') = 15" "length (json_quote ''envelope_params'') = 17"
    "length (json_quote ''kdf'') = 5" "length (json_quote ''kdf_params'') = 12"
    "length (json_quote ''m_cost'') = 8" "length (json_quote ''t_cost'') = 8"
    "length (json_quote ''parallelism'') = 13" "length (json_quote ''salt'') = 6"
    "length (json_quote ''nonce'') = 7"
    by (simp_all add: json_quote_def json_char_def char_code_def)
  show "length (header_json h) \<le> 1000"
    using b q fixed length_dec_word32 [of "aj_mcost (ep_kdf_params (eh_params h))"]
      length_dec_word32 [of "aj_tcost (ep_kdf_params (eh_params h))"]
      length_dec_word8 [of "aj_parallelism (ep_kdf_params (eh_params h))"]
    by (simp add: header_json_def json_object_def json_field_def)
  then show "length (header_json h) \<le> 1048576" by simp
qed

lemma get_put_uint32 [simp]: "get_uint32 (put_uint32 w) = w"
proof -
  let ?n = "unat w"
  have n: "?n < 4294967296" using unsigned_less [where 'a = nat, of w] by simp
  define q1 where "q1 = ?n div 256"
  define q2 where "q2 = q1 div 256"
  define q3 where "q3 = q2 div 256"
  have q: "?n = 256 * q1 + ?n mod 256" "q1 = 256 * q2 + q1 mod 256" "q2 = 256 * q3 + q2 mod 256"
    by (simp_all add: q1_def q2_def q3_def)
  have d: "?n div 65536 = q2" "?n div 16777216 = q3"
    by (simp_all add: q1_def q2_def q3_def div_mult2_eq [symmetric])
  have "q3 < 256" using n by (simp add: d(2) [symmetric] less_mult_imp_div_less)
  then have m: "?n div 16777216 mod 256 = ?n div 16777216" by (simp add: d)
  have "?n = 256 * (256 * (256 * (?n div 16777216) + ?n div 65536 mod 256)
                    + ?n div 256 mod 256) + ?n mod 256"
    using q unfolding d q1_def [symmetric] by simp
  then have "foldl (\<lambda>n c. 256 * n + char_code c) 0 (put_uint32 w) = ?n"
    using m by (simp add: put_uint32_def byte_chr_def char_code_def)
  then show ?thesis by (simp add: get_uint32_def)
qed

lemma length_put_uint32 [simp]: "length (put_uint32 w) = 4"
  by (simp add: put_uint32_def)

section \<open>Sealing and opening a file\<close>

text \<open>What is relied on of the AEAD and of Argon2id (which panics on a zero cost).\<close>

definition fif_laws :: "fif_lib \<Rightarrow> bool" where
  "fif_laws L =
     (aead_laws (fc_aead L)
      \<and> (\<forall>k n p a. 16 \<le> length (aead_seal (fc_aead L) k n p a))
      \<and> (\<forall>pass salt p. case fc_argon2id L pass salt p of
                          None \<Rightarrow> ap_time p = 0 \<or> ap_threads p = 0
                        | Some k \<Rightarrow> ap_time p \<noteq> 0 \<and> ap_threads p \<noteq> 0
                                    \<and> length k = unat (ap_key_len p)))"

text \<open>The key of an unlocked file is the one its header gives for the passphrase.\<close>

definition keyed :: "fif_lib \<Rightarrow> string \<Rightarrow> fif \<Rightarrow> bool" where
  "keyed L pass f =
     (check_header (fi_header f) = None \<and> is_unlocked f
      \<and> derive_key_argon2id L pass (ep_salt (eh_params (fi_header f)))
          (to_crypto (ep_kdf_params (eh_params (fi_header f)))) = Some (fi_key f))"

lemma length_random_bytes: "random_bytes e n len = Inr b \<Longrightarrow> length b = len"
  by (auto simp: random_bytes_def split: if_splits)

lemma to_crypto_from [simp]: "ap_key_len p = 32 \<Longrightarrow> to_crypto (argon_params_from p) = p"
  by (simp add: to_crypto_def argon_params_from_def)

lemma new_fif_keyed:
  assumes "fif_laws L" and "new_fif L e n pass (Some i) = Inr f"
  shows "keyed L pass f" "fi_inner f = Some i"
  using assms
  by (auto simp: new_fif_def keyed_def is_unlocked_def check_header_def fif_laws_def fif_format_def
      reserved_envelope_types_def derive_key_argon2id_def default_argon2id_params_def
      dest!: length_random_bytes split: sum.splits option.splits)

lemma default_costs_give_key:
  assumes "fif_laws L"
  shows "\<exists>key. fc_argon2id L pass salt default_argon2id_params = Some key"
proof -
  have "case fc_argon2id L pass salt default_argon2id_params of
          None \<Rightarrow> ap_time default_argon2id_params = 0 \<or> ap_threads default_argon2id_params = 0
        | Some k \<Rightarrow> True"
    using assms unfolding fif_laws_def by (metis (no_types, lifting) option.case_eq_if)
  then show ?thesis by (auto simp: default_argon2id_params_def split: option.splits)
qed

lemma new_fif_ok:
  assumes "fif_laws L" and "\<not> en_fault e ''crypto/rand''"
  shows "\<exists>f. new_fif L e n pass (Some i) = Inr f"
  using default_costs_give_key [OF assms(1), of pass "take 16 (en_random e n @ replicate 16 (CHR 0x00))"] assms(2)
  by (auto simp: new_fif_def random_bytes_def derive_key_argon2id_def)

lemma with_nonce_simps [simp]:
  "eh_params (with_nonce b h) = (eh_params h)\<lparr>ep_nonce := b\<rparr>"
  "eh_format (with_nonce b h) = eh_format h" "eh_type (with_nonce b h) = eh_type h"
  by (simp_all add: with_nonce_def)

lemma check_with_nonce:
  "check_header h = None \<Longrightarrow> length b = 24 \<Longrightarrow> check_header (with_nonce b h) = None"
  by (auto simp: check_header_def split: if_splits)

lemma serialize_Inr:
  assumes "serialize L e n w f s = (Inr u, f1, s2)"
  obtains json nonce s1 where "is_unlocked f" "fc_inner L (the (fi_inner f)) = Some json"
    "random_bytes e n 24 = Inr nonce"
    "fi_header f1 = with_nonce nonce (fi_header f)" "fi_key f1 = fi_key f" "fi_inner f1 = fi_inner f"
    "fi_header_bytes f1 = wire_header (fi_header f1)"
    "fi_body f1 = aead_seal (fc_aead L) (fi_key f) nonce json (wire_header (fi_header f1))"
    "w ''Write header'' (wire_header (fi_header f1)) s = (Inr (), s1)"
    "w ''Write body'' (fi_body f1) s1 = (Inr (), s2)"
  using assms
  by (auto simp: serialize_def Let_def crypto_seal_def split: if_splits option.splits sum.splits prod.splits)

lemma parse_text:
  assumes "check_header h = None" and "fc_unheader L j = Some h" and "16 \<le> length ct"
    and "0 < length j" and "length j \<le> 1048576"
  shows "parse_fif L \<lparr>rd_data = put_uint32 (word_of_nat (length j)) @ j @ ct, rd_fails = False\<rparr>
     = Inr \<lparr>fi_header = h, fi_header_bytes = put_uint32 (word_of_nat (length j)) @ j, fi_body = ct,
            fi_key = [], fi_inner = None\<rparr>"
proof -
  have u: "unat (word_of_nat (length j) :: 32 word) = length j"
    using assms(5) by (simp add: unsigned_of_nat take_bit_nat_eq_self)
  then have nz: "(word_of_nat (length j) :: 32 word) \<noteq> 0" using assms(4) by force
  have le: "\<not> (1048576 < (word_of_nat (length j) :: 32 word))"
    using assms(5) u by (simp add: word_less_nat_alt)
  show ?thesis using assms u nz le by (simp add: parse_fif_def Let_def)
qed

lemma parse_wire:
  assumes "check_header h = None" and "fc_unheader L (header_json h) = Some h" and "16 \<le> length ct"
  shows "parse_fif L \<lparr>rd_data = wire_header h @ ct, rd_fails = False\<rparr>
     = Inr \<lparr>fi_header = h, fi_header_bytes = wire_header h, fi_body = ct, fi_key = [], fi_inner = None\<rparr>"
  using parse_text [OF assms header_json_length(1,2) [OF assms(1)]] by (simp add: wire_header_def)

lemma unlock_sealed:
  assumes "fif_laws L" and "keyed L pass f" and "fc_inner L (the (fi_inner f)) = Some json"
    and "fc_uninner L json = fi_inner f" and "if_format (the (fi_inner f)) = inner_fif_format"
    and "length nonce = 24" and "h = with_nonce nonce (fi_header f)"
  shows "unlock L pass \<lparr>fi_header = h, fi_header_bytes = hb,
            fi_body = aead_seal (fc_aead L) (fi_key f) nonce json hb, fi_key = [], fi_inner = None\<rparr>
     = (Inr (), \<lparr>fi_header = h, fi_header_bytes = hb,
            fi_body = aead_seal (fc_aead L) (fi_key f) nonce json hb, fi_key = fi_key f,
            fi_inner = fi_inner f\<rparr>)"
  using assms
  by (auto simp: unlock_def keyed_def is_unlocked_def Let_def crypto_open_def fif_laws_def
      aead_laws_def split: option.splits)

text \<open>What a successful Serialize wrote is read back and unlocked with the passphrase.\<close>

lemma serialized_opens:
  assumes "fif_laws L" and "keyed L pass f" and "serialize L e n w f s = (Inr u, f1, s2)"
    and "\<And>json. fc_inner L (the (fi_inner f)) = Some json \<Longrightarrow> fc_uninner L json = fi_inner f"
    and "if_format (the (fi_inner f)) = inner_fif_format"
    and "fc_unheader L (header_json (fi_header f1)) = Some (fi_header f1)"
  obtains g where "parse_fif L \<lparr>rd_data = wire_header (fi_header f1) @ fi_body f1, rd_fails = False\<rparr> = Inr g"
    and "unlock L pass g = (Inr (), f1)" and "keyed L pass f1"
proof -
  obtain json nonce s1 where s: "fc_inner L (the (fi_inner f)) = Some json"
    "random_bytes e n 24 = Inr nonce" "fi_header f1 = with_nonce nonce (fi_header f)"
    "fi_key f1 = fi_key f" "fi_inner f1 = fi_inner f"
    "fi_header_bytes f1 = wire_header (fi_header f1)"
    "fi_body f1 = aead_seal (fc_aead L) (fi_key f) nonce json (wire_header (fi_header f1))"
    using serialize_Inr [OF assms(3)] by metis
  have nonce: "length nonce = 24" using length_random_bytes s(2) by blast
  have ck: "check_header (fi_header f1) = None"
    using assms(2) check_with_nonce nonce s(3) by (simp add: keyed_def)
  have len: "16 \<le> length (fi_body f1)" using assms(1) s(7) by (simp add: fif_laws_def)
  let ?g = "\<lparr>fi_header = fi_header f1, fi_header_bytes = wire_header (fi_header f1),
    fi_body = fi_body f1, fi_key = [], fi_inner = None\<rparr>"
  have "f1 = \<lparr>fi_header = fi_header f1, fi_header_bytes = wire_header (fi_header f1),
     fi_body = fi_body f1, fi_key = fi_key f, fi_inner = fi_inner f\<rparr>"
    using s(4,5,6) by simp
  then have "unlock L pass ?g = (Inr (), f1)"
    using unlock_sealed [OF assms(1,2) s(1) assms(4) [OF s(1)] assms(5) nonce s(3), of "wire_header (fi_header f1)"]
      s(7) by simp
  moreover have "keyed L pass f1" using assms(2) ck s(3,4,5) by (simp add: keyed_def is_unlocked_def)
  ultimately show ?thesis using that parse_wire [OF ck assms(6) len] by blast
qed

end
