(* ===== verification/Identity_Guarantees.thy ===== *)
theory Identity_Guarantees
  imports Identity_Store Sample_Hub
begin

text \<open>
  What the identity files of the command line guarantee: a created identity is loaded back with
  its passphrase, a save replaces the file as a whole or not at all, the header is bound to the
  sealed body, and what goes wrong when costs of zero are read or an identity is created where
  one exists.
\<close>

lemma os_rename_frame:
  assumes "os_rename F a b h = (r, h')" and "resolve h a \<noteq> resolve h b"
  shows "r = Inl e \<Longrightarrow> h' = h"
    and "r = Inr u \<Longrightarrow> file_at h' (resolve h b) = file_at h (resolve h a)"
    and "es \<noteq> resolve h a \<Longrightarrow> es \<noteq> resolve h b \<Longrightarrow> file_at h' es = file_at h es"
    and "resolve h' = resolve h" "dir_at h' = dir_at h"
    and "r = Inr u \<Longrightarrow> file_at h (resolve h a) \<noteq> None" "r = Inr u \<Longrightarrow> \<not> dir_at h (resolve h b)"
  using assms by (auto simp: os_rename_def split: if_splits option.splits)

lemma serialize_file_frame:
  assumes "serialize L e n (file_writer F p) f h = (r, f1, h')"
  shows "es \<noteq> resolve h p \<Longrightarrow> file_at h' es = file_at h es"
    and "resolve h' = resolve h" "dir_at h' = dir_at h"
  using assms
  by (auto simp: serialize_def file_writer_def Let_def os_write_def
      split: if_splits option.splits sum.splits prod.splits)

lemma serialize_file_data:
  assumes "serialize L e n (file_writer F p) f h = (Inr u, f1, h')" and "file_at h (resolve h p) = Some fl"
  shows "file_at h' (resolve h p)
     = Some (fl\<lparr>fl_data := fl_data fl @ wire_header (fi_header f1) @ fi_body f1\<rparr>)"
proof -
  obtain h1 where w: "os_write F ''Write header'' p (wire_header (fi_header f1)) h = (Inr (), h1)"
    "os_write F ''Write body'' p (fi_body f1) h1 = (Inr (), h')"
    using serialize_Inr [OF assms(1)] unfolding file_writer_def by metis
  show ?thesis
    using os_write_frame(6) [OF w(2)] os_write_frame(6) [OF w(1)] os_write_frame(2) [OF w(1)] assms(2)
    by simp
qed

lemma load_intact:
  assumes "p \<noteq> []" and "\<not> dir_at h (resolve h p)" and "file_at h (resolve h p) = Some fl"
    and "parse_fif L \<lparr>rd_data = fl_data fl, rd_fails = False\<rparr> = Inr g"
    and "unlock L pass g = (Inr (), g1)"
  shows "load_and_unlock L no_faults p pass h = Inr g1"
  using assms by (simp add: load_and_unlock_def os_stat_def os_open_def no_faults_def)

lemma tmp_path_of:
  assumes "\<forall>w\<in>set (es @ [w]). plain_elem w"
  shows "resolve h (tmp_path (path_of (es @ [w]))) = es @ [w @ ''.tmp'']"
proof -
  have j: "join_with ''/'' (es @ [v]) = (if es = [] then v else join_with ''/'' es @ ''/'' @ v)" for v
    using join_with_append_ne [of es "[v]" "''/''"] by auto
  have "tmp_path (path_of (es @ [w])) = path_of (es @ [w @ ''.tmp''])"
    unfolding tmp_path_def path_of_def j by simp
  moreover have "plain_elem (w @ ''.tmp'')" using assms by (auto simp: plain_elem_def)
  ultimately show ?thesis using assms by simp
qed

text \<open>The temporary file: no other file is touched, and once written it holds all of the bytes.\<close>

lemma tmp_written:
  assumes "os_mkdir_all F d h = (Inr u1, h1)" and "os_create F (tmp_path p) 384 h1 = (Inr u2, h2)"
    and "serialize L e n (file_writer F (tmp_path p)) f h2 = (a3, f3, h3)"
    and "\<And>g. resolve g (tmp_path p) = t"
  shows "es \<noteq> t \<Longrightarrow> file_at h3 es = file_at h es"
    and "a3 = Inr u3 \<Longrightarrow> file_at h3 t = Some \<lparr>fl_data = wire_header (fi_header f3) @ fi_body f3,
           fl_mode = (case file_at h t of None \<Rightarrow> 384 | Some o' \<Rightarrow> fl_mode o')\<rparr>"
proof -
  note m1 = os_mkdir_all_frame(1) [OF assms(1)]
  show "es \<noteq> t \<Longrightarrow> file_at h3 es = file_at h es"
    using serialize_file_frame(1) [OF assms(3)] os_create_frame(1) [OF assms(2)] m1 assms(4) by simp
  have "file_at h2 t
      = Some \<lparr>fl_data = [], fl_mode = (case file_at h t of None \<Rightarrow> 384 | Some o' \<Rightarrow> fl_mode o')\<rparr>"
    using os_create_frame(7) [OF assms(2) refl] assms(4) m1 by simp
  then show "a3 = Inr u3 \<Longrightarrow> file_at h3 t = Some \<lparr>fl_data = wire_header (fi_header f3) @ fi_body f3,
           fl_mode = (case file_at h t of None \<Rightarrow> 384 | Some o' \<Rightarrow> fl_mode o')\<rparr>"
    using serialize_file_data [of L e n F "tmp_path p" f h2 u3 f3 h3, unfolded assms(4)] assms(3) by simp
qed

text \<open>
  The steps of SaveUnlocked: unless the rename went through, the file has not been touched; if
  it did, it holds the whole of what was written.
\<close>

lemma save_unlocked_cases:
  assumes "save_unlocked L e n F f p h = (r, f1, h')"
    and "\<And>g. resolve g (tmp_path p) = t" "\<And>g. resolve g p = q" "t \<noteq> q"
  shows "(\<forall>es. es \<noteq> q \<longrightarrow> es \<noteq> t \<longrightarrow> file_at h' es = file_at h es)
     \<and> (case r of
          Inl _ \<Rightarrow> file_at h' q = file_at h q
        | Inr _ \<Rightarrow> \<not> dir_at h' q
            \<and> (\<exists>fl h2 h3. file_at h' q = Some fl
                 \<and> fl_data fl = wire_header (fi_header f1) @ fi_body f1
                 \<and> fl_mode fl = (case file_at h t of None \<Rightarrow> 384 | Some o' \<Rightarrow> fl_mode o')
                 \<and> serialize L e n (file_writer F (tmp_path p)) f h2 = (Inr (), f1, h3)))"
proof -
  have rm: "file_at (remove_tmp F p k) es = file_at k es" if "es \<noteq> t" for k es
    using that os_remove_frame(1) [of F "tmp_path p" k] assms(2)
    by (metis remove_tmp_def surjective_pairing)
  obtain a1 h1 where m: "os_mkdir_all F (path_dir p) h = (a1, h1)" by (meson surj_pair)
  obtain a2 h2 where c: "os_create F (tmp_path p) 384 h1 = (a2, h2)" by (meson surj_pair)
  obtain a3 f3 h3 where s: "serialize L e n (file_writer F (tmp_path p)) f h2 = (a3, f3, h3)"
    by (metis prod_cases3)
  obtain a5 h5 where n: "os_rename F (tmp_path p) p h3 = (a5, h5)" by (meson surj_pair)
  note rn = os_rename_frame [OF n, unfolded assms(2,3), OF assms(4)]
  consider (early) er where "a1 = Inl er \<or> a2 = Inl er" | (written) u1 u2 where "a1 = Inr u1" "a2 = Inr u2"
    by (metis sum.exhaust)
  then show ?thesis
  proof cases
    case early
    then show ?thesis using assms(1) m c os_mkdir_all_frame(1) [OF m] os_create_frame(4) [OF c]
      by (cases a1) (auto simp: save_unlocked_def)
  next
    case written
    note w = tmp_written [OF m [unfolded written(1)] c [unfolded written(2)] s assms(2)]
    show ?thesis
    proof (cases "a3 = Inr () \<and> os_close F (tmp_path p) = Inr () \<and> a5 = Inr ()")
      case True
      then have "r = Inr ()" "f1 = f3" "h' = h5"
        using assms(1) m c s n written by (auto simp: save_unlocked_def)
      then show ?thesis using rn(2,3,5,7) True w s by auto
    next
      case False
      then obtain er k where "r = Inl er" "h' = remove_tmp F p k" "k = h3"
        using assms(1) m c s n written rn(1)
        by (cases a3; cases "os_close F (tmp_path p)"; cases a5) (auto simp: save_unlocked_def)
      then show ?thesis using rm w(1) assms(4) by auto
    qed
  qed
qed

section \<open>A library that meets what is relied on\<close>

text \<open>
  A reader of headers in the form header_json writes, with a 16-byte salt and a 24-byte nonce
  (24 and 32 characters of base64): it skips the fixed parts and reads the five values.
\<close>

definition sample_unheader :: "bytes \<Rightarrow> env_header option" where
  "sample_unheader b =
     (let s1 = drop 113 b; m = takeWhile is_digit s1;
          s2 = drop (length m + 10) s1; t = takeWhile is_digit s2;
          s3 = drop (length t + 15) s2; p = takeWhile is_digit s3;
          s4 = drop (length p + 10) s3; salt = take 24 s4; nonce = take 32 (drop 11 (drop 24 s4))
      in case (b64_decode std_encoding salt, b64_decode std_encoding nonce) of
           (Some sa, Some no) \<Rightarrow>
             Some \<lparr>eh_format = fif_format, eh_type = ''passphrase-only'',
               eh_params = \<lparr>ep_kdf = ''argon2id'',
                 ep_kdf_params = \<lparr>aj_mcost = word_of_nat (digits_val m),
                   aj_tcost = word_of_nat (digits_val t), aj_parallelism = word_of_nat (digits_val p)\<rparr>,
                 ep_salt = sa, ep_nonce = no\<rparr>\<rparr>
         | _ \<Rightarrow> None)"

lemma takeWhile_dec_digits:
  "\<not> is_digit c \<Longrightarrow> takeWhile is_digit (dec_digits n @ c # s) = dec_digits n"
  by (simp add: takeWhile_append2 dec_digits_is_digit)

text \<open>The fixed parts of the text of a header.\<close>

definition hdr_a :: string where
  "hdr_a = ''{\"format\":\"fif/1.0\",\"envelope_type\":\"passphrase-only\",\"envelope_params\":{\"kdf\":\"argon2id\",\"kdf_params\":{\"m_cost\":''"
definition hdr_b :: string where "hdr_b = ''\"t_cost\":''"
definition hdr_c :: string where "hdr_c = ''\"parallelism\":''"
definition hdr_d :: string where "hdr_d = '',\"salt\":\"''"
definition hdr_e :: string where "hdr_e = ''\",\"nonce\":\"''"
definition hdr_f :: string where "hdr_f = ''\"}}''"

lemmas hdr_defs = hdr_a_def hdr_b_def hdr_c_def hdr_d_def hdr_e_def hdr_f_def

lemma hdr_lengths: "length hdr_a = 113" "length hdr_b = 9" "length hdr_c = 14"
  "length hdr_d = 9" "length hdr_e = 11"
  by (simp_all add: hdr_defs)

lemma header_json_flat:
  assumes "check_header h = None"
  shows "header_json h =
    hdr_a @ dec_digits (unat (aj_mcost (ep_kdf_params (eh_params h))))
    @ CHR '','' # hdr_b @ dec_digits (unat (aj_tcost (ep_kdf_params (eh_params h))))
    @ CHR '','' # hdr_c @ dec_digits (unat (aj_parallelism (ep_kdf_params (eh_params h))))
    @ CHR ''}'' # hdr_d @ b64_encode std_encoding (ep_salt (eh_params h)) @ hdr_e
    @ b64_encode std_encoding (ep_nonce (eh_params h)) @ hdr_f"
proof -
  have "eh_format h = ''fif/1.0''" "eh_type h = ''passphrase-only''"
    "ep_kdf (eh_params h) = ''argon2id''"
    using assms by (auto simp: check_header_def fif_format_def split: if_splits)
  then show ?thesis
    by (simp add: header_json_def json_object_def json_field_def json_quote_def json_char_def
        json_bytes_def char_code_def hdr_defs)
qed

lemma skip_part: "length a = k \<Longrightarrow> drop k (a @ s) = s" "length a = k \<Longrightarrow> take k (a @ s) = a"
  "drop (length a + j) (a @ s) = drop j s"
  by auto

lemma sample_unheader_header:
  assumes "check_header h = None"
  shows "sample_unheader (header_json h @ x) = Some h"
proof -
  have fixed: "eh_format h = ''fif/1.0''" "eh_type h = ''passphrase-only''"
    "ep_kdf (eh_params h) = ''argon2id''" "length (ep_salt (eh_params h)) = 16"
    "length (ep_nonce (eh_params h)) = 24"
    using assms by (auto simp: check_header_def fif_format_def split: if_splits)
  have b: "length (b64_encode std_encoding (ep_salt (eh_params h))) = 24"
    "length (b64_encode std_encoding (ep_nonce (eh_params h))) = 32"
    using fixed by (simp_all add: length_b64_encode std_encoding_def)
  have dec: "b64_decode std_encoding (b64_encode std_encoding s) = Some s" for s
    by (rule b64_decode_encode) (simp add: std_encoding_def)
  have nd: "\<not> is_digit (CHR '','')" "\<not> is_digit (CHR ''}'')" by (simp_all add: is_digit_def char_code_def)
  show ?thesis
    unfolding header_json_flat [OF assms] sample_unheader_def append_assoc append_Cons
    using b fixed
    by (simp add: Let_def takeWhile_dec_digits nd dec hdr_lengths fif_format_def skip_part
        del: drop_drop drop_append take_append append_assoc)
qed

definition fif_json_laws :: "fif_lib \<Rightarrow> bool" where
  "fif_json_laws L =
     ((\<forall>h. check_header h = None \<longrightarrow> fc_unheader L (header_json h) = Some h)
      \<and> (\<forall>i j. fc_inner L i = Some j \<longrightarrow> fc_uninner L j = Some i))"

definition sixteen :: bytes where
  "sixteen = replicate 16 stop"

definition fif_aead :: aead where
  "fif_aead = \<lparr>aead_seal = (\<lambda>k n p a. sixteen @ sample_seal k n p a),
     aead_open = (\<lambda>k n c a. if take 16 c = sixteen then sample_open k n (drop 16 c) a else None),
     hkdf = (\<lambda>r s i. replicate 32 stop)\<rparr>"

lemma length_sixteen: "length sixteen = 16"
  by (simp add: sixteen_def)

lemma fif_aead_laws: "aead_laws fif_aead" "16 \<le> length (aead_seal fif_aead k n p a)"
  using sample_aead_laws
  by (simp_all add: aead_laws_def fif_aead_def sample_aead_def length_sixteen)

definition fif_env :: env where
  "fif_env = plain_env 0 (\<lambda>_. ''01A'')"

definition my_inner :: inner_fif where
  "my_inner = new_inner_fif
     \<lparr>fp_type = ''human'', fp_id = ''01A'', fp_display_name = ''me'', fp_created_at = 0\<rparr>
     \<lparr>kp_algorithm = ''ed25519'', kp_public = replicate 32 (CHR 0x00),
      kp_private = replicate 64 (CHR 0x00)\<rparr>"

definition sample_fif_lib :: fif_lib where
  "sample_fif_lib =
     \<lparr>fc_aead = fif_aead,
      fc_argon2id = (\<lambda>pass salt p. if ap_time p = 0 \<or> ap_threads p = 0 then None
        else Some (take (unat (ap_key_len p)) (pass @ salt @ replicate (unat (ap_key_len p)) stop))),
      fc_unheader = sample_unheader,
      fc_inner = (\<lambda>i. if i = my_inner then Some ''{}'' else None),
      fc_uninner = (\<lambda>j. if j = ''{}'' then Some my_inner else None),
      fc_keygen = (\<lambda>seed. (seed, seed @ seed))\<rparr>"

lemma sample_fif_laws: "fif_laws sample_fif_lib"
  using fif_aead_laws by (auto simp: fif_laws_def sample_fif_lib_def min_def)

lemma sample_fif_json: "fif_json_laws sample_fif_lib"
  using sample_unheader_header [of _ "[]"]
  by (auto simp: fif_json_laws_def sample_fif_lib_def split: if_splits)

lemma fif_env_random: "random_bytes fif_env n k = Inr (replicate k (CHR 0x00))"
  by (simp add: random_bytes_def fif_env_def)

section \<open>Properties\<close>

lemma create_root_Inr:
  assumes "create_root L e F p display pass h = (Inr pid, h')"
  obtains seed f h1 h2 u1 u2 u3 f3 where "random_bytes e 0 32 = Inr seed" "pid = en_ulid e 0"
    "new_fif L e 1 pass (Some (root_inner L e display seed)) = Inr f"
    "os_mkdir_all F (path_dir p) h = (Inr u1, h1)" "os_create F p 384 h1 = (Inr u2, h2)"
    "serialize L e 3 (file_writer F p) f h2 = (Inr u3, f3, h')"
  using assms by (auto simp: create_root_def split: if_splits sum.splits prod.splits)

lemma created_file:
  assumes "os_create F p m h1 = (Inr u2, h2)" and "serialize L e n (file_writer F p) f h2 = (Inr u3, f3, h')"
  obtains fl where "file_at h' (resolve h1 p) = Some fl" "\<not> dir_at h' (resolve h1 p)"
    "fl_data fl = wire_header (fi_header f3) @ fi_body f3"
    "fl_mode fl = (case file_at h1 (resolve h1 p) of None \<Rightarrow> m | Some o' \<Rightarrow> fl_mode o')" "p \<noteq> []"
proof -
  have r: "resolve h2 = resolve h1" using os_create_frame(2) [OF assms(1)] .
  have "file_at h' (resolve h1 p) = Some (\<lparr>fl_data = [],
      fl_mode = (case file_at h1 (resolve h1 p) of None \<Rightarrow> m | Some o' \<Rightarrow> fl_mode o')\<rparr>
        \<lparr>fl_data := [] @ wire_header (fi_header f3) @ fi_body f3\<rparr>)"
    using serialize_file_data [OF assms(2), unfolded r, OF os_create_frame(7) [OF assms(1) refl]] by simp
  moreover have "\<not> dir_at h' (resolve h1 p)" "p \<noteq> []"
    using assms(1) serialize_file_frame(3) [OF assms(2)] os_create_frame(3) [OF assms(1)]
    by (auto simp: os_create_def split: if_splits)
  ultimately show ?thesis using that by fastforce
qed

text \<open>
  C25: A root identity that the command line created is loaded back from its file with the
  passphrase, with the principal id that was reported, the name that was given and the generated
  key pair; a new file has the mode 0600.
\<close>

theorem created_identity_loads:
  assumes "fif_laws L" and "fif_json_laws L"
    and "create_root L e F p display pass h = (Inr pid, h')"
  shows "\<exists>g i seed fl. load_and_unlock L no_faults p pass h' = Inr g \<and> fi_inner g = Some i
     \<and> fp_id (if_principal i) = pid \<and> fp_display_name (if_principal i) = display
     \<and> random_bytes e 0 32 = Inr seed
     \<and> (kp_public (if_root i), kp_private (if_root i)) = fc_keygen L seed
     \<and> file_at h' (resolve h p) = Some fl
     \<and> (file_at h (resolve h p) = None \<longrightarrow> fl_mode fl = 384)"
proof -
  obtain seed f h1 h2 u1 u2 u3 f3 where c: "random_bytes e 0 32 = Inr seed"
    "new_fif L e 1 pass (Some (root_inner L e display seed)) = Inr f" (is "new_fif L e 1 pass (Some ?i) = _")
    "os_mkdir_all F (path_dir p) h = (Inr u1, h1)" "os_create F p 384 h1 = (Inr u2, h2)"
    "serialize L e 3 (file_writer F p) f h2 = (Inr u3, f3, h')"
    by (rule create_root_Inr [OF assms(3)])
  note nf = new_fif_keyed [OF assms(1) c(2)]
  have pid: "pid = en_ulid e 0" using create_root_Inr [OF assms(3)] by metis
  have i: "fi_inner f3 = Some ?i" using nf(2) serialize_Inr [OF c(5)] by metis
  have keyed: "keyed L pass f" "check_header (fi_header f3) = None"
    using nf(1) check_with_nonce length_random_bytes serialize_Inr [OF c(5)] unfolding keyed_def by metis+
  have json: "fc_unheader L (header_json (fi_header f3)) = Some (fi_header f3)"
    "\<And>j. fc_inner L (the (fi_inner f)) = Some j \<Longrightarrow> fc_uninner L j = fi_inner f"
    using assms(2) keyed(2) nf(2) by (auto simp: fif_json_laws_def)
  obtain g where g: "parse_fif L \<lparr>rd_data = wire_header (fi_header f3) @ fi_body f3, rd_fails = False\<rparr> = Inr g"
    "unlock L pass g = (Inr (), f3)"
    using serialized_opens [OF assms(1) keyed(1) c(5) json(2) _ json(1)] nf(2)
    by (auto simp: root_inner_def new_inner_fif_def)
  note mk = os_mkdir_all_frame [OF c(3)]
  obtain fl where fl: "file_at h' (resolve h p) = Some fl" "\<not> dir_at h' (resolve h p)"
    "fl_data fl = wire_header (fi_header f3) @ fi_body f3"
    "fl_mode fl = (case file_at h (resolve h p) of None \<Rightarrow> 384 | Some o' \<Rightarrow> fl_mode o')" "p \<noteq> []"
    by (rule created_file [OF c(4,5), unfolded mk(1,2)])
  have r: "resolve h' = resolve h"
    using serialize_file_frame(2) [OF c(5)] os_create_frame(2) [OF c(4)] mk(2) by simp
  have "load_and_unlock L no_faults p pass h' = Inr f3"
    using load_intact [of p h' fl L g pass f3] fl g r by simp
  then show ?thesis using i c(1) fl(1,4) pid by (auto simp: root_inner_def new_inner_fif_def)
qed

definition home_host :: host where
  "home_host = \<lparr>ho_cwd = ''/'', ho_home = ''/h'', ho_files = [], ho_dirs = [[''h'']]\<rparr>"

lemma resolve_fif_path [simp]: "resolve h ''/h/me.fif'' = [''h'', ''me.fif'']"
  "resolve h ''/h'' = [''h'']" "resolve h (tmp_path ''/h/me.fif'') = [''h'', ''me.fif.tmp'']"
  "path_dir ''/h/me.fif'' = ''/h''"
  by code_simp+

lemma sample_lib_simps [simp]:
  "fc_keygen sample_fif_lib seed = (seed, seed @ seed)"
  "fc_inner sample_fif_lib my_inner = Some ''{}''" "fc_aead sample_fif_lib = fif_aead"
  "fc_argon2id sample_fif_lib pass salt default_argon2id_params
     = Some (take 32 (pass @ salt @ replicate 32 stop))"
  by (simp_all add: sample_fif_lib_def default_argon2id_params_def)

lemma sample_new_fif:
  assumes "new_fif sample_fif_lib fif_env n pass (Some i) = Inr f"
  shows "keyed sample_fif_lib pass f" "fi_inner f = Some i"
  using new_fif_keyed [OF sample_fif_laws assms] .

lemma sample_new_fif_ok:
  "\<exists>f. new_fif sample_fif_lib fif_env n pass (Some i) = Inr f"
  by (simp add: new_fif_def fif_env_random derive_key_argon2id_def)

lemma sample_serialize:
  assumes "keyed sample_fif_lib pass f" and "fi_inner f = Some my_inner"
    and "\<And>k b s. \<exists>s1. w k b s = (Inr (), s1)"
  shows "\<exists>f1 s2. serialize sample_fif_lib fif_env n w f s = (Inr (), f1, s2)"
proof -
  have u: "is_unlocked f" "length (fi_key f) = 32" using assms(1) by (auto simp: keyed_def is_unlocked_def)
  let ?nonce = "replicate 24 (CHR 0x00)"
  let ?hb = "wire_header (with_nonce ?nonce (fi_header f))"
  let ?ct = "aead_seal fif_aead (fi_key f) ?nonce ''{}'' ?hb"
  obtain s1 where s1: "w ''Write header'' ?hb s = (Inr (), s1)" using assms(3) by blast
  obtain s2 where s2: "w ''Write body'' ?ct s1 = (Inr (), s2)" using assms(3) by blast
  have ct: "crypto_seal fif_aead (fi_key f) ?nonce ''{}'' ?hb = Inr ?ct"
    using u(2) by (simp add: crypto_seal_def)
  show ?thesis
    unfolding serialize_def Let_def using u(1) assms(2) s1 s2 ct by (simp add: fif_env_random)
qed

lemma no_fault_writer: "\<exists>s1. file_writer no_faults p k b s = (Inr (), s1)"
  by (simp add: file_writer_def os_write_def no_faults_def)

lemma sample_created:
  "\<exists>h'. create_root sample_fif_lib fif_env no_faults ''/h/me.fif'' ''me'' ''pw'' home_host = (Inr ''01A'', h')"
proof -
  have inner: "root_inner sample_fif_lib fif_env ''me'' (replicate 32 (CHR 0x00)) = my_inner"
    by (simp add: root_inner_def my_inner_def fif_env_def replicate_add [symmetric])
  obtain f where f: "new_fif sample_fif_lib fif_env (Suc 0) ''pw'' (Some my_inner) = Inr f"
    using sample_new_fif_ok by blast
  let ?h1 = "home_host\<lparr>ho_dirs := prefixes [''h''] @ ho_dirs home_host\<rparr>"
  have h1: "os_mkdir_all no_faults ''/h'' home_host = (Inr (), ?h1)"
    by (simp add: os_mkdir_all_def no_faults_def file_at_def home_host_def)
  obtain h2 where h2: "os_create no_faults ''/h/me.fif'' 384 ?h1 = (Inr (), h2)"
    by (simp add: os_create_def no_faults_def home_host_def file_at_def dir_at_def)
  obtain f1 h3 where "serialize sample_fif_lib fif_env 3 (file_writer no_faults ''/h/me.fif'') f h2 = (Inr (), f1, h3)"
    using sample_serialize [of "''pw''" f "file_writer no_faults ''/h/me.fif''" 3 h2, OF _ _ no_fault_writer]
      sample_new_fif [OF f] by blast
  then show ?thesis
    using f h1 h2 by (simp add: create_root_def fif_env_random inner) (simp add: fif_env_def)
qed

theorem created_identity_loads_witness:
  "\<exists>h' g i. create_root sample_fif_lib fif_env no_faults ''/h/me.fif'' ''me'' ''pw'' home_host = (Inr ''01A'', h')
     \<and> load_and_unlock sample_fif_lib no_faults ''/h/me.fif'' ''pw'' h' = Inr g
     \<and> fi_inner g = Some i \<and> fp_id (if_principal i) = ''01A''"
proof -
  obtain h' where h': "create_root sample_fif_lib fif_env no_faults ''/h/me.fif'' ''me'' ''pw'' home_host
      = (Inr ''01A'', h')"
    using sample_created by blast
  show ?thesis using created_identity_loads [OF sample_fif_laws sample_fif_json h'] h' by blast
qed

text \<open>
  C15: Whichever call of a save fails and however much of a failing write reaches the disk, the
  identity file is either as it was, and then an error is reported, or holds the whole new
  identity, which the passphrase unlocks; no file but the identity and its temporary file is
  touched, and without a temporary file left from before the new file has the mode 0600.
\<close>

theorem saving_identity_is_atomic:
  assumes "fif_laws L" and "fif_json_laws L" and "keyed L pass f" and "fi_inner f = Some i"
    and "if_format i = inner_fif_format" and "\<forall>v\<in>set (es @ [w]). plain_elem v"
    and "save_unlocked L e n F f (path_of (es @ [w])) h = (r, f1, h')"
  shows "(\<forall>q. q \<noteq> es @ [w] \<longrightarrow> q \<noteq> es @ [w @ ''.tmp''] \<longrightarrow> file_at h' q = file_at h q)
     \<and> (case r of
          Inl _ \<Rightarrow> file_at h' (es @ [w]) = file_at h (es @ [w])
        | Inr _ \<Rightarrow> load_and_unlock L no_faults (path_of (es @ [w])) pass h' = Inr f1
            \<and> fi_inner f1 = Some i
            \<and> (file_at h (es @ [w @ ''.tmp'']) = None
                 \<longrightarrow> map_option fl_mode (file_at h' (es @ [w])) = Some 384))"
proof -
  let ?p = "path_of (es @ [w])"
  note c = save_unlocked_cases [OF assms(7) tmp_path_of [OF assms(6)] resolve_path_of [OF assms(6)]]
  have frame: "\<forall>q. q \<noteq> es @ [w] \<longrightarrow> q \<noteq> es @ [w @ ''.tmp''] \<longrightarrow> file_at h' q = file_at h q"
    using c by simp
  show ?thesis
  proof (cases r)
    case (Inl er)
    then show ?thesis using c frame by simp
  next
    case (Inr u)
    then obtain fl h2 h3 where fl: "\<not> dir_at h' (es @ [w])" "file_at h' (es @ [w]) = Some fl"
      "fl_data fl = wire_header (fi_header f1) @ fi_body f1"
      "fl_mode fl = (case file_at h (es @ [w @ ''.tmp'']) of None \<Rightarrow> 384 | Some o' \<Rightarrow> fl_mode o')"
      "serialize L e n (file_writer F (tmp_path ?p)) f h2 = (Inr (), f1, h3)"
      using c by auto
    have i: "fi_inner f1 = Some i" using serialize_Inr [OF fl(5)] assms(4) by metis
    have ck: "check_header (fi_header f1) = None"
      using assms(3) check_with_nonce length_random_bytes serialize_Inr [OF fl(5)]
      unfolding keyed_def by metis
    have json: "fc_unheader L (header_json (fi_header f1)) = Some (fi_header f1)"
      "\<And>j. fc_inner L (the (fi_inner f)) = Some j \<Longrightarrow> fc_uninner L j = fi_inner f"
      using assms(2,4) ck by (auto simp: fif_json_laws_def)
    obtain g where g: "parse_fif L \<lparr>rd_data = fl_data fl, rd_fails = False\<rparr> = Inr g"
      "unlock L pass g = (Inr (), f1)"
      using serialized_opens [OF assms(1,3) fl(5) json(2) _ json(1)] assms(4,5) fl(3) by auto
    have "load_and_unlock L no_faults ?p pass h' = Inr f1"
      using load_intact [of ?p h' fl L g pass f1] fl(1,2) g resolve_path_of [OF assms(6), of h']
      by (simp add: path_of_def)
    then show ?thesis using Inr frame i fl(2,4) by simp
  qed
qed

lemma sample_saved:
  assumes "keyed sample_fif_lib ''pw'' f" and "fi_inner f = Some my_inner"
  shows "\<exists>f1 h'. save_unlocked sample_fif_lib fif_env 3 no_faults f (path_of [''h'', ''me.fif'']) home_host
     = (Inr (), f1, h')"
proof -
  have p: "path_of [''h'', ''me.fif''] = ''/h/me.fif''" by (simp add: path_of_def)
  let ?t = "tmp_path ''/h/me.fif''"
  let ?h1 = "home_host\<lparr>ho_dirs := prefixes [''h''] @ ho_dirs home_host\<rparr>"
  have h1: "os_mkdir_all no_faults ''/h'' home_host = (Inr (), ?h1)"
    by (simp add: os_mkdir_all_def no_faults_def file_at_def home_host_def)
  have "?t \<noteq> []" by (simp add: tmp_path_def)
  then obtain h2 where h2: "os_create no_faults ?t 384 ?h1 = (Inr (), h2)"
    by (simp add: os_create_def no_faults_def home_host_def file_at_def dir_at_def)
  obtain f1 h3 where h3: "serialize sample_fif_lib fif_env 3 (file_writer no_faults ?t) f h2 = (Inr (), f1, h3)"
    using sample_serialize [of "''pw''" f "file_writer no_faults ?t" 3 h2, OF assms no_fault_writer] by blast
  have "file_at h3 [''h'', ''me.fif.tmp''] \<noteq> None" "dir_at h3 = dir_at ?h1"
    using serialize_file_data [OF h3] os_create_frame(7) [OF h2 refl] serialize_file_frame(3) [OF h3]
      os_create_frame(3) [OF h2] by auto
  then obtain h4 where h4: "os_rename no_faults ?t ''/h/me.fif'' h3 = (Inr (), h4)"
    by (auto simp: os_rename_def no_faults_def dir_at_def home_host_def)
  have "os_close no_faults ?t = Inr ()" by (simp add: os_close_def no_faults_def)
  then show ?thesis unfolding p using h1 h2 h3 h4 by (simp add: save_unlocked_def)
qed

theorem saving_identity_is_atomic_witness:
  "\<exists>f f1 h'. save_unlocked sample_fif_lib fif_env 3 no_faults f (path_of [''h'', ''me.fif'']) home_host
       = (Inr (), f1, h')
     \<and> load_and_unlock sample_fif_lib no_faults (path_of [''h'', ''me.fif'']) ''pw'' h' = Inr f1
     \<and> fi_inner f1 = Some my_inner"
proof -
  obtain f where f: "new_fif sample_fif_lib fif_env 0 ''pw'' (Some my_inner) = Inr f"
    using sample_new_fif_ok by blast
  note k = sample_new_fif [OF f]
  obtain f1 h' where s: "save_unlocked sample_fif_lib fif_env 3 no_faults f (path_of [''h'', ''me.fif''])
      home_host = (Inr (), f1, h')"
    using sample_saved [OF k] by blast
  show ?thesis
    using saving_identity_is_atomic [OF sample_fif_laws sample_fif_json k, of "[''h'']" "''me.fif''" fif_env 3
        no_faults home_host "Inr ()" f1 h'] s
    by (auto simp: plain_elem_def my_inner_def new_inner_fif_def)
qed



text \<open>
  ParseFIF accepts a header with an iteration count or a parallelism of zero, and Unlock then
  panics under every passphrase: the costs in a file are given to Argon2id unchecked.
\<close>

theorem zero_cost_file_panics:
  assumes "fif_laws L" and "fif_json_laws L" and "check_header h = None" and "16 \<le> length body"
    and "aj_tcost (ep_kdf_params (eh_params h)) = 0 \<or> aj_parallelism (ep_kdf_params (eh_params h)) = 0"
  shows "\<exists>g. parse_fif L \<lparr>rd_data = wire_header h @ body, rd_fails = False\<rparr> = Inr g
     \<and> unlock L pass g = (Inl FifPanic, g)"
proof -
  let ?p = "to_crypto (ep_kdf_params (eh_params h))"
  have "case fc_argon2id L pass (ep_salt (eh_params h)) ?p of
          None \<Rightarrow> ap_time ?p = 0 \<or> ap_threads ?p = 0
        | Some k \<Rightarrow> ap_time ?p \<noteq> 0 \<and> ap_threads ?p \<noteq> 0 \<and> length k = unat (ap_key_len ?p)"
    using assms(1) unfolding fif_laws_def by blast
  then have "fc_argon2id L pass (ep_salt (eh_params h)) ?p = None"
    using assms(5) by (auto simp: to_crypto_def split: option.splits)
  then show ?thesis
    using parse_wire [OF assms(3) _ assms(4), of L] assms(2,3)
    by (simp add: fif_json_laws_def unlock_def Let_def derive_key_argon2id_def)
qed

definition zero_header :: env_header where
  "zero_header = \<lparr>eh_format = fif_format, eh_type = ''passphrase-only'',
     eh_params = \<lparr>ep_kdf = ''argon2id'',
       ep_kdf_params = \<lparr>aj_mcost = 65536, aj_tcost = 0, aj_parallelism = 4\<rparr>,
       ep_salt = replicate 16 stop, ep_nonce = replicate 24 stop\<rparr>\<rparr>"

lemma zero_header_passes: "check_header zero_header = None"
  by (simp add: check_header_def zero_header_def reserved_envelope_types_def)

theorem zero_cost_file_panics_witness:
  "\<exists>g. parse_fif sample_fif_lib \<lparr>rd_data = wire_header zero_header @ sixteen, rd_fails = False\<rparr> = Inr g
     \<and> unlock sample_fif_lib ''pw'' g = (Inl FifPanic, g)"
  by (rule zero_cost_file_panics [OF sample_fif_laws sample_fif_json zero_header_passes])
    (simp_all add: length_sixteen zero_header_def)

text \<open>
  Creating an identity at a path that holds one truncates it in place before the new one is
  written: when that write fails, CreateRoot reports the error and leaves the file empty, the
  old identity lost. (A save would have kept it.)
\<close>

theorem failed_creation_loses_the_old_identity:
  assumes "fif_laws L" and "random_bytes e 0 32 = Inr seed"
    and "fc_inner L (root_inner L e display seed) \<noteq> None" and "display \<noteq> []" and "pass \<noteq> []"
    and "F = \<lparr>of_fails = (\<lambda>k q. k = ''Write header''), of_short = (\<lambda>_. 0)\<rparr>"
    and "file_at h (resolve h p) = Some old" and "p \<noteq> []" and "\<not> dir_at h (resolve h p)"
    and "dir_at h (butlast (resolve h p))"
    and "\<forall>d\<in>set (prefixes (resolve h (path_dir p))). file_at h d = None"
  shows "\<exists>h'. create_root L e F p display pass h = (Inl (FifioFif FifOther), h')
     \<and> file_at h' (resolve h p) = Some (old\<lparr>fl_data := []\<rparr>)"
proof -
  let ?i = "root_inner L e display seed"
  have rnd: "\<not> en_fault e ''crypto/rand''" using assms(2) by (auto simp: random_bytes_def split: if_splits)
  then obtain f where f: "new_fif L e (Suc 0) pass (Some ?i) = Inr f"
    using new_fif_ok [OF assms(1)] by blast
  let ?h1 = "h\<lparr>ho_dirs := prefixes (resolve h (path_dir p)) @ ho_dirs h\<rparr>"
  have h1: "os_mkdir_all F (path_dir p) h = (Inr (), ?h1)"
    using assms(6,11) by (simp add: os_mkdir_all_def)
  have "\<not> dir_at ?h1 (resolve h p)" "dir_at ?h1 (butlast (resolve h p))"
    using assms(7,9,10,11) by (auto simp: dir_at_def)
  then have h2: "os_create F p 384 ?h1 = (Inr (), put_file (resolve h p) (old\<lparr>fl_data := []\<rparr>) ?h1)"
    using assms(6,7,8) by (simp add: os_create_def)
  obtain json where json: "fc_inner L ?i = Some json" using assms(3) by blast
  have f': "is_unlocked f" "fi_inner f = Some ?i" "length (fi_key f) = 32"
    using new_fif_keyed [OF assms(1) f] by (auto simp: keyed_def is_unlocked_def)
  obtain nonce where nonce: "random_bytes e 3 24 = Inr nonce" using rnd by (simp add: random_bytes_def)
  let ?g = "put_file (resolve h p) (old\<lparr>fl_data := []\<rparr>) ?h1"
  obtain f1 h' where "serialize L e 3 (file_writer F p) f ?g = (Inl FifOther, f1, h')"
    "file_at h' (resolve h p) = Some (old\<lparr>fl_data := []\<rparr>)"
    using f' json nonce length_random_bytes [OF nonce] assms(6)
    by (simp add: serialize_def Let_def crypto_seal_def file_writer_def os_write_def)
  then show ?thesis
    using assms(2,4,5) f h1 h2 by (simp add: create_root_def)
qed

definition lost_host :: host where
  "lost_host = home_host\<lparr>ho_files := [([''h'', ''me.fif''], \<lparr>fl_data = ''old'', fl_mode = 384\<rparr>)]\<rparr>"

theorem failed_creation_loses_the_old_identity_witness:
  "\<exists>h'. create_root sample_fif_lib fif_env
       \<lparr>of_fails = (\<lambda>k q. k = ''Write header''), of_short = (\<lambda>_. 0)\<rparr> ''/h/me.fif'' ''me'' ''pw'' lost_host
       = (Inl (FifioFif FifOther), h')
     \<and> file_at h' [''h'', ''me.fif''] = Some \<lparr>fl_data = [], fl_mode = 384\<rparr>"
proof -
  have inner: "root_inner sample_fif_lib fif_env ''me'' (replicate 32 (CHR 0x00)) = my_inner"
    by (simp add: root_inner_def my_inner_def fif_env_def replicate_add [symmetric])
  show ?thesis
    using failed_creation_loses_the_old_identity [OF sample_fif_laws fif_env_random, of "''me''" "''pw''" _
        lost_host "''/h/me.fif''" "\<lparr>fl_data = ''old'', fl_mode = 384\<rparr>"]
    by (simp add: inner lost_host_def home_host_def file_at_def dir_at_def)
qed

end
