(* ===== verification/Hub_Files.thy ===== *)
theory Hub_Files
  imports Host_Files Store_Schema
begin

text \<open>
  The files a Hub is set up with: its configuration (nakli-hub/internal/config/config.go) and
  its identity with the macaroon root key (nakli-hub/internal/hubid/hubid.go). JSON is a
  parameter: \<open>hl_config\<close> and \<open>hl_identity\<close> write it, \<open>hl_unconfig\<close> decodes into a
  configuration that is given (fields that are absent keep their values), \<open>hl_unidentity\<close> and
  \<open>hl_hub_id\<close> decode an identity and only its id.
\<close>

section \<open>Configuration\<close>

record hub_config =
  cf_id :: string
  cf_listen :: string
  cf_data_dir :: string
  cf_log_level :: string
  cf_keypair_file :: string
  cf_sqlite_db :: string
  cf_blobs_dir :: string
  cf_max_event_size :: int
  cf_max_blob_count :: int
  cf_fsync_writes :: bool
  cf_retention_seconds :: int
  cf_max_keys_per_grant :: int
  cf_strict_binding :: bool
  cf_strict_mint :: bool
  cf_strict_push :: bool
  cf_freshness_budget :: int

record hub_identity =
  hi_hub_id :: string
  hi_public_key :: bytes
  hi_private_key :: bytes
  hi_root_key :: bytes
  hi_created_at :: string

record hub_lib =
  hl_config :: "hub_config \<Rightarrow> bytes"
  hl_unconfig :: "hub_config \<Rightarrow> bytes \<Rightarrow> hub_config option"
  hl_identity :: "hub_identity \<Rightarrow> bytes"
  hl_unidentity :: "bytes \<Rightarrow> hub_identity option"
  hl_hub_id :: "bytes \<Rightarrow> string option"
  hl_keygen :: "bytes \<Rightarrow> bytes \<times> bytes"

datatype setup_error = SetupOs os_error | SetupInvalid string | SetupParse | SetupInsecureMode
  | SetupRandom

definition default_config :: hub_config where
  "default_config =
     \<lparr>cf_id = [], cf_listen = ''127.0.0.1:7842'', cf_data_dir = [], cf_log_level = ''info'',
      cf_keypair_file = ''hub-identity.json'', cf_sqlite_db = ''fabric.db'', cf_blobs_dir = ''blobs'',
      cf_max_event_size = 1048576, cf_max_blob_count = 10000000, cf_fsync_writes = True,
      cf_retention_seconds = 86400, cf_max_keys_per_grant = 100000, cf_strict_binding = False,
      cf_strict_mint = False, cf_strict_push = False, cf_freshness_budget = 86400\<rparr>"

definition log_levels :: "string list" where
  "log_levels = [''silent'', ''error'', ''warn'', ''info'', ''debug'']"

definition validate_config :: "hub_config \<Rightarrow> setup_error option" where
  "validate_config c =
     (if cf_listen c = [] then Some (SetupInvalid ''hub.listen'')
      else if cf_data_dir c = [] then Some (SetupInvalid ''hub.data_dir'')
      else if cf_max_event_size c \<le> 0 then Some (SetupInvalid ''storage.max_event_size_bytes'')
      else if cf_log_level c \<notin> set log_levels then Some (SetupInvalid ''hub.log_level'')
      else None)"

definition load_config :: "hub_lib \<Rightarrow> os_faults \<Rightarrow> string \<Rightarrow> host \<Rightarrow> setup_error + hub_config" where
  "load_config B F p h =
     (case os_read_file F p h of
        Inl NotExist \<Rightarrow> Inr default_config
      | Inl er \<Rightarrow> Inl (SetupOs er)
      | Inr b \<Rightarrow>
          (case hl_unconfig B default_config b of
             None \<Rightarrow> Inl SetupParse
           | Some c \<Rightarrow> (case validate_config c of Some er \<Rightarrow> Inl er | None \<Rightarrow> Inr c)))"

definition map_err :: "('a \<Rightarrow> 'b) \<Rightarrow> 'a + 'c \<Rightarrow> 'b + 'c" where
  "map_err f r = (case r of Inl x \<Rightarrow> Inl (f x) | Inr y \<Rightarrow> Inr y)"

definition save_config ::
  "hub_lib \<Rightarrow> os_faults \<Rightarrow> hub_config \<Rightarrow> string \<Rightarrow> host \<Rightarrow> (setup_error + unit) \<times> host" where
  "save_config B F c p h =
     (case validate_config c of
        Some er \<Rightarrow> (Inl er, h)
      | None \<Rightarrow> (case os_write_file F p (hl_config B c) 416 h of (r, h1) \<Rightarrow> (map_err SetupOs r, h1)))"

definition hub_identity_path :: "hub_config \<Rightarrow> string" where
  "hub_identity_path c = path_join [cf_data_dir c, cf_keypair_file c]"

definition sqlite_path :: "hub_config \<Rightarrow> string" where
  "sqlite_path c = path_join [cf_data_dir c, cf_sqlite_db c]"

definition blobs_path :: "hub_config \<Rightarrow> string" where
  "blobs_path c = path_join [cf_data_dir c, cf_blobs_dir c]"

definition pending_path :: "hub_config \<Rightarrow> string" where
  "pending_path c = path_join [cf_data_dir c, ''pending'']"

definition log_path :: "hub_config \<Rightarrow> string" where
  "log_path c = path_join [cf_data_dir c, ''logs'']"

text \<open>A home directory that cannot be found is the empty one.\<close>

definition normalize_data_dir :: "host \<Rightarrow> hub_config \<Rightarrow> setup_error + hub_config" where
  "normalize_data_dir h c =
     (let d = cf_data_dir c
      in if has_prefix ''~/'' d
         then if ho_home h = [] then Inl (SetupOs OsFailed)
              else Inr (c\<lparr>cf_data_dir := path_abs h (path_join [ho_home h, drop 2 d])\<rparr>)
         else Inr (c\<lparr>cf_data_dir := path_abs h d\<rparr>))"

section \<open>Identity\<close>

definition generate_identity :: "hub_lib \<Rightarrow> env \<Rightarrow> setup_error + hub_identity" where
  "generate_identity B e =
     (if en_fault e ''crypto/rand'' then Inl SetupRandom
      else Inr \<lparr>hi_hub_id = en_ulid e 0, hi_public_key = fst (hl_keygen B (en_random e 0)),
             hi_private_key = snd (hl_keygen B (en_random e 0)),
             hi_root_key = take 32 (en_random e 1 @ replicate 32 (CHR 0x00)),
             hi_created_at = now_rfc3339 e\<rparr>)"

definition validate_identity :: "hub_identity \<Rightarrow> setup_error option" where
  "validate_identity i =
     (if hi_hub_id i = [] then Some (SetupInvalid ''HubID'')
      else if length (hi_public_key i) \<noteq> 32 then Some (SetupInvalid ''PublicKey'')
      else if length (hi_private_key i) \<noteq> 64 then Some (SetupInvalid ''PrivateKey'')
      else if length (hi_root_key i) \<noteq> 32 then Some (SetupInvalid ''MacaroonRootKey'')
      else None)"

definition save_identity ::
  "hub_lib \<Rightarrow> os_faults \<Rightarrow> hub_identity \<Rightarrow> string \<Rightarrow> host \<Rightarrow> (setup_error + unit) \<times> host" where
  "save_identity B F i p h =
     (case validate_identity i of
        Some er \<Rightarrow> (Inl er, h)
      | None \<Rightarrow> (case os_write_file F p (hl_identity B i) 384 h of (r, h1) \<Rightarrow> (map_err SetupOs r, h1)))"

text \<open>
  The permission bits of a directory are not kept; a directory is refused for its mode. The flag
  is whether NAKLI_HUB_INSECURE_IDENTITY_MODE is 1.
\<close>

definition load_identity ::
  "hub_lib \<Rightarrow> os_faults \<Rightarrow> bool \<Rightarrow> string \<Rightarrow> host \<Rightarrow> setup_error + hub_identity" where
  "load_identity B F insecure p h =
     (case os_stat F p h of
        Inl er \<Rightarrow> Inl (SetupOs er)
      | Inr (d, m, _) \<Rightarrow>
          if (d \<or> m \<noteq> 384) \<and> \<not> insecure then Inl SetupInsecureMode
          else case os_read_file F p h of
                 Inl er \<Rightarrow> Inl (SetupOs er)
               | Inr b \<Rightarrow>
                   (case hl_unidentity B b of
                      None \<Rightarrow> Inl SetupParse
                    | Some i \<Rightarrow>
                        (case validate_identity i of Some er \<Rightarrow> Inl er | None \<Rightarrow> Inr i)))"

text \<open>What is relied on of encoding/json and of ed25519.\<close>

definition hub_json_laws :: "hub_lib \<Rightarrow> bool" where
  "hub_json_laws B =
     ((\<forall>c d. hl_unconfig B d (hl_config B c) = Some c)
      \<and> (\<forall>i. hl_unidentity B (hl_identity B i) = Some i)
      \<and> (\<forall>i. hl_hub_id B (hl_identity B i) = Some (hi_hub_id i)))"

definition keygen_laws :: "hub_lib \<Rightarrow> bool" where
  "keygen_laws B = (\<forall>s. length (fst (hl_keygen B s)) = 32 \<and> length (snd (hl_keygen B s)) = 64)"

section \<open>Lemmas\<close>

lemma generate_identity_valid:
  assumes "keygen_laws B" and "en_ulid e 0 \<noteq> []" and "generate_identity B e = Inr i"
  shows "validate_identity i = None" "hi_hub_id i = en_ulid e 0"
  using assms by (auto simp: generate_identity_def validate_identity_def keygen_laws_def split: if_splits)

lemma os_read_fresh:
  assumes "file_at h (resolve h p) = Some f" and "\<not> dir_at h (resolve h p)" and "p \<noteq> []"
  shows "os_read_file no_faults p h = Inr (fl_data f)"
    and "os_stat no_faults p h = Inr (False, fl_mode f, length (fl_data f))"
  using assms by (simp_all add: os_read_file_def os_stat_def no_faults_def)

lemma os_write_file_not_dir:
  "os_write_file F p b m h = (Inr u, h') \<Longrightarrow> \<not> dir_at h (resolve h p) \<and> p \<noteq> []"
  by (auto simp: os_write_file_def os_create_def split: if_splits prod.splits sum.splits)

lemma map_err_Inr [simp]: "map_err f r = Inr u \<longleftrightarrow> r = Inr u"
  by (auto simp: map_err_def split: sum.splits)

lemma save_load_identity:
  assumes "hub_json_laws B" and "save_identity B F i p h = (Inr u, h')"
  shows "load_identity B no_faults insecure p h' =
     (if \<not> insecure \<and> (\<exists>f. file_at h (resolve h p) = Some f \<and> fl_mode f \<noteq> 384)
      then Inl SetupInsecureMode else Inr i)"
proof -
  have v: "validate_identity i = None" and w: "os_write_file F p (hl_identity B i) 384 h = (Inr u, h')"
    using assms(2) by (auto simp: save_identity_def split: option.splits prod.splits)
  note f = os_write_file_frame [OF w]
  have "\<not> dir_at h' (resolve h' p)" "p \<noteq> []" using os_write_file_not_dir [OF w] f(2,3) by auto
  then show ?thesis
    using assms(1) v os_read_fresh [of h' p] f(2,6)
    by (auto simp: load_identity_def hub_json_laws_def split: option.splits)
qed

lemma save_load_config:
  assumes "hub_json_laws B" and "save_config B F c p h = (Inr u, h')"
  shows "load_config B no_faults p h' = Inr c"
proof -
  have v: "validate_config c = None" and w: "os_write_file F p (hl_config B c) 416 h = (Inr u, h')"
    using assms(2) by (auto simp: save_config_def split: option.splits prod.splits)
  note f = os_write_file_frame [OF w]
  have "\<not> dir_at h' (resolve h' p)" "p \<noteq> []" using os_write_file_not_dir [OF w] f(2,3) by auto
  then show ?thesis
    using assms(1) v os_read_fresh [of h' p] f(2,6)
    by (auto simp: load_config_def hub_json_laws_def)
qed

end
