(* ===== verification/Backup.thy ===== *)
theory Backup
  imports Hub_Files
begin

text \<open>
  Snapshots of a Hub (nakli-hub/internal/backup/backup.go): Create collects the configuration,
  the identity, a copy of the database made by SQLite and the blobs into a compressed tar
  archive, Extract writes an archive into a directory. The archive format, the JSON of the
  manifest and SQLite are parameters: \<open>bl_unpack\<close> gives the entries that are read and whether
  reading ends in an error, \<open>bl_vacuum\<close> the bytes of VACUUM INTO, \<open>bl_integrity\<close> whether
  PRAGMA integrity_check says ok to a database file.
\<close>

section \<open>Archives\<close>

record manifest =
  mf_format :: string
  mf_created_at :: time
  mf_hub_id :: string
  mf_binary_version :: string
  mf_blob_count :: int
  mf_sqlite_bytes :: int

datatype tar_kind = TarDir | TarReg | TarOther

record tar_entry =
  te_name :: string
  te_kind :: tar_kind
  te_mode :: nat
  te_data :: bytes

record backup_lib =
  bl_pack :: "tar_entry list \<Rightarrow> bytes"
  bl_unpack :: "bytes \<Rightarrow> (tar_entry list \<times> bool) option"
  bl_manifest :: "manifest \<Rightarrow> bytes"
  bl_unmanifest :: "manifest \<Rightarrow> bytes \<Rightarrow> manifest option"
  bl_vacuum :: "host \<Rightarrow> string \<Rightarrow> bytes option"
  bl_integrity :: "bytes \<Rightarrow> bool"

record backup_inputs =
  in_data_dir :: string
  in_config_path :: string
  in_identity_path :: string
  in_sqlite_path :: string
  in_blobs_root :: string
  in_binary_version :: string

datatype backup_error = BkOs os_error | BkMissing string | BkParse | BkSqlite | BkNotEmpty
  | BkArchive | BkUnsafePath | BkEntryTooLarge | BkArchiveTooLarge | BkNoManifest | BkFormat

definition archive_format :: string where
  "archive_format = ''nakli-hub-backup/1.0''"

definition default_max_entry_bytes :: nat where
  "default_max_entry_bytes = 2 * 1024 ^ 3"

definition default_max_aggregate_bytes :: nat where
  "default_max_aggregate_bytes = 50 * 1024 ^ 3"

definition file_mode_for :: "string \<Rightarrow> nat" where
  "file_mode_for name =
     (if name = ''hub-identity.json'' then 384
      else if name = ''config.json'' \<or> name = ''manifest.json'' then 416
      else if name = ''fabric.db'' then 416
      else if has_prefix ''blobs/'' name then 416
      else 416)"

definition require_file :: "os_faults \<Rightarrow> string \<Rightarrow> string \<Rightarrow> host \<Rightarrow> backup_error option" where
  "require_file F p label h =
     (if p = [] then Some (BkMissing label)
      else case os_stat F p h of Inl er \<Rightarrow> Some (BkOs er) | Inr _ \<Rightarrow> None)"

text \<open>The files below a directory in the order of filepath.Walk, by their elements.\<close>

definition walk_files :: "host \<Rightarrow> path \<Rightarrow> (path \<times> os_file) list" where
  "walk_files h root = sort_key fst (filter (\<lambda>(q, f). prefix root q) (ho_files h))"

definition count_blobs :: "os_faults \<Rightarrow> string \<Rightarrow> host \<Rightarrow> os_error + int" where
  "count_blobs F root h =
     (if os_stat F root h = Inl NotExist then Inr 0
      else if of_fails F ''Walk'' root then Inl OsFailed
      else Inr (int (length (walk_files h (resolve h root)))))"

definition read_hub_id :: "hub_lib \<Rightarrow> os_faults \<Rightarrow> string \<Rightarrow> host \<Rightarrow> backup_error + string" where
  "read_hub_id B F p h =
     (case os_read_file F p h of
        Inl er \<Rightarrow> Inl (BkOs er)
      | Inr b \<Rightarrow>
          (case hl_hub_id B b of
             None \<Rightarrow> Inl BkParse
           | Some i \<Rightarrow> if i = [] then Inl (BkMissing ''hub_id'') else Inr i))"

definition has_quotes :: "string \<Rightarrow> bool" where
  "has_quotes p = (CHR 0x27 \<in> set p \<or> CHR 0x22 \<in> set p)"

text \<open>VACUUM INTO writes a new file; SQLite creates files with the mode 0644.\<close>

definition vacuum_into ::
  "backup_lib \<Rightarrow> os_faults \<Rightarrow> string \<Rightarrow> string \<Rightarrow> host \<Rightarrow> (backup_error + unit) \<times> host" where
  "vacuum_into K F source target h =
     (let h1 = snd (os_remove F target h)
      in if of_fails F ''Ping'' source then (Inl BkSqlite, h1)
         else if has_quotes target then (Inl BkSqlite, h1)
         else case bl_vacuum K h1 source of
                None \<Rightarrow> (Inl BkSqlite, h1)
              | Some b \<Rightarrow>
                  (Inr (), put_file (resolve h1 target) \<lparr>fl_data = b, fl_mode = 420\<rparr> h1))"

section \<open>Create\<close>

definition tar_from_path ::
  "os_faults \<Rightarrow> string \<Rightarrow> string \<Rightarrow> host \<Rightarrow> os_error + tar_entry" where
  "tar_from_path F src dst h =
     (case os_stat F src h of
        Inl er \<Rightarrow> Inl er
      | Inr (_, mode, _) \<Rightarrow>
          (case os_read_file F src h of
             Inl er \<Rightarrow> Inl er
           | Inr b \<Rightarrow> Inr \<lparr>te_name = dst, te_kind = TarReg, te_mode = mode, te_data = b\<rparr>))"

text \<open>Entries are written until one fails.\<close>

fun tar_all :: "(os_error + tar_entry) list \<Rightarrow> tar_entry list \<times> os_error option" where
  "tar_all [] = ([], None)"
| "tar_all (Inl er # rs) = ([], Some er)"
| "tar_all (Inr t # rs) = (case tar_all rs of (ts, er) \<Rightarrow> (t # ts, er))"

text \<open>The name of a blob in the archive: its path from the directory that holds the root.\<close>

definition blob_entry_name :: "path \<Rightarrow> path \<Rightarrow> string" where
  "blob_entry_name root q = join_with ''/'' (drop (length root - 1) q)"

definition walk_blobs :: "os_faults \<Rightarrow> string \<Rightarrow> host \<Rightarrow> (os_error + tar_entry) list" where
  "walk_blobs F root h =
     (case os_stat F root h of
        Inl NotExist \<Rightarrow> []
      | Inl er \<Rightarrow> [Inl er]
      | Inr _ \<Rightarrow>
          if of_fails F ''Walk'' root then [Inl OsFailed]
          else map (\<lambda>(q, f). tar_from_path F (path_of q) (blob_entry_name (resolve h root) q) h)
                 (walk_files h (resolve h root)))"

definition archive_entries ::
  "backup_lib \<Rightarrow> os_faults \<Rightarrow> manifest \<Rightarrow> backup_inputs \<Rightarrow> string \<Rightarrow> host
     \<Rightarrow> (os_error + tar_entry) list" where
  "archive_entries K F m ins snap h =
     Inr \<lparr>te_name = ''manifest.json'', te_kind = TarReg, te_mode = 416, te_data = bl_manifest K m\<rparr>
     # tar_from_path F (in_config_path ins) ''config.json'' h
     # tar_from_path F (in_identity_path ins) ''hub-identity.json'' h
     # tar_from_path F snap ''fabric.db'' h
     # walk_blobs F (in_blobs_root ins) h"

text \<open>
  The writers are closed on return and the errors of closing are dropped: \<open>Flush\<close> is a failure
  to write what the compressor and the tar writer still held.
\<close>

definition write_archive ::
  "backup_lib \<Rightarrow> os_faults \<Rightarrow> string \<Rightarrow> manifest \<Rightarrow> backup_inputs \<Rightarrow> string \<Rightarrow> unit host_op" where
  "write_archive K F out m ins snap h =
     (case os_mkdir_all F (path_dir out) h of
        (Inl er, h1) \<Rightarrow> (Inl er, h1)
      | (Inr _, h1) \<Rightarrow>
          (case os_create F out 416 h1 of
             (Inl er, h2) \<Rightarrow> (Inl er, h2)
           | (Inr _, h2) \<Rightarrow>
               (case tar_all (archive_entries K F m ins snap h2) of
                  (ts, er) \<Rightarrow>
                    let b = bl_pack K ts
                    in if of_fails F ''Write'' out
                       then (Inl OsFailed, append_data out (take (of_short F out) b) h2)
                       else let h3 = append_data out
                                  (if of_fails F ''Flush'' out then take (of_short F out) b else b) h2
                            in (case er of Some x \<Rightarrow> (Inl x, h3) | None \<Rightarrow> (Inr (), h3)))))"

definition remove_all :: "path \<Rightarrow> host \<Rightarrow> host" where
  "remove_all d h =
     h\<lparr>ho_files := filter (\<lambda>(q, f). \<not> prefix d q) (ho_files h),
       ho_dirs := filter (\<lambda>q. \<not> prefix d q) (ho_dirs h)\<rparr>"

text \<open>MkdirTemp makes a directory whose name ends in random digits, \<open>rnd\<close>.\<close>

definition mkdir_temp :: "os_faults \<Rightarrow> string \<Rightarrow> string \<Rightarrow> string host_op" where
  "mkdir_temp F dir rnd h =
     (let d = path_join [dir, ''.backup-snapshot-'' @ rnd]
      in if of_fails F ''MkdirTemp'' dir \<or> file_at h (resolve h d) \<noteq> None \<or> dir_at h (resolve h d)
         then (Inl OsFailed, h)
         else if \<not> dir_at h (resolve h dir) then (Inl NotExist, h)
         else (Inr d, h\<lparr>ho_dirs := resolve h d # ho_dirs h\<rparr>))"

definition create_in ::
  "hub_lib \<Rightarrow> backup_lib \<Rightarrow> env \<Rightarrow> os_faults \<Rightarrow> backup_inputs \<Rightarrow> string \<Rightarrow> string \<Rightarrow> string \<Rightarrow> host
     \<Rightarrow> (backup_error + manifest) \<times> host" where
  "create_in B K e F ins out hub_id snap_dir h =
     (let snap = path_join [snap_dir, ''fabric.db'']
      in case vacuum_into K F (in_sqlite_path ins) snap h of
           (Inl er, h1) \<Rightarrow> (Inl er, h1)
         | (Inr _, h1) \<Rightarrow>
             (case count_blobs F (in_blobs_root ins) h1 of
                Inl er \<Rightarrow> (Inl (BkOs er), h1)
              | Inr count \<Rightarrow>
                  (case os_stat F snap h1 of
                     Inl er \<Rightarrow> (Inl (BkOs er), h1)
                   | Inr (_, _, bytes_len) \<Rightarrow>
                       let m = \<lparr>mf_format = archive_format, mf_created_at = en_now e,
                                mf_hub_id = hub_id, mf_binary_version = in_binary_version ins,
                                mf_blob_count = count, mf_sqlite_bytes = int bytes_len\<rparr>
                       in (case write_archive K F out m ins snap h1 of
                             (Inl er, h2) \<Rightarrow> (Inl (BkOs er), h2)
                           | (Inr _, h2) \<Rightarrow> (Inr m, h2)))))"

definition create_backup ::
  "hub_lib \<Rightarrow> backup_lib \<Rightarrow> env \<Rightarrow> os_faults \<Rightarrow> string \<Rightarrow> backup_inputs \<Rightarrow> string \<Rightarrow> host
     \<Rightarrow> (backup_error + manifest) \<times> host" where
  "create_backup B K e F rnd ins out h =
     (case require_file F (in_config_path ins) ''config'' h of
        Some er \<Rightarrow> (Inl er, h)
      | None \<Rightarrow>
     (case require_file F (in_identity_path ins) ''identity'' h of
        Some er \<Rightarrow> (Inl er, h)
      | None \<Rightarrow>
     (case require_file F (in_sqlite_path ins) ''sqlite db'' h of
        Some er \<Rightarrow> (Inl er, h)
      | None \<Rightarrow>
     (case read_hub_id B F (in_identity_path ins) h of
        Inl er \<Rightarrow> (Inl er, h)
      | Inr hub_id \<Rightarrow>
     (case mkdir_temp F (in_data_dir ins) rnd h of
        (Inl er, h1) \<Rightarrow> (Inl (BkOs er), h1)
      | (Inr d, h1) \<Rightarrow>
          (case create_in B K e F ins out hub_id d h1 of
             (r, h2) \<Rightarrow> (r, remove_all (resolve h d) h2)))))))"

section \<open>Extract\<close>

record extract_result =
  xr_manifest :: manifest
  xr_files :: int
  xr_blobs :: int

record extract_state =
  xs_result :: extract_result
  xs_aggregate :: nat
  xs_seen :: bool

definition zero_manifest :: manifest where
  "zero_manifest = \<lparr>mf_format = [], mf_created_at = 0, mf_hub_id = [], mf_binary_version = [],
     mf_blob_count = 0, mf_sqlite_bytes = 0\<rparr>"

definition start_extract :: extract_state where
  "start_extract = \<lparr>xs_result = \<lparr>xr_manifest = zero_manifest, xr_files = 0, xr_blobs = 0\<rparr>,
     xs_aggregate = 0, xs_seen = False\<rparr>"

definition dir_empty_or_absent :: "os_faults \<Rightarrow> string \<Rightarrow> host \<Rightarrow> os_error + bool" where
  "dir_empty_or_absent F d h =
     (if of_fails F ''ReadDir'' d then Inl OsFailed
      else if dir_at h (resolve h d)
      then Inr (\<forall>q\<in>set (map fst (ho_files h) @ ho_dirs h). q = [] \<or> butlast q \<noteq> resolve h d)
      else if file_at h (resolve h d) \<noteq> None then Inl OsFailed
      else Inr True)"

definition read_manifest ::
  "backup_lib \<Rightarrow> os_faults \<Rightarrow> string \<Rightarrow> manifest \<Rightarrow> host \<Rightarrow> backup_error + manifest" where
  "read_manifest K F p m h =
     (case os_read_file F p h of
        Inl er \<Rightarrow> Inl (BkOs er)
      | Inr b \<Rightarrow> (case bl_unmanifest K m b of None \<Rightarrow> Inl BkParse | Some m1 \<Rightarrow> Inr m1))"

text \<open>What is counted once a file has been written and closed.\<close>

definition count_file ::
  "backup_lib \<Rightarrow> os_faults \<Rightarrow> string \<Rightarrow> string \<Rightarrow> nat \<Rightarrow> extract_state \<Rightarrow> host
     \<Rightarrow> backup_error + extract_state" where
  "count_file K F clean target agg x h =
     (let r = xs_result x;
          counted = (\<lambda>m seen. x\<lparr>xs_result := \<lparr>xr_manifest = m, xr_files = xr_files r + 1,
                       xr_blobs = xr_blobs r + (if has_prefix ''blobs/'' clean then 1 else 0)\<rparr>,
                       xs_aggregate := agg, xs_seen := seen\<rparr>)
      in if clean = ''manifest.json''
         then (case read_manifest K F target (xr_manifest r) h of
                 Inl er \<Rightarrow> Inl er
               | Inr m \<Rightarrow> Inr (counted m True))
         else Inr (counted (xr_manifest r) (xs_seen x)))"

definition extract_file ::
  "backup_lib \<Rightarrow> os_faults \<Rightarrow> string \<Rightarrow> string \<Rightarrow> bytes \<Rightarrow> extract_state \<Rightarrow> host
     \<Rightarrow> (backup_error + extract_state) \<times> host" where
  "extract_file K F clean target data x h =
     (case os_mkdir_all F (path_dir target) h of
        (Inl er, h1) \<Rightarrow> (Inl (BkOs er), h1)
      | (Inr _, h1) \<Rightarrow>
          (case os_create F target (file_mode_for clean) h1 of
             (Inl er, h2) \<Rightarrow> (Inl (BkOs er), h2)
           | (Inr _, h2) \<Rightarrow>
               let written = take (default_max_entry_bytes + 1) data
               in (case os_write F ''Copy'' target written h2 of
                     (Inl er, h3) \<Rightarrow> (Inl (BkOs er), h3)
                   | (Inr _, h3) \<Rightarrow>
                       if default_max_entry_bytes < length written then (Inl BkEntryTooLarge, h3)
                       else let agg = xs_aggregate x + length written
                            in if default_max_aggregate_bytes < agg then (Inl BkArchiveTooLarge, h3)
                               else case os_close F target of
                                      Inl er \<Rightarrow> (Inl (BkOs er), h3)
                                    | Inr _ \<Rightarrow> (count_file K F clean target agg x h3, h3))))"

definition extract_one ::
  "backup_lib \<Rightarrow> os_faults \<Rightarrow> string \<Rightarrow> tar_entry \<Rightarrow> extract_state \<Rightarrow> host
     \<Rightarrow> (backup_error + extract_state) \<times> host" where
  "extract_one K F out t x h =
     (let clean = path_clean (te_name t); target = path_join [out, clean]
      in if has_prefix ''..'' clean \<or> is_abs clean then (Inl BkUnsafePath, h)
         else case te_kind t of
                TarDir \<Rightarrow>
                  (case os_mkdir_all F target h of
                     (Inl er, h1) \<Rightarrow> (Inl (BkOs er), h1)
                   | (Inr _, h1) \<Rightarrow> (Inr x, h1))
              | TarReg \<Rightarrow> extract_file K F clean target (te_data t) x h
              | TarOther \<Rightarrow> (Inr x, h))"

fun extract_entries ::
  "backup_lib \<Rightarrow> os_faults \<Rightarrow> string \<Rightarrow> tar_entry list \<Rightarrow> extract_state \<Rightarrow> host
     \<Rightarrow> (backup_error + extract_state) \<times> host" where
  "extract_entries K F out [] x h = (Inr x, h)"
| "extract_entries K F out (t # ts) x h =
     (case extract_one K F out t x h of
        (Inl er, h1) \<Rightarrow> (Inl er, h1)
      | (Inr x1, h1) \<Rightarrow> extract_entries K F out ts x1 h1)"

text \<open>Opening a database file that is not there makes an empty one.\<close>

definition sqlite_integrity_ok :: "backup_lib \<Rightarrow> string \<Rightarrow> host \<Rightarrow> bool \<times> host" where
  "sqlite_integrity_ok K p h =
     (if dir_at h (resolve h p) \<or> \<not> dir_at h (butlast (resolve h p)) then (False, h)
      else case file_at h (resolve h p) of
             None \<Rightarrow> (bl_integrity K [], put_file (resolve h p) \<lparr>fl_data = [], fl_mode = 420\<rparr> h)
           | Some f \<Rightarrow> (bl_integrity K (fl_data f), h))"

definition sample_blob_readable :: "os_faults \<Rightarrow> string \<Rightarrow> nat \<Rightarrow> host \<Rightarrow> os_error option" where
  "sample_blob_readable F root n h =
     (if os_stat F root h = Inl NotExist then None
      else if of_fails F ''Walk'' root
              \<or> (\<exists>(q, f)\<in>set (take n (walk_files h (resolve h root))). of_fails F ''Open'' (path_of q))
      then Some OsFailed else None)"

definition check_extracted ::
  "backup_lib \<Rightarrow> os_faults \<Rightarrow> string \<Rightarrow> extract_state \<Rightarrow> host
     \<Rightarrow> (backup_error + extract_result) \<times> host" where
  "check_extracted K F out x h =
     (if \<not> xs_seen x then (Inl BkNoManifest, h)
      else if mf_format (xr_manifest (xs_result x)) \<noteq> archive_format then (Inl BkFormat, h)
      else case sqlite_integrity_ok K (path_join [out, ''fabric.db'']) h of
             (False, h1) \<Rightarrow> (Inl BkSqlite, h1)
           | (True, h1) \<Rightarrow>
               (case sample_blob_readable F (path_join [out, ''blobs'']) 8 h1 of
                  Some er \<Rightarrow> (Inl (BkOs er), h1)
                | None \<Rightarrow> (Inr (xs_result x), h1)))"

definition extract_into ::
  "backup_lib \<Rightarrow> os_faults \<Rightarrow> string \<Rightarrow> string \<Rightarrow> host \<Rightarrow> (backup_error + extract_result) \<times> host" where
  "extract_into K F archive out h =
     (case os_mkdir_all F out h of
        (Inl er, h1) \<Rightarrow> (Inl (BkOs er), h1)
      | (Inr _, h1) \<Rightarrow>
          (case os_read_file F archive h1 of
             Inl er \<Rightarrow> (Inl (BkOs er), h1)
           | Inr b \<Rightarrow>
               (case bl_unpack K b of
                  None \<Rightarrow> (Inl BkArchive, h1)
                | Some (ts, broken) \<Rightarrow>
                    (case extract_entries K F out ts start_extract h1 of
                       (Inl er, h2) \<Rightarrow> (Inl er, h2)
                     | (Inr x, h2) \<Rightarrow>
                         if broken then (Inl BkArchive, h2) else check_extracted K F out x h2))))"

definition extract_backup ::
  "backup_lib \<Rightarrow> os_faults \<Rightarrow> string \<Rightarrow> string \<Rightarrow> bool \<Rightarrow> host
     \<Rightarrow> (backup_error + extract_result) \<times> host" where
  "extract_backup K F archive out force h =
     (case require_file F archive ''archive'' h of
        Some er \<Rightarrow> (Inl er, h)
      | None \<Rightarrow>
          if force then extract_into K F archive out h
          else case dir_empty_or_absent F out h of
                 Inl er \<Rightarrow> (Inl (BkOs er), h)
               | Inr False \<Rightarrow> (Inl BkNotEmpty, h)
               | Inr True \<Rightarrow> extract_into K F archive out h)"

end
