(* ===== verification/Hub_Command.thy ===== *)
theory Hub_Command
  imports Backup
begin

text \<open>
  The commands of the Hub's binary (nakli-hub/cmd/nakli-hub/main.go): init, the part of serve up
  to the listener, backup, restore, and the port that is announced. A command takes its parsed
  flags and gives its exit code. \<open>dl_migrate\<close> is what opening the database and running the
  migrations leaves in its file (storage.Open of nakli-hub/internal/storage/storage.go).
\<close>

record db_lib =
  dl_migrate :: "host \<Rightarrow> string \<Rightarrow> bytes option"

definition mdns_digit :: "char \<Rightarrow> 64 word" where
  "mdns_digit c = word_of_nat (char_code c - 48)"

text \<open>An int of Go wraps around at 64 bits.\<close>

definition after_last_colon :: "string \<Rightarrow> string option" where
  "after_last_colon s =
     (if CHR '':'' \<in> set s then Some (last (split_char CHR '':'' s)) else None)"

definition mdns_port_from_listen :: "string \<Rightarrow> 64 word" where
  "mdns_port_from_listen listen =
     (case after_last_colon listen of
        None \<Rightarrow> 7842
      | Some ds \<Rightarrow>
          if ds = [] \<or> \<not> list_all is_digit ds then 7842
          else let port = foldl (\<lambda>n c. n * 10 + mdns_digit c) 0 ds
               in if port = 0 then 7842 else port)"

text \<open>flag.Value of a flag that may be repeated: the values that were given, joined by commas.\<close>

definition string_slice_text :: "string list \<Rightarrow> string" where
  "string_slice_text vs = join_with '','' vs"

definition string_slice_set :: "string list \<Rightarrow> string \<Rightarrow> string list" where
  "string_slice_set vs v = vs @ [v]"

text \<open>storage.Open: the directories, then the database, which is created when it is missing.\<close>

definition open_store ::
  "db_lib \<Rightarrow> os_faults \<Rightarrow> string \<Rightarrow> string \<Rightarrow> host \<Rightarrow> (setup_error + unit) \<times> host" where
  "open_store D F db root h =
     (case os_mkdir_all F (path_dir db) h of
        (Inl er, h1) \<Rightarrow> (Inl (SetupOs er), h1)
      | (Inr _, h1) \<Rightarrow>
          (case os_mkdir_all F root h1 of
             (Inl er, h2) \<Rightarrow> (Inl (SetupOs er), h2)
           | (Inr _, h2) \<Rightarrow>
               if of_fails F ''Ping'' db \<or> dir_at h2 (resolve h2 db) then (Inl (SetupOs OsFailed), h2)
               else case dl_migrate D h2 db of
                      None \<Rightarrow> (Inl (SetupOs OsFailed), h2)
                    | Some b \<Rightarrow>
                        (Inr (), put_file (resolve h2 db)
                           \<lparr>fl_data = b, fl_mode = (case file_at h2 (resolve h2 db) of
                              None \<Rightarrow> 420 | Some f \<Rightarrow> fl_mode f)\<rparr> h2)))"

definition make_dirs :: "os_faults \<Rightarrow> hub_config \<Rightarrow> unit host_op" where
  "make_dirs F c h =
     (case os_mkdir_all F (cf_data_dir c) h of
        (Inl er, h1) \<Rightarrow> (Inl er, h1)
      | (Inr _, h1) \<Rightarrow>
          (case os_mkdir_all F (log_path c) h1 of
             (Inl er, h2) \<Rightarrow> (Inl er, h2)
           | (Inr _, h2) \<Rightarrow> os_mkdir_all F (pending_path c) h2))"

definition init_config_path :: "string \<Rightarrow> hub_config \<Rightarrow> string" where
  "init_config_path flag c = (if flag = [] then path_join [cf_data_dir c, ''config.json''] else flag)"

text \<open>The steps of init once the data directory is known.\<close>

definition init_steps ::
  "hub_lib \<Rightarrow> db_lib \<Rightarrow> env \<Rightarrow> os_faults \<Rightarrow> hub_config \<Rightarrow> string \<Rightarrow> host
     \<Rightarrow> (setup_error + unit) \<times> host" where
  "init_steps B D e F c config_flag h =
     (case make_dirs F c h of
        (Inl er, h1) \<Rightarrow> (Inl (SetupOs er), h1)
      | (Inr _, h1) \<Rightarrow>
          (case generate_identity B e of
             Inl er \<Rightarrow> (Inl er, h1)
           | Inr i \<Rightarrow>
               let c1 = c\<lparr>cf_id := hi_hub_id i\<rparr>
               in (case save_identity B F i (hub_identity_path c1) h1 of
                     (Inl er, h2) \<Rightarrow> (Inl er, h2)
                   | (Inr _, h2) \<Rightarrow>
                       (case open_store D F (sqlite_path c1) (blobs_path c1) h2 of
                          (Inl er, h3) \<Rightarrow> (Inl er, h3)
                        | (Inr _, h3) \<Rightarrow>
                            save_config B F c1 (init_config_path config_flag c1) h3))))"

definition run_init ::
  "hub_lib \<Rightarrow> db_lib \<Rightarrow> env \<Rightarrow> os_faults \<Rightarrow> string \<Rightarrow> string \<Rightarrow> host \<Rightarrow> nat \<times> host" where
  "run_init B D e F data_dir config_flag h =
     (if data_dir = [] then (2, h)
      else case normalize_data_dir h (default_config\<lparr>cf_data_dir := data_dir\<rparr>) of
             Inl _ \<Rightarrow> (1, h)
           | Inr c \<Rightarrow>
               (case init_steps B D e F c config_flag h of
                  (Inl _, h1) \<Rightarrow> (1, h1)
                | (Inr _, h1) \<Rightarrow> (0, h1)))"

text \<open>What serve has when it builds the server: the configuration with its overrides, the identity.\<close>

definition serve_config ::
  "hub_lib \<Rightarrow> os_faults \<Rightarrow> string \<Rightarrow> string \<Rightarrow> string \<Rightarrow> host \<Rightarrow> setup_error + hub_config" where
  "serve_config B F config_path data_dir_flag listen_flag h =
     (if config_path = [] then Inl (SetupInvalid ''--config'')
      else case load_config B F config_path h of
             Inl er \<Rightarrow> Inl er
           | Inr c \<Rightarrow>
               (case normalize_data_dir h
                       (if data_dir_flag \<noteq> [] then c\<lparr>cf_data_dir := data_dir_flag\<rparr> else c) of
                  Inl er \<Rightarrow> Inl er
                | Inr c1 \<Rightarrow>
                    let c2 = (if listen_flag \<noteq> [] then c1\<lparr>cf_listen := listen_flag\<rparr> else c1)
                    in (case validate_config c2 of Some er \<Rightarrow> Inl er | None \<Rightarrow> Inr c2)))"

definition serve_setup ::
  "hub_lib \<Rightarrow> db_lib \<Rightarrow> os_faults \<Rightarrow> bool \<Rightarrow> string \<Rightarrow> string \<Rightarrow> string \<Rightarrow> host
     \<Rightarrow> (setup_error + hub_config \<times> hub_identity) \<times> host" where
  "serve_setup B D F insecure config_path data_dir_flag listen_flag h =
     (case serve_config B F config_path data_dir_flag listen_flag h of
        Inl er \<Rightarrow> (Inl er, h)
      | Inr c \<Rightarrow>
          (case load_identity B F insecure (hub_identity_path c) h of
             Inl er \<Rightarrow> (Inl er, h)
           | Inr i \<Rightarrow>
               (case open_store D F (sqlite_path c) (blobs_path c) h of
                  (Inl er, h1) \<Rightarrow> (Inl er, h1)
                | (Inr _, h1) \<Rightarrow> (Inr (c, i), h1))))"

text \<open>What the Hub announces on the local network, and under which instance name.\<close>

definition announce_txt :: "hub_identity \<Rightarrow> string \<Rightarrow> string list" where
  "announce_txt i url =
     [''version=naklimesh/1.0'', ''hub_id='' @ hi_hub_id i, ''transport_id='' @ hi_hub_id i,
      ''principal_id='' @ hi_hub_id i, ''capabilities=vault,history,sync,grant,identity'',
      ''url='' @ url]"

definition announce_url :: "string \<Rightarrow> hub_config \<Rightarrow> string" where
  "announce_url flag c = (if flag = [] then ''http://'' @ cf_listen c else flag)"

definition announce_instance :: "hub_identity \<Rightarrow> string" where
  "announce_instance i =
     ''nakli-hub-'' @ (if 12 < length (hi_hub_id i) then drop (length (hi_hub_id i) - 12) (hi_hub_id i)
                     else hi_hub_id i)"

definition run_backup ::
  "hub_lib \<Rightarrow> backup_lib \<Rightarrow> env \<Rightarrow> os_faults \<Rightarrow> string \<Rightarrow> string \<Rightarrow> string \<Rightarrow> string \<Rightarrow> host
     \<Rightarrow> nat \<times> host" where
  "run_backup B K e F version rnd config_path output h =
     (if config_path = [] \<or> output = [] then (2, h)
      else case load_config B F config_path h of
             Inl _ \<Rightarrow> (1, h)
           | Inr c \<Rightarrow>
               (case normalize_data_dir h c of
                  Inl _ \<Rightarrow> (1, h)
                | Inr c1 \<Rightarrow>
                    (case create_backup B K e F rnd
                            \<lparr>in_data_dir = cf_data_dir c1, in_config_path = config_path,
                             in_identity_path = hub_identity_path c1, in_sqlite_path = sqlite_path c1,
                             in_blobs_root = blobs_path c1, in_binary_version = version\<rparr> output h of
                       (Inl _, h1) \<Rightarrow> (1, h1)
                     | (Inr _, h1) \<Rightarrow> (0, h1))))"

definition run_restore ::
  "backup_lib \<Rightarrow> os_faults \<Rightarrow> string \<Rightarrow> string \<Rightarrow> bool \<Rightarrow> host \<Rightarrow> nat \<times> host" where
  "run_restore K F input data_dir force h =
     (if input = [] \<or> data_dir = [] then (2, h)
      else case extract_backup K F input (path_abs h data_dir) force h of
             (Inl _, h1) \<Rightarrow> (1, h1)
           | (Inr _, h1) \<Rightarrow> (0, h1))"

end
