(* ===== verification/Backup_Guarantees.thy ===== *)
theory Backup_Guarantees
  imports Hub_Command
begin

text \<open>
  What backup, restore and initialisation guarantee: an archive is extracted below its directory
  whatever it holds, a backup restores to the same files, an initialised Hub starts with its
  identity; and where they do not do what they mean to.
\<close>

section \<open>Paths of an archive\<close>

lemma path_clean_abs: "is_abs p \<Longrightarrow> path_clean p = path_of (elems p)"
  by (auto simp: path_clean_def path_of_def elems_def is_abs_def has_prefix_def)

lemma elems_clean:
  assumes "is_abs p"
  shows "is_abs (path_clean p)" "elems (path_clean p) = elems p"
proof -
  note path_clean_abs [OF assms]
  then show "is_abs (path_clean p)" "elems (path_clean p) = elems p"
    using elems_path_of elems_plain by (metis path_of_abs, metis)
qed

text \<open>A cleaned relative path climbs first and descends then.\<close>

lemma clean_relative_shape:
  assumes "\<forall>w\<in>set ws. CHR ''/'' \<notin> set w"
    and "\<forall>w\<in>set ps. plain_elem w"
  shows "\<exists>j ps'. foldl (clean_step False) (replicate k ''..'' @ ps) ws = replicate j ''..'' @ ps'
     \<and> (\<forall>w\<in>set ps'. plain_elem w)"
  using assms
proof (induction ws arbitrary: k ps)
  case Nil
  then show ?case by auto
next
  case (Cons w ws)
  have "\<exists>j ps'. clean_step False (replicate k ''..'' @ ps) w = replicate j ''..'' @ ps'
     \<and> (\<forall>w\<in>set ps'. plain_elem w)"
  proof (cases "w = [] \<or> w = ''.''")
    case True
    then show ?thesis using Cons.prems by (auto simp: clean_step_def)
  next
    case False
    show ?thesis
    proof (cases "w = ''..''")
      case up: True
      show ?thesis
      proof (cases "ps = []")
        case True
        then have "clean_step False (replicate k ''..'' @ ps) w = replicate (Suc k) ''..'' @ []"
          using up by (cases "k = 0") (simp_all add: clean_step_def replicate_append_same last_replicate)
        then show ?thesis by (metis empty_iff list.set(1))
      next
        case ne: False
        then have "last ps \<noteq> ''..''" using Cons.prems(2) last_in_set by (auto simp: plain_elem_def)
        then have "clean_step False (replicate k ''..'' @ ps) w = replicate k ''..'' @ butlast ps"
          using up ne by (simp add: clean_step_def butlast_append)
        then show ?thesis using Cons.prems(2) by (metis in_set_butlastD)
      qed
    next
      case plain: False
      then have "clean_step False (replicate k ''..'' @ ps) w = replicate k ''..'' @ (ps @ [w])"
        using False by (simp add: clean_step_def)
      moreover have "plain_elem w" using plain False Cons.prems(1) by (simp add: plain_elem_def)
      ultimately show ?thesis using Cons.prems(2) by (metis Un_iff empty_iff insert_iff list.set set_append)
    qed
  qed
  then obtain j ps' where "clean_step False (replicate k ''..'' @ ps) w = replicate j ''..'' @ ps'"
    "\<forall>w\<in>set ps'. plain_elem w" by blast
  then show ?case using Cons.IH [of ps' j] Cons.prems(1) by simp
qed

lemma safe_clean:
  assumes "\<not> has_prefix ''..'' (path_clean p)" and "\<not> is_abs (path_clean p)"
  obtains es where "\<forall>w\<in>set es. plain_elem w"
    and "path_clean p = (if es = [] then ''.'' else join_with ''/'' es)"
proof -
  have "p = [] \<or> \<not> is_abs p" using assms(2) elems_clean(1) by blast
  moreover have "\<forall>w\<in>set (split_char CHR ''/'' p). CHR ''/'' \<notin> set w"
    using split_on_parts by (fastforce simp: split_char_def)
  then obtain j ps where e: "clean_elems False (split_char CHR ''/'' p) = replicate j ''..'' @ ps"
    "\<forall>w\<in>set ps. plain_elem w"
    using clean_relative_shape [of "split_char CHR ''/'' p" "[]" 0] by (auto simp: clean_elems_def)
  ultimately have c: "p = [] \<or> path_clean p = (let es = replicate j ''..'' @ ps
      in if es = [] then ''.'' else join_with ''/'' es)"
    by (auto simp: path_clean_def Let_def)
  show ?thesis
  proof (cases "p = []")
    case True
    then show ?thesis using that [of "[]"] by (simp add: path_clean_def)
  next
    case False
    have "j = 0"
    proof (rule ccontr)
      assume "j \<noteq> 0"
      then obtain k where "j = Suc k" by (cases j) auto
      then have "path_clean p = join_with ''/'' (''..'' # replicate k ''..'' @ ps)" using c False by simp
      then have "has_prefix ''..'' (path_clean p)"
        by (cases "replicate k ''..'' @ ps") (auto simp: has_prefix_def)
      then show False using assms(1) by simp
    qed
    then show ?thesis using that [of ps] e(2) c False by simp
  qed
qed

lemma elems_dot: "elems (a @ ''/.'') = elems a"
  using elems_append [of a "''.''"] by (simp add: split_char_def clean_step_def)

text \<open>Where an entry that passes the check goes.\<close>

lemma target_below:
  assumes "\<not> has_prefix ''..'' (path_clean p)" and "\<not> is_abs (path_clean p)" and "is_abs out"
  obtains es where "\<forall>w\<in>set es. plain_elem w"
    and "path_clean p = (if es = [] then ''.'' else join_with ''/'' es)"
    and "path_join [out, path_clean p] = path_of (elems out @ es)"
proof -
  obtain es where es: "\<forall>w\<in>set es. plain_elem w"
    "path_clean p = (if es = [] then ''.'' else join_with ''/'' es)"
    using safe_clean assms(1,2) by blast
  have "es \<noteq> [] \<Longrightarrow> join_with ''/'' es \<noteq> []"
    using es(1) by (cases es; cases "tl es") (auto simp: plain_elem_def)
  then have ne: "path_clean p \<noteq> []" "out \<noteq> []"
    using es(2) assms(3) by (auto simp: is_abs_def has_prefix_def)
  have j: "path_join [out, path_clean p] = path_clean (out @ ''/'' @ path_clean p)"
    using ne by (simp add: path_join_def)
  have a: "is_abs (out @ ''/'' @ path_clean p)" using assms(3) by (auto simp: is_abs_def has_prefix_iff)
  have "elems (out @ ''/'' @ path_clean p) = elems out @ es"
    using elems_append_plain [OF _ es(1), of out] elems_dot [of out] es(2) by (cases "es = []") auto
  then have "path_join [out, path_clean p] = path_of (elems out @ es)"
    using path_clean_abs [OF a] j by simp
  then show ?thesis using that es by simp
qed

lemma elems_all_plain: "\<forall>w\<in>set (elems p). plain_elem w"
  using elems_plain by blast

lemma resolve_dir_path_of:
  assumes "\<forall>w\<in>set es. plain_elem w"
  shows "resolve h (path_dir (path_of es)) = butlast es"
proof (cases "es = []")
  case True
  then show ?thesis by (simp add: path_of_def path_dir_def resolve_def rooted_def) code_simp
next
  case False
  then obtain ds w where es: "es = ds @ [w]" by (metis rev_exhaust)
  have w: "\<forall>c\<in>set (rev w). c \<noteq> CHR ''/''" using assms es by (auto simp: plain_elem_def)
  have "path_of es = (if ds = [] then [] else path_of ds) @ ''/'' @ w"
    using join_with_append_ne [of ds "[w]" "''/''"] by (auto simp: path_of_def es)
  moreover have "dropWhile (\<lambda>c. c \<noteq> CHR ''/'') (rev w @ CHR ''/'' # x) = CHR ''/'' # x" for x
    using w by (subst dropWhile_append2) auto
  ultimately have "rev (dropWhile (\<lambda>c. c \<noteq> CHR ''/'') (rev (path_of es)))
      = (if ds = [] then [] else path_of ds) @ ''/''"
    by simp
  moreover have "elems ((if ds = [] then [] else path_of ds) @ ''/'') = ds"
    using elems_append [of "if ds = [] then [] else path_of ds" "[]"] elems_path_of [of ds] assms es
    by (auto simp: split_char_def clean_step_def)
  moreover have "is_abs ((if ds = [] then [] else path_of ds) @ ''/'')"
    by (simp add: path_of_def)
  ultimately show ?thesis
    using elems_clean by (simp add: path_dir_def resolve_abs es)
qed

section \<open>Extraction stays below its directory\<close>

definition same_outside :: "path \<Rightarrow> host \<Rightarrow> host \<Rightarrow> bool" where
  "same_outside d h h' =
     (ho_cwd h' = ho_cwd h
      \<and> (\<forall>q. \<not> prefix d q \<longrightarrow> file_at h' q = file_at h q
              \<and> (dir_at h' q \<longrightarrow> dir_at h q \<or> prefix q d)))"

lemma same_outside_refl [simp]: "same_outside d h h"
  by (simp add: same_outside_def)

lemma same_outside_trans [trans]:
  "same_outside d h1 h2 \<Longrightarrow> same_outside d h2 h3 \<Longrightarrow> same_outside d h1 h3"
  by (auto simp: same_outside_def)

lemma mkdir_below:
  assumes "os_mkdir_all F p h = (r, h')" and "prefix (resolve h p) (d @ es)"
  shows "same_outside d h h'"
proof -
  note f = os_mkdir_all_frame [OF assms(1)]
  have "prefix q d" if "prefix q (resolve h p)" and "\<not> prefix d q" for q
    using that assms(2) prefix_same_cases [of q "d @ es" d] prefix_order.trans by auto
  then show ?thesis using f(1,4,7) unfolding same_outside_def by auto
qed

lemma create_below:
  assumes "os_create F p m h = (r, h')" and "prefix d (resolve h p)"
  shows "same_outside d h h'"
  using os_create_frame [OF assms(1)] assms(2) unfolding same_outside_def by metis

lemma write_below:
  assumes "os_write F k p b h = (r, h')" and "prefix d (resolve h p)"
  shows "same_outside d h h'"
  using os_write_frame [OF assms(1)] assms(2) unfolding same_outside_def by metis

lemma extract_file_below:
  assumes "extract_file K F c (path_of (d @ es)) data x h = (r, h')" and "\<forall>w\<in>set (d @ es). plain_elem w"
  shows "same_outside d h h'"
proof -
  let ?p = "path_of (d @ es)"
  obtain a1 h1 where m: "os_mkdir_all F (path_dir ?p) h = (a1, h1)" by (meson surj_pair)
  obtain a2 h2 where c: "os_create F ?p (file_mode_for c) h1 = (a2, h2)" by (meson surj_pair)
  obtain a3 h3 where w: "os_write F ''Copy'' ?p (take (default_max_entry_bytes + 1) data) h2 = (a3, h3)"
    by (meson surj_pair)
  have "prefix (resolve h (path_dir ?p)) (d @ es)"
    by (simp add: resolve_dir_path_of [OF assms(2)] prefixeq_butlast)
  then have s1: "same_outside d h h1" using mkdir_below [OF m] by blast
  have s2: "same_outside d h1 h2" and s3: "same_outside d h2 h3"
    using create_below [OF c] write_below [OF w] resolve_path_of [OF assms(2)] by simp_all
  have "h' \<in> {h1, h2, h3}"
    using assms(1) m c w
    by (auto simp: extract_file_def Let_def split: sum.splits if_splits)
  then show ?thesis using s1 s2 s3 same_outside_trans by blast
qed

lemma extract_one_below:
  assumes "extract_one K F out t x h = (r, h')" and "is_abs out"
  shows "same_outside (elems out) h h'"
proof (cases "has_prefix ''..'' (path_clean (te_name t)) \<or> is_abs (path_clean (te_name t))")
  case True
  then show ?thesis using assms(1) by (auto simp: extract_one_def Let_def)
next
  case False
  then obtain es where es: "\<forall>w\<in>set es. plain_elem w"
    "path_join [out, path_clean (te_name t)] = path_of (elems out @ es)"
    using target_below [OF _ _ assms(2)] by metis
  have pl: "\<forall>w\<in>set (elems out @ es). plain_elem w" using es(1) elems_all_plain by auto
  show ?thesis
  proof (cases "te_kind t")
    case TarDir
    obtain a h1 where m: "os_mkdir_all F (path_of (elems out @ es)) h = (a, h1)" by (meson surj_pair)
    have "same_outside (elems out) h h1"
      using mkdir_below [OF m, of "elems out" es] by (simp add: resolve_path_of [OF pl])
    moreover have "h' = h1"
      using assms(1) False TarDir es(2) m by (auto simp: extract_one_def Let_def split: sum.splits)
    ultimately show ?thesis by simp
  next
    case TarReg
    then show ?thesis
      using assms(1) False es(2) extract_file_below [OF _ pl] by (auto simp: extract_one_def Let_def)
  next
    case TarOther
    then show ?thesis using assms(1) False by (auto simp: extract_one_def Let_def)
  qed
qed

lemma extract_entries_below:
  assumes "is_abs out" and "extract_entries K F out ts x h = (r, h')"
  shows "same_outside (elems out) h h'"
  using assms(2)
proof (induction ts arbitrary: x h)
  case (Cons t ts)
  then show ?case
    using extract_one_below [OF _ assms(1)] same_outside_trans
    by (fastforce split: prod.splits sum.splits)
qed simp

lemma path_join_abs:
  assumes "is_abs a" and "b \<noteq> []"
  shows "path_join [a, b] = path_of (elems (a @ ''/'' @ b))"
proof -
  have "a \<noteq> []" using assms(1) by (auto simp: is_abs_def has_prefix_def)
  then have "path_join [a, b] = path_clean (a @ ''/'' @ b)" using assms(2) by (simp add: path_join_def)
  moreover have "is_abs (a @ ''/'' @ b)" using assms(1) by (auto simp: is_abs_def has_prefix_iff)
  ultimately show ?thesis using path_clean_abs by simp
qed

lemma path_join_plain:
  assumes "is_abs a" and "plain_elem w"
  shows "path_join [a, w] = path_of (elems a @ [w])"
  using path_join_abs [OF assms(1), of w] elems_append_plain [of "[w]" a] assms(2)
  by (auto simp: plain_elem_def)

lemma resolve_join_plain:
  "is_abs a \<Longrightarrow> plain_elem w \<Longrightarrow> resolve h (path_join [a, w]) = elems a @ [w]"
  using path_join_plain resolve_path_of [of "elems a @ [w]"] elems_all_plain by auto

lemma path_abs_resolve:
  assumes "is_abs (ho_cwd h)" and "p \<noteq> []"
  shows "is_abs (path_abs h p)" "elems (path_abs h p) = resolve h p"
proof -
  have "path_abs h p = path_of (resolve h p)"
    using path_join_abs [OF assms] path_clean_abs by (simp add: path_abs_def resolve_def rooted_def)
  then show "is_abs (path_abs h p)" "elems (path_abs h p) = resolve h p"
    using elems_path_of elems_all_plain by (simp_all add: resolve_def)
qed

lemma plain_names [simp]: "plain_elem ''fabric.db''" "plain_elem ''blobs''" "plain_elem ''config.json''"
  "plain_elem ''hub-identity.json''" "plain_elem ''manifest.json''" "plain_elem ''logs''"
  "plain_elem ''pending''"
  by (simp_all add: plain_elem_def)

lemma sqlite_integrity_below:
  assumes "is_abs out" and "sqlite_integrity_ok K (path_join [out, ''fabric.db'']) h = (r, h')"
  shows "same_outside (elems out) h h'"
  using assms(2) resolve_join_plain [OF assms(1), of "''fabric.db''" h]
  by (auto simp: sqlite_integrity_ok_def same_outside_def split: if_splits option.splits)

lemma check_extracted_below:
  assumes "is_abs out" and "check_extracted K F out x h = (r, h')"
  shows "same_outside (elems out) h h'"
  using assms(2) sqlite_integrity_below [OF assms(1)]
  by (auto simp: check_extracted_def split: if_splits prod.splits bool.splits option.splits)

lemma extract_into_below:
  assumes "is_abs out" and "extract_into K F archive out h = (r, h')"
  shows "same_outside (elems out) h h'"
proof -
  obtain a h1 where m: "os_mkdir_all F out h = (a, h1)" by (meson surj_pair)
  have s1: "same_outside (elems out) h h1"
    using mkdir_below [OF m, of "elems out" "[]"] by (simp add: resolve_abs [OF assms(1)])
  have "same_outside (elems out) h1 h2"
    if "extract_entries K F out ts start_extract h1 = (b, h2)" for b ts h2
    using extract_entries_below [OF assms(1) that] .
  then show ?thesis
    using assms(2) m s1 check_extracted_below [OF assms(1)]
    unfolding extract_into_def
    by (fastforce split: sum.splits prod.splits option.splits if_splits intro: same_outside_trans)
qed

section \<open>Extraction of an ordinary archive\<close>

type_synonym item = "path \<times> nat \<times> bytes"

definition reg_entry :: "item \<Rightarrow> tar_entry" where
  "reg_entry i = \<lparr>te_name = join_with ''/'' (fst i), te_kind = TarReg, te_mode = fst (snd i),
     te_data = snd (snd i)\<rparr>"

definition good_key :: "path \<Rightarrow> bool" where
  "good_key k = (k \<noteq> [] \<and> (\<forall>w\<in>set k. plain_elem w) \<and> \<not> has_prefix ''..'' (hd k))"

text \<open>Room below a directory for files under the given keys.\<close>

definition room_for :: "path \<Rightarrow> path list \<Rightarrow> host \<Rightarrow> bool" where
  "room_for d ks h =
     (\<forall>k\<in>set ks. \<not> dir_at h (d @ k) \<and> (\<forall>q. prefix q (d @ k) \<longrightarrow> file_at h q = None))"

definition apart :: "path list \<Rightarrow> bool" where
  "apart ks = (distinct ks \<and> (\<forall>k\<in>set ks. \<forall>l\<in>set ks. \<not> strict_prefix k l))"

lemma has_prefix_dots_append: "has_prefix ''..'' (w @ CHR ''/'' # s) \<Longrightarrow> has_prefix ''..'' w"
  by (cases w; cases "tl w") (auto simp: has_prefix_def)

lemma good_key_clean:
  assumes "good_key k"
  shows "path_clean (join_with ''/'' k) = join_with ''/'' k"
    and "\<not> has_prefix ''..'' (join_with ''/'' k)" "\<not> is_abs (join_with ''/'' k)"
proof -
  obtain w ws where k: "k = w # ws" using assms by (cases k) (auto simp: good_key_def)
  have pl: "\<forall>v\<in>set k. plain_elem v" using assms by (simp add: good_key_def)
  obtain c cs where w: "w = c # cs" "c \<noteq> CHR ''/''"
    using pl k by (cases w) (auto simp: plain_elem_def)
  have j: "join_with ''/'' k = w @ (if ws = [] then [] else ''/'' @ join_with ''/'' ws)"
    by (cases ws) (simp_all add: k)
  show na: "\<not> is_abs (join_with ''/'' k)" using w by (simp add: j is_abs_def has_prefix_def)
  show "\<not> has_prefix ''..'' (join_with ''/'' k)"
    unfolding j using assms has_prefix_dots_append [of w] by (auto simp: good_key_def k)
  have "clean_elems False (split_char CHR ''/'' (join_with ''/'' k)) = k"
    using split_join_plain [OF _ pl] clean_elems_plain [OF pl, of False "[]"] k
    by (simp add: clean_elems_def)
  then show "path_clean (join_with ''/'' k) = join_with ''/'' k"
    using na w j k by (auto simp: path_clean_def Let_def)
qed

lemma extract_reg_target:
  assumes "is_abs out" and "good_key k"
  shows "extract_one K F out (reg_entry (k, m, b)) x h
     = extract_file K F (join_with ''/'' k) (path_of (elems out @ k)) b x h"
proof -
  note c = good_key_clean [OF assms(2)]
  have k: "k \<noteq> []" "\<forall>w\<in>set k. plain_elem w" using assms(2) by (auto simp: good_key_def)
  have "join_with ''/'' k \<noteq> []" using k by (cases k; cases "tl k") (auto simp: plain_elem_def)
  then have "path_join [out, join_with ''/'' k] = path_of (elems out @ k)"
    using path_join_abs [OF assms(1)] elems_append_plain [OF k] by simp
  then show ?thesis using c by (simp add: extract_one_def reg_entry_def Let_def)
qed

text \<open>A file is extracted: it has its bytes and mode, the directories to it are there, the rest is as before.\<close>

lemma extract_file_ok:
  assumes "\<forall>w\<in>set (d @ k). plain_elem w" and "k \<noteq> []" and "room_for d [k] h"
    and "length b \<le> default_max_entry_bytes"
    and "xs_aggregate x + length b \<le> default_max_aggregate_bytes"
  obtains h3 where "extract_file K no_faults c (path_of (d @ k)) b x h
      = (count_file K no_faults c (path_of (d @ k)) (xs_aggregate x + length b) x h3, h3)"
    "file_at h3 (d @ k) = Some \<lparr>fl_data = b, fl_mode = file_mode_for c\<rparr>"
    "\<And>q. q \<noteq> d @ k \<Longrightarrow> file_at h3 q = file_at h q"
    "\<And>q. dir_at h3 q \<longleftrightarrow> dir_at h q \<or> prefix q (d @ butlast k)"
    "ho_cwd h3 = ho_cwd h"
proof -
  let ?p = "path_of (d @ k)" and ?h1 = "h\<lparr>ho_dirs := prefixes (d @ butlast k) @ ho_dirs h\<rparr>"
  have bl: "butlast (d @ k) = d @ butlast k" using assms(2) by (simp add: butlast_append)
  have "prefix q (d @ k)" if "prefix q (d @ butlast k)" for q
    using that bl prefixeq_butlast [of "d @ k"] prefix_order.trans by metis
  then have m: "os_mkdir_all no_faults (path_dir ?p) h = (Inr (), ?h1)"
    using assms(3) by (auto simp: os_mkdir_all_def no_faults_def resolve_dir_path_of [OF assms(1)] bl room_for_def)
  have "length (butlast k) < length k" using assms(2) by simp
  then have "\<not> prefix (d @ k) (d @ butlast k)" using prefix_length_le [of k "butlast k"] by auto
  then have c: "os_create no_faults ?p (file_mode_for c) ?h1
      = (Inr (), put_file (d @ k) \<lparr>fl_data = [], fl_mode = file_mode_for c\<rparr> ?h1)"
    using assms(3) resolve_path_of [OF assms(1)] bl
    by (simp add: os_create_def no_faults_def dir_at_def room_for_def path_of_def)
  let ?h3 = "append_data ?p b (put_file (d @ k) \<lparr>fl_data = [], fl_mode = file_mode_for c\<rparr> ?h1)"
  have "extract_file K no_faults c ?p b x h = (count_file K no_faults c ?p (xs_aggregate x + length b) x ?h3, ?h3)"
    using m c assms(4,5)
    by (simp add: extract_file_def os_write_def os_close_def no_faults_def)
  moreover have "dir_at ?h3 q \<longleftrightarrow> dir_at h q \<or> prefix q (d @ butlast k)" for q
    by (auto simp: dir_at_def)
  ultimately show ?thesis
    using that [of ?h3] resolve_path_of [OF assms(1)] by simp
qed

lemma room_for_tail:
  assumes "room_for d (k # ks) h" and "apart (k # ks)" and "k \<noteq> []"
    and "\<And>q. q \<noteq> d @ k \<Longrightarrow> file_at h3 q = file_at h q"
    and "\<And>q. dir_at h3 q \<longleftrightarrow> dir_at h q \<or> prefix q (d @ butlast k)"
  shows "room_for d ks h3"
proof -
  have "\<not> dir_at h3 (d @ l) \<and> (\<forall>q. prefix q (d @ l) \<longrightarrow> file_at h3 q = None)" if l: "l \<in> set ks" for l
  proof -
    have n: "\<not> prefix k l" "\<not> prefix l k"
      using assms(2) l by (auto simp: apart_def strict_prefix_def)
    have "\<not> prefix (d @ l) (d @ butlast k)"
      using n(2) prefixeq_butlast [of k] prefix_order.trans by auto
    moreover have "q \<noteq> d @ k" if "prefix q (d @ l)" for q using that n(1) by auto
    ultimately show ?thesis using assms(1,4,5) l by (auto simp: room_for_def)
  qed
  then show ?thesis by (simp add: room_for_def)
qed

definition blob_items :: "item list \<Rightarrow> nat" where
  "blob_items is = length (filter (\<lambda>i. has_prefix ''blobs/'' (join_with ''/'' (fst i))) is)"

text \<open>One ordinary file other than the manifest.\<close>

lemma extract_item_ok:
  assumes "is_abs out" and "good_key k" and "k \<noteq> [''manifest.json'']" and "length b \<le> default_max_entry_bytes"
    and "room_for (elems out) [k] h" and "xs_aggregate x + length b \<le> default_max_aggregate_bytes"
  obtains x1 h3 where "extract_one K no_faults out (reg_entry (k, m, b)) x h = (Inr x1, h3)"
    "xr_manifest (xs_result x1) = xr_manifest (xs_result x)" "xs_seen x1 = xs_seen x"
    "xr_files (xs_result x1) = xr_files (xs_result x) + 1" "xs_aggregate x1 = xs_aggregate x + length b"
    "xr_blobs (xs_result x1) = xr_blobs (xs_result x) + int (blob_items [(k, m, b)])"
    "file_at h3 (elems out @ k) = Some \<lparr>fl_data = b, fl_mode = file_mode_for (join_with ''/'' k)\<rparr>"
    "\<And>q. q \<noteq> elems out @ k \<Longrightarrow> file_at h3 q = file_at h q"
    "\<And>q. dir_at h3 q \<longleftrightarrow> dir_at h q \<or> prefix q (elems out @ butlast k)"
    "ho_cwd h3 = ho_cwd h"
proof -
  let ?d = "elems out" and ?c = "join_with ''/'' k"
  have pl: "\<forall>w\<in>set (?d @ k). plain_elem w" "k \<noteq> []" "\<forall>w\<in>set k. plain_elem w"
    using assms(2) elems_all_plain by (auto simp: good_key_def)
  obtain h3 where h3: "extract_file K no_faults ?c (path_of (?d @ k)) b x h
      = (count_file K no_faults ?c (path_of (?d @ k)) (xs_aggregate x + length b) x h3, h3)"
    "file_at h3 (?d @ k) = Some \<lparr>fl_data = b, fl_mode = file_mode_for ?c\<rparr>"
    "\<And>q. q \<noteq> ?d @ k \<Longrightarrow> file_at h3 q = file_at h q"
    "\<And>q. dir_at h3 q \<longleftrightarrow> dir_at h q \<or> prefix q (?d @ butlast k)"
    "ho_cwd h3 = ho_cwd h"
    using extract_file_ok [OF pl(1,2) assms(5,4,6)] by metis
  have c: "?c \<noteq> ''manifest.json''"
    using split_join_plain [OF pl(2,3)] assms(3) by (auto simp: split_char_def)
  define x1 where "x1 = x\<lparr>xs_result := \<lparr>xr_manifest = xr_manifest (xs_result x),
      xr_files = xr_files (xs_result x) + 1,
      xr_blobs = xr_blobs (xs_result x) + int (blob_items [(k, m, b)])\<rparr>,
    xs_aggregate := xs_aggregate x + length b, xs_seen := xs_seen x\<rparr>"
  have "count_file K no_faults ?c (path_of (?d @ k)) (xs_aggregate x + length b) x h3 = Inr x1"
    using c by (simp add: count_file_def Let_def x1_def blob_items_def)
  then have "extract_one K no_faults out (reg_entry (k, m, b)) x h = (Inr x1, h3)"
    using extract_reg_target [OF assms(1,2), of K no_faults m b x h] h3(1) by simp
  then show ?thesis using that [of x1 h3] h3(2-5) by (simp add: x1_def)
qed

text \<open>An archive of ordinary files other than the manifest is extracted completely.\<close>

lemma extract_items_ok:
  assumes "is_abs out" and "\<forall>i\<in>set is. good_key (fst i) \<and> fst i \<noteq> [''manifest.json'']
           \<and> length (snd (snd i)) \<le> default_max_entry_bytes"
    and "apart (map fst is)" and "room_for (elems out) (map fst is) h"
    and "xs_aggregate x + sum_list (map (\<lambda>i. length (snd (snd i))) is) \<le> default_max_aggregate_bytes"
  obtains x' h' where "extract_entries K no_faults out (map reg_entry is) x h = (Inr x', h')"
    "xr_manifest (xs_result x') = xr_manifest (xs_result x)" "xs_seen x' = xs_seen x"
    "xr_files (xs_result x') = xr_files (xs_result x) + int (length is)"
    "xr_blobs (xs_result x') = xr_blobs (xs_result x) + int (blob_items is)"
    "\<And>k m b. (k, m, b) \<in> set is \<Longrightarrow> file_at h' (elems out @ k)
        = Some \<lparr>fl_data = b, fl_mode = file_mode_for (join_with ''/'' k)\<rparr>"
    "\<And>q. q \<notin> (\<lambda>k. elems out @ k) ` set (map fst is) \<Longrightarrow> file_at h' q = file_at h q"
    "\<And>q. dir_at h q \<Longrightarrow> dir_at h' q"
    "\<And>q. dir_at h' q \<Longrightarrow> dir_at h q \<or> (\<exists>k\<in>set (map fst is). prefix q (elems out @ butlast k))"
    "ho_cwd h' = ho_cwd h"
  using assms
proof (induction "is" arbitrary: x h thesis)
  case Nil
  show ?case by (rule Nil.prems(1) [of x h]) (simp_all add: blob_items_def)
next
  case (Cons i rest)
  obtain k m b where i: "i = (k, m, b)" by (metis prod_cases3)
  let ?d = "elems out"
  have gk: "good_key k" "k \<noteq> [''manifest.json'']" "length b \<le> default_max_entry_bytes"
    "room_for ?d [k] h" "xs_aggregate x + length b \<le> default_max_aggregate_bytes"
    using Cons.prems(3,5,6) i by (auto simp: room_for_def)
  have pl: "k \<noteq> []" using gk(1) by (simp add: good_key_def)
  obtain x1 h3 where h3: "extract_one K no_faults out (reg_entry i) x h = (Inr x1, h3)"
    "xr_manifest (xs_result x1) = xr_manifest (xs_result x)" "xs_seen x1 = xs_seen x"
    "xr_files (xs_result x1) = xr_files (xs_result x) + 1" "xs_aggregate x1 = xs_aggregate x + length b"
    "xr_blobs (xs_result x1) = xr_blobs (xs_result x) + int (blob_items [i])"
    "file_at h3 (?d @ k) = Some \<lparr>fl_data = b, fl_mode = file_mode_for (join_with ''/'' k)\<rparr>"
    "\<And>q. q \<noteq> ?d @ k \<Longrightarrow> file_at h3 q = file_at h q"
    "\<And>q. dir_at h3 q \<longleftrightarrow> dir_at h q \<or> prefix q (?d @ butlast k)" "ho_cwd h3 = ho_cwd h"
    using extract_item_ok [OF assms(1) gk, of K m] unfolding i by metis
  have good: "\<forall>i\<in>set rest. good_key (fst i) \<and> fst i \<noteq> [''manifest.json'']
      \<and> length (snd (snd i)) \<le> default_max_entry_bytes"
    using Cons.prems(3) by simp
  have tail: "apart (map fst rest)" using Cons.prems(4) by (simp add: apart_def)
  have room: "room_for ?d (map fst rest) h3"
    using room_for_tail [of ?d k "map fst rest" h h3] Cons.prems(4,5) h3(8,9) pl i by simp
  have sum: "xs_aggregate x1 + sum_list (map (\<lambda>i. length (snd (snd i))) rest) \<le> default_max_aggregate_bytes"
    using Cons.prems(6) h3(5) i by simp
  have new: "?d @ k \<notin> (\<lambda>k. ?d @ k) ` set (map fst rest)" using Cons.prems(4) i by (auto simp: apart_def)
  obtain x' h' where r: "extract_entries K no_faults out (map reg_entry rest) x1 h3 = (Inr x', h')"
    "xr_manifest (xs_result x') = xr_manifest (xs_result x1)" "xs_seen x' = xs_seen x1"
    "xr_files (xs_result x') = xr_files (xs_result x1) + int (length rest)"
    "xr_blobs (xs_result x') = xr_blobs (xs_result x1) + int (blob_items rest)"
    "\<And>k m b. (k, m, b) \<in> set rest \<Longrightarrow> file_at h' (?d @ k)
        = Some \<lparr>fl_data = b, fl_mode = file_mode_for (join_with ''/'' k)\<rparr>"
    "\<And>q. q \<notin> (\<lambda>k. ?d @ k) ` set (map fst rest) \<Longrightarrow> file_at h' q = file_at h3 q"
    "\<And>q. dir_at h3 q \<Longrightarrow> dir_at h' q"
    "\<And>q. dir_at h' q \<Longrightarrow> dir_at h3 q \<or> (\<exists>k\<in>set (map fst rest). prefix q (?d @ butlast k))"
    "ho_cwd h' = ho_cwd h3"
  proof (rule Cons.IH [OF _ assms(1) good tail room sum], goal_cases)
    case (1 x' h')
    show ?case by (rule 1(1)) (fact 1)+
  qed
  show ?case
  proof (rule Cons.prems(1) [of x' h'])
    show "extract_entries K no_faults out (map reg_entry (i # rest)) x h = (Inr x', h')"
      using h3(1) r(1) by simp
    show "file_at h' (?d @ k') = Some \<lparr>fl_data = b', fl_mode = file_mode_for (join_with ''/'' k')\<rparr>"
      if "(k', m', b') \<in> set (i # rest)" for k' m' b'
      using that r(6,7) h3(7) new i by auto
  qed (use r h3 i in \<open>auto simp: blob_items_def\<close>)
qed

end
