(* ===== verification/Backup_Roundtrip.thy ===== *)
theory Backup_Roundtrip
  imports Backup_Guarantees
begin

text \<open>
  The way of a backup: what an archive that Create reports as written holds, that Extract gives
  it back below a fresh directory, and that a Hub served from there has the configuration and
  the identity it had.
\<close>

definition backup_laws :: "backup_lib \<Rightarrow> bool" where
  "backup_laws K =
     ((\<forall>ts. bl_unpack K (bl_pack K ts) = Some (ts, False))
      \<and> (\<forall>m. bl_unmanifest K zero_manifest (bl_manifest K m) = Some m)
      \<and> (\<forall>h p b. bl_vacuum K h p = Some b \<longrightarrow> bl_integrity K b))"

definition host_ok :: "host \<Rightarrow> bool" where
  "host_ok h =
     (distinct (map fst (ho_files h))
      \<and> (\<forall>q. file_at h q \<noteq> None \<longrightarrow> (\<forall>w\<in>set q. plain_elem w) \<and> \<not> dir_at h q
              \<and> (\<forall>p. strict_prefix p q \<longrightarrow> dir_at h p \<and> file_at h p = None)))"

lemma tar_all_Inr: "tar_all rs = (ts, None) \<Longrightarrow> rs = map Inr ts"
proof (induction rs arbitrary: ts)
  case (Cons r rs)
  then show ?case by (cases r) (auto split: prod.splits)
qed simp

lemma tar_from_path_Inr:
  assumes "tar_from_path no_faults src dst h = Inr t"
  obtains f where "file_at h (resolve h src) = Some f" "\<not> dir_at h (resolve h src)"
    "t = \<lparr>te_name = dst, te_kind = TarReg, te_mode = fl_mode f, te_data = fl_data f\<rparr>"
  using assms
  by (auto simp: tar_from_path_def os_stat_def os_read_file_def no_faults_def
      split: if_splits option.splits sum.splits)

lemma walk_files_iff:
  assumes "distinct (map fst (ho_files h))"
  shows "(q, f) \<in> set (walk_files h root) \<longleftrightarrow> file_at h q = Some f \<and> prefix root q"
  using assms by (auto simp: walk_files_def file_at_def map_of_eq_Some_iff)

lemma walk_files_distinct:
  assumes "distinct (map fst (ho_files h))"
  shows "distinct (map fst (walk_files h root))"
proof -
  have "distinct (map fst (filter (\<lambda>(q, f). prefix root q) (ho_files h)))"
    using assms by (rule distinct_map_filter)
  then show ?thesis by (simp add: walk_files_def distinct_map)
qed

definition blob_item :: "path \<Rightarrow> path \<times> os_file \<Rightarrow> item" where
  "blob_item root = (\<lambda>(q, f). (drop (length root - 1) q, fl_mode f, fl_data f))"

lemma host_okD:
  assumes "host_ok h" and "file_at h q = Some f"
  shows "\<forall>w\<in>set q. plain_elem w" "\<not> dir_at h q"
    and "strict_prefix p q \<Longrightarrow> dir_at h p" "strict_prefix p q \<Longrightarrow> file_at h p = None"
  using assms unfolding host_ok_def by blast+

lemma map_Inr_eq: "map Inr xs = map Inr ys \<Longrightarrow> xs = ys"
proof (induction xs arbitrary: ys)
  case (Cons x xs)
  then show ?case by (cases ys) auto
qed simp

lemma walk_blobs_items:
  assumes "distinct (map fst (ho_files h))" and "p \<noteq> []"
    and "\<And>q f. file_at h q = Some f \<Longrightarrow> prefix (resolve h p) q \<Longrightarrow>
           (\<forall>w\<in>set q. plain_elem w) \<and> \<not> dir_at h q \<and> (q \<noteq> resolve h p \<longrightarrow> dir_at h (resolve h p))"
    and "walk_blobs no_faults p h = map Inr ts"
  shows "ts = map reg_entry (map (blob_item (resolve h p)) (walk_files h (resolve h p)))"
proof (cases "os_stat no_faults p h")
  case (Inl er)
  let ?r = "resolve h p"
  have "er = NotExist" using assms(4) Inl by (cases er) (auto simp: walk_blobs_def)
  then have no: "\<not> dir_at h ?r" "file_at h ?r = None"
    using Inl assms(2) by (auto simp: os_stat_def no_faults_def split: if_splits option.splits)
  have "(q, f) \<notin> set (walk_files h ?r)" for q f
    using no assms(3) walk_files_iff [OF assms(1)] by (metis option.distinct(1))
  then have "walk_files h ?r = []" by (metis list.set_intros(1) neq_Nil_conv surj_pair)
  moreover have "ts = []" using assms(4) Inl \<open>er = NotExist\<close> by (simp add: walk_blobs_def)
  ultimately show ?thesis by simp
next
  case (Inr a)
  then have eq: "map Inr ts = map (\<lambda>(q, f). tar_from_path no_faults (path_of q)
      (blob_entry_name (resolve h p) q) h) (walk_files h (resolve h p))"
    using assms(4) by (auto simp: walk_blobs_def no_faults_def)
  have "tar_from_path no_faults (path_of q) (blob_entry_name (resolve h p) q) h
      = Inr (reg_entry (blob_item (resolve h p) (q, f)))"
    if "(q, f) \<in> set (walk_files h (resolve h p))" for q f
  proof -
    have q: "file_at h q = Some f" "\<forall>w\<in>set q. plain_elem w" "\<not> dir_at h q"
      using that walk_files_iff [OF assms(1)] assms(3) by blast+
    then show ?thesis
      using resolve_path_of [OF q(2), of h]
      by (simp add: tar_from_path_def os_stat_def os_read_file_def no_faults_def path_of_def [of q]
          reg_entry_def blob_item_def blob_entry_name_def)
  qed
  then have "map (\<lambda>(q, f). tar_from_path no_faults (path_of q) (blob_entry_name (resolve h p) q) h)
        (walk_files h (resolve h p))
      = map (\<lambda>x. Inr (reg_entry (blob_item (resolve h p) x))) (walk_files h (resolve h p))"
    by (intro map_cong) auto
  then have "map (Inr :: tar_entry \<Rightarrow> os_error + tar_entry) ts
      = map Inr (map (\<lambda>x. reg_entry (blob_item (resolve h p) x)) (walk_files h (resolve h p)))"
    using eq by (simp add: comp_def)
  then have "ts = map (\<lambda>x. reg_entry (blob_item (resolve h p) x)) (walk_files h (resolve h p))"
    by (rule map_Inr_eq)
  then show ?thesis by (simp add: comp_def)
qed

text \<open>What has happened to the files when the archive is begun: the snapshot and the empty archive are new.\<close>

lemma put_file_distinct:
  "distinct (map fst (ho_files h)) \<Longrightarrow> distinct (map fst (ho_files (put_file q f h)))"
  "distinct (map fst (ho_files h)) \<Longrightarrow> distinct (map fst (ho_files (drop_file q h)))"
  by (simp_all add: put_file_def drop_file_def distinct_update distinct_delete)

lemma os_create_distinct:
  assumes "os_create F p m h = (r, h')" and "distinct (map fst (ho_files h))"
  shows "distinct (map fst (ho_files h'))"
  using assms put_file_distinct(1) [OF assms(2)]
  by (auto simp: os_create_def split: if_splits option.splits)

lemma os_mkdir_files: "os_mkdir_all F p h = (r, h') \<Longrightarrow> ho_files h' = ho_files h"
  by (auto simp: os_mkdir_all_def split: if_splits)

lemma os_remove_distinct:
  "distinct (map fst (ho_files h)) \<Longrightarrow> distinct (map fst (ho_files (snd (os_remove F p h))))"
  using put_file_distinct(2) by (simp add: os_remove_def)

lemma vacuum_into_Inr:
  assumes "vacuum_into K F src target h = (Inr u, h')"
  obtains b hv where "bl_vacuum K hv src = Some b"
    "file_at h' (resolve h target) = Some \<lparr>fl_data = b, fl_mode = 420\<rparr>"
    "\<And>q. q \<noteq> resolve h target \<Longrightarrow> file_at h' q = file_at h q"
    "dir_at h' = dir_at h" "resolve h' = resolve h"
    "distinct (map fst (ho_files h)) \<Longrightarrow> distinct (map fst (ho_files h'))"
proof -
  let ?h1 = "snd (os_remove F target h)"
  note f = os_remove_frame [of F target h "fst (os_remove F target h)" ?h1, simplified]
  obtain b where b: "bl_vacuum K ?h1 src = Some b"
    "h' = put_file (resolve ?h1 target) \<lparr>fl_data = b, fl_mode = 420\<rparr> ?h1"
    using assms by (auto simp: vacuum_into_def Let_def split: if_splits option.splits)
  show ?thesis
  proof (rule that [OF b(1)])
    show "distinct (map fst (ho_files h'))" if "distinct (map fst (ho_files h))"
      using put_file_distinct(1) [OF os_remove_distinct [OF that]] b(2) by simp
  qed (use b(2) f in simp_all)
qed

lemma write_archive_Inr:
  assumes "write_archive K no_faults out m ins snap h = (Inr u, h')"
  obtains h2 h3 ts where "os_mkdir_all no_faults (path_dir out) h = (Inr (), h2)"
    "os_create no_faults out 416 h2 = (Inr (), h3)"
    "archive_entries K no_faults m ins snap h3 = map Inr ts"
    "h' = append_data out (bl_pack K ts) h3"
  using assms tar_all_Inr
  by (auto simp: write_archive_def no_faults_def Let_def split: sum.splits prod.splits option.splits)

lemma archive_entries_Inr:
  assumes "archive_entries K no_faults m ins snap h = map Inr ts"
  obtains cf idf sf tb where "file_at h (resolve h (in_config_path ins)) = Some cf"
    "file_at h (resolve h (in_identity_path ins)) = Some idf"
    "file_at h (resolve h snap) = Some sf"
    "walk_blobs no_faults (in_blobs_root ins) h = map Inr tb"
    "ts = map reg_entry [([''manifest.json''], 416, bl_manifest K m),
        ([''config.json''], fl_mode cf, fl_data cf), ([''hub-identity.json''], fl_mode idf, fl_data idf),
        ([''fabric.db''], fl_mode sf, fl_data sf)] @ tb"
proof -
  obtain t1 t2 t3 t4 tb where ts: "ts = t1 # t2 # t3 # t4 # tb"
    and t: "t1 = \<lparr>te_name = ''manifest.json'', te_kind = TarReg, te_mode = 416, te_data = bl_manifest K m\<rparr>"
    "tar_from_path no_faults (in_config_path ins) ''config.json'' h = Inr t2"
    "tar_from_path no_faults (in_identity_path ins) ''hub-identity.json'' h = Inr t3"
    "tar_from_path no_faults snap ''fabric.db'' h = Inr t4"
    "walk_blobs no_faults (in_blobs_root ins) h = map Inr tb"
    using assms unfolding archive_entries_def by (auto simp: Cons_eq_map_conv)
  obtain cf where cf: "file_at h (resolve h (in_config_path ins)) = Some cf"
    "t2 = \<lparr>te_name = ''config.json'', te_kind = TarReg, te_mode = fl_mode cf, te_data = fl_data cf\<rparr>"
    using tar_from_path_Inr [OF t(2)] by metis
  obtain idf where idf: "file_at h (resolve h (in_identity_path ins)) = Some idf"
    "t3 = \<lparr>te_name = ''hub-identity.json'', te_kind = TarReg, te_mode = fl_mode idf, te_data = fl_data idf\<rparr>"
    using tar_from_path_Inr [OF t(3)] by metis
  obtain sf where sf: "file_at h (resolve h snap) = Some sf"
    "t4 = \<lparr>te_name = ''fabric.db'', te_kind = TarReg, te_mode = fl_mode sf, te_data = fl_data sf\<rparr>"
    using tar_from_path_Inr [OF t(4)] by metis
  show ?thesis
    using that [OF cf(1) idf(1) sf(1) t(5)] ts t(1) cf(2) idf(2) sf(2) by (simp add: reg_entry_def)
qed

lemma os_mkdir_no_file:
  "os_mkdir_all F p h = (Inr u, h') \<Longrightarrow> file_at h q \<noteq> None \<Longrightarrow> dir_at h' q \<Longrightarrow> dir_at h q"
  by (auto simp: os_mkdir_all_def dir_at_def split: if_splits)

text \<open>
  What has become of the files when the archive is begun: nothing but the snapshot and the empty
  archive is new, and no directory but those that lead to the archive.
\<close>

lemma archive_begun:
  assumes "os_mkdir_all no_faults (path_dir out) h1 = (Inr (), h2)"
    and "os_create no_faults out 416 h2 = (Inr (), h3)" and "is_abs out"
  shows "\<And>q. q \<noteq> elems out \<Longrightarrow> file_at h3 q = file_at h1 q" "resolve h3 = resolve h1"
    "\<And>q. dir_at h3 q \<Longrightarrow> dir_at h1 q \<or> prefix q (resolve h1 (path_dir out))"
    "\<And>q. dir_at h1 q \<Longrightarrow> dir_at h3 q"
    "distinct (map fst (ho_files h1)) \<Longrightarrow> distinct (map fst (ho_files h3))"
    "\<exists>f. file_at h3 (elems out) = Some f \<and> fl_data f = []"
    "\<And>q. file_at h1 q \<noteq> None \<Longrightarrow> dir_at h3 q \<Longrightarrow> dir_at h1 q"
proof -
  note m = os_mkdir_all_frame [OF assms(1)] and c = os_create_frame [OF assms(2)]
  have out: "resolve h out = elems out" for h using resolve_abs [OF assms(3)] .
  show "file_at h3 q = file_at h1 q" if "q \<noteq> elems out" for q using that c(1) m(1) out by simp
  show "resolve h3 = resolve h1" using c(2) m(2) by simp
  show "dir_at h1 q \<or> prefix q (resolve h1 (path_dir out))" if "dir_at h3 q" for q
    using that c(3) m(4) by simp
  show "dir_at h3 q" if "dir_at h1 q" for q using that c(3) m(3) by simp
  show "distinct (map fst (ho_files h3))" if "distinct (map fst (ho_files h1))"
    using that os_create_distinct [OF assms(2)] os_mkdir_files [OF assms(1)] by simp
  show "\<exists>f. file_at h3 (elems out) = Some f \<and> fl_data f = []" using c(7) [OF refl] out by simp
  show "dir_at h1 q" if "file_at h1 q \<noteq> None" "dir_at h3 q" for q
    using that c(3) os_mkdir_no_file [OF assms(1)] by simp
qed

lemma create_in_Inr:
  assumes "create_in B K e no_faults ins out hub_id d h = (Inr m, h')"
  obtains h1 h2 h3 ts u where
    "vacuum_into K no_faults (in_sqlite_path ins) (path_join [d, ''fabric.db'']) h = (Inr u, h1)"
    "os_mkdir_all no_faults (path_dir out) h1 = (Inr (), h2)"
    "os_create no_faults out 416 h2 = (Inr (), h3)"
    "archive_entries K no_faults m ins (path_join [d, ''fabric.db'']) h3 = map Inr ts"
    "h' = append_data out (bl_pack K ts) h3" "mf_hub_id m = hub_id" "mf_format m = archive_format"
proof -
  obtain u h1 where v: "vacuum_into K no_faults (in_sqlite_path ins) (path_join [d, ''fabric.db'']) h = (Inr u, h1)"
    using assms by (auto simp: create_in_def Let_def split: prod.splits sum.splits)
  then have "write_archive K no_faults out m ins (path_join [d, ''fabric.db'']) h1 = (Inr (), h')
     \<and> mf_hub_id m = hub_id \<and> mf_format m = archive_format"
    using assms by (auto simp: create_in_def Let_def split: prod.splits sum.splits)
  then show ?thesis using that [OF v] write_archive_Inr by metis
qed

lemma file_at_remove_all: "file_at (remove_all d h) q = (if prefix d q then None else file_at h q)"
proof -
  have "map_of (filter (\<lambda>(q, f). \<not> prefix d q) xs) q = (if prefix d q then None else map_of xs q)"
    for xs :: "(path \<times> os_file) list"
    by (induction xs) auto
  then show ?thesis by (simp add: file_at_def remove_all_def)
qed

lemma remove_all_frame [simp]: "ho_cwd (remove_all d h) = ho_cwd h" "resolve (remove_all d h) = resolve h"
  "dir_at (remove_all d h) q \<Longrightarrow> dir_at h q"
  by (auto simp: remove_all_def resolve_def rooted_def fun_eq_iff dir_at_def)

lemma mkdir_temp_Inr:
  assumes "mkdir_temp no_faults dir rnd h = (Inr d, h1)" and "is_abs dir"
    and "plain_elem (''.backup-snapshot-'' @ rnd)"
  shows "d = path_of (elems dir @ [''.backup-snapshot-'' @ rnd])"
    "file_at h1 = file_at h" "resolve h1 = resolve h" "ho_files h1 = ho_files h"
    "file_at h (elems dir @ [''.backup-snapshot-'' @ rnd]) = None"
    "\<not> dir_at h (elems dir @ [''.backup-snapshot-'' @ rnd])"
    "\<And>q. dir_at h1 q \<longleftrightarrow> dir_at h q \<or> q = elems dir @ [''.backup-snapshot-'' @ rnd]"
  using assms path_join_plain [OF assms(2,3)] resolve_join_plain [OF assms(2,3)]
  by (auto simp: mkdir_temp_def Let_def dir_at_def split: if_splits)

lemma create_backup_Inr:
  assumes "create_backup B K e no_faults rnd ins out h = (Inr m, h')"
  obtains d h1 h2 hub_id where "mkdir_temp no_faults (in_data_dir ins) rnd h = (Inr d, h1)"
    "create_in B K e no_faults ins out hub_id d h1 = (Inr m, h2)" "h' = remove_all (resolve h d) h2"
    "read_hub_id B no_faults (in_identity_path ins) h = Inr hub_id"
  using assms by (auto simp: create_backup_def split: option.splits sum.splits prod.splits)

definition archive_items ::
  "backup_lib \<Rightarrow> manifest \<Rightarrow> os_file \<Rightarrow> os_file \<Rightarrow> bytes \<Rightarrow> path \<Rightarrow> (path \<times> os_file) list \<Rightarrow> item list" where
  "archive_items K m cf idf snap r fs =
     ([''manifest.json''], 416, bl_manifest K m) # ([''config.json''], fl_mode cf, fl_data cf)
     # ([''hub-identity.json''], fl_mode idf, fl_data idf) # ([''fabric.db''], 420, snap)
     # map (blob_item r) fs"

text \<open>
  What an archive that Create reports as written holds: the configuration, the identity, a
  snapshot by SQLite and every file below the blob root; and no other file has changed.
\<close>

lemma create_backup_archive:
  fixes rnd :: string and ins :: backup_inputs
  defines "dd \<equiv> elems (in_data_dir ins)"
  defines "tmp \<equiv> dd @ [''.backup-snapshot-'' @ rnd]" and "root \<equiv> dd @ [''blobs'']"
  assumes "create_backup B K e no_faults rnd ins out h = (Inr m, h')" and "host_ok h"
    and "is_abs (in_data_dir ins)" and "plain_elem (''.backup-snapshot-'' @ rnd)"
    and "in_blobs_root ins = path_of root" and "is_abs out"
    and "\<not> prefix root (elems out)" and "\<not> prefix tmp (elems out)"
    and "is_abs (in_config_path ins)" and "elems (in_config_path ins) \<noteq> elems out"
    and "is_abs (in_identity_path ins)" and "elems (in_identity_path ins) \<noteq> elems out"
    and "file_at h (elems (in_config_path ins)) \<noteq> None"
  obtains cf idf hv snap fl fs where
    "file_at h (elems (in_config_path ins)) = Some cf"
    "file_at h (elems (in_identity_path ins)) = Some idf"
    "bl_vacuum K hv (in_sqlite_path ins) = Some snap"
    "file_at h' (elems out) = Some fl"
    "fl_data fl = bl_pack K (map reg_entry (archive_items K m cf idf snap root fs))"
    "\<And>q f. (q, f) \<in> set fs \<longleftrightarrow> file_at h q = Some f \<and> prefix root q" "distinct (map fst fs)"
    "\<And>q. q \<noteq> elems out \<Longrightarrow> file_at h' q = file_at h q" "resolve h' = resolve h"
    "mf_format m = archive_format"
    "read_hub_id B no_faults (in_identity_path ins) h = Inr (mf_hub_id m)"
proof -
  obtain d h1 h2 hub_id where c: "mkdir_temp no_faults (in_data_dir ins) rnd h = (Inr d, h1)"
    "create_in B K e no_faults ins out hub_id d h1 = (Inr m, h2)" "h' = remove_all (resolve h d) h2"
    "read_hub_id B no_faults (in_identity_path ins) h = Inr hub_id"
    by (rule create_backup_Inr [OF assms(4)])
  note mt = mkdir_temp_Inr [OF c(1) assms(6,7), folded dd_def, folded tmp_def]
  have pl: "\<forall>w\<in>set tmp. plain_elem w" "\<forall>w\<in>set root. plain_elem w"
    using assms(7) elems_all_plain by (auto simp: tmp_def root_def dd_def)
  have dabs: "is_abs d" "elems d = tmp" "resolve h d = tmp"
    using mt(1) elems_path_of [OF pl(1)] resolve_path_of [OF pl(1)] by simp_all
  have untouched: "\<not> prefix tmp q" if "file_at h q \<noteq> None" for q
  proof
    assume "prefix tmp q"
    then have "q = tmp \<or> strict_prefix tmp q" by (auto simp: strict_prefix_def)
    then show False using that mt(5,6) host_okD(3) [OF assms(5), of q] by blast
  qed
  obtain g1 g2 g3 ts u where s: 
    "vacuum_into K no_faults (in_sqlite_path ins) (path_join [d, ''fabric.db'']) h1 = (Inr u, g1)"
    "os_mkdir_all no_faults (path_dir out) g1 = (Inr (), g2)"
    "os_create no_faults out 416 g2 = (Inr (), g3)"
    "archive_entries K no_faults m ins (path_join [d, ''fabric.db'']) g3 = map Inr ts"
    "h2 = append_data out (bl_pack K ts) g3" "mf_hub_id m = hub_id" "mf_format m = archive_format"
    by (rule create_in_Inr [OF c(2)])
  have snap: "resolve g (path_join [d, ''fabric.db'']) = tmp @ [''fabric.db'']" for g
    using resolve_join_plain [OF dabs(1) plain_names(1)] dabs(2) by simp
  obtain snap hv where v: "bl_vacuum K hv (in_sqlite_path ins) = Some snap"
    "file_at g1 (tmp @ [''fabric.db'']) = Some \<lparr>fl_data = snap, fl_mode = 420\<rparr>"
    "\<And>q. q \<noteq> tmp @ [''fabric.db''] \<Longrightarrow> file_at g1 q = file_at h1 q" "dir_at g1 = dir_at h1"
    "resolve g1 = resolve h1" "distinct (map fst (ho_files h1)) \<Longrightarrow> distinct (map fst (ho_files g1))"
  proof (rule vacuum_into_Inr [OF s(1), unfolded snap], goal_cases)
    case (1 b hv)
    show ?case by (rule 1(1)) (fact 1)+
  qed
  note ab = archive_begun [OF s(2,3) assms(9)]
  have same: "file_at g3 q = file_at h q" if "q \<noteq> elems out" "\<not> prefix tmp q" for q
  proof -
    have "q \<noteq> tmp @ [''fabric.db'']" using that(2) by auto
    then show ?thesis using that(1) ab(1) v(3) mt(2) by simp
  qed
  have apart: "\<not> prefix tmp q \<and> q \<noteq> elems out" if "prefix root q" for q
  proof -
    have "\<not> prefix root tmp" "\<not> prefix tmp root" by (simp_all add: root_def tmp_def)
    then show ?thesis using that assms(10) prefix_same_cases [of root q tmp] by blast
  qed
  have dist: "distinct (map fst (ho_files g3))"
    using ab(5) v(6) mt(4) assms(5) by (simp add: host_ok_def)
  obtain cf idf sf tb where e: "file_at g3 (elems (in_config_path ins)) = Some cf"
    "file_at g3 (elems (in_identity_path ins)) = Some idf" "file_at g3 (tmp @ [''fabric.db'']) = Some sf"
    "walk_blobs no_faults (in_blobs_root ins) g3 = map Inr tb"
    "ts = map reg_entry [([''manifest.json''], 416, bl_manifest K m),
        ([''config.json''], fl_mode cf, fl_data cf), ([''hub-identity.json''], fl_mode idf, fl_data idf),
        ([''fabric.db''], fl_mode sf, fl_data sf)] @ tb"
    by (rule archive_entries_Inr [OF s(4), unfolded snap resolve_abs [OF assms(12)] resolve_abs [OF assms(14)]])
  let ?fs = "walk_files g3 root"
  have fs: "(q, f) \<in> set ?fs \<longleftrightarrow> file_at h q = Some f \<and> prefix root q" for q f
    using walk_files_iff [OF dist] same apart by metis
  have rr: "resolve g3 (in_blobs_root ins) = root" "in_blobs_root ins \<noteq> []"
    using assms(8) resolve_path_of [OF pl(2)] by (simp_all add: path_of_def)
  have tb: "tb = map reg_entry (map (blob_item root) ?fs)"
  proof (rule walk_blobs_items [OF dist rr(2) _ e(4), unfolded rr(1)])
    fix q f assume q: "file_at g3 q = Some f" "prefix root q"
    have hq: "file_at h q = Some f" and g1q: "file_at g1 q \<noteq> None"
      using q same apart ab(1) by (metis, metis option.distinct(1))
    have "\<not> dir_at g3 q"
      using ab(7) [OF g1q] v(4) mt(7) host_okD(2) [OF assms(5) hq] apart [OF q(2)] by auto
    moreover have "dir_at g3 root" if "q \<noteq> root"
      using host_okD(3) [OF assms(5) hq, of root] that q(2) ab(4) v(4) mt(7) by (auto simp: strict_prefix_def)
    ultimately show "(\<forall>w\<in>set q. plain_elem w) \<and> \<not> dir_at g3 q \<and> (q \<noteq> root \<longrightarrow> dir_at g3 root)"
      using host_okD(1) [OF assms(5) hq] by blast
  qed
  have sf: "sf = \<lparr>fl_data = snap, fl_mode = 420\<rparr>"
    using e(3) ab(1) [of "tmp @ [''fabric.db'']"] v(2) assms(11) by (metis option.inject prefixI)
  have cf: "file_at h (elems (in_config_path ins)) = Some cf"
    using e(1) same [OF assms(13)] untouched [OF assms(16)] by simp
  have "file_at h (elems (in_identity_path ins)) \<noteq> None"
    using c(4) by (auto simp: read_hub_id_def os_read_file_def resolve_abs [OF assms(14)]
        split: if_splits option.splits)
  then have idf: "file_at h (elems (in_identity_path ins)) = Some idf"
    using e(2) same [OF assms(15)] untouched by simp
  have ts: "ts = map reg_entry (archive_items K m cf idf snap root ?fs)"
    using e(5) tb sf by (simp add: archive_items_def)
  obtain fl where fl: "file_at h2 (elems out) = Some fl" "fl_data fl = bl_pack K ts"
    using ab(6) s(5) resolve_abs [OF assms(9)] by auto
  have frame: "file_at h' q = file_at h q" if "q \<noteq> elems out" for q
  proof (cases "prefix tmp q")
    case True
    then show ?thesis using c(3) dabs(3) untouched [of q]
      by (cases "file_at h q") (auto simp: file_at_remove_all)
  next
    case False
    then show ?thesis using that same c(3) s(5) dabs(3) resolve_abs [OF assms(9)]
      by (simp add: file_at_remove_all)
  qed
  have "resolve h' = resolve h" using c(3) s(5) ab(2) v(5) mt(3) by simp
  moreover have "file_at h' (elems out) = Some fl"
    using fl(1) c(3) dabs(3) assms(11) by (simp add: file_at_remove_all)
  moreover have "distinct (map fst ?fs)"
    using walk_files_distinct [OF dist] .
  ultimately show ?thesis using that [OF cf idf v(1) _ _ fs] fl(2) ts frame s(6,7) c(4) by simp
qed

section \<open>The way back\<close>

lemma blob_key:
  assumes "prefix (dd @ [''blobs'']) q"
  shows "\<exists>rest. q = dd @ ''blobs'' # rest \<and> fst (blob_item (dd @ [''blobs'']) (q, f)) = ''blobs'' # rest"
  using assms by (auto simp: blob_item_def prefix_def)

lemma fixed_keys_good:
  "good_key [''manifest.json'']" "good_key [''config.json'']" "good_key [''hub-identity.json'']"
  "good_key [''fabric.db'']"
  by (simp_all add: good_key_def has_prefix_def)

lemma apart_Cons:
  "apart (k # ks) \<longleftrightarrow> k \<notin> set ks \<and> apart ks \<and> (\<forall>l\<in>set ks. \<not> strict_prefix k l \<and> \<not> strict_prefix l k)"
  by (auto simp: apart_def)

lemma blob_keys:
  assumes "host_ok h" and "distinct (map fst fs)"
    and "\<And>q f. (q, f) \<in> set fs \<longleftrightarrow> file_at h q = Some f \<and> prefix (dd @ [''blobs'']) q"
  defines "ks \<equiv> map (fst \<circ> blob_item (dd @ [''blobs''])) fs"
  shows "apart ks" "k \<in> set ks \<Longrightarrow> good_key k \<and> hd k = ''blobs''"
proof -
  let ?g = "\<lambda>q. drop (length dd) q"
  have ks: "ks = map ?g (map fst fs)" by (auto simp: ks_def blob_item_def)
  have mem: "\<exists>rest. q = dd @ ''blobs'' # rest \<and> file_at h q \<noteq> None" if qs: "q \<in> set (map fst fs)" for q
  proof -
    obtain f where "file_at h q = Some f" "prefix (dd @ [''blobs'']) q"
      using qs assms(3) by auto
    then show ?thesis using blob_key by fastforce
  qed
  have inj: "q = q'" if "q \<in> set (map fst fs)" "q' \<in> set (map fst fs)" "?g q = ?g q'" for q q'
    using mem [OF that(1)] mem [OF that(2)] that(3) by auto
  have key: "\<exists>a. k = ''blobs'' # a \<and> file_at h (dd @ k) \<noteq> None" if k: "k \<in> set ks" for k
  proof -
    obtain q where q: "q \<in> set (map fst fs)" "k = ?g q" using k unfolding ks by auto
    then show ?thesis using mem [OF q(1)] by auto
  qed
  have "distinct ks" unfolding ks using assms(2) inj by (simp add: distinct_map inj_on_def)
  moreover have "\<not> strict_prefix k l" if m: "k \<in> set ks" "l \<in> set ks" for k l
  proof
    assume kl: "strict_prefix k l"
    obtain a b where ab: "k = ''blobs'' # a" "l = ''blobs'' # b"
      "file_at h (dd @ k) \<noteq> None" "file_at h (dd @ l) \<noteq> None"
      using key [OF m(1)] key [OF m(2)] by blast
    have "strict_prefix (dd @ k) (dd @ l)" using kl by (auto simp: strict_prefix_def)
    then show False using ab(3,4) host_okD(4) [OF assms(1), of "dd @ l" _ "dd @ k"] by fastforce
  qed
  ultimately show "apart ks" by (simp add: apart_def)
  show "good_key k \<and> hd k = ''blobs''" if k: "k \<in> set ks"
  proof -
    obtain a where a: "k = ''blobs'' # a" "file_at h (dd @ k) \<noteq> None"
      using key [OF k] by blast
    then obtain fl where "file_at h (dd @ k) = Some fl" by blast
    then have "\<forall>w\<in>set (dd @ k). plain_elem w" by (rule host_okD(1) [OF assms(1)])
    then show ?thesis using a by (simp add: good_key_def has_prefix_def)
  qed
qed

lemma archive_keys:
  assumes "host_ok h" and "distinct (map fst fs)"
    and "\<And>q f. (q, f) \<in> set fs \<longleftrightarrow> file_at h q = Some f \<and> prefix (dd @ [''blobs'']) q"
  shows "apart (map fst (archive_items K m cf idf snap (dd @ [''blobs'']) fs))"
    and "i \<in> set (archive_items K m cf idf snap (dd @ [''blobs'']) fs) \<Longrightarrow> good_key (fst i)"
    and "i \<in> set (tl (archive_items K m cf idf snap (dd @ [''blobs'']) fs)) \<Longrightarrow> fst i \<noteq> [''manifest.json'']"
proof -
  define ks where "ks = map (fst \<circ> blob_item (dd @ [''blobs''])) fs"
  note b = blob_keys [OF assms, folded ks_def]
  have hds: "\<forall>k\<in>set ks. k \<noteq> [w] \<and> \<not> strict_prefix [w] k \<and> \<not> strict_prefix k [w]"
    if "w \<noteq> ''blobs''" for w
  proof
    fix k assume "k \<in> set ks"
    then have "good_key k \<and> hd k = ''blobs''" using b(2) by blast
    then have "k = ''blobs'' # tl k" by (cases k) (auto simp: good_key_def)
    then obtain a where "k = ''blobs'' # a" by blast
    then show "k \<noteq> [w] \<and> \<not> strict_prefix [w] k \<and> \<not> strict_prefix k [w]"
      using that by (auto simp: strict_prefix_def)
  qed
  have four: "map fst (archive_items K m cf idf snap (dd @ [''blobs'']) fs)
      = [''manifest.json''] # [''config.json''] # [''hub-identity.json''] # [''fabric.db''] # ks"
    by (simp add: archive_items_def ks_def)
  show "apart (map fst (archive_items K m cf idf snap (dd @ [''blobs'']) fs))"
    unfolding four using b(1) hds [of "''manifest.json''"] hds [of "''config.json''"]
      hds [of "''hub-identity.json''"] hds [of "''fabric.db''"]
    by (auto simp: apart_Cons strict_prefix_def)
  show "good_key (fst i)" if "i \<in> set (archive_items K m cf idf snap (dd @ [''blobs'']) fs)"
    using that b(2) fixed_keys_good by (auto simp: archive_items_def ks_def)
  show "fst i \<noteq> [''manifest.json'']" if "i \<in> set (tl (archive_items K m cf idf snap (dd @ [''blobs'']) fs))"
    using that hds [of "''manifest.json''"] by (auto simp: archive_items_def ks_def)
qed

text \<open>The manifest of an archive is extracted and read.\<close>

lemma extract_manifest_ok:
  assumes "backup_laws K" and "is_abs out" and "room_for (elems out) [[''manifest.json'']] h"
    and "length (bl_manifest K m) \<le> default_max_entry_bytes"
  obtains x1 h3 where "extract_one K no_faults out (reg_entry ([''manifest.json''], md, bl_manifest K m))
        start_extract h = (Inr x1, h3)"
    "xr_manifest (xs_result x1) = m" "xs_seen x1" "xs_aggregate x1 = length (bl_manifest K m)"
    "xr_files (xs_result x1) = 1"
    "file_at h3 (elems out @ [''manifest.json'']) = Some \<lparr>fl_data = bl_manifest K m, fl_mode = 416\<rparr>"
    "\<And>q. q \<noteq> elems out @ [''manifest.json''] \<Longrightarrow> file_at h3 q = file_at h q"
    "\<And>q. dir_at h3 q \<longleftrightarrow> dir_at h q \<or> prefix q (elems out)" "ho_cwd h3 = ho_cwd h"
proof -
  let ?k = "[''manifest.json'']" and ?b = "bl_manifest K m" and ?d = "elems out"
  have pl: "\<forall>w\<in>set (?d @ ?k). plain_elem w" using elems_all_plain by auto
  have room: "xs_aggregate start_extract + length ?b \<le> default_max_aggregate_bytes"
    using assms(4) by (simp add: start_extract_def default_max_entry_bytes_def default_max_aggregate_bytes_def)
  obtain h3 where h3: "extract_file K no_faults ''manifest.json'' (path_of (?d @ ?k)) ?b start_extract h
      = (count_file K no_faults ''manifest.json'' (path_of (?d @ ?k))
           (xs_aggregate start_extract + length ?b) start_extract h3, h3)"
    "file_at h3 (?d @ ?k) = Some \<lparr>fl_data = ?b, fl_mode = file_mode_for ''manifest.json''\<rparr>"
    "\<And>q. q \<noteq> ?d @ ?k \<Longrightarrow> file_at h3 q = file_at h q"
    "\<And>q. dir_at h3 q \<longleftrightarrow> dir_at h q \<or> prefix q (?d @ butlast ?k)" "ho_cwd h3 = ho_cwd h"
    using extract_file_ok [OF pl _ assms(3,4) room] by blast
  have "\<not> dir_at h3 (?d @ ?k)" using h3(4) assms(3) by (auto simp: room_for_def prefix_def)
  then have "os_read_file no_faults (path_of (?d @ ?k)) h3 = Inr ?b"
    using h3(2) resolve_path_of [OF pl] by (simp add: os_read_file_def no_faults_def path_of_def)
  then have "read_manifest K no_faults (path_of (?d @ ?k)) zero_manifest h3 = Inr m"
    using assms(1) by (simp add: read_manifest_def backup_laws_def)
  moreover have "extract_one K no_faults out (reg_entry (?k, md, ?b)) start_extract h
      = extract_file K no_faults ''manifest.json'' (path_of (?d @ ?k)) ?b start_extract h"
    using extract_reg_target [OF assms(2) fixed_keys_good(1)] by simp
  ultimately show ?thesis
    using that [of _ h3] h3 by (simp add: count_file_def Let_def start_extract_def file_mode_for_def)
qed

definition fresh_dir :: "path \<Rightarrow> host \<Rightarrow> bool" where
  "fresh_dir d h =
     ((\<forall>q. prefix d q \<longrightarrow> file_at h q = None \<and> \<not> dir_at h q)
      \<and> (\<forall>q. prefix q d \<longrightarrow> file_at h q = None))"

lemma fresh_room:
  assumes "fresh_dir d h" and "\<And>q. file_at h1 q = file_at h q"
    and "\<And>q. dir_at h1 q \<longleftrightarrow> dir_at h q \<or> prefix q d" and "[] \<notin> set ks"
  shows "room_for d ks h1"
proof -
  have "\<not> prefix (d @ k) d" if "k \<in> set ks" for k
    using that assms(4) by (auto dest: prefix_length_le)
  moreover have "file_at h q = None" if "prefix q (d @ k)" for q k
    using that assms(1) prefix_same_cases [of q "d @ k" d] by (auto simp: fresh_dir_def)
  ultimately show ?thesis using assms(1-3) by (auto simp: room_for_def fresh_dir_def)
qed

text \<open>A well-formed archive is extracted as a whole.\<close>

lemma entries_extracted:
  assumes "backup_laws K" and "is_abs out" and room: "room_for (elems out) (map fst items) h1"
    and dirs: "\<And>q. prefix q (elems out) \<Longrightarrow> dir_at h1 q"
    and items: "apart (map fst items)" "\<forall>i\<in>set items. good_key (fst i)
         \<and> length (snd (snd i)) \<le> default_max_entry_bytes"
      "items = ([''manifest.json''], 416, bl_manifest K m) # rest"
      "\<forall>i\<in>set rest. fst i \<noteq> [''manifest.json'']"
    and "sum_list (map (\<lambda>i. length (snd (snd i))) items) \<le> default_max_aggregate_bytes"
  obtains x2 h2 where "extract_entries K no_faults out (map reg_entry items) start_extract h1 = (Inr x2, h2)"
    "xr_manifest (xs_result x2) = m" "xs_seen x2" "xr_files (xs_result x2) = int (length items)"
    "\<And>k md b. (k, md, b) \<in> set items \<Longrightarrow> file_at h2 (elems out @ k)
        = Some \<lparr>fl_data = b, fl_mode = file_mode_for (join_with ''/'' k)\<rparr>"
    "\<And>q. q \<notin> (\<lambda>k. elems out @ k) ` set (map fst items) \<Longrightarrow> file_at h2 q = file_at h1 q"
    "\<And>q. dir_at h1 q \<Longrightarrow> dir_at h2 q"
    "\<And>q. dir_at h2 q \<Longrightarrow> dir_at h1 q \<or> (\<exists>k\<in>set (map fst items). prefix q (elems out @ butlast k))"
    "ho_cwd h2 = ho_cwd h1"
proof -
  let ?d = "elems out"
  have apart: "apart ([''manifest.json''] # map fst rest)"
    and roomm: "room_for ?d ([''manifest.json''] # map fst rest) h1"
    using items(1,3) room by simp_all
  have "room_for ?d [[''manifest.json'']] h1" "length (bl_manifest K m) \<le> default_max_entry_bytes"
    using room items(2,3) by (auto simp: room_for_def)
  then obtain x1 h3 where m: "extract_one K no_faults out (reg_entry ([''manifest.json''], 416, bl_manifest K m))
        start_extract h1 = (Inr x1, h3)"
    "xr_manifest (xs_result x1) = m" "xs_seen x1" "xs_aggregate x1 = length (bl_manifest K m)"
    "xr_files (xs_result x1) = 1"
    "file_at h3 (?d @ [''manifest.json'']) = Some \<lparr>fl_data = bl_manifest K m, fl_mode = 416\<rparr>"
    "\<And>q. q \<noteq> ?d @ [''manifest.json''] \<Longrightarrow> file_at h3 q = file_at h1 q"
    "\<And>q. dir_at h3 q \<longleftrightarrow> dir_at h1 q \<or> prefix q ?d" "ho_cwd h3 = ho_cwd h1"
    using extract_manifest_ok [OF assms(1,2), of h1 m 416] by blast
  have room3: "room_for ?d (map fst rest) h3"
    by (rule room_for_tail [OF roomm apart]) (use m(7,8) in auto)
  have good: "\<forall>i\<in>set rest. good_key (fst i) \<and> fst i \<noteq> [''manifest.json'']
      \<and> length (snd (snd i)) \<le> default_max_entry_bytes"
    using items(2-4) by auto
  have sum: "xs_aggregate x1 + sum_list (map (\<lambda>i. length (snd (snd i))) rest) \<le> default_max_aggregate_bytes"
    using assms(9) items(3) m(4) by simp
  have apart_rest: "apart (map fst rest)" using apart by (simp add: apart_Cons)
  obtain x2 h2 where r: "extract_entries K no_faults out (map reg_entry rest) x1 h3 = (Inr x2, h2)"
    "xr_manifest (xs_result x2) = xr_manifest (xs_result x1)" "xs_seen x2 = xs_seen x1"
    "xr_files (xs_result x2) = xr_files (xs_result x1) + int (length rest)"
    "xr_blobs (xs_result x2) = xr_blobs (xs_result x1) + int (blob_items rest)"
    "\<And>k m b. (k, m, b) \<in> set rest \<Longrightarrow> file_at h2 (?d @ k)
        = Some \<lparr>fl_data = b, fl_mode = file_mode_for (join_with ''/'' k)\<rparr>"
    "\<And>q. q \<notin> (\<lambda>k. ?d @ k) ` set (map fst rest) \<Longrightarrow> file_at h2 q = file_at h3 q"
    "\<And>q. dir_at h3 q \<Longrightarrow> dir_at h2 q"
    "\<And>q. dir_at h2 q \<Longrightarrow> dir_at h3 q \<or> (\<exists>k\<in>set (map fst rest). prefix q (?d @ butlast k))"
    "ho_cwd h2 = ho_cwd h3"
  proof (rule extract_items_ok [where K = K, OF assms(2) good apart_rest room3 sum], goal_cases)
    case (1 x2 h2)
    show ?case by (rule 1(1)) (fact 1)+
  qed
  show ?thesis
  proof (rule that [of x2 h2])
    show "file_at h2 (?d @ k) = Some \<lparr>fl_data = b, fl_mode = file_mode_for (join_with ''/'' k)\<rparr>"
      if "(k, md, b) \<in> set items" for k md b
    proof (cases "(k, md, b) \<in> set rest")
      case True
      then show ?thesis by (rule r(6))
    next
      case False
      then have i: "k = [''manifest.json'']" "b = bl_manifest K m" using that items(3) by auto
      have "[''manifest.json''] \<notin> set (map fst rest)" using apart by (simp add: apart_Cons)
      then have "file_at h2 (?d @ [''manifest.json'']) = file_at h3 (?d @ [''manifest.json''])"
        by (intro r(7)) auto
      then show ?thesis using m(6) i by (simp add: file_mode_for_def)
    qed
    show "file_at h2 q = file_at h1 q" if "q \<notin> (\<lambda>k. ?d @ k) ` set (map fst items)" for q
      using that r(7) [of q] m(7) [of q] items(3) by auto
    show "dir_at h1 q \<or> (\<exists>k\<in>set (map fst items). prefix q (?d @ butlast k))" if "dir_at h2 q" for q
      using r(9) [OF that] m(8) dirs items(3) by auto
    show "dir_at h2 q" if "dir_at h1 q" for q using r(8) m(8) that by blast
    show "ho_cwd h2 = ho_cwd h1" using r(10) m(9) by simp
    show "extract_entries K no_faults out (map reg_entry items) start_extract h1 = (Inr x2, h2)"
      using items(3) m(1) r(1) by simp
  qed (use m(2,3,5) r(2-4) items(3) in simp_all)
qed

text \<open>No directory is where a file of the archive goes.\<close>

lemma keys_not_dirs:
  assumes "room_for d ks h1" and "apart ks" and "[] \<notin> set ks" and "k \<in> set ks"
    and "\<And>q. dir_at h2 q \<Longrightarrow> dir_at h1 q \<or> (\<exists>k\<in>set ks. prefix q (d @ butlast k))"
  shows "\<not> dir_at h2 (d @ k)"
proof
  assume "dir_at h2 (d @ k)"
  from assms(5) [OF this] obtain l where l: "l \<in> set ks" "prefix k (butlast l)"
    using assms(1,4) by (auto simp: room_for_def)
  have "l \<noteq> []" using l assms(3) by auto
  then have "length k < length l"
    using prefix_length_le [OF l(2)] length_greater_0_conv [of l] unfolding length_butlast by linarith
  moreover have "prefix k l" using l(2) prefixeq_butlast prefix_order.trans by blast
  ultimately have "strict_prefix k l" by (auto simp: strict_prefix_def)
  then show False using assms(2,4) l by (auto simp: apart_def)
qed

lemma archive_extracts:
  assumes "backup_laws K" and "is_abs out" and "fresh_dir (elems out) h"
    and items: "apart (map fst items)" "\<And>i. i \<in> set items \<Longrightarrow> good_key (fst i)"
      "items = ([''manifest.json''], 416, bl_manifest K m) # rest"
      "\<And>i. i \<in> set rest \<Longrightarrow> fst i \<noteq> [''manifest.json'']"
    and sizes: "\<And>i. i \<in> set items \<Longrightarrow> length (snd (snd i)) \<le> default_max_entry_bytes"
      "sum_list (map (\<lambda>i. length (snd (snd i))) items) \<le> default_max_aggregate_bytes"
    and db: "([''fabric.db''], md, snap) \<in> set rest" "bl_integrity K snap"
    and "mf_format m = archive_format" and "is_abs ar" and "file_at h (elems ar) = Some fl"
    and "\<not> dir_at h (elems ar)" and "fl_data fl = bl_pack K (map reg_entry items)"
  obtains res h2 where "extract_backup K no_faults ar out False h = (Inr res, h2)"
    "xr_manifest res = m" "xr_files res = int (length items)"
    "\<And>k m b. (k, m, b) \<in> set items \<Longrightarrow> file_at h2 (elems out @ k)
        = Some \<lparr>fl_data = b, fl_mode = file_mode_for (join_with ''/'' k)\<rparr>"
    "\<And>q. q \<notin> (\<lambda>k. elems out @ k) ` set (map fst items) \<Longrightarrow> file_at h2 q = file_at h q"
    "\<And>k. k \<in> set (map fst items) \<Longrightarrow> \<not> dir_at h2 (elems out @ k)"
    "ho_cwd h2 = ho_cwd h"
proof -
  let ?d = "elems out" and ?h1 = "h\<lparr>ho_dirs := prefixes (elems out) @ ho_dirs h\<rparr>"
  have dirs1: "dir_at ?h1 q \<longleftrightarrow> dir_at h q \<or> prefix q ?d" for q by (auto simp: dir_at_def)
  have mk: "os_mkdir_all no_faults out h = (Inr (), ?h1)"
    using assms(3) resolve_abs [OF assms(2)] by (auto simp: os_mkdir_all_def no_faults_def fresh_dir_def)
  have ne: "[] \<notin> set (map fst items)"
    using items(2) by (metis good_key_def imageE list.set_map)
  have room: "room_for ?d (map fst items) ?h1"
    using fresh_room [OF assms(3) _ dirs1 ne] by simp
  obtain x2 h2 where r: "extract_entries K no_faults out (map reg_entry items) start_extract ?h1 = (Inr x2, h2)"
    "xr_manifest (xs_result x2) = m" "xs_seen x2" "xr_files (xs_result x2) = int (length items)"
    "\<And>k md b. (k, md, b) \<in> set items \<Longrightarrow> file_at h2 (?d @ k)
        = Some \<lparr>fl_data = b, fl_mode = file_mode_for (join_with ''/'' k)\<rparr>"
    "\<And>q. q \<notin> (\<lambda>k. ?d @ k) ` set (map fst items) \<Longrightarrow> file_at h2 q = file_at ?h1 q"
    "\<And>q. dir_at ?h1 q \<Longrightarrow> dir_at h2 q"
    "\<And>q. dir_at h2 q \<Longrightarrow> dir_at ?h1 q \<or> (\<exists>k\<in>set (map fst items). prefix q (?d @ butlast k))"
    "ho_cwd h2 = ho_cwd ?h1"
  proof (rule entries_extracted [where m = m and rest = rest, OF assms(1,2) room], goal_cases)
    case (1 q) then show ?case using dirs1 by blast
  next
    case 2 show ?case by (rule items(1))
  next
    case 3 show ?case using items(2) sizes(1) by blast
  next
    case 4 show ?case by (rule items(3))
  next
    case 5 show ?case using items(4) by blast
  next
    case 6 show ?case by (rule sizes(2))
  next
    case (7 x2 h2) show ?case by (rule 7(1)) (fact 7)+
  qed
  have nodir: "\<not> dir_at h2 (?d @ k)" if "k \<in> set (map fst items)" for k
    by (rule keys_not_dirs [OF room items(1) ne that r(8)])
  have dbk: "([''fabric.db''], md, snap) \<in> set items" "[''fabric.db''] \<in> set (map fst items)"
    using db(1) items(3) by force+
  have "sqlite_integrity_ok K (path_join [out, ''fabric.db'']) h2 = (True, h2)"
    using nodir [OF dbk(2)] r(5) [OF dbk(1)] r(7) [of ?d] db(2) dirs1
    by (simp add: sqlite_integrity_ok_def resolve_join_plain [OF assms(2)])
  then have chk: "check_extracted K no_faults out x2 h2 = (Inr (xs_result x2), h2)"
    using r(2,3) assms(12) by (simp add: check_extracted_def sample_blob_readable_def no_faults_def)
  have arc: "\<not> dir_at ?h1 (elems ar)" "ar \<noteq> []"
    using assms(3,13-15) dirs1 by (auto simp: fresh_dir_def is_abs_def has_prefix_def)
  have "require_file no_faults ar ''archive'' h = None"
    using assms(13-15) arc(2) by (simp add: require_file_def os_stat_def no_faults_def resolve_abs)
  moreover have "dir_empty_or_absent no_faults out h = Inr True"
    using assms(3) by (simp add: dir_empty_or_absent_def no_faults_def fresh_dir_def resolve_abs [OF assms(2)])
  moreover have "os_read_file no_faults ar ?h1 = Inr (fl_data fl)"
    using arc assms(13,14) by (simp add: os_read_file_def no_faults_def resolve_abs)
  ultimately have "extract_backup K no_faults ar out False h = (Inr (xs_result x2), h2)"
    using mk r(1) chk assms(1,16)
    by (simp add: extract_backup_def extract_into_def backup_laws_def)
  then show ?thesis using that [of "xs_result x2" h2] r nodir by simp
qed

end
