(* ===== verification/Sample_Files.thy ===== *)
theory Sample_Files
  imports Backup_Roundtrip Sample_Hub
begin

text \<open>
  A machine with a Hub on it, with executable functions in the place of the JSON, tar and SQLite
  libraries, on which the properties of the Hub's files are applied.
\<close>

definition bool_text :: "bool \<Rightarrow> string" where
  "bool_text b = (if b then ''1'' else ''0'')"

definition config_fields :: "hub_config \<Rightarrow> string list" where
  "config_fields c =
     [cf_id c, cf_listen c, cf_data_dir c, cf_log_level c, cf_keypair_file c, cf_sqlite_db c,
      cf_blobs_dir c, int_text (cf_max_event_size c), int_text (cf_max_blob_count c),
      bool_text (cf_fsync_writes c), int_text (cf_retention_seconds c),
      int_text (cf_max_keys_per_grant c), bool_text (cf_strict_binding c),
      bool_text (cf_strict_mint c), bool_text (cf_strict_push c), int_text (cf_freshness_budget c)]"

definition config_of :: "string list \<Rightarrow> hub_config option" where
  "config_of ws =
     (if length ws \<noteq> 16 then None
      else Some \<lparr>cf_id = ws ! 0, cf_listen = ws ! 1, cf_data_dir = ws ! 2, cf_log_level = ws ! 3,
        cf_keypair_file = ws ! 4, cf_sqlite_db = ws ! 5, cf_blobs_dir = ws ! 6,
        cf_max_event_size = text_int (ws ! 7), cf_max_blob_count = text_int (ws ! 8),
        cf_fsync_writes = (ws ! 9 = ''1''), cf_retention_seconds = text_int (ws ! 10),
        cf_max_keys_per_grant = text_int (ws ! 11), cf_strict_binding = (ws ! 12 = ''1''),
        cf_strict_mint = (ws ! 13 = ''1''), cf_strict_push = (ws ! 14 = ''1''),
        cf_freshness_budget = text_int (ws ! 15)\<rparr>)"

definition identity_of :: "string list \<Rightarrow> hub_identity option" where
  "identity_of ws =
     (if length ws \<noteq> 5 then None
      else Some \<lparr>hi_hub_id = ws ! 0, hi_public_key = ws ! 1, hi_private_key = ws ! 2,
        hi_root_key = ws ! 3, hi_created_at = ws ! 4\<rparr>)"

definition sample_hub_lib :: hub_lib where
  "sample_hub_lib =
     \<lparr>hl_config = (\<lambda>c. frames (config_fields c)),
      hl_unconfig = (\<lambda>d b. Option.bind (parse_frames b) config_of),
      hl_identity = (\<lambda>i. frames [hi_hub_id i, hi_public_key i, hi_private_key i, hi_root_key i,
         hi_created_at i]),
      hl_unidentity = (\<lambda>b. Option.bind (parse_frames b) identity_of),
      hl_hub_id = (\<lambda>b. map_option hi_hub_id (Option.bind (parse_frames b) identity_of)),
      hl_keygen = (\<lambda>s. (take 32 (s @ replicate 32 stop), take 64 (s @ replicate 64 stop)))\<rparr>"

lemma bool_text [simp]: "bool_text b = ''1'' \<longleftrightarrow> b"
  by (simp add: bool_text_def)

lemma sample_hub_laws: "hub_json_laws sample_hub_lib" "keygen_laws sample_hub_lib"
proof -
  show "hub_json_laws sample_hub_lib"
    by (simp add: hub_json_laws_def sample_hub_lib_def config_fields_def config_of_def identity_of_def)
  have "min n k + (k - n) = k" for n k :: nat by arith
  then show "keygen_laws sample_hub_lib" by (simp add: keygen_laws_def sample_hub_lib_def)
qed

definition kind_text :: "tar_kind \<Rightarrow> string" where
  "kind_text k = (case k of TarDir \<Rightarrow> ''5'' | TarReg \<Rightarrow> ''0'' | TarOther \<Rightarrow> ''2'')"

definition text_kind :: "string \<Rightarrow> tar_kind" where
  "text_kind s = (if s = ''5'' then TarDir else if s = ''0'' then TarReg else TarOther)"

lemma text_kind [simp]: "text_kind (kind_text k) = k"
  by (cases k) (simp_all add: text_kind_def kind_text_def)

definition entry_frame :: "tar_entry \<Rightarrow> bytes" where
  "entry_frame t = frames [te_name t, kind_text (te_kind t), int_text (int (te_mode t)), te_data t]"

definition entry_of :: "bytes \<Rightarrow> tar_entry" where
  "entry_of b =
     (case parse_frames b of
        Some ws \<Rightarrow> \<lparr>te_name = ws ! 0, te_kind = text_kind (ws ! 1), te_mode = nat (text_int (ws ! 2)),
                   te_data = ws ! 3\<rparr>
      | None \<Rightarrow> \<lparr>te_name = [], te_kind = TarOther, te_mode = 0, te_data = []\<rparr>)"

lemma entry_of_frame [simp]: "entry_of (entry_frame t) = t"
  by (simp add: entry_of_def entry_frame_def)

definition sample_backup_lib :: backup_lib where
  "sample_backup_lib =
     \<lparr>bl_pack = (\<lambda>ts. frames (map entry_frame ts)),
      bl_unpack = (\<lambda>b. map_option (\<lambda>ws. (map entry_of ws, False)) (parse_frames b)),
      bl_manifest = (\<lambda>m. frames [mf_format m, int_text (mf_created_at m), mf_hub_id m,
         mf_binary_version m, int_text (mf_blob_count m), int_text (mf_sqlite_bytes m)]),
      bl_unmanifest = (\<lambda>d b. map_option (\<lambda>ws. \<lparr>mf_format = ws ! 0, mf_created_at = text_int (ws ! 1),
         mf_hub_id = ws ! 2, mf_binary_version = ws ! 3, mf_blob_count = text_int (ws ! 4),
         mf_sqlite_bytes = text_int (ws ! 5)\<rparr>) (parse_frames b)),
      bl_vacuum = (\<lambda>h p. map_option fl_data (file_at h (resolve h p))),
      bl_integrity = (\<lambda>b. True)\<rparr>"

lemma sample_backup_laws: "backup_laws sample_backup_lib"
  by (simp add: backup_laws_def sample_backup_lib_def comp_def)

section \<open>A machine\<close>

definition my_hub :: hub_config where
  "my_hub = default_config\<lparr>cf_data_dir := ''/d'', cf_max_event_size := 9, cf_max_blob_count := 9,
     cf_retention_seconds := 9, cf_max_keys_per_grant := 9, cf_freshness_budget := 9\<rparr>"

definition my_hub_identity :: hub_identity where
  "my_hub_identity =
     \<lparr>hi_hub_id = ''01A'', hi_public_key = replicate 32 stop, hi_private_key = replicate 64 stop,
      hi_root_key = replicate 32 mark, hi_created_at = ''now''\<rparr>"

definition hub_host :: host where
  "hub_host =
     \<lparr>ho_cwd = ''/'', ho_home = ''/h'',
      ho_files =
        [([''d'', ''config.json''], \<lparr>fl_data = hl_config sample_hub_lib my_hub, fl_mode = 416\<rparr>),
         ([''d'', ''hub-identity.json''],
           \<lparr>fl_data = hl_identity sample_hub_lib my_hub_identity, fl_mode = 384\<rparr>),
         ([''d'', ''fabric.db''], \<lparr>fl_data = ''rows'', fl_mode = 420\<rparr>),
         ([''d'', ''blobs'', ''ab'', ''E1''], \<lparr>fl_data = ''sealed'', fl_mode = 420\<rparr>)],
      ho_dirs = [[''d''], [''d'', ''blobs''], [''d'', ''blobs'', ''ab''], [''b'']]\<rparr>"

definition hub_env :: env where
  "hub_env = plain_env 0 (\<lambda>_. ''01B'')"

lemma hub_paths [simp]:
  "resolve h ''/d/config.json'' = [''d'', ''config.json'']"
  "resolve h ''/d/hub-identity.json'' = [''d'', ''hub-identity.json'']"
  "resolve h ''/d/fabric.db'' = [''d'', ''fabric.db'']" "resolve h ''/d/blobs'' = [''d'', ''blobs'']"
  "resolve h ''/b/hub.tgz'' = [''b'', ''hub.tgz'']" "resolve h ''/b'' = [''b'']" "resolve h ''/d'' = [''d'']"
  "resolve h ''/d/.backup-snapshot-7'' = [''d'', ''.backup-snapshot-7'']"
  "resolve h ''/d/.backup-snapshot-7/fabric.db'' = [''d'', ''.backup-snapshot-7'', ''fabric.db'']"
  "resolve h ''/d/blobs/ab/E1'' = [''d'', ''blobs'', ''ab'', ''E1'']"
  "path_dir ''/b/hub.tgz'' = ''/b''"
  by code_simp+

lemma hub_path_names [simp]:
  "hub_identity_path (my_hub\<lparr>cf_data_dir := ''/d''\<rparr>) = ''/d/hub-identity.json''"
  "sqlite_path (my_hub\<lparr>cf_data_dir := ''/d''\<rparr>) = ''/d/fabric.db''"
  "blobs_path (my_hub\<lparr>cf_data_dir := ''/d''\<rparr>) = ''/d/blobs''"
  "path_join [''/d'', ''.backup-snapshot-7''] = ''/d/.backup-snapshot-7''"
  "path_join [''/d/.backup-snapshot-7'', ''fabric.db''] = ''/d/.backup-snapshot-7/fabric.db''"
  "path_of [''d'', ''blobs'', ''ab'', ''E1''] = ''/d/blobs/ab/E1''"
  "blob_entry_name [''d'', ''blobs''] [''d'', ''blobs'', ''ab'', ''E1''] = ''blobs/ab/E1''"
  by code_simp+

lemma host_okI:
  assumes "distinct (map fst (ho_files h))"
    and "\<And>q f. (q, f) \<in> set (ho_files h) \<Longrightarrow> list_all plain_elem q \<and> \<not> dir_at h q
      \<and> list_all (\<lambda>p. p = q \<or> (dir_at h p \<and> file_at h p = None)) (prefixes q)"
  shows "host_ok h"
  using assms unfolding host_ok_def
  by (fastforce simp: file_at_def list_all_iff strict_prefix_def dest: map_of_SomeD)

lemma hub_host_ok: "host_ok hub_host"
proof (rule host_okI)
  show "distinct (map fst (ho_files hub_host))" by (simp add: hub_host_def)
  show "list_all plain_elem q \<and> \<not> dir_at hub_host q
      \<and> list_all (\<lambda>p. p = q \<or> (dir_at hub_host p \<and> file_at hub_host p = None)) (prefixes q)"
    if "(q, f) \<in> set (ho_files hub_host)" for q f
    using that by (auto simp: hub_host_def plain_elem_def dir_at_def file_at_def)
qed

definition hub_manifest :: manifest where
  "hub_manifest = \<lparr>mf_format = archive_format, mf_created_at = 0, mf_hub_id = ''01A'',
     mf_binary_version = ''1'', mf_blob_count = 1, mf_sqlite_bytes = 4\<rparr>"

lemma hub_loads: "load_config sample_hub_lib no_faults ''/d/config.json'' hub_host = Inr my_hub"
  "read_hub_id sample_hub_lib no_faults ''/d/hub-identity.json'' hub_host = Inr ''01A''"
  "load_identity sample_hub_lib no_faults False ''/d/hub-identity.json'' hub_host = Inr my_hub_identity"
proof -
  have f: "file_at hub_host [''d'', ''config.json'']
        = Some \<lparr>fl_data = hl_config sample_hub_lib my_hub, fl_mode = 416\<rparr>"
      "file_at hub_host [''d'', ''hub-identity.json'']
        = Some \<lparr>fl_data = hl_identity sample_hub_lib my_hub_identity, fl_mode = 384\<rparr>"
      "\<not> dir_at hub_host [''d'', ''config.json'']" "\<not> dir_at hub_host [''d'', ''hub-identity.json'']"
    by (simp_all add: hub_host_def file_at_def dir_at_def)
  have v: "validate_config my_hub = None"
    by (simp add: validate_config_def my_hub_def default_config_def log_levels_def)
  have w: "validate_identity my_hub_identity = None" "hi_hub_id my_hub_identity = ''01A''"
    by (simp_all add: validate_identity_def my_hub_identity_def)
  note laws = sample_hub_laws(1) [unfolded hub_json_laws_def]
  show "load_config sample_hub_lib no_faults ''/d/config.json'' hub_host = Inr my_hub"
    using f(1,3) laws v by (simp add: load_config_def os_read_file_def no_faults_def)
  show "read_hub_id sample_hub_lib no_faults ''/d/hub-identity.json'' hub_host = Inr ''01A''"
    using f(2,4) laws w by (simp add: read_hub_id_def os_read_file_def no_faults_def)
  show "load_identity sample_hub_lib no_faults False ''/d/hub-identity.json'' hub_host = Inr my_hub_identity"
    using f(2,4) laws w by (simp add: load_identity_def os_stat_def os_read_file_def no_faults_def)
qed

definition hub_entries :: "tar_entry list" where
  "hub_entries =
     map reg_entry
       [([''manifest.json''], 416, bl_manifest sample_backup_lib hub_manifest),
        ([''config.json''], 416, hl_config sample_hub_lib my_hub),
        ([''hub-identity.json''], 384, hl_identity sample_hub_lib my_hub_identity),
        ([''fabric.db''], 420, ''rows''),
        ([''blobs'', ''ab'', ''E1''], 420, ''sealed'')]"

definition hub_archived :: host where
  "hub_archived = hub_host\<lparr>ho_files := ho_files hub_host
       @ [([''b'', ''hub.tgz''], \<lparr>fl_data = bl_pack sample_backup_lib hub_entries, fl_mode = 416\<rparr>)],
     ho_dirs := [[], [''b'']] @ ho_dirs hub_host\<rparr>"

lemma hub_backup:
  "run_backup sample_hub_lib sample_backup_lib hub_env no_faults ''1'' ''7'' ''/d/config.json''
     ''/b/hub.tgz'' hub_host = (0, hub_archived)"
proof -
  let ?ins = "\<lparr>in_data_dir = ''/d'', in_config_path = ''/d/config.json'',
    in_identity_path = ''/d/hub-identity.json'', in_sqlite_path = ''/d/fabric.db'',
    in_blobs_root = ''/d/blobs'', in_binary_version = ''1''\<rparr>"
  define h1 where "h1 = hub_host\<lparr>ho_dirs := [''d'', ''.backup-snapshot-7''] # ho_dirs hub_host\<rparr>"
  let ?snap = "([''d'', ''.backup-snapshot-7'', ''fabric.db''], \<lparr>fl_data = ''rows'', fl_mode = 420\<rparr>)"
  define h2 where "h2 = h1\<lparr>ho_files := ho_files hub_host @ [?snap]\<rparr>"
  define h3 where "h3 = h2\<lparr>ho_dirs := [[], [''b'']] @ ho_dirs h2\<rparr>"
  let ?arc = "\<lambda>b. ([''b'', ''hub.tgz''], \<lparr>fl_data = b, fl_mode = 416\<rparr>)"
  define h4 where "h4 b = h3\<lparr>ho_files := ho_files hub_host @ [?snap, ?arc b]\<rparr>" for b
  note hs = hub_host_def h4_def h3_def h2_def h1_def
  have n: "normalize_data_dir hub_host my_hub = Inr (my_hub\<lparr>cf_data_dir := ''/d''\<rparr>)" by code_simp
  have r: "require_file no_faults ''/d/config.json'' x hub_host = None"
     "require_file no_faults ''/d/hub-identity.json'' x hub_host = None"
     "require_file no_faults ''/d/fabric.db'' x hub_host = None" for x
    by (simp_all add: require_file_def os_stat_def no_faults_def hs file_at_def dir_at_def)
  have m: "mkdir_temp no_faults ''/d'' ''7'' hub_host = (Inr ''/d/.backup-snapshot-7'', h1)"
    by (simp add: mkdir_temp_def no_faults_def hs file_at_def dir_at_def)
  have v: "vacuum_into sample_backup_lib no_faults ''/d/fabric.db'' ''/d/.backup-snapshot-7/fabric.db'' h1
      = (Inr (), h2)"
    by (simp add: vacuum_into_def os_remove_def no_faults_def hs file_at_def dir_at_def
        has_quotes_def sample_backup_lib_def put_file_def)
  have c: "count_blobs no_faults ''/d/blobs'' h2 = Inr 1"
      "os_stat no_faults ''/d/.backup-snapshot-7/fabric.db'' h2 = Inr (False, 420, 4)"
    by (simp_all add: count_blobs_def os_stat_def no_faults_def hs file_at_def dir_at_def
        walk_files_def)
  have w: "os_mkdir_all no_faults ''/b'' h2 = (Inr (), h3)"
      "os_create no_faults ''/b/hub.tgz'' 416 h3 = (Inr (), h4 [])"
    by (simp_all add: os_mkdir_all_def os_create_def no_faults_def hs file_at_def dir_at_def
        put_file_def)
  have e: "archive_entries sample_backup_lib no_faults hub_manifest ?ins ''/d/.backup-snapshot-7/fabric.db''
      (h4 []) = map Inr hub_entries"
    by (simp add: archive_entries_def hub_entries_def reg_entry_def tar_from_path_def os_stat_def
        os_read_file_def no_faults_def hs file_at_def dir_at_def walk_blobs_def walk_files_def)
  have t: "tar_all (map Inr ts) = (ts, None)" for ts by (induction ts) auto
  have f: "\<not> of_fails no_faults k p" for k p by (simp add: no_faults_def)
  have append_data_h4: "append_data ''/b/hub.tgz'' b (h4 []) = h4 b" for b
    by (simp add: append_data_def put_file_def file_at_def hs)
  have "write_archive sample_backup_lib no_faults ''/b/hub.tgz'' hub_manifest ?ins
      ''/d/.backup-snapshot-7/fabric.db'' h2 = (Inr (), h4 (bl_pack sample_backup_lib hub_entries))"
    by (simp add: write_archive_def w e t f append_data_h4)
  then have "create_in sample_hub_lib sample_backup_lib hub_env no_faults ?ins ''/b/hub.tgz'' ''01A''
      ''/d/.backup-snapshot-7'' h1 = (Inr hub_manifest, h4 (bl_pack sample_backup_lib hub_entries))"
    using v c by (simp add: create_in_def hub_manifest_def [symmetric] hub_env_def)
  moreover have "remove_all [''d'', ''.backup-snapshot-7''] (h4 (bl_pack sample_backup_lib hub_entries))
      = hub_archived"
    by (simp add: remove_all_def hub_archived_def hs)
  ultimately show ?thesis
    using n r m by (simp add: run_backup_def hub_loads create_backup_def)
qed

end
