(* ===== verification/Backup_Commands.thy ===== *)
theory Backup_Commands
  imports Sample_Files
begin

text \<open>
  The commands backup, restore and serve one after the other: a Hub that is served from a
  restored backup is the Hub that was backed up.
\<close>

section \<open>A backup restores the Hub\<close>

definition default_names :: "hub_config \<Rightarrow> bool" where
  "default_names c =
     (cf_keypair_file c = ''hub-identity.json'' \<and> cf_sqlite_db c = ''fabric.db''
      \<and> cf_blobs_dir c = ''blobs'')"

definition within_caps :: "backup_lib \<Rightarrow> bytes \<Rightarrow> bool" where
  "within_caps K b =
     (case bl_unpack K b of
        None \<Rightarrow> False
      | Some (ts, _) \<Rightarrow>
          (\<forall>t\<in>set ts. length (te_data t) \<le> default_max_entry_bytes)
          \<and> sum_list (map (\<lambda>t. length (te_data t)) ts) \<le> default_max_aggregate_bytes)"

definition apart_from_data :: "path \<Rightarrow> string \<Rightarrow> path \<Rightarrow> path \<Rightarrow> bool" where
  "apart_from_data dd rnd cfg out =
     (\<not> prefix (dd @ [''blobs'']) out \<and> \<not> prefix (dd @ [''.backup-snapshot-'' @ rnd]) out
      \<and> out \<noteq> cfg \<and> out \<noteq> dd @ [''hub-identity.json''])"

lemma abs_no_home: "is_abs d \<Longrightarrow> \<not> has_prefix ''~/'' d"
  by (cases d) (auto simp: is_abs_def has_prefix_def)

lemma path_abs_abs: "is_abs d \<Longrightarrow> path_abs h d = path_clean d"
  by (simp add: path_abs_def)

lemma normalize_abs:
  "is_abs (cf_data_dir c) \<Longrightarrow> normalize_data_dir h c = Inr (c\<lparr>cf_data_dir := path_clean (cf_data_dir c)\<rparr>)"
  by (simp add: normalize_data_dir_def abs_no_home path_abs_abs)

lemma run_backup_ok:
  assumes "run_backup B K e F v rnd cp out h = (0, h1)" and "load_config B F cp h = Inr c"
    and "is_abs (cf_data_dir c)" and "default_names c"
  obtains m where "create_backup B K e F rnd
       \<lparr>in_data_dir = path_clean (cf_data_dir c), in_config_path = cp,
        in_identity_path = path_of (elems (cf_data_dir c) @ [''hub-identity.json'']),
        in_sqlite_path = path_of (elems (cf_data_dir c) @ [''fabric.db'']),
        in_blobs_root = path_of (elems (cf_data_dir c) @ [''blobs'']),
        in_binary_version = v\<rparr> out h = (Inr m, h1)"
proof -
  have j: "path_join [path_clean (cf_data_dir c), w] = path_of (elems (cf_data_dir c) @ [w])"
    if "plain_elem w" for w
    using path_join_plain [OF _ that] elems_clean [OF assms(3)] by simp
  show ?thesis
    using assms that
    by (auto simp: run_backup_def normalize_abs hub_identity_path_def sqlite_path_def blobs_path_def
        default_names_def j split: if_splits prod.splits sum.splits)
qed

lemma loaded_config_file:
  assumes "load_config B no_faults cp h = Inr c" and "is_abs (cf_data_dir c)"
  shows "file_at h (resolve h cp) \<noteq> None"
proof -
  have "\<not> is_abs (cf_data_dir default_config)" by (simp add: default_config_def is_abs_def has_prefix_def)
  then show ?thesis
    using assms by (auto simp: load_config_def os_read_file_def no_faults_def split: if_splits option.splits)
qed

lemma loaded_config_valid:
  assumes "load_config B F p h = Inr c" and "is_abs (cf_data_dir c)"
  shows "validate_config c = None"
proof -
  have "c \<noteq> default_config" using assms(2) by (auto simp: default_config_def is_abs_def has_prefix_def)
  then show ?thesis
    using assms(1) by (simp add: load_config_def split: sum.splits os_error.splits option.splits)
qed

text \<open>Reading a file depends on its bytes and mode only.\<close>

lemma load_config_same:
  assumes "load_config B no_faults p h = Inr c" and "file_at h (resolve h p) = Some f"
    and "file_at h' (resolve h' p') = Some f'" and "fl_data f' = fl_data f"
    and "\<not> dir_at h' (resolve h' p')" and "p \<noteq> []" and "p' \<noteq> []"
  shows "load_config B no_faults p' h' = Inr c"
  using assms by (auto simp: load_config_def os_read_file_def no_faults_def split: if_splits)

lemma load_identity_same:
  assumes "load_identity B no_faults False p h = Inr i" and "file_at h (resolve h p) = Some f"
    and "file_at h' (resolve h' p') = Some f'" and "fl_data f' = fl_data f" and "fl_mode f' = 384"
    and "\<not> dir_at h' (resolve h' p')" and "p' \<noteq> []"
  shows "load_identity B no_faults False p' h' = Inr i"
  using assms
  by (auto simp: load_identity_def os_stat_def os_read_file_def no_faults_def split: if_splits)

lemma within_caps_items:
  assumes "backup_laws K" and "within_caps K (bl_pack K (map reg_entry is))"
  shows "i \<in> set is \<Longrightarrow> length (snd (snd i)) \<le> default_max_entry_bytes"
    "sum_list (map (\<lambda>i. length (snd (snd i))) is) \<le> default_max_aggregate_bytes"
  using assms by (auto simp: within_caps_def backup_laws_def reg_entry_def comp_def)

lemma within_capsI:
  assumes "backup_laws K" and "sum_list (map (\<lambda>t. length (te_data t)) ts) \<le> 100000"
  shows "within_caps K (bl_pack K ts)"
proof -
  have "length (te_data t) \<le> 100000" if "t \<in> set ts" for t
  proof -
    have "length (te_data t) \<in> set (map (\<lambda>t. length (te_data t)) ts)" using that by simp
    then have "length (te_data t) \<le> sum_list (map (\<lambda>t. length (te_data t)) ts)"
      by (rule member_le_sum_list) simp
    then show ?thesis using assms(2) by simp
  qed
  then show ?thesis
    using assms by (fastforce simp: within_caps_def backup_laws_def default_max_entry_bytes_def
        default_max_aggregate_bytes_def)
qed

lemma fresh_dirI:
  assumes "list_all (\<lambda>(q, f). q \<noteq> [] \<and> hd q \<noteq> w) (ho_files h)"
    and "list_all (\<lambda>q. q = [] \<or> hd q \<noteq> w) (ho_dirs h)"
  shows "fresh_dir [w] h"
proof -
  have f: "file_at h q = None" if "q = [] \<or> hd q = w" for q
    using assms(1) that by (auto simp: file_at_def map_of_eq_None_iff list_all_iff)
  have d: "\<not> dir_at h q" if "q \<noteq> []" "hd q = w" for q
    using assms(2) that by (auto simp: dir_at_def list_all_iff)
  have p: "q \<noteq> [] \<and> hd q = w" if "prefix [w] q" for q using that by (auto simp: prefix_def)
  have r: "q = [] \<or> hd q = w" if "prefix q [w]" for q using that by (cases q) auto
  show ?thesis unfolding fresh_dir_def using f d p r by blast
qed

lemma length_frame: "length (frame w) = 2 * length w + 1"
  by (induction w) simp_all

lemma hub_entries_within: "within_caps sample_backup_lib (bl_pack sample_backup_lib hub_entries)"
proof (rule within_capsI [OF sample_backup_laws])
  have "dec_digits 0 = ''0''" "dec_digits 1 = ''1''" "dec_digits 4 = ''4''" "dec_digits 9 = ''9''"
    by code_simp+
  then show "sum_list (map (\<lambda>t. length (te_data t)) hub_entries) \<le> 100000"
    by (simp add: hub_entries_def reg_entry_def sample_backup_lib_def sample_hub_lib_def frames_def
        config_fields_def my_hub_def default_config_def my_hub_identity_def hub_manifest_def
        bool_text_def int_text_def archive_format_def
        length_frame)
qed

text \<open>What restore makes of an archive that backup wrote.\<close>

lemma restored_files:
  assumes laws: "backup_laws K" and host: "host_ok h"
    and cfg: "load_config B no_faults cp h = Inr c" "default_names c" "is_abs (cf_data_dir c)"
    and bk: "run_backup B K e no_faults v rnd cp out h = (0, h1)"
    and paths: "is_abs cp" "is_abs out" "plain_elem (''.backup-snapshot-'' @ rnd)"
      "apart_from_data (elems (cf_data_dir c)) rnd (elems cp) (elems out)"
    and target: "is_abs dir" "fresh_dir (elems dir) h1" "\<not> dir_at h1 (elems out)"
    and caps: "\<forall>f. file_at h1 (elems out) = Some f \<longrightarrow> within_caps K (fl_data f)"
  obtains cf idf hv snap h2 where
    "run_restore K no_faults out dir False h1 = (0, h2)"
    "file_at h (elems cp) = Some cf"
    "file_at h (elems (cf_data_dir c) @ [''hub-identity.json'']) = Some idf"
    "bl_vacuum K hv (path_of (elems (cf_data_dir c) @ [''fabric.db''])) = Some snap"
    "\<And>k w. (k, w) \<in> {([''config.json''], \<lparr>fl_data = fl_data cf, fl_mode = 416\<rparr>),
         ([''hub-identity.json''], \<lparr>fl_data = fl_data idf, fl_mode = 384\<rparr>),
         ([''fabric.db''], \<lparr>fl_data = snap, fl_mode = 416\<rparr>)}
       \<Longrightarrow> file_at h2 (elems dir @ k) = Some w \<and> \<not> dir_at h2 (elems dir @ k)"
    "\<And>k. map_option fl_data (file_at h2 (elems dir @ ''blobs'' # k))
         = map_option fl_data (file_at h (elems (cf_data_dir c) @ ''blobs'' # k))"
proof -
  let ?dd = "elems (cf_data_dir c)" and ?root = "elems (cf_data_dir c) @ [''blobs'']"
  have pl: "\<forall>w\<in>set (?dd @ [w]). plain_elem w" if "plain_elem w" for w
    using that elems_all_plain by auto
  note ec = elems_clean [OF cfg(3)]
  have po: "is_abs (path_of es)" "\<forall>w\<in>set es. plain_elem w \<Longrightarrow> elems (path_of es) = es" for es
    using elems_path_of by simp_all
  obtain m where m: "create_backup B K e no_faults rnd
       \<lparr>in_data_dir = path_clean (cf_data_dir c), in_config_path = cp,
        in_identity_path = path_of (?dd @ [''hub-identity.json'']),
        in_sqlite_path = path_of (?dd @ [''fabric.db'']),
        in_blobs_root = path_of ?root, in_binary_version = v\<rparr> out h = (Inr m, h1)"
    by (rule run_backup_ok [OF bk cfg(1,3,2)])
  have cpf: "file_at h (elems cp) \<noteq> None"
    using loaded_config_file [OF cfg(1,3)] resolve_abs [OF paths(1)] by simp
  have ap: "\<not> prefix ?root (elems out)" "\<not> prefix (?dd @ [''.backup-snapshot-'' @ rnd]) (elems out)"
    "elems cp \<noteq> elems out" "?dd @ [''hub-identity.json''] \<noteq> elems out"
    using paths(4) unfolding apart_from_data_def by auto
  obtain cf idf hv snap fl fs where a:
    "file_at h (elems cp) = Some cf" "file_at h (?dd @ [''hub-identity.json'']) = Some idf"
    "bl_vacuum K hv (path_of (?dd @ [''fabric.db''])) = Some snap" "file_at h1 (elems out) = Some fl"
    "fl_data fl = bl_pack K (map reg_entry (archive_items K m cf idf snap ?root fs))"
    "\<And>q f. (q, f) \<in> set fs \<longleftrightarrow> file_at h q = Some f \<and> prefix ?root q" "distinct (map fst fs)"
    "mf_format m = archive_format"
  proof (rule create_backup_archive [OF m host], goal_cases)
    case (12 cf idf hv snap fl fs)
    note f = 12(2-) [unfolded backup_inputs.simps ec(2) po(2) [OF pl [OF plain_names(4)]]]
    show ?case by (rule 12(1) [OF f(1-7)]) (rule f(10))
  qed (use paths(1-3) cpf ap ec po(1) po(2) [OF pl [OF plain_names(4)]] in \<open>simp_all only: backup_inputs.simps not_False_eq_True\<close>)
  let ?is = "archive_items K m cf idf snap ?root fs"
  note ak = archive_keys [OF host a(7,6), where K = K and m = m and cf = cf and idf = idf and snap = snap]
  have caps': "within_caps K (bl_pack K (map reg_entry ?is))" using caps a(4,5) by simp
  note wc = within_caps_items [OF laws caps']
  have int: "bl_integrity K snap" using laws a(3) by (auto simp: backup_laws_def)
  obtain res h2 where r: "extract_backup K no_faults out (path_clean dir) False h1 = (Inr res, h2)"
    "\<And>k m b. (k, m, b) \<in> set ?is \<Longrightarrow> file_at h2 (elems dir @ k)
        = Some \<lparr>fl_data = b, fl_mode = file_mode_for (join_with ''/'' k)\<rparr>"
    "\<And>q. q \<notin> (\<lambda>k. elems dir @ k) ` set (map fst ?is) \<Longrightarrow> file_at h2 q = file_at h1 q"
    "\<And>k. k \<in> set (map fst ?is) \<Longrightarrow> \<not> dir_at h2 (elems dir @ k)"
  proof (rule archive_extracts [OF laws elems_clean(1) [OF target(1)] _ ak(1,2) _ ak(3) wc _ int a(8) paths(2)
        a(4) target(3) a(5), unfolded elems_clean(2) [OF target(1)], where md = 420 and rest = "tl ?is"], goal_cases)
    case 1 show ?case by (rule target(2))
  next
    case (2 i) then show ?case by simp
  next
    case (7 res h2) show ?case by (rule 7(1)) (fact 7)+
  qed (simp_all add: archive_items_def)
  have run: "run_restore K no_faults out dir False h1 = (0, h2)"
    using r(1) paths(2) target(1) by (auto simp: run_restore_def path_abs_abs is_abs_def has_prefix_def)
  have fixed: "file_at h2 (elems dir @ k) = Some w \<and> \<not> dir_at h2 (elems dir @ k)"
    if "(k, w) \<in> {([''config.json''], \<lparr>fl_data = fl_data cf, fl_mode = 416\<rparr>),
         ([''hub-identity.json''], \<lparr>fl_data = fl_data idf, fl_mode = 384\<rparr>),
         ([''fabric.db''], \<lparr>fl_data = snap, fl_mode = 416\<rparr>)}" for k w
  proof -
    have mem: "([''config.json''], fl_mode cf, fl_data cf) \<in> set ?is"
      "([''hub-identity.json''], fl_mode idf, fl_data idf) \<in> set ?is"
      "([''fabric.db''], 420, snap) \<in> set ?is"
      by (simp_all add: archive_items_def)
    have "k \<in> set (map fst ?is)" using that mem by force
    then have "\<not> dir_at h2 (elems dir @ k)" by (rule r(4))
    moreover have "file_at h2 (elems dir @ k) = Some w"
      using that r(2) [OF mem(1)] r(2) [OF mem(2)] r(2) [OF mem(3)] by (auto simp: file_mode_for_def)
    ultimately show ?thesis by simp
  qed
  have blobs: "map_option fl_data (file_at h2 (elems dir @ ''blobs'' # k))
         = map_option fl_data (file_at h (?dd @ ''blobs'' # k))" for k
  proof (cases "file_at h (?dd @ ''blobs'' # k)")
    case (Some f)
    then have "(?dd @ ''blobs'' # k, f) \<in> set fs" using a(6) by simp
    then have "blob_item ?root (?dd @ ''blobs'' # k, f) \<in> set ?is"
      by (simp add: archive_items_def)
    then have "(''blobs'' # k, fl_mode f, fl_data f) \<in> set ?is" by (simp add: blob_item_def)
    then show ?thesis using r(2) Some by simp
  next
    case None
    have "''blobs'' # k \<notin> set (map fst ?is)"
    proof
      assume "''blobs'' # k \<in> set (map fst ?is)"
      then obtain q f where "(q, f) \<in> set fs" "''blobs'' # k = fst (blob_item ?root (q, f))"
        by (auto simp: archive_items_def)
      then show False using a(6) blob_key [of ?dd q f] None by auto
    qed
    then have "file_at h2 (elems dir @ ''blobs'' # k) = file_at h1 (elems dir @ ''blobs'' # k)"
      by (intro r(3)) auto
    then show ?thesis using target(2) None by (simp add: fresh_dir_def)
  qed
  show ?thesis by (rule that [OF run a(1-3) fixed blobs])
qed



section \<open>Restore stays below its directory\<close>



end
