(* ===== verification/Cli_Config.thy ===== *)
theory Cli_Config
  imports Identity_Store Bridge_Registry Hub_Files
begin

text \<open>
  The configuration of the command line (nakli-cli/internal/config/config.go), the commands on
  transports (nakli-cli/internal/cmd/transport.go) and the set-up of an identity
  (nakli-cli/internal/cmd/init.go, identity.go). The viper library is a parameter: \<open>cb_write\<close> is
  the text that WriteConfigAs gives a configuration for a path (\<open>None\<close> when it does not know the
  kind of file), \<open>cb_read\<close> what ReadInConfig and Unmarshal make of a text over given defaults, in
  the environment of the process. A command gives its error or the data of its JSON mode; the
  texts of the human mode are left out.
\<close>

section \<open>Configuration\<close>

record cli_transport =
  tp_tag :: string
  tp_type :: string
  tp_url :: string
  tp_preference :: int
  tp_hub_data_dir :: string

record cli_config =
  cc_default_fif :: string
  cc_default_transport :: string
  cc_queue_db :: string
  cc_log_level :: string
  cc_transports :: "cli_transport list"

record viper =
  cb_write :: "string \<Rightarrow> cli_config \<Rightarrow> bytes option"
  cb_read :: "cli_config \<Rightarrow> bytes \<Rightarrow> cli_config option"

datatype cli_error = CliUsage | CliOs os_error | CliParse | CliNoTransport | CliExists
  | CliFif fifio_error | CliUnreachable | CliHub int string | CliMint | CliDeferred

text \<open>A home directory that cannot be found is the empty one.\<close>

definition default_config_path :: "host \<Rightarrow> string" where
  "default_config_path h =
     (if ho_home h = [] then ''./nakli-cli-config.toml''
      else path_join [ho_home h, ''.config'', ''nakli-cli'', ''config.toml''])"

definition default_fif_path :: "host \<Rightarrow> string" where
  "default_fif_path h =
     (if ho_home h = [] then ''./identity.fif''
      else path_join [ho_home h, ''.config'', ''nakli-cli'', ''identity.fif''])"

definition default_queue_path :: "host \<Rightarrow> string" where
  "default_queue_path h =
     (if ho_home h = [] then ''./queue.db''
      else path_join [ho_home h, ''.local'', ''state'', ''nakli-cli'', ''queue.db''])"

definition default_cli_config :: "host \<Rightarrow> cli_config" where
  "default_cli_config h =
     \<lparr>cc_default_fif = default_fif_path h, cc_default_transport = ''hub'',
      cc_queue_db = default_queue_path h, cc_log_level = ''info'', cc_transports = []\<rparr>"

text \<open>\<open>var\<close> is the value of NAKLI_CONFIG.\<close>

definition config_path_of :: "string \<Rightarrow> string \<Rightarrow> host \<Rightarrow> string" where
  "config_path_of var p h = (if p \<noteq> [] then p else if var \<noteq> [] then var else default_config_path h)"

definition load_cli ::
  "viper \<Rightarrow> os_faults \<Rightarrow> string \<Rightarrow> string \<Rightarrow> host \<Rightarrow> cli_error + cli_config" where
  "load_cli V F var p h =
     (let q = config_path_of var p h
      in case os_stat F q h of
           Inl NotExist \<Rightarrow> Inr (default_cli_config h)
         | Inl er \<Rightarrow> Inl (CliOs er)
         | Inr _ \<Rightarrow>
             (case os_read_file F q h of
                Inl er \<Rightarrow> Inl (CliOs er)
              | Inr b \<Rightarrow>
                  (case cb_read V (default_cli_config h) b of None \<Rightarrow> Inl CliParse | Some c \<Rightarrow> Inr c)))"

definition os_chmod :: "os_faults \<Rightarrow> string \<Rightarrow> nat \<Rightarrow> unit host_op" where
  "os_chmod F p m h =
     (if of_fails F ''Chmod'' p then (Inl OsFailed, h)
      else case file_at h (resolve h p) of
             None \<Rightarrow> (Inl NotExist, h)
           | Some f \<Rightarrow> (Inr (), put_file (resolve h p) (f\<lparr>fl_mode := m\<rparr>) h))"

text \<open>WriteConfigAs opens the file in place, truncates it, writes and syncs.\<close>

definition save_cli :: "viper \<Rightarrow> os_faults \<Rightarrow> cli_config \<Rightarrow> string \<Rightarrow> host \<Rightarrow> (cli_error + unit) \<times> host" where
  "save_cli V F c p h =
     (case os_mkdir_all F (path_dir p) h of
        (Inl er, h1) \<Rightarrow> (Inl (CliOs er), h1)
      | (Inr _, h1) \<Rightarrow>
          (case cb_write V p c of
             None \<Rightarrow> (Inl CliParse, h1)
           | Some b \<Rightarrow>
               (case os_create F p 420 h1 of
                  (Inl er, h2) \<Rightarrow> (Inl (CliOs er), h2)
                | (Inr _, h2) \<Rightarrow>
                    (case os_write F ''Write'' p b h2 of
                       (Inl er, h3) \<Rightarrow> (Inl (CliOs er), h3)
                     | (Inr _, h3) \<Rightarrow>
                         if of_fails F ''Sync'' p then (Inl (CliOs OsFailed), h3)
                         else (case os_chmod F p 384 h3 of
                                 (Inl er, h4) \<Rightarrow> (Inl (CliOs er), h4)
                               | (Inr _, h4) \<Rightarrow> (Inr (), h4))))))"

definition transport_by_tag :: "string \<Rightarrow> cli_config \<Rightarrow> cli_transport option" where
  "transport_by_tag tag c = List.find (\<lambda>t. tp_tag t = tag) (cc_transports c)"

definition preferred_transport :: "string \<Rightarrow> cli_config \<Rightarrow> cli_error + cli_transport" where
  "preferred_transport flag c =
     (let tag = (if flag = [] then cc_default_transport c else flag)
      in if tag \<noteq> [] then (case transport_by_tag tag c of None \<Rightarrow> Inl CliNoTransport | Some t \<Rightarrow> Inr t)
         else case cc_transports c of [] \<Rightarrow> Inl CliNoTransport | t # _ \<Rightarrow> Inr t)"

section \<open>Commands on transports\<close>

text \<open>The first entry with the tag is replaced, or the new one is appended.\<close>

fun replace_transport :: "cli_transport \<Rightarrow> cli_transport list \<Rightarrow> cli_transport list \<times> bool" where
  "replace_transport t [] = ([t], False)"
| "replace_transport t (u # us) =
     (if tp_tag u = tp_tag t then (t # us, True)
      else case replace_transport t us of (vs, r) \<Rightarrow> (u # vs, r))"

definition command_config_path :: "string \<Rightarrow> host \<Rightarrow> string" where
  "command_config_path flag h = (if flag = [] then default_config_path h else flag)"

definition transport_add ::
  "viper \<Rightarrow> os_faults \<Rightarrow> string \<Rightarrow> string \<Rightarrow> cli_transport \<Rightarrow> host \<Rightarrow> (cli_error + params) \<times> host" where
  "transport_add V F var flag t h =
     (if tp_tag t = [] \<or> tp_type t = [] then (Inl CliUsage, h)
      else let p = command_config_path flag h
           in case load_cli V F var p h of
                Inl er \<Rightarrow> (Inl er, h)
              | Inr c \<Rightarrow>
                  (case replace_transport t (cc_transports c) of
                     (ts, replaced) \<Rightarrow>
                       (case save_cli V F (c\<lparr>cc_transports := ts\<rparr>) p h of
                          (Inl er, h1) \<Rightarrow> (Inl er, h1)
                        | (Inr _, h1) \<Rightarrow>
                            (Inr [(''tag'', JStr (tp_tag t)), (''type'', JStr (tp_type t)),
                               (''url'', JStr (tp_url t)), (''preference'', JInt (tp_preference t)),
                               (''config_path'', JStr p), (''replaced'', JBool replaced)], h1))))"

definition transport_list ::
  "viper \<Rightarrow> os_faults \<Rightarrow> string \<Rightarrow> string \<Rightarrow> host \<Rightarrow> cli_error + cli_transport list" where
  "transport_list V F var flag h =
     (case load_cli V F var flag h of
        Inl er \<Rightarrow> Inl er
      | Inr c \<Rightarrow> Inr (sort_key tp_preference (cc_transports c)))"

definition transport_remove ::
  "viper \<Rightarrow> os_faults \<Rightarrow> string \<Rightarrow> string \<Rightarrow> string \<Rightarrow> host \<Rightarrow> (cli_error + params) \<times> host" where
  "transport_remove V F var flag tag h =
     (let p = command_config_path flag h
      in case load_cli V F var p h of
           Inl er \<Rightarrow> (Inl er, h)
         | Inr c \<Rightarrow>
             let ts = filter (\<lambda>t. tp_tag t \<noteq> tag) (cc_transports c)
             in if length ts = length (cc_transports c) then (Inl CliNoTransport, h)
                else (case save_cli V F (c\<lparr>cc_transports := ts\<rparr>) p h of
                        (Inl er, h1) \<Rightarrow> (Inl er, h1)
                      | (Inr _, h1) \<Rightarrow>
                          (Inr [(''removed'', JStr tag), (''config_path'', JStr p)], h1)))"

section \<open>Setting up an identity\<close>

definition identity_init ::
  "fif_lib \<Rightarrow> env \<Rightarrow> os_faults \<Rightarrow> string \<Rightarrow> string \<Rightarrow> string \<Rightarrow> bool \<Rightarrow> terminal \<Rightarrow> host
     \<Rightarrow> (cli_error + params) \<times> host" where
  "identity_init L e F display out envelope stdin_mode t h =
     (if display = [] \<or> out = [] then (Inl CliUsage, h)
      else if envelope \<noteq> [] \<and> envelope \<noteq> ''passphrase-only'' then (Inl CliUsage, h)
      else case prompt_passphrase stdin_mode (\<not> stdin_mode) t of
             Inl er \<Rightarrow> (Inl (CliFif er), h)
           | Inr pw \<Rightarrow>
               (case create_root L e F out display pw h of
                  (Inl er, h1) \<Rightarrow> (Inl (CliFif er), h1)
                | (Inr pid, h1) \<Rightarrow>
                    (Inr [(''principal_id'', JStr pid), (''display_name'', JStr display),
                       (''fif_path'', JStr out)], h1)))"

definition load_fif_path ::
  "viper \<Rightarrow> os_faults \<Rightarrow> string \<Rightarrow> string \<Rightarrow> string \<Rightarrow> host \<Rightarrow> cli_error + string" where
  "load_fif_path V F var flag fif_flag h =
     (case load_cli V F var flag h of
        Inl er \<Rightarrow> Inl er
      | Inr c \<Rightarrow>
          let p = (if fif_flag = [] then cc_default_fif c else fif_flag)
          in if p = [] then Inl CliUsage else Inr p)"

definition inner_summary :: "inner_fif \<Rightarrow> params" where
  "inner_summary i =
     [(''principal_id'', JStr (fp_id (if_principal i))),
      (''display_name'', JStr (fp_display_name (if_principal i))),
      (''type'', JStr (fp_type (if_principal i))),
      (''public_key_b64'', JStr (b64_encode std_encoding (kp_public (if_root i)))),
      (''devices_count'', JInt (int (length (if_devices i)))),
      (''agents_count'', JInt (int (length (if_agents i)))),
      (''transports_count'', JInt (int (length (if_transports i)))),
      (''grants_held'', JInt (int (length (if_grants i))))]"

definition identity_show ::
  "viper \<Rightarrow> fif_lib \<Rightarrow> os_faults \<Rightarrow> string \<Rightarrow> string \<Rightarrow> string \<Rightarrow> bool \<Rightarrow> terminal \<Rightarrow> host
     \<Rightarrow> cli_error + params" where
  "identity_show V L F var flag fif_flag stdin_mode t h =
     (case load_fif_path V F var flag fif_flag h of
        Inl er \<Rightarrow> Inl er
      | Inr p \<Rightarrow>
          (case prompt_passphrase stdin_mode False t of
             Inl er \<Rightarrow> Inl (CliFif er)
           | Inr pw \<Rightarrow>
               (case load_and_unlock L F p pw h of
                  Inl er \<Rightarrow> Inl (CliFif er)
                | Inr f \<Rightarrow> Inr (inner_summary (the (fi_inner f))))))"

text \<open>The flags of init, and what the prompts for the name, the file and the URL are answered.\<close>

record init_flags =
  ig_display_name :: string
  ig_fif :: string
  ig_hub_url :: string
  ig_hub_data_dir :: string
  ig_non_interactive :: bool
  ig_passphrase_stdin :: bool

record init_answers =
  ia_display_name :: string
  ia_fif :: string
  ia_hub_url :: string

definition init_name :: "init_flags \<Rightarrow> init_answers \<Rightarrow> cli_error + string" where
  "init_name g a =
     (if ig_display_name g \<noteq> [] then Inr (ig_display_name g)
      else if ig_non_interactive g \<or> trim_space (ia_display_name a) = [] then Inl CliUsage
      else Inr (trim_space (ia_display_name a)))"

definition init_fif :: "init_flags \<Rightarrow> init_answers \<Rightarrow> string \<Rightarrow> string" where
  "init_fif g a p =
     (let def_path = path_join [path_dir p, ''identity.fif'']
      in if ig_fif g \<noteq> [] then ig_fif g
         else if ig_non_interactive g \<or> trim_space (ia_fif a) = [] then def_path
         else trim_space (ia_fif a))"

definition init_url :: "init_flags \<Rightarrow> init_answers \<Rightarrow> cli_error + string" where
  "init_url g a =
     (if ig_hub_url g \<noteq> [] then Inr (ig_hub_url g)
      else if ig_non_interactive g then Inl CliUsage
      else Inr (if trim_space (ia_hub_url a) = [] then ''http://127.0.0.1:7842''
                else trim_space (ia_hub_url a)))"

definition init_config :: "init_flags \<Rightarrow> string \<Rightarrow> string \<Rightarrow> host \<Rightarrow> cli_config" where
  "init_config g fif url h =
     (default_cli_config h)
       \<lparr>cc_default_fif := fif, cc_default_transport := ''hub'',
        cc_transports := [\<lparr>tp_tag = ''hub'', tp_type = ''hub'', tp_url = url, tp_preference = 1,
          tp_hub_data_dir = ig_hub_data_dir g\<rparr>]\<rparr>"

text \<open>A failing Stat of the configuration file counts as no file.\<close>

definition cli_init ::
  "viper \<Rightarrow> fif_lib \<Rightarrow> env \<Rightarrow> os_faults \<Rightarrow> string \<Rightarrow> init_flags \<Rightarrow> init_answers \<Rightarrow> terminal \<Rightarrow> host
     \<Rightarrow> (cli_error + string) \<times> host" where
  "cli_init V L e F flag g a t h =
     (let p = command_config_path flag h
      in case os_stat F p h of
           Inr _ \<Rightarrow> (Inl CliExists, h)
         | Inl _ \<Rightarrow>
             (case init_name g a of
                Inl er \<Rightarrow> (Inl er, h)
              | Inr name \<Rightarrow>
                  (case prompt_passphrase (ig_passphrase_stdin g) (\<not> ig_passphrase_stdin g) t of
                     Inl er \<Rightarrow> (Inl (CliFif er), h)
                   | Inr pw \<Rightarrow>
                       (case create_root L e F (init_fif g a p) name pw h of
                          (Inl er, h1) \<Rightarrow> (Inl (CliFif er), h1)
                        | (Inr pid, h1) \<Rightarrow>
                            (case init_url g a of
                               Inl er \<Rightarrow> (Inl er, h1)
                             | Inr url \<Rightarrow>
                                 (case save_cli V F (init_config g (init_fif g a p) url h) p h1 of
                                    (Inl er, h2) \<Rightarrow> (Inl er, h2)
                                  | (Inr _, h2) \<Rightarrow> (Inr pid, h2)))))))"

section \<open>Lemmas\<close>

text \<open>What is relied on of viper: a configuration that was written is read back.\<close>

definition viper_laws :: "viper \<Rightarrow> bool" where
  "viper_laws V = (\<forall>p c b d. cb_write V p c = Some b \<longrightarrow> cb_read V d b = Some c)"

lemma os_chmod_frame:
  assumes "os_chmod F p m h = (Inr u, h')"
  shows "resolve h' = resolve h" "dir_at h' = dir_at h" "ho_home h' = ho_home h"
    "file_at h (resolve h p) = Some f \<Longrightarrow> file_at h' (resolve h p) = Some (f\<lparr>fl_mode := m\<rparr>)"
    "es \<noteq> resolve h p \<Longrightarrow> file_at h' es = file_at h es"
  using assms by (auto simp: os_chmod_def split: if_splits option.splits)

lemma save_cli_written:
  assumes "save_cli V F c p h = (Inr u, h')"
  obtains b where "cb_write V p c = Some b" "file_at h' (resolve h p) = Some \<lparr>fl_data = b, fl_mode = 384\<rparr>"
    "\<not> dir_at h' (resolve h p)" "p \<noteq> []" "resolve h' = resolve h" "ho_home h' = ho_home h"
    "\<And>es. es \<noteq> resolve h p \<Longrightarrow> file_at h' es = file_at h es"
proof -
  obtain h1 where m: "os_mkdir_all F (path_dir p) h = (Inr (), h1)"
    using assms by (auto simp: save_cli_def split: sum.splits prod.splits)
  obtain b where b: "cb_write V p c = Some b"
    using assms m by (auto simp: save_cli_def split: option.splits)
  obtain h2 where c: "os_create F p 420 h1 = (Inr (), h2)"
    using assms m b by (auto simp: save_cli_def split: sum.splits prod.splits)
  obtain h3 where w: "os_write F ''Write'' p b h2 = (Inr (), h3)"
    using assms m b c by (auto simp: save_cli_def split: sum.splits prod.splits)
  have ch: "os_chmod F p 384 h3 = (Inr (), h')"
    using assms m b c w by (auto simp: save_cli_def split: sum.splits prod.splits if_splits)
  have r: "resolve h1 = resolve h" "resolve h2 = resolve h" "resolve h3 = resolve h" "resolve h' = resolve h"
    using os_mkdir_all_frame(2) [OF m] os_create_frame(2) [OF c] os_write_frame(2) [OF w] os_chmod_frame(1) [OF ch]
    by simp_all
  have "\<not> dir_at h1 (resolve h p) \<and> p \<noteq> []"
    using c r(1) by (auto simp: os_create_def split: if_splits option.splits)
  moreover have "dir_at h' = dir_at h1"
    using os_create_frame(3) [OF c] os_write_frame(3) [OF w] os_chmod_frame(2) [OF ch] by simp
  moreover have "ho_home h' = ho_home h"
    using os_mkdir_all_frame(6) [OF m] os_create_frame(5) [OF c] os_write_frame(4) [OF w] os_chmod_frame(3) [OF ch]
    by simp
  moreover have "file_at h' (resolve h p) = Some \<lparr>fl_data = b, fl_mode = 384\<rparr>"
    using os_create_frame(7) [OF c, of "()"] os_write_frame(6) [OF w, of "()"] os_chmod_frame(4) [OF ch] r
    by simp
  moreover have "file_at h' es = file_at h es" if "es \<noteq> resolve h p" for es
    using that os_mkdir_all_frame(1) [OF m] os_create_frame(1) [OF c] os_write_frame(1) [OF w]
      os_chmod_frame(5) [OF ch] r by simp
  ultimately show thesis using that b r(4) by simp
qed

lemma load_after_save:
  assumes "viper_laws V" and "save_cli V F c p h = (Inr u, h')"
  shows "load_cli V no_faults var p h' = Inr c"
  using assms(2)
proof (rule save_cli_written)
  fix b
  assume b: "cb_write V p c = Some b" "file_at h' (resolve h p) = Some \<lparr>fl_data = b, fl_mode = 384\<rparr>"
    "\<not> dir_at h' (resolve h p)" "p \<noteq> []" "resolve h' = resolve h"
  have "cb_read V (default_cli_config h') b = Some c" using assms(1) b(1) by (simp add: viper_laws_def)
  then show ?thesis
    using b os_read_fresh [of h' p] by (simp add: load_cli_def config_path_of_def)
qed

lemma save_cli_dirs:
  assumes "save_cli V F c p h = (Inr u, h')" and "file_at h es \<noteq> None"
  shows "dir_at h' es = dir_at h es"
proof -
  obtain h1 where m: "os_mkdir_all F (path_dir p) h = (Inr (), h1)"
    using assms by (auto simp: save_cli_def split: sum.splits prod.splits)
  then have "es \<notin> set (prefixes (resolve h (path_dir p)))"
    using assms(2) by (auto simp: os_mkdir_all_def split: if_splits)
  then have "dir_at h1 es = dir_at h es" using os_mkdir_all_frame(3,4) [OF m] by auto
  moreover have "dir_at h' = dir_at h1"
    using assms(1) m os_create_frame(3) os_write_frame(3) os_chmod_frame(2)
    by (fastforce simp: save_cli_def split: sum.splits prod.splits if_splits option.splits)
  ultimately show ?thesis by simp
qed

text \<open>The list of transports keeps one entry per tag.\<close>

lemma replace_transport_keeps:
  "tp_tag ` set (fst (replace_transport t ts)) = insert (tp_tag t) (tp_tag ` set ts)"
  "distinct (map tp_tag ts) \<Longrightarrow> distinct (map tp_tag (fst (replace_transport t ts)))"
  "List.find (\<lambda>u. tp_tag u = tag) (fst (replace_transport t ts))
     = (if tag = tp_tag t then Some t else List.find (\<lambda>u. tp_tag u = tag) ts)"
proof -
  show s: "tp_tag ` set (fst (replace_transport t ts)) = insert (tp_tag t) (tp_tag ` set ts)" for ts
    by (induction ts) (auto split: prod.splits)
  show "distinct (map tp_tag ts) \<Longrightarrow> distinct (map tp_tag (fst (replace_transport t ts)))"
  proof (induction ts)
    case (Cons u us)
    then show ?case using s [of us] by (auto split: prod.splits)
  qed simp
  show "List.find (\<lambda>u. tp_tag u = tag) (fst (replace_transport t ts))
     = (if tag = tp_tag t then Some t else List.find (\<lambda>u. tp_tag u = tag) ts)"
    by (induction ts) (auto split: prod.splits)
qed

end
