(* ===== verification/Cli_Grant.thy ===== *)
theory Cli_Grant
  imports Cli_Config Grant_Handlers
begin

text \<open>
  Grants on the command line (nakli-cli/internal/cmd/grant.go): minting with the macaroon root key
  that is read from the Hub's identity file, and showing a grant. \<open>gl_identity\<close> decodes the three
  fields of the identity file that are used, \<open>gl_keygen\<close> is ed25519's key generation from a seed.
\<close>

record grant_lib =
  gl_identity :: "bytes \<Rightarrow> (string \<times> bytes \<times> bytes) option"
  gl_keygen :: "bytes \<Rightarrow> bytes \<times> bytes"

definition read_hub_identity ::
  "grant_lib \<Rightarrow> os_faults \<Rightarrow> string \<Rightarrow> host \<Rightarrow> cli_error + string \<times> bytes \<times> bytes" where
  "read_hub_identity G F dir h =
     (if dir = [] then Inl CliUsage
      else case os_read_file F (path_join [dir, ''hub-identity.json'']) h of
             Inl er \<Rightarrow> Inl (CliOs er)
           | Inr b \<Rightarrow>
               (case gl_identity G b of
                  None \<Rightarrow> Inl CliParse
                | Some (i, pub, key) \<Rightarrow> if key = [] then Inl CliParse else Inr (i, pub, key)))"

definition caveat_from_rate_spec :: "string \<Rightarrow> string option" where
  "caveat_from_rate_spec spec =
     (case split_once ''/'' spec of
        None \<Rightarrow> None
      | Some (n, w) \<Rightarrow> Some (''rate <= '' @ trim_space n @ '' per '' @ trim_space w))"

definition caveat_from_amount_spec :: "string \<Rightarrow> string option" where
  "caveat_from_amount_spec spec =
     (let s = trim_space spec; n = takeWhile is_digit s; cur = dropWhile is_digit s
      in if s = [] \<or> n = [] \<or> cur = [] then None
         else Some (''max-amount <= '' @ n @ '' '' @ trim_space cur))"

record mint_flags =
  mf_recipient :: string
  mf_primitive :: string
  mf_namespace :: string
  mf_operations :: "string list"
  mf_expires_in :: time
  mf_expires_at :: string
  mf_rate :: string
  mf_max_amount :: string
  mf_only_domains :: "string list"
  mf_requires_human :: bool
  mf_nondelegatable :: bool
  mf_caveats :: "string list"
  mf_output :: string
  mf_hub_data_dir :: string

definition flag_expiry :: "env \<Rightarrow> mint_flags \<Rightarrow> cli_error + time" where
  "flag_expiry e f =
     (if mf_expires_at f \<noteq> []
      then (case parse_rfc3339 (mf_expires_at f) of None \<Rightarrow> Inl CliUsage | Some t \<Rightarrow> Inr t)
      else Inr (en_now e + (if 0 < mf_expires_in f then mf_expires_in f else 30 * 24 * hour)))"

text \<open>A flag that is empty adds no caveat; one that does not convert is an error.\<close>

definition spec_caveat :: "(string \<Rightarrow> string option) \<Rightarrow> string \<Rightarrow> cli_error + string list" where
  "spec_caveat conv s =
     (if s = [] then Inr [] else case conv s of None \<Rightarrow> Inl CliUsage | Some c \<Rightarrow> Inr [c])"

definition only_domain_caveat :: "string list \<Rightarrow> string" where
  "only_domain_caveat ds = ''only-domain in ['' @ join_with '', '' ds @ '']''"

definition flag_caveats :: "time \<Rightarrow> mint_flags \<Rightarrow> cli_error + string list" where
  "flag_caveats expires f =
     (case spec_caveat caveat_from_rate_spec (mf_rate f) of
        Inl er \<Rightarrow> Inl er
      | Inr rate \<Rightarrow>
          (case spec_caveat caveat_from_amount_spec (mf_max_amount f) of
             Inl er \<Rightarrow> Inl er
           | Inr amount \<Rightarrow>
               Inr (time_caveat expires # rate @ amount
                 @ (if mf_only_domains f = [] then [] else [only_domain_caveat (mf_only_domains f)])
                 @ (if mf_requires_human f then [''requires-human-approval''] else [])
                 @ (if mf_nondelegatable f then [''nondelegatable''] else [])
                 @ mf_caveats f)))"

definition cli_identifier :: "grant_lib \<Rightarrow> env \<Rightarrow> mint_flags \<Rightarrow> grant_identifier" where
  "cli_identifier G e f =
     \<lparr>idn_grant_id = en_ulid e 0, idn_issued_at = en_now e, idn_issued_by = mf_recipient f,
      idn_keypair = (case random_bytes e 1 32 of Inl _ \<Rightarrow> [] | Inr seed \<Rightarrow> fst (gl_keygen G seed)),
      idn_parent = [],
      idn_scope = \<lparr>sc_primitive = mf_primitive f, sc_namespace = mf_namespace f,
        sc_operations = mf_operations f\<rparr>\<rparr>"

record minted_grant =
  mg_grant_id :: string
  mg_macaroon :: string
  mg_caveats :: "string list"
  mg_expires :: time

text \<open>The steps of mint once the transport is chosen. \<open>S\<close> gives the macaroon library only.\<close>

definition mint_steps ::
  "sys \<Rightarrow> grant_lib \<Rightarrow> env \<Rightarrow> os_faults \<Rightarrow> cli_transport \<Rightarrow> mint_flags \<Rightarrow> host
     \<Rightarrow> (cli_error + minted_grant) \<times> host" where
  "mint_steps S G e F t f h =
     (case read_hub_identity G F (if mf_hub_data_dir f = [] then tp_hub_data_dir t else mf_hub_data_dir f) h of
        Inl er \<Rightarrow> (Inl er, h)
      | Inr (_, _, key) \<Rightarrow>
          (case flag_expiry e f of
             Inl er \<Rightarrow> (Inl er, h)
           | Inr expires \<Rightarrow>
               (case flag_caveats expires f of
                  Inl er \<Rightarrow> (Inl er, h)
                | Inr caveats \<Rightarrow>
                    (case mint S \<lparr>ms_root_key = key, ms_location = tp_url t,
                            ms_identifier = cli_identifier G e f, ms_caveats = caveats\<rparr> of
                       Inl _ \<Rightarrow> (Inl CliMint, h)
                     | Inr out \<Rightarrow>
                         let mac = b64_encode std_encoding (gt_macaroon out);
                             result = \<lparr>mg_grant_id = en_ulid e 0, mg_macaroon = mac,
                               mg_caveats = caveats, mg_expires = expires\<rparr>
                         in if mf_output f = [] then (Inr result, h)
                            else (case os_write_file F (mf_output f) mac 384 h of
                                    (Inl er, h1) \<Rightarrow> (Inl (CliOs er), h1)
                                  | (Inr _, h1) \<Rightarrow> (Inr result, h1))))))"

definition grant_mint ::
  "sys \<Rightarrow> viper \<Rightarrow> grant_lib \<Rightarrow> env \<Rightarrow> os_faults \<Rightarrow> string \<Rightarrow> string \<Rightarrow> string \<Rightarrow> mint_flags \<Rightarrow> host
     \<Rightarrow> (cli_error + minted_grant) \<times> host" where
  "grant_mint S V G e F var config_flag transport_flag f h =
     (if mf_recipient f = [] \<or> mf_primitive f = [] then (Inl CliUsage, h)
      else case load_cli V F var config_flag h of
             Inl er \<Rightarrow> (Inl er, h)
           | Inr c \<Rightarrow>
               (case preferred_transport transport_flag c of
                  Inl er \<Rightarrow> (Inl er, h)
                | Inr t \<Rightarrow> mint_steps S G e F t f h))"

definition grant_inspect :: "sys \<Rightarrow> os_faults \<Rightarrow> string \<Rightarrow> host \<Rightarrow> cli_error + grant" where
  "grant_inspect S F p h =
     (case os_read_file F p h of
        Inl er \<Rightarrow> Inl (CliOs er)
      | Inr raw \<Rightarrow>
          (case b64_decode std_encoding (trim_space raw) of
             None \<Rightarrow> Inl CliParse
           | Some mac \<Rightarrow> (case parse_grant S mac of Inl _ \<Rightarrow> Inl CliParse | Inr g \<Rightarrow> Inr g)))"

text \<open>The commands that are not there yet.\<close>

definition deferred_command :: "cli_error + params" where
  "deferred_command = Inl CliDeferred"

end
