(* ===== verification/Cli_Client.thy ===== *)
theory Cli_Client
  imports Cli_Grant Bridge_Adapters
begin

text \<open>
  The command line as a client of a Hub: nakli-cli/internal/httpc/httpc.go and the commands on
  streams and on the state of transports (nakli-cli/internal/cmd/vault.go, status.go,
  transport.go). \<open>cx_envelope\<close> decodes an answer's envelope into its flag, the text of its data and
  its error, \<open>cx_events\<close> and \<open>cx_appended\<close> decode the data of a read and of an append, \<open>cx_ulid\<close> is
  the ULID of a millisecond without entropy.
\<close>

record hub_response =
  hr_status :: int
  hr_headers :: url_values
  hr_ok :: bool
  hr_data :: bytes
  hr_error :: "(string \<times> string \<times> bool) option"
  hr_raw :: bytes

record client_lib =
  cx_net :: net
  cx_marshal :: "json \<Rightarrow> bytes"
  cx_envelope :: "bytes \<Rightarrow> (bool \<times> bytes \<times> (string \<times> string \<times> bool) option) option"
  cx_events :: "bytes \<Rightarrow> (params list \<times> bool) option"
  cx_appended :: "bytes \<Rightarrow> string \<times> int"
  cx_ulid :: "int \<Rightarrow> string"

section \<open>The client\<close>

definition client_target :: "string \<Rightarrow> string" where
  "client_target url = trim_right_slashes url"

definition read_envelope :: "client_lib \<Rightarrow> http_resp \<Rightarrow> cli_error + hub_response" where
  "read_envelope X resp =
     (let plain = \<lparr>hr_status = hp_status resp, hr_headers = hp_headers resp, hr_ok = False, hr_data = [],
            hr_error = None, hr_raw = hp_body resp\<rparr>
      in if hp_body resp = [] \<or> split_once ''json'' (get_header ''content-type'' (hp_headers resp)) = None
         then Inr plain
         else case cx_envelope X (hp_body resp) of
                None \<Rightarrow> Inl CliParse
              | Some (good, dat, er) \<Rightarrow> Inr (plain\<lparr>hr_ok := good, hr_data := dat, hr_error := er\<rparr>))"

text \<open>An error while the body is read is dropped: what came of it is used.\<close>

definition client_do ::
  "client_lib \<Rightarrow> string \<Rightarrow> string \<Rightarrow> string \<Rightarrow> bytes option \<Rightarrow> (string \<times> string) list
     \<Rightarrow> cli_error + hub_response" where
  "client_do X verb url path body headers =
     (let u = client_target url @ path;
          hs = (case body of None \<Rightarrow> [] | Some _ \<Rightarrow> set_header ''content-type'' ''application/json'' [])
      in if parse_web u = None then Inl CliParse
         else case cx_net X \<lparr>hq_method = verb, hq_url = u,
                    hq_headers = fold (\<lambda>(k, v). set_header (to_lower k) v) headers hs,
                    hq_body = coalesce [] body\<rparr> of
                None \<Rightarrow> Inl CliUnreachable
              | Some resp \<Rightarrow> read_envelope X resp)"

definition auth_headers :: "string \<Rightarrow> string \<Rightarrow> (string \<times> string) list" where
  "auth_headers grant idem =
     (''X-Fabric-Grant'', grant) # (if idem = [] then [] else [(''X-Fabric-Idempotency-Key'', idem)])"

definition new_idempotency_key :: "client_lib \<Rightarrow> env \<Rightarrow> string" where
  "new_idempotency_key X e = cx_ulid X (en_now e div 1000000)"

text \<open>Errorf: no error for a status below 400 without one.\<close>

definition response_error :: "hub_response \<Rightarrow> cli_error option" where
  "response_error r =
     (case hr_error r of
        Some (code, _, _) \<Rightarrow> Some (CliHub (hr_status r) code)
      | None \<Rightarrow> if 400 \<le> hr_status r then Some (CliHub (hr_status r) []) else None)"

text \<open>
  What a command makes of an answer: its output if the status is 200. Otherwise the error of
  the answer, and if there is none the command ends without output and without an error.
\<close>

definition on_success ::
  "(hub_response \<Rightarrow> cli_error + 'a) \<Rightarrow> cli_error + hub_response \<Rightarrow> cli_error + 'a option" where
  "on_success k r =
     (case r of
        Inl er \<Rightarrow> Inl er
      | Inr resp \<Rightarrow>
          if hr_status resp \<noteq> 200
          then (case response_error resp of Some er \<Rightarrow> Inl er | None \<Rightarrow> Inr None)
          else (case k resp of Inl er \<Rightarrow> Inl er | Inr x \<Rightarrow> Inr (Some x)))"

section \<open>Streams\<close>

definition load_grant :: "os_faults \<Rightarrow> string \<Rightarrow> host \<Rightarrow> cli_error + string" where
  "load_grant F p h =
     (if p = [] then Inl CliUsage
      else case os_read_file F p h of Inl er \<Rightarrow> Inl (CliOs er) | Inr raw \<Rightarrow> Inr (trim_space raw))"

definition read_payload :: "os_faults \<Rightarrow> string \<Rightarrow> reader \<Rightarrow> host \<Rightarrow> cli_error + bytes" where
  "read_payload F p stdin h =
     (if p = [] then (if rd_fails stdin then Inl (CliOs OsFailed) else Inr (rd_data stdin))
      else case os_read_file F p h of Inl er \<Rightarrow> Inl (CliOs er) | Inr b \<Rightarrow> Inr b)"

text \<open>The flags that all commands have, and the preamble of the commands on streams.\<close>

record cli_flags =
  cl_var :: string
  cl_config :: string
  cl_transport :: string
  cl_json :: bool

definition chosen_transport ::
  "viper \<Rightarrow> os_faults \<Rightarrow> cli_flags \<Rightarrow> host \<Rightarrow> cli_error + cli_transport" where
  "chosen_transport V F g h =
     (case load_cli V F (cl_var g) (cl_config g) h of
        Inl er \<Rightarrow> Inl er
      | Inr c \<Rightarrow> preferred_transport (cl_transport g) c)"

definition append_body :: "string \<Rightarrow> string \<Rightarrow> string \<Rightarrow> bytes \<Rightarrow> json" where
  "append_body ns sid kind payload =
     JObj [(''namespace'', JStr ns), (''stream_id'', JStr sid),
       (''event'', JObj [(''kind'', JStr kind),
          (''payload_ciphertext'', JStr (b64_encode std_encoding payload))])]"

definition append_output :: "client_lib \<Rightarrow> string \<Rightarrow> hub_response \<Rightarrow> cli_error + params" where
  "append_output X idem resp =
     (case cx_appended X (hr_data resp) of
        (eid, n) \<Rightarrow> Inr [(''event_id'', JStr eid), (''sequence_number'', JInt n),
                      (''idempotency_key'', JStr idem)])"

definition vault_append ::
  "viper \<Rightarrow> client_lib \<Rightarrow> env \<Rightarrow> os_faults \<Rightarrow> cli_flags \<Rightarrow> string \<Rightarrow> string \<Rightarrow> string \<Rightarrow> string \<Rightarrow> string
     \<Rightarrow> string \<Rightarrow> reader \<Rightarrow> host \<Rightarrow> cli_error + params option" where
  "vault_append V X e F g ns sid kind grant_path payload_file idem_flag stdin h =
     (case chosen_transport V F g h of
        Inl er \<Rightarrow> Inl er
      | Inr t \<Rightarrow>
          if ns = [] \<or> sid = [] \<or> kind = [] then Inl CliUsage
          else case load_grant F grant_path h of
            Inl er \<Rightarrow> Inl er
          | Inr gr \<Rightarrow>
              (case read_payload F payload_file stdin h of
                 Inl er \<Rightarrow> Inl er
               | Inr payload \<Rightarrow>
                   let idem = (if idem_flag = [] then new_idempotency_key X e else idem_flag)
                   in on_success (append_output X idem)
                        (client_do X ''POST'' (tp_url t) ''/fabric/v1/vault/append''
                          (Some (cx_marshal X (append_body ns sid kind payload))) (auth_headers gr idem))))"

definition read_path :: "string \<Rightarrow> string \<Rightarrow> string \<Rightarrow> int \<Rightarrow> string" where
  "read_path ns sid since limit =
     (let q = (if since = [] then [] else [''since='' @ since])
            @ (if 0 < limit then [''limit='' @ itoa limit] else [])
      in ''/fabric/v1/vault/stream/'' @ ns @ ''/'' @ sid
           @ (if q = [] then [] else ''?'' @ join_with ''&'' q))"

text \<open>The events that the human mode prints: with the payload decoded beside its base64.\<close>

definition with_payload :: "params \<Rightarrow> params" where
  "with_payload ev =
     (case map_of ev ''payload_ciphertext'' of
        Some (JStr p) \<Rightarrow>
          (case b64_decode std_encoding p of
             None \<Rightarrow> ev
           | Some d \<Rightarrow> AList.update ''payload'' (JStr d) ev)
      | _ \<Rightarrow> ev)"

datatype read_output = ReadJson bytes | ReadLines "params list" bool

definition read_output_of :: "client_lib \<Rightarrow> bool \<Rightarrow> hub_response \<Rightarrow> cli_error + read_output" where
  "read_output_of X as_json resp =
     (if as_json then Inr (ReadJson (hr_data resp))
      else case cx_events X (hr_data resp) of
             None \<Rightarrow> Inl CliParse
           | Some (evs, others) \<Rightarrow> Inr (ReadLines (map with_payload evs) others))"

definition vault_read ::
  "viper \<Rightarrow> client_lib \<Rightarrow> os_faults \<Rightarrow> cli_flags \<Rightarrow> string \<Rightarrow> string \<Rightarrow> string \<Rightarrow> string \<Rightarrow> int \<Rightarrow> host
     \<Rightarrow> cli_error + read_output option" where
  "vault_read V X F g ns sid grant_path since limit h =
     (case chosen_transport V F g h of
        Inl er \<Rightarrow> Inl er
      | Inr t \<Rightarrow>
          if ns = [] \<or> sid = [] then Inl CliUsage
          else case load_grant F grant_path h of
            Inl er \<Rightarrow> Inl er
          | Inr gr \<Rightarrow>
              on_success (read_output_of X (cl_json g))
                (client_do X ''GET'' (tp_url t) (read_path ns sid since limit) None (auth_headers gr [])))"

definition vault_streams ::
  "viper \<Rightarrow> client_lib \<Rightarrow> os_faults \<Rightarrow> cli_flags \<Rightarrow> string \<Rightarrow> string \<Rightarrow> host \<Rightarrow> cli_error + bytes option" where
  "vault_streams V X F g ns grant_path h =
     (case chosen_transport V F g h of
        Inl er \<Rightarrow> Inl er
      | Inr t \<Rightarrow>
          if ns = [] then Inl CliUsage
          else case load_grant F grant_path h of
            Inl er \<Rightarrow> Inl er
          | Inr gr \<Rightarrow>
              on_success (\<lambda>resp. Inr (hr_data resp))
                (client_do X ''GET'' (tp_url t) (''/fabric/v1/vault/streams/'' @ ns) None (auth_headers gr [])))"

section \<open>The state of transports\<close>

definition transport_ping ::
  "viper \<Rightarrow> client_lib \<Rightarrow> os_faults \<Rightarrow> cli_flags \<Rightarrow> string \<Rightarrow> host \<Rightarrow> cli_error + (cli_transport \<times> bytes) option" where
  "transport_ping V X F g tag h =
     (case load_cli V F (cl_var g) (cl_config g) h of
        Inl er \<Rightarrow> Inl er
      | Inr c \<Rightarrow>
          (case transport_by_tag tag c of
             None \<Rightarrow> Inl CliNoTransport
           | Some t \<Rightarrow>
               if tp_url t = [] then Inl CliUsage
               else on_success (\<lambda>resp. Inr (t, hr_data resp))
                      (client_do X ''GET'' (tp_url t) ''/fabric/v1/health'' None [])))"

text \<open>\<open>None\<close> is a transport that is not probed.\<close>

definition probe_transport :: "client_lib \<Rightarrow> cli_transport \<Rightarrow> (cli_error + bool \<times> int \<times> bytes) option" where
  "probe_transport X t =
     (if tp_type t = ''hub'' \<and> tp_url t \<noteq> []
      then Some (case client_do X ''GET'' (tp_url t) ''/fabric/v1/health'' None [] of
                   Inl er \<Rightarrow> Inl er
                 | Inr resp \<Rightarrow> Inr (hr_status resp = 200, hr_status resp, hr_data resp))
      else None)"

definition cli_status ::
  "viper \<Rightarrow> client_lib \<Rightarrow> os_faults \<Rightarrow> cli_flags \<Rightarrow> host
     \<Rightarrow> cli_error + cli_config \<times> (cli_error + bool \<times> int \<times> bytes) option list" where
  "cli_status V X F g h =
     (case load_cli V F (cl_var g) (cl_config g) h of
        Inl er \<Rightarrow> Inl er
      | Inr c \<Rightarrow> Inr (c, map (probe_transport X) (cc_transports c)))"

end
