(* ===== verification/Cli_Guarantees.thy ===== *)
theory Cli_Guarantees
  imports Cli_Client Mint_Guarantees Sample_Files
begin

text \<open>
  The guarantees of the command line: its list of transports, the grants it mints beside a Hub, and
  the flags that become caveats.
\<close>

section \<open>A machine with a command line\<close>

definition transport_frame :: "cli_transport \<Rightarrow> string" where
  "transport_frame t =
     frames [tp_tag t, tp_type t, tp_url t, int_text (tp_preference t), tp_hub_data_dir t]"

definition frame_transport :: "string \<Rightarrow> cli_transport" where
  "frame_transport s =
     (let ws = the (parse_frames s)
      in \<lparr>tp_tag = ws ! 0, tp_type = ws ! 1, tp_url = ws ! 2, tp_preference = text_int (ws ! 3),
          tp_hub_data_dir = ws ! 4\<rparr>)"

definition cli_frames :: "cli_config \<Rightarrow> bytes" where
  "cli_frames c =
     frames (cc_default_fif c # cc_default_transport c # cc_queue_db c # cc_log_level c
       # map transport_frame (cc_transports c))"

definition sample_viper :: viper where
  "sample_viper =
     \<lparr>cb_write = (\<lambda>p c. Some (cli_frames c)),
      cb_read = (\<lambda>d b.
        case parse_frames b of
          Some (a # t # q # l # ts) \<Rightarrow>
            Some \<lparr>cc_default_fif = a, cc_default_transport = t, cc_queue_db = q, cc_log_level = l,
              cc_transports = map frame_transport ts\<rparr>
        | _ \<Rightarrow> None)\<rparr>"

lemma frame_transport_frame [simp]: "frame_transport (transport_frame t) = t"
  by (simp add: frame_transport_def transport_frame_def)

lemma sample_viper_laws: "viper_laws sample_viper"
  by (simp add: viper_laws_def sample_viper_def cli_frames_def comp_def)

definition hub_transport :: cli_transport where
  "hub_transport = \<lparr>tp_tag = ''hub'', tp_type = ''hub'', tp_url = ''http://hub.local'', tp_preference = 1,
     tp_hub_data_dir = ''/d''\<rparr>"

definition my_cli :: cli_config where
  "my_cli = \<lparr>cc_default_fif = ''/h/id.fif'', cc_default_transport = ''hub'', cc_queue_db = ''/h/q.db'',
     cc_log_level = ''info'', cc_transports = [hub_transport]\<rparr>"

definition cli_host :: host where
  "cli_host = hub_host\<lparr>ho_files := ho_files hub_host
     @ [([''b'', ''cli''], \<lparr>fl_data = cli_frames my_cli, fl_mode = 384\<rparr>)]\<rparr>"

section \<open>Transports\<close>


definition worker_transport :: cli_transport where
  "worker_transport = \<lparr>tp_tag = ''cf'', tp_type = ''cf-worker'', tp_url = ''https://w.test'', tp_preference = 2,
     tp_hub_data_dir = []\<rparr>"

lemma cli_host_loads: "load_cli sample_viper no_faults var ''/b/cli'' cli_host = Inr my_cli"
proof -
  have "resolve cli_host ''/b/cli'' = [''b'', ''cli'']" by code_simp
  moreover have "cb_read sample_viper d (cli_frames my_cli) = Some my_cli" for d
    using sample_viper_laws by (simp add: viper_laws_def sample_viper_def)
  ultimately show ?thesis
    by (simp add: load_cli_def config_path_of_def os_stat_def os_read_file_def no_faults_def cli_host_def
        hub_host_def file_at_def dir_at_def)
qed

lemma cli_host_add:
  "\<exists>d h'. transport_add sample_viper no_faults [] ''/b/cli'' worker_transport cli_host = (Inr d, h')"
proof -
  have r: "resolve h ''/b/cli'' = [''b'', ''cli'']" "path_dir ''/b/cli'' = ''/b''" for h by code_simp+
  let ?ts = "fst (replace_transport worker_transport (cc_transports my_cli))"
  have "\<exists>h'. save_cli sample_viper no_faults c ''/b/cli'' cli_host = (Inr (), h')" for c
    by (simp add: save_cli_def os_mkdir_all_def os_create_def os_write_def os_chmod_def no_faults_def r
        sample_viper_def cli_host_def hub_host_def file_at_def dir_at_def append_data_def put_file_def)
  then obtain h' where h': "save_cli sample_viper no_faults (my_cli\<lparr>cc_transports := ?ts\<rparr>) ''/b/cli'' cli_host
      = (Inr (), h')" by blast
  have w: "tp_tag worker_transport \<noteq> []" "tp_type worker_transport \<noteq> []"
    "command_config_path ''/b/cli'' cli_host = ''/b/cli''"
    by (simp_all add: worker_transport_def command_config_path_def)
  show ?thesis
    by (cases "replace_transport worker_transport (cc_transports my_cli)")
      (use h' in \<open>simp add: transport_add_def w cli_host_loads Let_def\<close>)
qed


text \<open>
  Adding a transport does not look at NAKLI_CONFIG, which all commands read by: with the variable
  set to a file, a transport that was added without the flag --config is written to the default
  file, and the configuration that other commands load is what it was.
\<close>

theorem transport_add_ignores_the_variable:
  assumes "transport_add V F var [] t h = (Inr d, h')" and "var \<noteq> []"
    and "file_at h (resolve h var) \<noteq> None" and "resolve h var \<noteq> resolve h (default_config_path h)"
  shows "load_cli V G var [] h' = load_cli V G var [] h"
proof -
  obtain c u where s: "save_cli V F c (default_config_path h) h = (Inr u, h')"
    using assms(1)
    by (auto simp: transport_add_def Let_def command_config_path_def split: if_splits sum.splits prod.splits)
  then have f: "file_at h' (resolve h var) = file_at h (resolve h var)" "resolve h' = resolve h"
    "ho_home h' = ho_home h"
    using assms(4) by (auto elim!: save_cli_written)
  have d: "dir_at h' (resolve h var) = dir_at h (resolve h var)"
    using save_cli_dirs [OF s assms(3)] .
  have eq: "default_cli_config h' = default_cli_config h" "os_stat G var h' = os_stat G var h"
    "os_read_file G var h' = os_read_file G var h" "config_path_of var [] h'' = var" for h''
    using assms(2) f d
    by (simp_all add: default_cli_config_def default_fif_path_def default_queue_path_def os_stat_def
        os_read_file_def config_path_of_def)
  show ?thesis unfolding load_cli_def Let_def eq ..
qed

section \<open>Minting beside the Hub\<close>

text \<open>Both programs decode the same identity file.\<close>

definition same_identity_json :: "hub_lib \<Rightarrow> grant_lib \<Rightarrow> bool" where
  "same_identity_json B G =
     (\<forall>b i. hl_unidentity B b = Some i \<longrightarrow>
        gl_identity G b = Some (hi_hub_id i, hi_public_key i, hi_root_key i))"

lemma read_file_at: "os_read_file F p h = Inr b \<Longrightarrow> \<exists>fl. file_at h (resolve h p) = Some fl \<and> fl_data fl = b"
  by (auto simp: os_read_file_def split: if_splits option.splits)

lemma read_hub_identity_file:
  assumes "read_hub_identity G F dir h = Inr (i, pub, key)"
  shows "\<exists>fl. file_at h (resolve h (path_join [dir, ''hub-identity.json''])) = Some fl
    \<and> gl_identity G (fl_data fl) = Some (i, pub, key)"
proof -
  obtain b where b: "os_read_file F (path_join [dir, ''hub-identity.json'']) h = Inr b"
    using assms unfolding read_hub_identity_def
    by (cases "os_read_file F (path_join [dir, ''hub-identity.json'']) h") (simp_all split: if_splits)
  have "gl_identity G b = Some (i, pub, key)"
    using assms unfolding read_hub_identity_def b by (simp split: if_splits option.splits prod.splits)
  then show ?thesis using read_file_at [OF b] by blast
qed

lemma load_identity_file:
  assumes "load_identity B F insecure p h = Inr i"
  shows "\<exists>fl. file_at h (resolve h p) = Some fl \<and> hl_unidentity B (fl_data fl) = Some i"
proof -
  obtain b where b: "os_read_file F p h = Inr b" "hl_unidentity B b = Some i"
    using assms by (auto simp: load_identity_def split: sum.splits if_splits option.splits)
  then show ?thesis using read_file_at [OF b(1)] by blast
qed

lemma mint_steps_minted:
  assumes "mint_steps S G e F t f h = (Inr out, h')"
  obtains i pub key g where
    "read_hub_identity G F (if mf_hub_data_dir f = [] then tp_hub_data_dir t else mf_hub_data_dir f) h
       = Inr (i, pub, key)"
    "flag_expiry e f = Inr (mg_expires out)" "flag_caveats (mg_expires out) f = Inr (mg_caveats out)"
    "mint S \<lparr>ms_root_key = key, ms_location = tp_url t, ms_identifier = cli_identifier G e f,
       ms_caveats = mg_caveats out\<rparr> = Inr g"
    "mg_macaroon out = b64_encode std_encoding (gt_macaroon g)" "mg_grant_id out = en_ulid e 0"
  using assms unfolding mint_steps_def
  by (auto simp: Let_def split: sum.splits prod.splits if_splits intro: that)

lemma flag_caveats_time: "flag_caveats t f = Inr cs \<Longrightarrow> hd cs = time_caveat t \<and> cs \<noteq> []"
  by (auto simp: flag_caveats_def split: sum.splits)


definition beside_hub :: grant_lib where
  "beside_hub = \<lparr>gl_identity = (\<lambda>b. map_option (\<lambda>i. (hi_hub_id i, hi_public_key i, hi_root_key i))
       (hl_unidentity sample_hub_lib b)), gl_keygen = (\<lambda>s. (s, s))\<rparr>"

definition reader_flags :: mint_flags where
  "reader_flags =
     \<lparr>mf_recipient = ''phone'', mf_primitive = ''vault'', mf_namespace = ''notes'', mf_operations = [''read''],
      mf_expires_in = 0, mf_expires_at = [], mf_rate = [], mf_max_amount = [], mf_only_domains = [],
      mf_requires_human = False, mf_nondelegatable = True, mf_caveats = [], mf_output = [],
      mf_hub_data_dir = ''/d''\<rparr>"

definition beside_sys :: sys where
  "beside_sys = sample_sys\<lparr>sy_root_key := hi_root_key my_hub_identity\<rparr>"

lemma beside_sys_laws: "mint_laws beside_sys"
  using sample_mint_laws by (simp add: mint_laws_def beside_sys_def)

lemma cli_host_identity:
  "load_identity sample_hub_lib no_faults False (path_join [''/d'', ''hub-identity.json'']) cli_host
     = Inr my_hub_identity"
proof -
  have p: "path_join [''/d'', ''hub-identity.json''] = ''/d/hub-identity.json''" by code_simp
  have f: "file_at cli_host [''d'', ''hub-identity.json'']
      = file_at hub_host [''d'', ''hub-identity.json'']" "dir_at cli_host = dir_at hub_host"
    by (simp_all add: cli_host_def hub_host_def file_at_def dir_at_def fun_eq_iff)
  then have eq: "os_stat no_faults ''/d/hub-identity.json'' cli_host = os_stat no_faults ''/d/hub-identity.json'' hub_host"
    "os_read_file no_faults ''/d/hub-identity.json'' cli_host = os_read_file no_faults ''/d/hub-identity.json'' hub_host"
    by (simp_all add: os_stat_def os_read_file_def)
  show ?thesis using hub_loads(3) unfolding p load_identity_def eq .
qed


section \<open>Flags that become caveats\<close>

definition plain_word :: "string \<Rightarrow> bool" where
  "plain_word w = (w \<noteq> [] \<and> (\<forall>c\<in>set w. \<not> is_space c \<and> c \<noteq> CHR '','' \<and> c \<noteq> CHR ''['' \<and> c \<noteq> CHR '']''))"

lemma trim_word: "\<forall>c\<in>set w. \<not> is_space c \<Longrightarrow> trim_space w = w"
  by (cases "w = []") (simp_all add: trim_space_trimmed trim_space_def [of "[]"])

lemma trim_around: "p \<noteq> [] \<Longrightarrow> \<not> is_space (hd p) \<Longrightarrow> w \<noteq> [] \<Longrightarrow> \<not> is_space (last w) \<Longrightarrow> trim_space (p @ w) = p @ w"
  by (intro trim_space_trimmed) simp_all

lemma digit_not_space: "is_digit c \<Longrightarrow> \<not> is_space c \<and> c \<noteq> CHR '' '' \<and> c \<noteq> CHR ''/''"
  by (auto simp: is_digit_def is_space_def char_code_def)

lemma split_per: "CHR '' '' \<notin> set n \<Longrightarrow> split_once '' per '' (n @ '' per '' @ w) = Some (n, w)"
  by (induction n) (auto simp: has_prefix_def)

lemma fields_pair:
  assumes "\<forall>c\<in>set a. \<not> is_space c" "\<forall>c\<in>set b. \<not> is_space c" "a \<noteq> []" "b \<noteq> []"
  shows "str_fields (a @ '' '' @ b) = [a, b]"
  using assms split_on_append [of a is_space "CHR '' ''" b] split_on_none [of b is_space]
  by (simp add: str_fields_def is_space_def [of "CHR '' ''"])

lemma split_joined_list:
  "\<forall>d\<in>set ds. CHR '','' \<notin> set d \<Longrightarrow> CHR '','' \<notin> set d \<Longrightarrow>
     split_char CHR '','' (join_with '', '' (d # ds)) = d # map ((#) CHR '' '') ds"
proof (induction ds arbitrary: d)
  case Nil
  then have "split_on (\<lambda>x. x = CHR '','') d = [d]" by (intro split_on_none) blast
  then show ?case by (simp add: split_char_def)
next
  case (Cons e es)
  have "split_char CHR '','' (join_with '', '' (d # e # es)) = split_char CHR '','' (d @ CHR '','' # CHR '' '' # join_with '', '' (e # es))"
    by simp
  also have "\<dots> = d # split_char CHR '','' (CHR '' '' # join_with '', '' (e # es))"
    using Cons.prems split_on_append [of d "\<lambda>x. x = CHR '',''" "CHR '',''"] unfolding split_char_def by fastforce
  also have "split_char CHR '','' (CHR '' '' # join_with '', '' (e # es))
      = (CHR '' '' # e) # map ((#) CHR '' '') es"
    using Cons.IH [of e] Cons.prems by (simp add: split_char_def)
  finally show ?case by simp
qed

lemma parse_list_of_words:
  assumes "\<forall>d\<in>set ds. plain_word d" "ds \<noteq> []"
  shows "parse_list_bracket (''['' @ join_with '', '' ds @ '']'') = ds"
proof -
  obtain d es where ds: "ds = d # es" using assms(2) by (cases ds) auto
  have w: "\<forall>c\<in>set e. \<not> is_space c \<and> c \<noteq> CHR '',''" "e \<noteq> []" if "e \<in> set ds" for e
    using assms(1) that by (auto simp: plain_word_def)
  have comma: "CHR '','' \<notin> set e" if "e \<in> set ds" for e using w(1) [OF that] by blast
  have sp: "trim_space (CHR '' '' # e) = trim_space e" for e by (simp add: trim_space_def is_space_def)
  have "trim_space (''['' @ join_with '', '' ds @ '']'') = ''['' @ join_with '', '' ds @ '']''"
    by (rule trim_around) (simp_all add: is_space_def)
  moreover have "trim_suffix '']'' (trim_prefix ''['' (''['' @ join_with '', '' ds @ '']'')) = join_with '', '' ds"
    by (simp add: trim_suffix_def trim_prefix_def has_prefix_def has_suffix_def)
  moreover have "split_char CHR '','' (join_with '', '' ds) = d # map ((#) CHR '' '') es"
    using comma unfolding ds by (intro split_joined_list) simp_all
  moreover have "map trim_space (d # map ((#) CHR '' '') es) = ds"
  proof -
    have "trim_space e = e" if "e \<in> set ds" for e using w(1) [OF that] by (intro trim_word) blast
    then show ?thesis unfolding ds by (simp add: sp map_idI)
  qed
  moreover have "filter (\<lambda>v. v \<noteq> []) ds = ds" using w(2) unfolding filter_id_conv by blast
  ultimately show ?thesis by (simp add: parse_list_bracket_def Let_def)
qed

text \<open>
  The flags of mint become the caveats that they name: a rate n/window, an amount with its
  currency and a list of domains, as the Hub parses them out of the macaroon.
\<close>

theorem mint_flags_are_understood:
  assumes "list_all is_digit n" "n \<noteq> []" "parse_positive_int n = Some k"
    and "(w, d) \<in> {(''second'', second), (''minute'', minute), (''hour'', hour), (''day'', day)}"
    and "plain_word cur" "\<not> is_digit (hd cur)"
    and "\<forall>dm\<in>set ds. plain_word dm" "ds \<noteq> []"
  shows "map_option (\<lambda>c. parse_caveat (trim_space c)) (caveat_from_rate_spec (n @ ''/'' @ w)) = Some (Rate k d)
    \<and> map_option (\<lambda>c. parse_caveat (trim_space c)) (caveat_from_amount_spec (n @ cur)) = Some (MaxAmount k cur)
    \<and> parse_caveat (trim_space (only_domain_caveat ds)) = OnlyDomains ds"
proof (intro conjI)
  have dn: "\<forall>c\<in>set n. \<not> is_space c" "CHR '' '' \<notin> set n" "CHR ''/'' \<notin> set n"
    using assms(1) digit_not_space unfolding list_all_iff by blast+
  have nw: "\<forall>c\<in>set w. \<not> is_space c" "w \<noteq> []" "parse_window w = Some d"
    using assms(4) by (auto simp: is_space_def parse_window_def trim_word Let_def)
  have cw: "\<forall>c\<in>set cur. \<not> is_space c" "cur \<noteq> []" using assms(5) by (auto simp: plain_word_def)
  show "map_option (\<lambda>c. parse_caveat (trim_space c)) (caveat_from_rate_spec (n @ ''/'' @ w)) = Some (Rate k d)"
  proof -
    have "trim_space (''rate <= '' @ n @ '' per '' @ w) = ''rate <= '' @ n @ '' per '' @ w"
      using nw by (intro trim_around) (simp_all add: is_space_def)
    moreover have "trim_space (n @ '' per '' @ w) = n @ '' per '' @ w"
      using nw dn(1) assms(2) by (intro trim_around) simp_all
    ultimately show ?thesis
      using split_once_first [OF dn(3), of w] split_per [OF dn(2), of w] nw(3) assms(3)
      by (simp add: caveat_from_rate_spec_def trim_word [OF dn(1)] trim_word [OF nw(1)] parse_caveat_def
          has_prefix_def body_of_def parse_rate_def)
  qed
  show "map_option (\<lambda>c. parse_caveat (trim_space c)) (caveat_from_amount_spec (n @ cur)) = Some (MaxAmount k cur)"
  proof -
    have "trim_space (n @ cur) = n @ cur" using dn(1) cw(1) by (intro trim_word) auto
    moreover have "takeWhile is_digit (n @ cur) = n" "dropWhile is_digit (n @ cur) = cur"
      using assms(1,6) cw(2) by (cases cur; simp add: list_all_iff takeWhile_append2 dropWhile_append2)+
    moreover have "trim_space (''max-amount <= '' @ n @ '' '' @ cur) = ''max-amount <= '' @ n @ '' '' @ cur"
      using cw by (intro trim_around) (simp_all add: is_space_def)
    moreover have "trim_space (n @ '' '' @ cur) = n @ '' '' @ cur"
      using cw dn(1) assms(2) by (intro trim_around) simp_all
    moreover have "\<exists>x\<in>set n \<union> set cur. \<not> is_digit x" using assms(6) cw(2) hd_in_set by blast
    ultimately show ?thesis
      using fields_pair [OF dn(1) cw(1) assms(2) cw(2)] assms(2,3) cw(2)
      by (simp add: caveat_from_amount_spec_def trim_word [OF cw(1)] parse_caveat_def
          has_prefix_def body_of_def parse_max_amount_def Let_def)
  qed
  have "trim_space (only_domain_caveat ds) = only_domain_caveat ds"
    unfolding only_domain_caveat_def by (intro trim_around) (simp_all add: is_space_def)
  then show "parse_caveat (trim_space (only_domain_caveat ds)) = OnlyDomains ds"
    using parse_list_of_words [OF assms(7,8)]
    by (simp add: only_domain_caveat_def parse_caveat_def has_prefix_def body_of_def)
qed

theorem mint_flags_are_understood_witness:
  "map_option (\<lambda>c. parse_caveat (trim_space c)) (caveat_from_rate_spec ''10/minute'') = Some (Rate 10 minute)"
proof -
  have "list_all is_digit ''10''" "parse_positive_int ''10'' = Some 10" "plain_word ''EUR''" "\<not> is_digit (hd ''EUR'')"
    "\<forall>dm\<in>set [''api.test'']. plain_word dm"
    by code_simp+
  then show ?thesis using mint_flags_are_understood [of "''10''" 10 "''minute''" minute "''EUR''" "[''api.test'']"] by simp
qed

end
