(* ===== verification/Local_Bridge.thy ===== *)
theory Local_Bridge
  imports Http_Request Local_Peers
begin

text \<open>
  The local bridge daemon (nakli-local-bridge/cmd/nakli-local-bridge/main.go) with the announcer and
  the observers of fabric-sdk-go/local/local.go: what it announces, whom its HTTP surface answers,
  and the list of peers it gives. The mDNS library is a parameter: \<open>ml_resolver\<close>,
  \<open>ml_register_proxy\<close> and \<open>ml_register\<close> say which of its calls succeed, and an entry it finds is
  handed to \<open>hear\<close>. A path that ServeMux would clean (one with empty, \<open>.\<close> or \<open>..\<close> elements) is
  redirected before any route is looked at; such paths are left out, as are the listener, signals
  and the lines of the verbose mode.
\<close>

section \<open>Announcing\<close>

record announce_spec =
  as_instance :: string
  as_port :: int
  as_txt :: "string list"
  as_host_name :: string
  as_ips :: "string list"

record mdns_lib =
  ml_resolver :: bool
  ml_register_proxy :: "announce_spec \<Rightarrow> bool"
  ml_register :: "string \<Rightarrow> int \<Rightarrow> string list \<Rightarrow> bool"

datatype announce_error = PortRequired | MdnsFailed

fun hex_number :: "nat \<Rightarrow> string" where
  "hex_number n =
     (if n < 16 then [''0123456789abcdef'' ! n]
      else hex_number (n div 16) @ [''0123456789abcdef'' ! (n mod 16)])"

text \<open>shortRand prints the low 24 bits of the clock.\<close>

definition short_rand :: "time \<Rightarrow> string" where
  "short_rand now = hex_number (nat (now mod 2 ^ 24))"

definition new_announcer :: "mdns_lib \<Rightarrow> time \<Rightarrow> announce_spec \<Rightarrow> announce_error + announce_spec" where
  "new_announcer M now sp =
     (if as_port sp \<le> 0 then Inl PortRequired
      else let sp1 = (if as_instance sp = [] then sp\<lparr>as_instance := ''nakli-'' @ short_rand now\<rparr> else sp)
           in if ml_register_proxy M sp1
                 \<or> as_host_name sp1 = [] \<and> ml_register M (as_instance sp1) (as_port sp1) (as_txt sp1)
              then Inr sp1 else Inl MdnsFailed)"

section \<open>Observers\<close>

text \<open>A buffered channel holds what was sent and not yet received; a full one drops what is sent.\<close>

record channel =
  ch_room :: nat
  ch_queue :: "(string \<rightharpoonup> peer) list"

record watched =
  wa_browser :: browser
  wa_observers :: "channel list"

definition offer :: "(string \<rightharpoonup> peer) \<Rightarrow> channel \<Rightarrow> channel" where
  "offer s c = (if length (ch_queue c) < ch_room c then c\<lparr>ch_queue := ch_queue c @ [s]\<rparr> else c)"

definition observe :: "channel \<Rightarrow> watched \<Rightarrow> watched" where
  "observe c w = w\<lparr>wa_observers := wa_observers w @ [c]\<rparr>"

text \<open>What the observers are sent holds stale peers too: only Peers evicts.\<close>

definition snapshot :: "browser \<Rightarrow> string \<rightharpoonup> peer" where
  "snapshot b = (\<lambda>tid. if tid = br_exclude b then None else br_peers b tid)"

definition hear :: "time \<Rightarrow> service_entry option \<Rightarrow> watched \<Rightarrow> watched" where
  "hear now en w =
     (case en of
        None \<Rightarrow> w
      | Some x \<Rightarrow>
          let b = absorb now x (wa_browser w)
          in \<lparr>wa_browser = b, wa_observers = map (offer (snapshot b)) (wa_observers w)\<rparr>)"

section \<open>Start-up\<close>

record bridge_flags =
  bf_listen :: string
  bf_announce :: bool
  bf_instance :: string
  bf_announce_port :: int
  bf_verbose :: bool
  bf_allow_origin :: string

definition default_allowed_origins :: "string list" where
  "default_allowed_origins = [''https://crate.naklios.dev'', ''https://naklios.dev'']"

definition allowed_origins :: "bridge_flags \<Rightarrow> string list" where
  "allowed_origins f =
     default_allowed_origins
       @ (if bf_allow_origin f = [] then []
          else filter (\<lambda>s. s \<noteq> []) (map trim_space (split_char CHR '','' (bf_allow_origin f))))"

definition bridge_announcement :: "bridge_flags \<Rightarrow> announce_spec" where
  "bridge_announcement f =
     \<lparr>as_instance = bf_instance f, as_port = bf_announce_port f,
      as_txt = [''version=naklimesh/1.0'', ''transport_id=bridge-'' @ bf_instance f,
        ''capabilities=discovery'', ''url=http://'' @ bf_listen f],
      as_host_name = [], as_ips = []\<rparr>"

record bridge_daemon =
  bd_flags :: bridge_flags
  bd_announcing :: bool
  bd_watched :: watched

text \<open>\<open>None\<close> is exit code 1; a failing announcement is printed and the daemon goes on.\<close>

definition start_bridge :: "mdns_lib \<Rightarrow> time \<Rightarrow> bridge_flags \<Rightarrow> bridge_daemon option" where
  "start_bridge M now f =
     (if \<not> ml_resolver M then None
      else let announcing = (bf_announce f
                 \<and> (case new_announcer M now (bridge_announcement f) of Inl _ \<Rightarrow> False | Inr _ \<Rightarrow> True));
               b = (if announcing then set_exclude (''bridge-'' @ bf_instance f) new_browser else new_browser);
               w = \<lparr>wa_browser = b, wa_observers = []\<rparr>
           in Some \<lparr>bd_flags = f, bd_announcing = announcing,
                bd_watched = (if bf_verbose f then observe \<lparr>ch_room = 8, ch_queue = []\<rparr> w else w)\<rparr>)"

section \<open>The HTTP surface\<close>

record local_request =
  lr_method :: string
  lr_path :: string
  lr_origin :: string

datatype local_body = NoBody | HealthBody bool string int | PeersBody "string \<rightharpoonup> peer"
  | NotImplementedBody string | PlainText string

record local_response =
  ls_status :: int
  ls_headers :: url_values
  ls_body :: local_body

definition origin_allowed :: "string \<Rightarrow> string list \<Rightarrow> bool" where
  "origin_allowed origin allowed =
     (case parse_web origin of
        None \<Rightarrow> False
      | Some u \<Rightarrow> hostname u = ''localhost'' \<or> hostname u = ''127.0.0.1'' \<or> origin \<in> set allowed)"

definition write_json :: "int \<Rightarrow> local_body \<Rightarrow> url_values \<Rightarrow> local_response" where
  "write_json st b hs =
     \<lparr>ls_status = st, ls_headers = hs @ [(''content-type'', [''application/json''])], ls_body = b\<rparr>"

text \<open>What ServeMux answers by itself: a method that no route of the path takes, a path without one.\<close>

definition mux_error :: "int \<Rightarrow> string \<Rightarrow> url_values \<Rightarrow> local_response" where
  "mux_error st txt hs =
     \<lparr>ls_status = st, ls_headers = hs @ [(''content-type'', [''text/plain; charset=utf-8'']),
        (''x-content-type-options'', [''nosniff''])],
      ls_body = PlainText (txt @ [CHR 0x0A])\<rparr>"

definition em_dash :: bytes where
  "em_dash = [CHR 0xE2, CHR 0x80, CHR 0x94]"

definition local_health :: "bridge_daemon \<Rightarrow> url_values \<Rightarrow> local_response" where
  "local_health d hs =
     write_json 200 (HealthBody (bd_announcing d) (bf_instance (bd_flags d)) (bf_announce_port (bd_flags d))) hs"

definition local_peers ::
  "time \<Rightarrow> bridge_daemon \<Rightarrow> url_values \<Rightarrow> local_response \<times> bridge_daemon" where
  "local_peers now d hs =
     (case browser_peers now (wa_browser (bd_watched d)) of
        (ps, b) \<Rightarrow> (write_json 200 (PeersBody ps) hs,
                    d\<lparr>bd_watched := (bd_watched d)\<lparr>wa_browser := b\<rparr>\<rparr>))"

text \<open>A GET route of ServeMux takes HEAD too; of the answer to HEAD the server sends no body.\<close>

definition local_mux ::
  "time \<Rightarrow> local_request \<Rightarrow> bridge_daemon \<Rightarrow> url_values \<Rightarrow> local_response \<times> bridge_daemon" where
  "local_mux now r d hs =
     (if lr_path r = ''/local/health'' then
        (if lr_method r \<in> {''GET'', ''HEAD''} then (local_health d hs, d)
         else (mux_error 405 ''Method Not Allowed'' (hs @ [(''allow'', [''GET, HEAD''])]), d))
      else if lr_path r = ''/local/peers'' then
        (if lr_method r \<in> {''GET'', ''HEAD''} then local_peers now d hs
         else (mux_error 405 ''Method Not Allowed'' (hs @ [(''allow'', [''GET, HEAD''])]), d))
      else if lr_path r = ''/local/signal'' then
        (if lr_method r = ''POST''
         then (write_json 501 (NotImplementedBody (''M7.x '' @ em_dash @ '' WebRTC signaling relay'')) hs, d)
         else (mux_error 405 ''Method Not Allowed'' (hs @ [(''allow'', [''POST''])]), d))
      else if lr_path r = ''/local/peers/observe'' then
        (write_json 501 (NotImplementedBody (''M7.x '' @ em_dash @ '' WebSocket peer-list streaming'')) hs, d)
      else (mux_error 404 ''404 page not found'' hs, d))"

definition serve_local ::
  "time \<Rightarrow> local_request \<Rightarrow> bridge_daemon \<Rightarrow> local_response \<times> bridge_daemon" where
  "serve_local now r d =
     (let o1 = (if lr_origin r \<noteq> [] \<and> origin_allowed (lr_origin r) (allowed_origins (bd_flags d))
                then [(''access-control-allow-origin'', [lr_origin r]), (''vary'', [''Origin''])] else []);
          hs = o1 @ [(''access-control-allow-methods'', [''GET, POST, OPTIONS'']),
            (''access-control-allow-headers'', [''Content-Type''])]
      in if lr_method r = ''OPTIONS'' then (\<lparr>ls_status = 204, ls_headers = hs, ls_body = NoBody\<rparr>, d)
         else local_mux now r d hs)"

section \<open>A run of the daemon\<close>

datatype local_event = Heard "service_entry option" | Asked local_request

fun local_step :: "time \<times> local_event \<Rightarrow> bridge_daemon \<Rightarrow> bridge_daemon" where
  "local_step (now, Heard en) d = d\<lparr>bd_watched := hear now en (bd_watched d)\<rparr>"
| "local_step (now, Asked r) d = snd (serve_local now r d)"

fun local_run :: "(time \<times> local_event) list \<Rightarrow> bridge_daemon \<Rightarrow> bridge_daemon" where
  "local_run [] d = d"
| "local_run (x # xs) d = local_run xs (local_step x d)"

lemma local_run_append [simp]: "local_run (xs @ ys) d = local_run ys (local_run xs d)"
  by (induction xs arbitrary: d) simp_all

lemma local_peers_parts:
  "fst (local_peers now d hs) = write_json 200 (PeersBody (fst (browser_peers now (wa_browser (bd_watched d))))) hs"
  "bd_flags (snd (local_peers now d hs)) = bd_flags d"
  "wa_browser (bd_watched (snd (local_peers now d hs))) = snd (browser_peers now (wa_browser (bd_watched d)))"
  by (simp_all add: local_peers_def split: prod.split)

lemma local_mux_cases: "snd (local_mux now r d hs) = d \<or> local_mux now r d hs = local_peers now d hs"
  unfolding local_mux_def by (split if_split)+ (simp_all only: snd_conv simp_thms)

lemma serve_local_cases: "snd (serve_local now r d) = d \<or> (\<exists>hs. serve_local now r d = local_peers now d hs)"
proof (cases "lr_method r = ''OPTIONS''")
  case False
  then obtain hs where "serve_local now r d = local_mux now r d hs" by (simp add: serve_local_def Let_def)
  then show ?thesis using local_mux_cases [of now r d hs] by auto
qed (simp add: serve_local_def Let_def)

lemma local_step_flags [simp]: "bd_flags (local_step x d) = bd_flags d"
proof (cases x)
  case (Pair now ev)
  show ?thesis
  proof (cases ev)
    case (Asked r)
    then show ?thesis
      using serve_local_cases [of now r d] local_peers_parts(2) by (simp add: Pair) metis
  qed (simp add: Pair)
qed

lemma local_run_flags [simp]: "bd_flags (local_run xs d) = bd_flags d"
  by (induction xs arbitrary: d) simp_all

lemma hear_browser:
  "wa_browser (hear now (Some en) w) = absorb now en (wa_browser w)" "hear now None w = w"
  by (simp_all add: hear_def Let_def)

end
