(* ===== verification/Local_Guarantees.thy ===== *)
theory Local_Guarantees
  imports Local_Bridge
begin

text \<open>
  The guarantees of the local bridge daemon: which pages read its answers, and which peers it lists.
\<close>

section \<open>Pages\<close>

text \<open>
  What a browser lets the script of a page read of an answer to a cross-origin request, by the
  origin of the page.
\<close>

definition page_reads :: "string \<Rightarrow> local_response \<Rightarrow> (int \<times> local_body) option" where
  "page_reads origin r =
     (if get_header ''access-control-allow-origin'' (ls_headers r) \<in> {origin, ''*''}
      then Some (ls_status r, ls_body r) else None)"

lemma cut_none: "x \<notin> set a \<Longrightarrow> cut [x] a = (a, [])"
  using cut_append [of x a "[]"] by (simp add: cut_def)

lemma scan_letters:
  "list_all is_letter ls \<Longrightarrow> acc @ ls \<noteq> []
     \<Longrightarrow> scan_scheme whole acc (ls @ CHR '':'' # cs) = Some (to_lower (acc @ ls), cs)"
proof (induction ls arbitrary: acc)
  case Nil
  have "\<not> is_letter CHR '':''" "\<not> is_digit CHR '':''" by code_simp+
  with Nil show ?case by simp
qed simp

lemma unescape_host_id: "list_all (\<lambda>c. host_char c \<and> c \<noteq> CHR ''%'') h \<Longrightarrow> unescape_host h = Some h"
  by (induction h) auto

lemma letter_char: "is_letter c \<Longrightarrow> 32 \<le> char_code c \<and> char_code c \<noteq> 127 \<and> c \<notin> set ''#?''"
proof -
  assume c: "is_letter c"
  have "\<forall>d\<in>set ''#?''. \<not> is_letter d" by (simp add: is_letter_def char_code_def)
  then show ?thesis using c by (auto simp: is_letter_def Let_def)
qed

lemma digit_char: "is_digit c \<Longrightarrow> is_alpha_num c"
  by (auto simp: is_digit_def is_alpha_num_def Let_def)

text \<open>The host of an origin: a scheme, a plain host, and perhaps a port.\<close>

definition origin_port :: "string \<Rightarrow> bool" where
  "origin_port p = (p = [] \<or> hd p = CHR '':'' \<and> list_all is_digit (tl p))"

lemma plain_char:
  assumes "is_alpha_num c \<or> c \<in> set ''-.''"
  shows "host_char c" "c \<noteq> CHR ''%''" "c \<noteq> CHR '':''" "c \<noteq> CHR ''[''" "c \<noteq> CHR ''/''" "c \<noteq> CHR ''@''"
    "c \<notin> set ''#?''" "32 \<le> char_code c \<and> char_code c \<noteq> 127"
proof -
  have "set ''#?'' \<subseteq> set ''%/?#@:[''" "CHR ''%'' \<in> set ''%/?#@:[''" "CHR '':'' \<in> set ''%/?#@:[''"
    "CHR ''['' \<in> set ''%/?#@:[''" "CHR ''/'' \<in> set ''%/?#@:[''" "CHR ''@'' \<in> set ''%/?#@:[''"
    by simp_all
  then show "host_char c" "c \<noteq> CHR ''%''" "c \<noteq> CHR '':''" "c \<noteq> CHR ''[''" "c \<noteq> CHR ''/''" "c \<noteq> CHR ''@''"
    "c \<notin> set ''#?''" "32 \<le> char_code c \<and> char_code c \<noteq> 127"
    using plain_host_char [OF assms] by blast+
qed

lemma last_colon:
  assumes "CHR '':'' \<notin> set ds"
  shows "before_last CHR '':'' (h @ CHR '':'' # ds) = h" "after_last CHR '':'' (h @ CHR '':'' # ds) = ds"
proof -
  have n: "\<And>c. c \<in> set (rev ds) \<Longrightarrow> c \<noteq> CHR '':''" using assms by auto
  have "dropWhile (\<lambda>x. x \<noteq> CHR '':'') (rev ds @ CHR '':'' # rev h) = CHR '':'' # rev h"
    using dropWhile_append2 [of "rev ds" "\<lambda>x. x \<noteq> CHR '':''"] n by simp
  then show "before_last CHR '':'' (h @ CHR '':'' # ds) = h" by (simp add: before_last_def)
  have "takeWhile (\<lambda>x. x \<noteq> CHR '':'') (rev ds @ CHR '':'' # rev h) = rev ds"
    using takeWhile_append2 [of "rev ds" "\<lambda>x. x \<noteq> CHR '':''"] n by simp
  then show "after_last CHR '':'' (h @ CHR '':'' # ds) = ds" by (simp add: after_last_def)
qed

lemma parse_host_port:
  assumes "plain_host h" and "origin_port p"
  shows "parse_host (h @ p) = Some (h @ p)"
    and "wu_host u = h @ p \<Longrightarrow> hostname u = h"
    and "c \<in> set (h @ p) \<Longrightarrow> c \<noteq> CHR ''/'' \<and> c \<noteq> CHR ''@'' \<and> c \<notin> set ''#?''
      \<and> 32 \<le> char_code c \<and> char_code c \<noteq> 127"
proof -
  have c: "\<And>c. c \<in> set h \<Longrightarrow> is_alpha_num c \<or> c \<in> set ''-.''"
    using assms(1) unfolding plain_host_def list_all_iff by blast
  have d: "\<And>c. c \<in> set (tl p) \<Longrightarrow> is_alpha_num c \<or> c \<in> set ''-.''"
    using assms(2) digit_char by (auto simp: origin_port_def list_all_iff)
  have ne: "h \<noteq> []" using assms(1) by (simp add: plain_host_def)
  have h: "CHR '':'' \<notin> set h" "CHR '':'' \<notin> set (tl p)" using c d plain_char(3) by blast+
  have "hd h \<noteq> CHR ''[''" using c [of "hd h"] ne plain_char(4) by simp
  then have b: "\<not> has_prefix ''['' (h @ s)" for s using ne by (cases h) (simp_all add: has_prefix_def)
  have p: "p = [] \<or> p = CHR '':'' # tl p" "list_all is_digit (tl p)"
    using assms(2) by (cases p; simp add: origin_port_def)+
  have colon: "host_char CHR '':''" "CHR '':'' \<noteq> CHR ''/'' \<and> CHR '':'' \<noteq> CHR ''@'' \<and> CHR '':'' \<notin> set ''#?''
      \<and> 32 \<le> char_code CHR '':'' \<and> char_code CHR '':'' \<noteq> 127"
    by (simp_all add: host_char_def char_code_def)
  have all: "x \<in> set h \<or> x = CHR '':'' \<or> x \<in> set (tl p)" if "x \<in> set (h @ p)" for x
    using p(1) that by (cases p) auto
  have "list_all (\<lambda>c. host_char c \<and> c \<noteq> CHR ''%'') (h @ p)"
    unfolding list_all_iff
  proof
    fix x assume "x \<in> set (h @ p)"
    then consider "x = CHR '':''" | "is_alpha_num x \<or> x \<in> set ''-.''" using all c d by blast
    then show "host_char x \<and> x \<noteq> CHR ''%''" using plain_char(1,2) colon(1) by cases (simp, blast)
  qed
  then have u: "unescape_host (h @ p) = Some (h @ p)" by (rule unescape_host_id)
  have nb: "\<not> has_prefix ''['' h" using b [of "[]"] by simp
  show "parse_host (h @ p) = Some (h @ p)"
  proof (cases p)
    case Nil
    then show ?thesis using u nb h(1) by (simp add: parse_host_def)
  next
    case (Cons a ds)
    then have a: "p = CHR '':'' # ds" "CHR '':'' \<notin> set ds" "list_all is_digit ds" using p h(2) by auto
    then have u': "unescape_host (h @ CHR '':'' # ds) = Some (h @ CHR '':'' # ds)" using u by simp
    show ?thesis unfolding a(1) parse_host_def last_colon [OF a(2)] using b a(3) h(1) u' by simp
  qed
  show "hostname u = h" if w: "wu_host u = h @ p"
  proof (cases p)
    case Nil
    then show ?thesis using w nb h(1) by (simp add: hostname_def)
  next
    case (Cons a ds)
    then have a: "p = CHR '':'' # ds" "CHR '':'' \<notin> set ds" "list_all is_digit ds" using p h(2) by auto
    have w': "wu_host u = h @ CHR '':'' # ds" using w a(1) by simp
    show ?thesis unfolding hostname_def Let_def w' last_colon [OF a(2)] using nb a(3) by simp
  qed
  show "c \<noteq> CHR ''/'' \<and> c \<noteq> CHR ''@'' \<and> c \<notin> set ''#?'' \<and> 32 \<le> char_code c \<and> char_code c \<noteq> 127"
    if m: "c \<in> set (h @ p)"
  proof -
    consider "c = CHR '':''" | "is_alpha_num c \<or> c \<in> set ''-.''" using all [OF m] c d by blast
    then show ?thesis using plain_char(5-8) colon(2) by cases (blast, blast)
  qed
qed

lemma origin_host:
  assumes "list_all is_letter sch" and "sch \<noteq> []" and "plain_host h" and "origin_port p"
  shows "\<exists>u. parse_web (sch @ ''://'' @ h @ p) = Some u \<and> hostname u = h"
proof -
  let ?a = "h @ p" and ?o = "sch @ ''://'' @ h @ p"
  have s: "c \<notin> set ''#?'' \<and> 32 \<le> char_code c \<and> char_code c \<noteq> 127" if m: "c \<in> set ?o" for c
  proof -
    have "c \<in> set sch \<or> c \<in> set ''://'' \<or> c \<in> set ?a" using m by auto
    moreover have "\<forall>c\<in>set ''://''. c \<notin> set ''#?'' \<and> 32 \<le> char_code c \<and> char_code c \<noteq> 127"
      by (simp add: char_code_def)
    ultimately show ?thesis
      using letter_char [of c] assms(1) parse_host_port(3) [OF assms(3,4), of c] unfolding list_all_iff by blast
  qed
  have n1: "CHR ''#'' \<notin> set ?o" "CHR ''?'' \<notin> set ?o"
    by (rule notI, drule s, simp)+
  have n2: "CHR ''?'' \<notin> set (''//'' @ ?a)" using n1(2) by simp
  have n3: "CHR ''/'' \<notin> set ?a" "CHR ''@'' \<notin> set ?a" using parse_host_port(3) [OF assms(3,4)] by blast+
  note n = n1(1) n2 n3
  have ctl: "\<not> list_ex (\<lambda>c. char_code c < 32 \<or> char_code c = 127) ?o"
    using s unfolding list_ex_iff by (meson linorder_not_less)
  have g: "get_scheme ?o = Some (to_lower sch, ''//'' @ ?a)"
    using scan_letters [OF assms(1), of "[]" ?o "''//'' @ ?a"] assms(2) by (simp add: get_scheme_def)
  have "split_authority ?a = (?a, [])" using n(3) by (auto simp: split_authority_def)
  then have "parse_rest (to_lower sch) (''//'' @ ?a) [] = with_path (to_lower sch) ?a [] []"
    using assms(2) n(4) parse_host_port(1) [OF assms(3,4)]
    by (simp add: parse_rest_def has_prefix_def parse_authority_def to_lower_def)
  then have "parse_web ?o = with_path (to_lower sch) ?a [] []"
    unfolding parse_web_def cut_none [OF n(1)] cut_none [OF n(2)] prod.case g option.case
    using ctl by simp
  then show ?thesis using parse_host_port(2) [OF assms(3,4)] by (simp add: with_path_def)
qed

lemma local_answer_headers:
  "get_header ''access-control-allow-origin'' (ls_headers (fst (serve_local now r d)))
     = (if lr_origin r \<noteq> [] \<and> origin_allowed (lr_origin r) (allowed_origins (bd_flags d)) then lr_origin r else [])"
proof -
  have m: "\<exists>ys. ls_headers (fst (local_mux now r d hs)) = hs @ ys
      \<and> map_of ys ''access-control-allow-origin'' = None" for hs
    unfolding local_mux_def
    by (split if_split)+ (simp add: local_peers_parts local_health_def write_json_def mux_error_def)
  define o1 where "o1 = (if lr_origin r \<noteq> [] \<and> origin_allowed (lr_origin r) (allowed_origins (bd_flags d))
    then [(''access-control-allow-origin'', [lr_origin r]), (''vary'', [''Origin''])] else [])"
  define hs where "hs = o1 @ [(''access-control-allow-methods'', [''GET, POST, OPTIONS'']),
    (''access-control-allow-headers'', [''Content-Type''])]"
  have "\<exists>ys. ls_headers (fst (serve_local now r d)) = hs @ ys \<and> map_of ys ''access-control-allow-origin'' = None"
    using m [of hs] by (simp add: serve_local_def Let_def flip: o1_def hs_def)
  then obtain ys where ys: "ls_headers (fst (serve_local now r d)) = hs @ ys"
    "map_of ys ''access-control-allow-origin'' = None" by blast
  show ?thesis unfolding get_header_def ys(1) hs_def o1_def by (simp add: map_add_def ys(2))
qed

text \<open>
  C21: Of the answers of the bridge a page of another origin reads those, and only those, that it is
  allowed to: its host is the local machine by name or address, whatever the scheme and port, or its
  origin is in the list of the program or of the flag, letter for letter. This holds after any run,
  for every path and every method, preflights included.
\<close>

theorem only_allowed_pages_read_the_bridge:
  assumes "start_bridge M t0 f = Some d0"
    and "list_all is_letter sch" and "sch \<noteq> []" and "plain_host h" and "origin_port p"
    and "lr_origin r = sch @ ''://'' @ h @ p"
  shows "(\<exists>x. page_reads (lr_origin r) (fst (serve_local now r (local_run evs d0))) = Some x)
    \<longleftrightarrow> h = ''localhost'' \<or> h = ''127.0.0.1'' \<or> lr_origin r \<in> set (allowed_origins f)"
proof -
  have "bd_flags d0 = f" using assms(1) by (auto simp: start_bridge_def Let_def split: if_splits)
  then have "get_header ''access-control-allow-origin'' (ls_headers (fst (serve_local now r (local_run evs d0))))
      = (if origin_allowed (lr_origin r) (allowed_origins f) then lr_origin r else [])"
    using assms(3,6) by (simp add: local_answer_headers)
  moreover have "origin_allowed (lr_origin r) (allowed_origins f)
      \<longleftrightarrow> h = ''localhost'' \<or> h = ''127.0.0.1'' \<or> lr_origin r \<in> set (allowed_origins f)"
    using origin_host [OF assms(2,3,4,5)] unfolding origin_allowed_def assms(6) [symmetric] by auto
  ultimately show ?thesis using assms(3,6) by (simp add: page_reads_def)
qed

definition sample_flags :: bridge_flags where
  "sample_flags = \<lparr>bf_listen = ''127.0.0.1:7849'', bf_announce = True, bf_instance = ''laptop'',
     bf_announce_port = 7849, bf_verbose = True, bf_allow_origin = '' https://me.test ,''\<rparr>"

definition sample_mdns :: mdns_lib where
  "sample_mdns = \<lparr>ml_resolver = True, ml_register_proxy = (\<lambda>_. False), ml_register = (\<lambda>_ _ _. True)\<rparr>"

definition sample_bridge :: bridge_daemon where
  "sample_bridge = \<lparr>bd_flags = sample_flags, bd_announcing = True,
     bd_watched = \<lparr>wa_browser = set_exclude ''bridge-laptop'' new_browser,
       wa_observers = [\<lparr>ch_room = 8, ch_queue = []\<rparr>]\<rparr>\<rparr>"

lemma sample_bridge_starts: "start_bridge sample_mdns 0 sample_flags = Some sample_bridge"
  by (simp add: start_bridge_def sample_mdns_def sample_flags_def sample_bridge_def new_announcer_def
      bridge_announcement_def observe_def Let_def)

lemma sample_origins:
  "allowed_origins sample_flags = [''https://crate.naklios.dev'', ''https://naklios.dev'', ''https://me.test'']"
  by code_simp

definition peers_request :: "string \<Rightarrow> local_request" where
  "peers_request o1 = \<lparr>lr_method = ''GET'', lr_path = ''/local/peers'', lr_origin = o1\<rparr>"

definition phone :: service_entry where
  "phone = \<lparr>en_host = ''phone.local.'', en_port = 7842,
     en_text = [''transport_id=phone'', ''url=http://10.0.0.7:7842'', ''capabilities=vault,sync''], en_ipv4 = []\<rparr>"

definition sample_run :: "(time \<times> local_event) list" where
  "sample_run =
     [(second, Heard (Some phone)), (2 * second, Asked (peers_request [])),
      (100 * second, Heard (Some (phone\<lparr>en_text := [''transport_id=bridge-laptop'']\<rparr>)))]"

theorem only_allowed_pages_read_the_bridge_witness:
  "page_reads ''https://localhost.evil.test'' (fst (serve_local 7 (peers_request ''https://localhost.evil.test'')
     (local_run sample_run sample_bridge))) = None
   \<and> (\<exists>x. page_reads ''http://localhost:5173'' (fst (serve_local 7 (peers_request ''http://localhost:5173'')
     (local_run sample_run sample_bridge))) = Some x)
   \<and> (\<exists>x. page_reads ''https://me.test'' (fst (serve_local 7 (peers_request ''https://me.test'')
     (local_run sample_run sample_bridge))) = Some x)"
proof -
  have l: "list_all is_letter ''https''" "list_all is_letter ''http''" "plain_host ''localhost.evil.test''"
    "plain_host ''localhost''" "plain_host ''me.test''" "origin_port '':5173''" "origin_port []"
    by code_simp+
  have ne: "''https'' \<noteq> []" "''http'' \<noteq> []" by simp_all
  have o1: "lr_origin (peers_request x) = x" for x by (simp add: peers_request_def)
  note R = only_allowed_pages_read_the_bridge [OF sample_bridge_starts, where now = 7 and evs = sample_run,
      unfolded sample_origins]
  have "\<not> (\<exists>x. page_reads ''https://localhost.evil.test''
      (fst (serve_local 7 (peers_request ''https://localhost.evil.test'') (local_run sample_run sample_bridge))) = Some x)"
    using R [OF l(1) ne(1) l(3,7), of "peers_request ''https://localhost.evil.test''"] by (simp add: o1)
  moreover have "\<exists>x. page_reads ''http://localhost:5173''
      (fst (serve_local 7 (peers_request ''http://localhost:5173'') (local_run sample_run sample_bridge))) = Some x"
    using R [OF l(2) ne(2) l(4,6), of "peers_request ''http://localhost:5173''"] by (simp add: o1)
  moreover have "\<exists>x. page_reads ''https://me.test''
      (fst (serve_local 7 (peers_request ''https://me.test'') (local_run sample_run sample_bridge))) = Some x"
    using R [OF l(1) ne(1) l(5,7), of "peers_request ''https://me.test''"] by (simp add: o1)
  ultimately show ?thesis by (meson not_None_eq)
qed

section \<open>The list of peers\<close>

definition last_heard :: "string \<Rightarrow> (time \<times> local_event) list \<Rightarrow> (time \<times> local_event) option" where
  "last_heard tid evs =
     List.find (\<lambda>(t, ev). case ev of Heard (Some en) \<Rightarrow> pe_transport_id (entry_peer t en) = tid | _ \<Rightarrow> False)
       (rev evs)"

text \<open>The table and the announcements it comes from: what is not in it was not heard, or evicted.\<close>

definition table_of :: "(time \<times> local_event) list \<Rightarrow> browser \<Rightarrow> bool" where
  "table_of evs b =
     (\<forall>tid. case br_peers b tid of
        None \<Rightarrow> (\<forall>t ev. last_heard tid evs = Some (t, ev) \<longrightarrow> (\<exists>x\<in>set evs. 180 * second < fst x - t))
      | Some p \<Rightarrow> \<exists>t en. last_heard tid evs = Some (t, Heard (Some en)) \<and> pe_last_seen p = t
          \<and> pe_transport_id p = tid \<and> pe_url p = pe_url (entry_peer t en)
          \<and> pe_capabilities p = pe_capabilities (entry_peer t en) \<and> pe_version p = pe_version (entry_peer t en))"

lemma last_heard_snoc:
  "last_heard tid (evs @ [(t, Asked r)]) = last_heard tid evs"
  "last_heard tid (evs @ [(t, Heard None)]) = last_heard tid evs"
  "last_heard tid (evs @ [(t, Heard (Some en))])
     = (if pe_transport_id (entry_peer t en) = tid then Some (t, Heard (Some en)) else last_heard tid evs)"
  by (simp_all add: last_heard_def)

lemma table_absorb:
  assumes "table_of evs b"
  shows "table_of (evs @ [(t, Heard (Some en))]) (absorb t en b)"
  unfolding table_of_def
proof
  fix tid
  let ?q = "entry_peer t en"
  have a: "case br_peers b tid of
        None \<Rightarrow> (\<forall>t ev. last_heard tid evs = Some (t, ev) \<longrightarrow> (\<exists>x\<in>set evs. 180 * second < fst x - t))
      | Some p \<Rightarrow> \<exists>t en. last_heard tid evs = Some (t, Heard (Some en)) \<and> pe_last_seen p = t
          \<and> pe_transport_id p = tid \<and> pe_url p = pe_url (entry_peer t en)
          \<and> pe_capabilities p = pe_capabilities (entry_peer t en) \<and> pe_version p = pe_version (entry_peer t en)"
    using assms unfolding table_of_def by blast
  show "case br_peers (absorb t en b) tid of
        None \<Rightarrow> (\<forall>t' ev. last_heard tid (evs @ [(t, Heard (Some en))]) = Some (t', ev)
          \<longrightarrow> (\<exists>x\<in>set (evs @ [(t, Heard (Some en))]). 180 * second < fst x - t'))
      | Some p \<Rightarrow> \<exists>t' en'. last_heard tid (evs @ [(t, Heard (Some en))]) = Some (t', Heard (Some en'))
          \<and> pe_last_seen p = t'
          \<and> pe_transport_id p = tid \<and> pe_url p = pe_url (entry_peer t' en')
          \<and> pe_capabilities p = pe_capabilities (entry_peer t' en') \<and> pe_version p = pe_version (entry_peer t' en')"
  proof (cases "pe_transport_id ?q = tid")
    case False
    then show ?thesis using a by (auto simp: absorb_def Let_def last_heard_snoc split: option.splits)
  next
    case True
    then show ?thesis
      using a entry_peer_times [of t en]
      by (auto simp: absorb_def Let_def last_heard_snoc split: option.splits)
  qed
qed

lemma table_peers:
  assumes "table_of evs b" and "br_stale_after b = 180 * second"
  shows "table_of (evs @ [(t, Asked r)]) (snd (browser_peers t b))"
  using assms unfolding table_of_def
  by (fastforce simp: browser_peers_def Let_def last_heard_snoc stale_def split: option.splits if_splits)

lemma table_unchanged:
  assumes "table_of evs b" and "\<And>tid. last_heard tid (evs @ [x]) = last_heard tid evs"
  shows "table_of (evs @ [x]) b"
  using assms unfolding table_of_def by (fastforce split: option.splits)

lemma serve_table:
  assumes "table_of evs (wa_browser (bd_watched d))" and "br_stale_after (wa_browser (bd_watched d)) = 180 * second"
  shows "table_of (evs @ [(t, Asked r)]) (wa_browser (bd_watched (snd (serve_local t r d))))"
  using serve_local_cases [of t r d] table_peers [OF assms] table_unchanged [OF assms(1)] last_heard_snoc(1)
  by (metis local_peers_parts(3))

lemma local_step_settings:
  "br_stale_after (wa_browser (bd_watched (local_step x d))) = br_stale_after (wa_browser (bd_watched d))
   \<and> br_exclude (wa_browser (bd_watched (local_step x d))) = br_exclude (wa_browser (bd_watched d))"
proof (cases x)
  case (Pair t ev)
  show ?thesis
  proof (cases ev)
    case (Heard en)
    then show ?thesis by (cases en) (simp_all add: Pair hear_browser absorb_def Let_def)
  next
    case (Asked r)
    have "br_stale_after (snd (browser_peers t b)) = br_stale_after b
      \<and> br_exclude (snd (browser_peers t b)) = br_exclude b" for b
      by (simp add: browser_peers_def Let_def)
    then show ?thesis using serve_local_cases [of t r d] local_peers_parts(3) by (simp add: Pair Asked) metis
  qed
qed

lemma local_run_settings:
  "br_stale_after (wa_browser (bd_watched (local_run evs d))) = br_stale_after (wa_browser (bd_watched d))
   \<and> br_exclude (wa_browser (bd_watched (local_run evs d))) = br_exclude (wa_browser (bd_watched d))"
  by (induction evs arbitrary: d) (simp_all add: local_step_settings)

lemma run_table:
  assumes "table_of [] (wa_browser (bd_watched d))" and "br_stale_after (wa_browser (bd_watched d)) = 180 * second"
  shows "table_of evs (wa_browser (bd_watched (local_run evs d)))"
proof (induction evs rule: rev_induct)
  case (snoc x evs)
  obtain t ev where x: "x = (t, ev)" by fastforce
  have s: "br_stale_after (wa_browser (bd_watched (local_run evs d))) = 180 * second"
    using assms(2) local_run_settings by simp
  show ?case
  proof (cases ev)
    case (Heard en)
    then show ?thesis
      using table_absorb [OF snoc] table_unchanged [OF snoc] last_heard_snoc(2)
      by (cases en) (simp_all add: x hear_browser)
  next
    case (Asked r)
    then show ?thesis using serve_table [OF snoc s] by (simp add: x)
  qed
qed (use assms in simp)

lemma find_found: "List.find P xs = Some x \<Longrightarrow> x \<in> set xs \<and> P x"
  by (induction xs) (auto split: if_splits)

lemma last_heard_named: "last_heard [] evs \<noteq> Some (t, ev)"
proof
  assume "last_heard [] evs = Some (t, ev)"
  then have "case ev of Heard (Some en) \<Rightarrow> pe_transport_id (entry_peer t en) = [] | _ \<Rightarrow> False"
    unfolding last_heard_def using find_found by fastforce
  then show False using entry_peer_named by (simp split: local_event.splits option.splits)
qed

text \<open>
  C22: A request for the peers is answered with exactly the peers whose last announcement is at most
  180 seconds old, except the bridge's own; each entry stands under its transport id and has the
  time of that announcement and its address, capabilities and version. This holds after any run of
  announcements and requests, whatever the requests before it evicted.
\<close>

theorem listed_peers_are_the_recently_announced:
  assumes "start_bridge M t0 f = Some d0" and "\<forall>x\<in>set evs. fst x \<le> now"
    and "lr_method r = ''GET''" and "lr_path r = ''/local/peers''"
  shows "\<exists>ps. ls_status (fst (serve_local now r (local_run evs d0))) = 200
    \<and> ls_body (fst (serve_local now r (local_run evs d0))) = PeersBody ps
    \<and> (\<forall>tid. ps tid \<noteq> None \<longleftrightarrow>
          \<not> (bd_announcing d0 \<and> tid = ''bridge-'' @ bf_instance f)
          \<and> (\<exists>t ev. last_heard tid evs = Some (t, ev) \<and> now - t \<le> 180 * second))
    \<and> (\<forall>tid p. ps tid = Some p \<longrightarrow>
          (\<exists>t en. last_heard tid evs = Some (t, Heard (Some en)) \<and> pe_transport_id p = tid
            \<and> pe_last_seen p = t \<and> pe_url p = pe_url (entry_peer t en)
            \<and> pe_capabilities p = pe_capabilities (entry_peer t en)
            \<and> pe_version p = pe_version (entry_peer t en)))"
proof -
  let ?b = "wa_browser (bd_watched (local_run evs d0))"
  let ?ps = "fst (browser_peers now ?b)"
  have d0: "br_stale_after (wa_browser (bd_watched d0)) = 180 * second"
    "br_exclude (wa_browser (bd_watched d0)) = (if bd_announcing d0 then ''bridge-'' @ bf_instance f else [])"
    "br_peers (wa_browser (bd_watched d0)) = (\<lambda>_. None)"
    using assms(1) by (auto simp: start_bridge_def Let_def observe_def set_exclude_def new_browser_def
        split: if_splits)
  have T: "table_of evs ?b" by (rule run_table) (simp_all add: d0 table_of_def last_heard_def)
  have s: "br_stale_after ?b = 180 * second"
    "br_exclude ?b = (if bd_announcing d0 then ''bridge-'' @ bf_instance f else [])"
    using d0 local_run_settings by simp_all
  obtain hs where hs: "serve_local now r (local_run evs d0) = local_peers now (local_run evs d0) hs"
    using assms(3,4) by (simp add: serve_local_def local_mux_def Let_def)
  have in_ps: "?ps tid = Some p \<longleftrightarrow> tid \<noteq> br_exclude ?b \<and> br_peers ?b tid = Some p
      \<and> now - pe_last_seen p \<le> 180 * second" for tid p
    using s(1) by (auto simp: browser_peers_def Let_def stale_def split: option.splits)
  have entry: "\<exists>t en. last_heard tid evs = Some (t, Heard (Some en)) \<and> pe_transport_id p = tid
      \<and> pe_last_seen p = t \<and> pe_url p = pe_url (entry_peer t en)
      \<and> pe_capabilities p = pe_capabilities (entry_peer t en) \<and> pe_version p = pe_version (entry_peer t en)"
    if "br_peers ?b tid = Some p" for tid p
    using T that unfolding table_of_def by (force split: option.splits)
  have gone: "180 * second < now - t" if m: "br_peers ?b tid = None" "last_heard tid evs = Some (t, ev)" for tid t ev
  proof -
    have "case br_peers ?b tid of None \<Rightarrow> (\<forall>t ev. last_heard tid evs = Some (t, ev)
        \<longrightarrow> (\<exists>x\<in>set evs. 180 * second < fst x - t)) | Some _ \<Rightarrow> True"
      using T unfolding table_of_def by (metis (no_types, lifting) option.case_eq_if)
    then obtain x where "x \<in> set evs" "180 * second < fst x - t" using m by auto
    then show ?thesis using assms(2) by fastforce
  qed
  have dom: "?ps tid \<noteq> None \<longleftrightarrow> \<not> (bd_announcing d0 \<and> tid = ''bridge-'' @ bf_instance f)
      \<and> (\<exists>t ev. last_heard tid evs = Some (t, ev) \<and> now - t \<le> 180 * second)" for tid
  proof (cases "br_peers ?b tid")
    case None
    then have "?ps tid = None" using in_ps [of tid] by (cases "?ps tid") auto
    moreover have "\<nexists>t ev. last_heard tid evs = Some (t, ev) \<and> now - t \<le> 180 * second"
      using gone [OF None] by (meson linorder_not_le)
    ultimately show ?thesis by blast
  next
    case (Some p)
    obtain t en where e: "last_heard tid evs = Some (t, Heard (Some en))" "pe_last_seen p = t"
      using entry [OF Some] by blast
    then have "tid \<noteq> []" using last_heard_named by metis
    have "?ps tid \<noteq> None \<longleftrightarrow> tid \<noteq> br_exclude ?b \<and> now - t \<le> 180 * second"
      using in_ps [of tid] Some e(2) by auto
    also have "tid \<noteq> br_exclude ?b \<longleftrightarrow> \<not> (bd_announcing d0 \<and> tid = ''bridge-'' @ bf_instance f)"
      using s(2) \<open>tid \<noteq> []\<close> by simp
    finally show ?thesis using e(1) by simp
  qed
  show ?thesis
    by (rule exI [of _ ?ps]) (use dom in_ps entry in \<open>simp add: hs local_peers_parts write_json_def\<close>)
qed

theorem listed_peers_are_the_recently_announced_witness:
  "\<exists>ps. ls_body (fst (serve_local (181 * second) (peers_request []) (local_run sample_run sample_bridge))) = PeersBody ps
     \<and> ps ''phone'' \<noteq> None \<and> ps ''bridge-laptop'' = None"
proof -
  have t: "\<forall>x\<in>set sample_run. fst x \<le> 181 * second" by (simp add: sample_run_def second_def)
  have l: "last_heard ''phone'' sample_run = Some (second, Heard (Some phone))"
    "bd_announcing sample_bridge" "bf_instance sample_flags = ''laptop''" "''phone'' \<noteq> ''bridge-'' @ ''laptop''"
    "181 * second - second \<le> 180 * second" "''bridge-'' @ ''laptop'' = ''bridge-laptop''"
    apply code_simp+ done
  have r: "lr_method (peers_request []) = ''GET''" "lr_path (peers_request []) = ''/local/peers''"
    by (simp_all add: peers_request_def)
  obtain ps where b: "ls_body (fst (serve_local (181 * second) (peers_request []) (local_run sample_run sample_bridge)))
      = PeersBody ps"
    and p: "\<forall>tid. ps tid \<noteq> None \<longleftrightarrow> \<not> (bd_announcing sample_bridge \<and> tid = ''bridge-'' @ bf_instance sample_flags)
      \<and> (\<exists>t ev. last_heard tid sample_run = Some (t, ev) \<and> 181 * second - t \<le> 180 * second)"
    using listed_peers_are_the_recently_announced [OF sample_bridge_starts t r]
    by (elim exE conjE) (rule that; assumption)
  have "ps ''phone'' \<noteq> None" using p [rule_format, of "''phone''"] l(1,3,4,5) by auto
  moreover have "ps ''bridge-laptop'' = None" using p [rule_format, of "''bridge-laptop''"] l(2,3,6) by auto
  ultimately show ?thesis using b by blast
qed

section \<open>What refreshing leaves\<close>

text \<open>
  A peer that is announced again keeps the host, port, principal, device and Hub of the first
  announcement.
\<close>

theorem refreshed_peer_keeps_its_first_identity:
  assumes "br_peers b tid = Some p" and "br_peers (absorb now en b) tid = Some p'"
  shows "pe_host p' = pe_host p \<and> pe_port p' = pe_port p \<and> pe_principal_id p' = pe_principal_id p
    \<and> pe_device_id p' = pe_device_id p \<and> pe_hub_id p' = pe_hub_id p"
  using assms by (auto simp: absorb_def Let_def split: if_splits)

text \<open>No observer's channel is ever over its room.\<close>

lemma observers_are_bounded:
  "\<forall>c\<in>set (wa_observers w). length (ch_queue c) \<le> ch_room c
     \<Longrightarrow> \<forall>c\<in>set (wa_observers (hear now en w)). length (ch_queue c) \<le> ch_room c"
  by (auto simp: hear_def offer_def Let_def split: option.splits)

end
