(* ===== verification/Peer_Probes.thy ===== *)
theory Peer_Probes
  imports Hub Bridge_Adapters
begin

text \<open>
  The probes behind the health of a Hub (nakli-hub/internal/server/runtime.go): which of the
  configured peers answer. The HTTP client and the TCP dial are parameters, as they are at the time
  of the probe; \<open>dials\<close> says whether a connection to a bare \<open>host:port\<close> comes about.
\<close>

definition probe_request :: "string \<Rightarrow> http_req" where
  "probe_request u = \<lparr>hq_method = ''GET'', hq_url = u, hq_headers = [], hq_body = []\<rparr>"

definition probe_peer_once :: "net \<Rightarrow> (string \<Rightarrow> bool) \<Rightarrow> string \<Rightarrow> bool" where
  "probe_peer_once N dials raw =
     (let p = trim_space raw
      in if p = [] then False
         else if has_prefix ''http://'' p \<or> has_prefix ''https://'' p
         then let u = trim_right_slashes p @ ''/fabric/v1/health''
              in if parse_web u = None then False
                 else (case N (probe_request u) of None \<Rightarrow> False | Some resp \<Rightarrow> hp_status resp < 500)
         else dials p)"

fun probe_all :: "net \<Rightarrow> (string \<Rightarrow> bool) \<Rightarrow> string list \<Rightarrow> string list \<times> string list" where
  "probe_all N dials [] = ([], [])"
| "probe_all N dials (u # us) =
     (case probe_all N dials us of
        (up, down) \<Rightarrow> if probe_peer_once N dials u then (u # up, down) else (up, u # down))"

definition peer_reachability :: "net \<Rightarrow> (string \<Rightarrow> bool) \<Rightarrow> string list \<Rightarrow> string list \<times> string list" where
  "peer_reachability N dials peers = (if peers = [] then ([], []) else probe_all N dials peers)"

text \<open>The health of a Hub with these peers configured.\<close>

definition probed_health ::
  "sys \<Rightarrow> env \<Rightarrow> net \<Rightarrow> (string \<Rightarrow> bool) \<Rightarrow> string list \<Rightarrow> hub \<Rightarrow> health_data reply \<times> hub" where
  "probed_health S e N dials peers h =
     (case peer_reachability N dials peers of (up, down) \<Rightarrow> handle_health S e up down h)"

lemma peer_reachability_filters:
  "peer_reachability N dials peers
     = (filter (probe_peer_once N dials) peers, filter (\<lambda>u. \<not> probe_peer_once N dials u) peers)"
proof -
  have "probe_all N dials us
      = (filter (probe_peer_once N dials) us, filter (\<lambda>u. \<not> probe_peer_once N dials u) us)" for us
    by (induction us) simp_all
  then show ?thesis by (simp add: peer_reachability_def)
qed

text \<open>
  A Hub reports itself degraded exactly if a configured peer does not answer, names every such peer
  among its reasons, and lists every configured peer once for each time it is configured.
\<close>

theorem degraded_names_the_silent_peers:
  assumes "probed_health S e N dials peers h = (Reply st d, h')"
  shows "hd_degraded d = (\<exists>u\<in>set peers. \<not> probe_peer_once N dials u)"
    and "hd_reasons d = map (\<lambda>u. ''peer unreachable: '' @ u) (filter (\<lambda>u. \<not> probe_peer_once N dials u) peers)"
    and "mset (map fst (hd_peer_health d)) = mset peers"
    and "\<forall>(u, up)\<in>set (hd_peer_health d). up = probe_peer_once N dials u"
proof -
  have f: "hd_degraded d = (filter (\<lambda>u. \<not> probe_peer_once N dials u) peers \<noteq> [])"
    "hd_reasons d = map (\<lambda>u. ''peer unreachable: '' @ u) (filter (\<lambda>u. \<not> probe_peer_once N dials u) peers)"
    "hd_peer_health d = map (\<lambda>u. (u, True)) (filter (probe_peer_once N dials) peers)
       @ map (\<lambda>u. (u, False)) (filter (\<lambda>u. \<not> probe_peer_once N dials u) peers)"
    using assms by (auto simp: probed_health_def peer_reachability_filters handle_health_def split: sum.splits)
  show "hd_degraded d = (\<exists>u\<in>set peers. \<not> probe_peer_once N dials u)"
    unfolding f(1) by (simp add: filter_empty_conv)
  show "hd_reasons d = map (\<lambda>u. ''peer unreachable: '' @ u) (filter (\<lambda>u. \<not> probe_peer_once N dials u) peers)"
    by (rule f(2))
  show "mset (map fst (hd_peer_health d)) = mset peers"
    unfolding f(3) by (simp add: comp_def)
  show "\<forall>(u, up)\<in>set (hd_peer_health d). up = probe_peer_once N dials u"
    unfolding f(3) by auto
qed

end
