(* ===== verification/Spec2Isabelle.thy ===== *)
theory Spec2Isabelle
  imports Store_Guarantees Grant_Guarantees Mint_Guarantees Service_Guarantees
    Bridge_Guarantees Identity_Guarantees Backup_Commands Cli_Guarantees Local_Guarantees Peer_Probes
begin

text \<open>
  A verification of the private-mesh Hub (nakli-hub), of the parts of the Go SDK (fabric-sdk-go) that it
  is built from, of the files that the Hub and the command line keep, and of the command line (nakli-cli).

  \<^bold>\<open>The program.\<close> A Hub is a small HTTP server with a SQLite database and a directory of
  ciphertext files. Clients append encrypted events to streams, read them back in pages, replicate
  them between Hubs, mint and revoke grants (macaroons with caveats), pair devices and daemons by
  single-use tokens, call bridge adapters and reach cloud buckets through a proxy that signs
  requests. Every request runs under a logging middleware, most under an authentication middleware,
  and some under an idempotency middleware.

  \<^bold>\<open>The theories, from the bottom.\<close>

  \<^item> \<open>Mesh_Prelude\<close>: result values (\<open>error + 'a\<close>), tables as lists of rows with lookup, conditional
    update and append, the hint collections, decimal numerals, hexadecimal.
  \<^item> \<open>Go_Time\<close>, \<open>Go_Path\<close>, \<open>Go_Base64\<close>, \<open>Go_Url\<close>: what the code uses of Go's time, filepath,
    encoding/base64 and net/url, at the level of characters; \<open>parseTimestamp\<close>, \<open>tryBase64\<close>.
  \<^item> \<open>Single_Use\<close>: the interface of a table row that can be consumed once; it is interpreted in
    \<open>Store_Tokens\<close> on crate tokens and on device pairings.
  \<^item> \<open>Store_Schema\<close>: the database (storage/schema.go) as the record \<open>store\<close> with one row type per
    table, and the blob files as a map from paths.
  \<^item> \<open>Store_Events\<close>, \<open>Store_History\<close>, \<open>Store_Sync\<close>, \<open>Store_Idempotency\<close>, \<open>Store_Grants\<close>,
    \<open>Store_Tokens\<close>, \<open>Store_Buckets\<close>: the operations of internal/storage, one theory per Go file or
    group of files, with the sealing of bucket credentials (internal/crate/keys.go, crypto).
  \<^item> \<open>Token_Races\<close>: concurrent redemptions, cancellations and pairings as interleaved statements.
  \<^item> \<open>Rate_Limit\<close>, \<open>Caveats\<close>: the token bucket (server/runtime.go) and the caveat language
    (server/caveats.go) with an abstract semantics.
  \<^item> \<open>Grants\<close>, \<open>Auth\<close>: the macaroon wrapper (fabric-sdk-go/grant), the middlewares
    (server/middleware.go) and the scope check (server/scope.go).
  \<^item> \<open>Store_Steps\<close>: the database statements that requests run, as a step relation, with the
    invariants every step keeps.
  \<^item> \<open>Vault_Handlers\<close>, \<open>Grant_Handlers\<close>, \<open>Pairing_Handlers\<close>, \<open>Sync_Handlers\<close>, \<open>Bridge_Registry\<close>,
    \<open>Bridge_Handlers\<close>, \<open>SigV4\<close>, \<open>Bucket_Handlers\<close>, \<open>Local_Peers\<close>: the handlers of
    internal/server, the adapter registry (fabric-sdk-go/bridge), AWS request signing
    (internal/crate/sigv4.go) and the peer browser (fabric-sdk-go/local).
  \<^item> \<open>Hub\<close>: the routing table \<open>serve\<close> with the middlewares of each endpoint, the histories of
    requests \<open>hub_step\<close> and the states they reach, \<open>reachable\<close>.
  \<^item> \<open>Sample_Hub\<close>: concrete instances of everything that is a parameter, used by the witnesses.
  \<^item> \<open>Time_Order\<close>: how the text of timestamps orders.
  \<^item> \<open>Access\<close>: the permission that every endpoint of the routing table demands, and what a request
    has shown when it was let through.
  \<^item> \<open>Store_Guarantees\<close>, \<open>Grant_Guarantees\<close>, \<open>Mint_Guarantees\<close>, \<open>Service_Guarantees\<close>: the properties.

  \<^item> \<open>Go_Query\<close>, \<open>Http_Request\<close>: query strings, url.Parse and the requests and responses of net/http.
  \<^item> \<open>Bridge_Adapters\<close>, \<open>R2_Adapter\<close>: the adapters (fabric-sdk-go/bridge/adapters) with the requests
    they build, the signing and the XML reader of cloudflarer2, and the registry of the Hub's binary.
  \<^item> \<open>Adapter_Guarantees\<close>, \<open>Bridge_Guarantees\<close>: where the requests of the adapters go.

  \<^item> \<open>Host_Files\<close>: the files and directories of a machine and the calls of package os on them, any of
    which may fail.
  \<^item> \<open>Identity_Files\<close>, \<open>Identity_Store\<close>: the encrypted identity file (fabric-sdk-go/identity) and how
    the command line keeps it (nakli-cli/internal/fifio).
  \<^item> \<open>Hub_Files\<close>, \<open>Backup\<close>, \<open>Hub_Command\<close>: configuration and identity of a Hub (internal/config,
    internal/hubid), archives of a Hub (internal/backup), and the commands init, serve up to the
    listener, backup and restore (cmd/nakli-hub).
  \<^item> \<open>Backup_Guarantees\<close>, \<open>Backup_Roundtrip\<close>, \<open>Backup_Commands\<close>, \<open>Identity_Guarantees\<close>: the properties of
    these files, applied to the machine of \<open>Sample_Files\<close>.

  \<^item> \<open>Cli_Config\<close>: the configuration of the command line (nakli-cli/internal/config) and the commands
    transport, identity and init (internal/cmd), with the viper library as a parameter.
  \<^item> \<open>Cli_Grant\<close>: grants minted beside a Hub from its identity file, and their inspection
    (internal/cmd/grant.go).
  \<^item> \<open>Cli_Client\<close>: the client of a Hub (internal/httpc) and the commands vault, status and ping.
  \<^item> \<open>Cli_Guarantees\<close>: the properties of the command line, on a machine that has one.

  \<^item> \<open>Local_Bridge\<close>, \<open>Local_Guarantees\<close>: the local bridge daemon (nakli-local-bridge) with the announcer
    and the observers of fabric-sdk-go/local: who reads its answers, and which peers it lists.
  \<^item> \<open>Peer_Probes\<close>: the probes behind the health of a Hub (server/runtime.go).

  \<^bold>\<open>What is shown.\<close> Of storage: every reachable Hub is consistent, reads and replication are complete
  and in order, the event log only grows, history chains verify exactly if every row chains, a
  repeated request is replayed within its retention, a single-use token has one winner however the
  statements interleave. Of access: nothing is done or told without a grant whose scope and caveats
  permit it, revocation is final, delegation narrows, caveats are decided by their meaning, rates
  limit; what a minted grant and a crate capability permit exactly. Of services: a bridge call stays
  within its grant and reaches no host but the one it was judged by or its adapter stands for, an adapter
  answers the operations that its catalogue names and no others, a bucket's credentials come back and
  only for their bucket, a list query carries exactly the client's parameters, the rounds of a
  subscription deliver each event once. Of files: a
  saved identity is the old or the new one whatever fails, a restored backup is the Hub that was backed
  up, a restore stays below its directory. Of the command line: a grant that it mints permits at its Hub
  exactly what the flags say, the flags become the caveats that the Hub reads in them, a transport that
  was added is the one its tag selects. Of the local bridge: only allowed pages read its answers, and it
  lists exactly the peers that announced themselves within three minutes. Where the code
  does not do what it means to, a property states what it does: the discharge macaroon that permits
  everything, the delegation that widens, the stream of revocations that never verifies, approvals
  that are never used, subscriptions that are never served, the log that names nobody, the R2 account id and the
  webhook without a host that take a call past its caveat, two rates that
  switch each other off, the pairing that admits two devices, the push that replaces a ciphertext.

  \<^bold>\<open>How state and effects are modelled.\<close> A handler is a function from the process's constants
  (\<open>sys\<close>), the request's environment (\<open>env\<close>: the clock, fresh identifiers, random bytes and which
  database calls fail), the middleware's context (\<open>rctx\<close>) and the decoded request to a reply and the
  new \<open>hub\<close>. The \<open>hub\<close> record holds the \<open>store\<close> and the in-memory tables (rate buckets, discharge
  cache). Errors are values: a storage operation returns \<open>error + 'a\<close>, a handler \<open>Failure\<close> with the
  HTTP status, code and retry flag. A request reads the clock once. Texts that SQLite compares are
  compared as texts.

  \<^bold>\<open>Parameters.\<close> The macaroon library, the AEAD, SHA-256 and HMAC, JSON rendering of structures and
  upstream services are parameters; what the properties rely on is named: \<open>mint_laws\<close> (a minted
  macaroon parses to its identifier and caveats and verifies), \<open>unforgeable\<close> (only issued macaroons
  verify), \<open>aead_laws\<close> (opening a sealed text with the same key, nonce and associated data gives it
  back). \<open>Sample_Hub\<close> shows that each can hold.

  \<^bold>\<open>Termination and fuel.\<close> Handlers are total functions. The paging loops of clients are run with
  fuel, and the completeness theorems state that one page per event (plus one) is enough.

  \<^bold>\<open>Not modelled.\<close> Of the command line the parsing of flags and the printed texts; the
  conformance suite, the JSON of the answer envelope, the services behind
  the bridge adapters, redirects and the metrics of a call, JSON numbers with a fraction as parameters
  of adapters, the listeners and signals of the daemons, the eviction of the bounded in-memory tables, what tar, gzip,
  Argon2id and SQLite compute (they are parameters with named laws), the mDNS library, the heartbeats
  of vault/subscribe, the QR payload of a pairing, and the human texts of error messages.
\<close>

end
